(* ===== verification/Prelude.thy ===== *)
theory Prelude
  imports Main "HOL-Library.Word" "HOL-Library.Monad_Syntax"
begin

section \<open>Shared types, automation and lemmas\<close>

text \<open>
  The vocabulary the component theories share: the machine types of the i386 build
  (\<^verbatim>\<open>include/type.h\<close>: \<open>unsigned long\<close> and pointers are 32 bits wide), the null
  pointer, the collections of simplification rules the components fill, and lemmas
  on lists and words that more than one component needs.

  Conventions of the whole development:
  \<^item> a pointer is an \<open>addr\<close>; the loader maps physical memory from address 0
    on (\<^verbatim>\<open>boot/loader.asm\<close>, SetupPaging), so an access through \<open>NULL\<close> is an
    access to cell 0 and not a trap; the heaps are total functions for this reason;
  \<^item> a struct that code reaches through pointers is one function per field (the heap
    is split by field); structs embedded in other structs share the address of their
    container plus the field's offset;
  \<^item> an operation takes the state and returns the new one; \<open>None\<close> as the result of an
    operation is a run the C code has no defined result for: an access outside an
    array, a panic, or a loop that does not end (each definition says which).
\<close>

unbundle bit_operations_syntax

type_synonym u8 = "8 word"
type_synonym u16 = "16 word"
type_synonym u32 = "32 word"
type_synonym addr = "32 word"

abbreviation NULL :: addr where
  "NULL \<equiv> 0"

named_theorems heap_simps "what the field updates of a heap do to its fields"
named_theorems frame_rules "an operation leaves a structure it does not touch as it is"

subsection \<open>Lists\<close>

lemma last_notin_butlast: "distinct xs \<Longrightarrow> xs \<noteq> [] \<Longrightarrow> last xs \<notin> set (butlast xs)"
  by (induction xs) (auto dest: in_set_butlastD split: if_splits)

lemma hd_notin_tl: "distinct xs \<Longrightarrow> xs \<noteq> [] \<Longrightarrow> hd xs \<notin> set (tl xs)"
  by (cases xs) auto

lemma last_in_insert: "last (h # xs) \<in> set (h # xs)"
  by (metis last_in_set list.discI)

lemma hd_snoc_in: "hd (ys @ [q]) \<in> set (ys @ [q])"
  by (metis append_is_Nil_conv hd_in_set list.discI)

lemma in_set_tlD: "a \<in> set (tl xs) \<Longrightarrow> a \<in> set xs"
  by (cases xs) auto

subsection \<open>Words\<close>

lemma bit_0xff [simp]: "bit (0xff :: int) n \<longleftrightarrow> n < 8"
proof -
  have "(0xff :: int) = mask 8" by (simp add: mask_eq_exp_minus_1)
  then show ?thesis by (simp only: bit_mask_iff) auto
qed

lemma unat_pow2_u32: "n < 32 \<Longrightarrow> unat (2 ^ n :: u32) = 2 ^ n"
proof -
  assume "n < 32"
  then have "(2 :: nat) ^ n mod 2 ^ 32 = 2 ^ n"
    by (intro mod_less power_strict_increasing) auto
  then show ?thesis
    using unat_of_nat [of "2 ^ n", where 'a = 32] by simp
qed

lemma unat_add1_less: "(x :: u32) < y \<Longrightarrow> unat (x + 1) = unat x + 1"
proof -
  assume "x < y"
  then have "unat x + 1 < 2 ^ 32"
    using unsigned_less [of y, where 'a = nat] by (simp add: word_less_nat_alt)
  then show ?thesis by (simp add: unat_word_ariths)
qed

lemma unat_sub1: "(x :: u32) \<noteq> 0 \<Longrightarrow> unat (x - 1) = unat x - 1"
  by (simp add: unat_minus_one)

lemma addr_offset_eq:
  "i < 2 ^ 32 \<Longrightarrow> j < 2 ^ 32 \<Longrightarrow> (p :: addr) + of_nat i = p + of_nat j \<longleftrightarrow> i = j"
  by (simp add: word_of_nat_eq_iff take_bit_nat_eq_self)

lemma addr_offset_neq: "0 < i \<Longrightarrow> i < 2 ^ 32 \<Longrightarrow> (p :: addr) + of_nat i \<noteq> p"
  using addr_offset_eq [of i 0 p] by simp

lemma unat_offset: "unat p + i < 2 ^ 32 \<Longrightarrow> unat ((p :: addr) + of_nat i) = unat p + i"
  by (simp add: unat_word_ariths take_bit_nat_eq_self unat_of_nat)

end
