(* ===== verification/Klist.thy ===== *)
theory Klist
  imports Prelude
begin

section \<open>Intrusive doubly linked lists (lib/list.c)\<close>

text \<open>
  A \<^verbatim>\<open>struct list_head\<close> is two pointers; a list is a ring through a head that holds no
  element. The heap is the two fields as functions of the node's address, and the
  operations are polymorphic in the record's extension, so the components whose
  structs embed a \<^verbatim>\<open>list_head\<close> extend the record and call them as they are.
\<close>

record list_heap =
  l_next :: "addr \<Rightarrow> addr"
  l_prev :: "addr \<Rightarrow> addr"

definition set_next :: "addr \<Rightarrow> addr \<Rightarrow> 'a list_heap_scheme \<Rightarrow> 'a list_heap_scheme" where
  "set_next p q s = s\<lparr>l_next := (l_next s)(p := q)\<rparr>"

definition set_prev :: "addr \<Rightarrow> addr \<Rightarrow> 'a list_heap_scheme \<Rightarrow> 'a list_heap_scheme" where
  "set_prev p q s = s\<lparr>l_prev := (l_prev s)(p := q)\<rparr>"

definition LIST_POISON1 :: addr where
  "LIST_POISON1 = 0x00100100"

definition LIST_POISON2 :: addr where
  "LIST_POISON2 = 0x00200200"

subsection \<open>Operations\<close>

definition INIT_LIST_HEAD :: "addr \<Rightarrow> 'a list_heap_scheme \<Rightarrow> 'a list_heap_scheme" where
  "INIT_LIST_HEAD l s = set_prev l l (set_next l l s)"

definition raw_list_add ::
  "addr \<Rightarrow> addr \<Rightarrow> addr \<Rightarrow> 'a list_heap_scheme \<Rightarrow> 'a list_heap_scheme" where
  "raw_list_add item prev nxt s =
     (let s = set_prev nxt item s;
          s = set_next item nxt s;
          s = set_prev item prev s
      in set_next prev item s)"

definition list_add_tail :: "addr \<Rightarrow> addr \<Rightarrow> 'a list_heap_scheme \<Rightarrow> 'a list_heap_scheme" where
  "list_add_tail item head s =
     (if item \<noteq> NULL then raw_list_add item head (l_next s head) s else s)"

definition list_add_head :: "addr \<Rightarrow> addr \<Rightarrow> 'a list_heap_scheme \<Rightarrow> 'a list_heap_scheme" where
  "list_add_head item head s =
     (if item \<noteq> NULL then raw_list_add item (l_prev s head) head s else s)"

text \<open>\<^verbatim>\<open>#define list_add list_add_head\<close>\<close>

abbreviation list_add :: "addr \<Rightarrow> addr \<Rightarrow> 'a list_heap_scheme \<Rightarrow> 'a list_heap_scheme" where
  "list_add \<equiv> list_add_head"

definition raw_list_del :: "addr \<Rightarrow> addr \<Rightarrow> 'a list_heap_scheme \<Rightarrow> 'a list_heap_scheme" where
  "raw_list_del prev nxt s =
     (let s = (if nxt \<noteq> NULL then set_prev nxt prev s else s)
      in if prev \<noteq> NULL then set_next prev nxt s else s)"

definition list_del :: "addr \<Rightarrow> 'a list_heap_scheme \<Rightarrow> 'a list_heap_scheme" where
  "list_del entry s =
     (let s = raw_list_del (l_prev s entry) (l_next s entry) s;
          s = set_next entry LIST_POISON1 s
      in set_prev entry LIST_POISON2 s)"

definition list_del_init :: "addr \<Rightarrow> 'a list_heap_scheme \<Rightarrow> 'a list_heap_scheme" where
  "list_del_init entry s =
     INIT_LIST_HEAD entry (raw_list_del (l_prev s entry) (l_next s entry) s)"

definition list_empty :: "addr \<Rightarrow> 'a list_heap_scheme \<Rightarrow> bool" where
  "list_empty head s \<longleftrightarrow> l_next s head = head \<or> l_prev s head = head"

definition list_empty_careful :: "addr \<Rightarrow> 'a list_heap_scheme \<Rightarrow> bool" where
  "list_empty_careful head s \<longleftrightarrow> l_next s head = head \<and> l_prev s head = head"

text \<open>
  The output parameter \<^verbatim>\<open>struct list_head **entry\<close> is the pair of whether the pointer
  is given (\<open>None\<close>: it is NULL) and what it points to; the result carries its new
  content.
\<close>

definition list_get_head ::
  "addr \<Rightarrow> addr option \<Rightarrow> 'a list_heap_scheme \<Rightarrow> int \<times> addr option" where
  "list_get_head head entry s =
     (if head = NULL \<or> entry = None then (-1, entry)
      else if l_next s head \<noteq> head then (0, Some (l_next s head))
      else (-2, entry))"

definition list_get_tail ::
  "addr \<Rightarrow> addr option \<Rightarrow> 'a list_heap_scheme \<Rightarrow> int \<times> addr option" where
  "list_get_tail head entry s =
     (if head = NULL \<or> entry = None then (-1, entry)
      else if l_prev s head \<noteq> head then (0, Some (l_prev s head))
      else (-2, entry))"

definition list_get_head_del ::
  "addr \<Rightarrow> addr option \<Rightarrow> 'a list_heap_scheme \<Rightarrow> (int \<times> addr option) \<times> 'a list_heap_scheme" where
  "list_get_head_del head entry s =
     (case list_get_head head entry s of
        (r, e) \<Rightarrow>
          if r = 0 \<and> the e \<noteq> NULL then ((0, e), list_del (the e) s) else ((-2, e), s))"

text \<open>
  \<^verbatim>\<open>list_get_tail_del\<close> tests the result of \<^verbatim>\<open>list_get_tail\<close> without \<open>== 0\<close>, so its
  body runs exactly when \<^verbatim>\<open>list_get_tail\<close> failed, on whatever \<^verbatim>\<open>*entry\<close> held before.
  A NULL \<^verbatim>\<open>entry\<close> is dereferenced there: \<open>None\<close>.
\<close>

definition list_get_tail_del ::
  "addr \<Rightarrow> addr option \<Rightarrow> 'a list_heap_scheme \<Rightarrow>
   ((int \<times> addr option) \<times> 'a list_heap_scheme) option" where
  "list_get_tail_del head entry s =
     (case list_get_tail head entry s of
        (r, e) \<Rightarrow>
          if r \<noteq> 0 then
            (case e of
               None \<Rightarrow> None
             | Some p \<Rightarrow> if p \<noteq> NULL then Some ((0, e), list_del p s) else Some ((-2, e), s))
          else Some ((-2, e), s))"

text \<open>\<^verbatim>\<open>#define list_get list_get_tail\<close> and \<^verbatim>\<open>#define list_get_del list_get_head_del\<close>\<close>

abbreviation list_get ::
  "addr \<Rightarrow> addr option \<Rightarrow> 'a list_heap_scheme \<Rightarrow> int \<times> addr option" where
  "list_get \<equiv> list_get_tail"

abbreviation list_get_del ::
  "addr \<Rightarrow> addr option \<Rightarrow> 'a list_heap_scheme \<Rightarrow> (int \<times> addr option) \<times> 'a list_heap_scheme" where
  "list_get_del \<equiv> list_get_head_del"

text \<open>
  The loop of \<^verbatim>\<open>list_for_each_safe(pos, n, head) ++num;\<close>: it need not end on a heap
  that is not a ring through \<^verbatim>\<open>head\<close>, and \<open>None\<close> is that it does not.
\<close>

partial_function (option) list_num_loop ::
  "'a list_heap_scheme \<Rightarrow> addr \<Rightarrow> addr \<Rightarrow> addr \<Rightarrow> int \<Rightarrow> int option" where
  "list_num_loop s head pos n num =
     (if pos \<noteq> head then list_num_loop s head n (l_next s n) (num + 1) else Some num)"

definition list_num :: "addr \<Rightarrow> 'a list_heap_scheme \<Rightarrow> int option" where
  "list_num head s = list_num_loop s head (l_next s head) (l_next s (l_next s head)) 0"


subsection \<open>Segments and rings\<close>

text \<open>
  \<open>lseg s p xs q\<close>: from \<open>p\<close> the next pointers run through the nodes \<open>xs\<close> to \<open>q\<close> and
  the prev pointers run back. A ring is a segment from the head to itself, through
  nodes that are all different and none of them NULL.
\<close>

fun lseg :: "'a list_heap_scheme \<Rightarrow> addr \<Rightarrow> addr list \<Rightarrow> addr \<Rightarrow> bool" where
  "lseg s p [] q \<longleftrightarrow> l_next s p = q \<and> l_prev s q = p"
| "lseg s p (x # xs) q \<longleftrightarrow> l_next s p = x \<and> l_prev s x = p \<and> lseg s x xs q"

definition ring :: "'a list_heap_scheme \<Rightarrow> addr \<Rightarrow> addr list \<Rightarrow> bool" where
  "ring s h xs \<longleftrightarrow> distinct (h # xs) \<and> NULL \<notin> set (h # xs) \<and> lseg s h xs h"

lemma l_next_set_next [heap_simps, simp]: "l_next (set_next p q s) = (l_next s)(p := q)"
  and l_prev_set_next [heap_simps, simp]: "l_prev (set_next p q s) = l_prev s"
  and l_next_set_prev [heap_simps, simp]: "l_next (set_prev p q s) = l_next s"
  and l_prev_set_prev [heap_simps, simp]: "l_prev (set_prev p q s) = (l_prev s)(p := q)"
  by (simp_all add: set_next_def set_prev_def)

lemma more_set_next [heap_simps, simp]: "list_heap.more (set_next p q s) = list_heap.more s"
  and more_set_prev [heap_simps, simp]: "list_heap.more (set_prev p q s) = list_heap.more s"
  by (simp_all add: set_next_def set_prev_def)

lemma lseg_append [simp]:
  "lseg s p (xs @ y # ys) q \<longleftrightarrow> lseg s p xs y \<and> lseg s y ys q"
  by (induction xs arbitrary: p) auto

lemma lseg_cong:
  assumes "\<And>a. a \<in> insert p (set xs) \<Longrightarrow> l_next t a = l_next s a"
    and "\<And>a. a \<in> insert q (set xs) \<Longrightarrow> l_prev t a = l_prev s a"
  shows "lseg t p xs q = lseg s p xs q"
  using assms by (induction xs arbitrary: p) auto

lemma ring_cong:
  assumes "\<And>a. a \<in> set (h # xs) \<Longrightarrow> l_next t a = l_next s a"
    and "\<And>a. a \<in> set (h # xs) \<Longrightarrow> l_prev t a = l_prev s a"
  shows "ring t h xs = ring s h xs"
proof -
  have "lseg t h xs h = lseg s h xs h"
    by (rule lseg_cong) (use assms in auto)
  then show ?thesis by (simp add: ring_def)
qed

text \<open>The two ends of the gap between \<open>xs\<close> and \<open>ys\<close> in a segment.\<close>

lemma lseg_ends:
  assumes "lseg s h (xs @ ys) q"
  shows "l_next s (last (h # xs)) = hd (ys @ [q])"
    and "l_prev s (hd (ys @ [q])) = last (h # xs)"
  using assms by (induction xs arbitrary: h; cases ys; auto)+

lemma lseg_prefix:
  assumes "lseg s p (xs @ ys) q"
    and "l_next t (last (p # xs)) = x" "l_prev t x = last (p # xs)"
    and "\<And>a. a \<in> set (butlast (p # xs)) \<Longrightarrow> l_next t a = l_next s a"
    and "\<And>a. a \<in> set xs \<Longrightarrow> l_prev t a = l_prev s a"
  shows "lseg t p xs x"
  using assms
proof (induction xs arbitrary: p)
  case Nil
  then show ?case by simp
next
  case (Cons y xs)
  have "l_next t p = y" "l_prev t y = p" and "lseg s y (xs @ ys) q"
    using Cons.prems by auto
  moreover have "lseg t y xs x"
    by (rule Cons.IH) (use Cons.prems in auto)
  ultimately show ?case by simp
qed

lemma lseg_suffix:
  assumes "lseg s p (xs @ ys) q"
    and "l_next t x = hd (ys @ [q])" "l_prev t (hd (ys @ [q])) = x"
    and "\<And>a. a \<in> set ys \<Longrightarrow> l_next t a = l_next s a"
    and "\<And>a. a \<in> set (tl (ys @ [q])) \<Longrightarrow> l_prev t a = l_prev s a"
  shows "lseg t x ys q"
proof (cases ys)
  case Nil
  then show ?thesis using assms by simp
next
  case (Cons y zs)
  have "lseg t y zs q = lseg s y zs q"
    by (rule lseg_cong) (use assms(4,5) Cons in auto)
  then show ?thesis using assms Cons by simp
qed

lemma lseg_delete:
  assumes "lseg s p (xs @ x # ys) q"
    and "l_next t (last (p # xs)) = hd (ys @ [q])" "l_prev t (hd (ys @ [q])) = last (p # xs)"
    and "\<And>a. a \<in> set (butlast (p # xs)) \<union> set ys \<Longrightarrow> l_next t a = l_next s a"
    and "\<And>a. a \<in> set xs \<union> set (tl (ys @ [q])) \<Longrightarrow> l_prev t a = l_prev s a"
  shows "lseg t p (xs @ ys) q"
  using assms
proof (induction xs arbitrary: p)
  case Nil
  have "lseg t p ys q"
    by (rule lseg_suffix [of s p "[x]" ys q]) (use Nil in auto)
  then show ?case by simp
next
  case (Cons y xs)
  have "lseg t y (xs @ ys) q"
    by (rule Cons.IH) (use Cons.prems in auto)
  then show ?case using Cons.prems by auto
qed

subsection \<open>What the operations do to a ring\<close>

lemma raw_list_add_next:
  "l_next (raw_list_add x p n s) = (l_next s)(x := n, p := x)"
  and raw_list_add_prev:
  "l_prev (raw_list_add x p n s) = (l_prev s)(n := x, x := p)"
  and raw_list_add_more:
  "list_heap.more (raw_list_add x p n s) = list_heap.more s"
  by (simp_all add: raw_list_add_def Let_def)

lemmas raw_list_add_fields = raw_list_add_next raw_list_add_prev raw_list_add_more

lemma ring_insert:
  assumes "ring s h (xs @ ys)" "x \<notin> set (h # xs @ ys)" "x \<noteq> NULL"
    and p: "p = last (h # xs)" and n: "n = hd (ys @ [h])"
  shows "ring (raw_list_add x p n s) h (xs @ x # ys)"
proof -
  let ?t = "raw_list_add x p n s"
  have seg: "lseg s h (xs @ ys) h" and dist: "distinct (h # xs @ ys)"
    using assms(1) by (auto simp: ring_def)
  have pin: "p \<in> set (h # xs)" and nin: "n \<in> set (ys @ [h])"
    using p n last_in_insert hd_snoc_in by metis+
  have px: "p \<noteq> x" and nx: "n \<noteq> x"
    using pin nin assms(2) by auto
  have pbut: "p \<notin> set (butlast (h # xs))"
    unfolding p by (rule last_notin_butlast) (use dist in auto)
  have ntl: "n \<notin> set (tl (ys @ [h]))"
    unfolding n by (rule hd_notin_tl) (use dist in auto)
  have nxs: "n \<notin> set xs" and pys: "p \<notin> set ys"
    using dist pin nin by auto
  have "lseg ?t h xs x"
    by (rule lseg_prefix [OF seg])
       (use assms(2) p px pbut nxs in \<open>auto simp: raw_list_add_fields dest: in_set_butlastD\<close>)
  moreover have "lseg ?t x ys h"
    by (rule lseg_suffix [OF seg])
       (use assms(2) n nx px pys ntl in \<open>auto simp: raw_list_add_fields dest: in_set_tlD\<close>)
  ultimately show ?thesis
    using assms(1,2,3) by (auto simp: ring_def)
qed

text \<open>Deletion: the two neighbours see each other, and the node is poisoned.\<close>

lemma list_del_more [simp]: "list_heap.more (list_del x s) = list_heap.more s"
  by (simp add: list_del_def raw_list_del_def Let_def)

lemma list_del_fields:
  assumes "l_prev s x = p" "l_next s x = n" "p \<noteq> NULL" "n \<noteq> NULL"
  shows "l_next (list_del x s) = (l_next s)(p := n, x := LIST_POISON1)"
    and "l_prev (list_del x s) = (l_prev s)(n := p, x := LIST_POISON2)"
  using assms by (simp_all add: list_del_def raw_list_del_def Let_def)

lemma list_del_init_fields:
  assumes "l_prev s x = p" "l_next s x = n" "p \<noteq> NULL" "n \<noteq> NULL"
  shows "l_next (list_del_init x s) = (l_next s)(p := n, x := x)"
    and "l_prev (list_del_init x s) = (l_prev s)(n := p, x := x)"
  using assms by (simp_all add: list_del_init_def raw_list_del_def INIT_LIST_HEAD_def Let_def)

lemma ring_neighbours:
  assumes "ring s h (xs @ x # ys)"
  shows "l_prev s x = last (h # xs)" "l_next s x = hd (ys @ [h])"
    "last (h # xs) \<noteq> NULL" "hd (ys @ [h]) \<noteq> NULL"
    "last (h # xs) \<noteq> x" "hd (ys @ [h]) \<noteq> x"
proof -
  have seg: "lseg s h (xs @ x # ys) h" and dist: "distinct (h # xs @ x # ys)"
    and nn: "NULL \<notin> set (h # xs @ x # ys)"
    using assms by (auto simp: ring_def)
  show "l_prev s x = last (h # xs)" using lseg_ends(2) [OF seg] by simp
  show "l_next s x = hd (ys @ [h])" using lseg_ends(1) [of s h "xs @ [x]" ys h] seg by simp
  have "last (h # xs) \<in> set (h # xs)" "hd (ys @ [h]) \<in> set (ys @ [h])"
    by (rule last_in_insert, rule hd_snoc_in)
  then show "last (h # xs) \<noteq> NULL" "hd (ys @ [h]) \<noteq> NULL" "last (h # xs) \<noteq> x" "hd (ys @ [h]) \<noteq> x"
    using dist nn by auto
qed

lemma ring_remove:
  assumes r: "ring s h (xs @ x # ys)"
    and tn: "\<And>a. a \<noteq> x \<Longrightarrow> l_next t a = ((l_next s)(last (h # xs) := hd (ys @ [h]))) a"
    and tp: "\<And>a. a \<noteq> x \<Longrightarrow> l_prev t a = ((l_prev s)(hd (ys @ [h]) := last (h # xs))) a"
  shows "ring t h (xs @ ys)"
proof -
  let ?p = "last (h # xs)" and ?n = "hd (ys @ [h])"
  have seg: "lseg s h (xs @ x # ys) h" and dist: "distinct (h # xs @ x # ys)"
    using r by (auto simp: ring_def)
  have pin: "?p \<in> set (h # xs)" and nin: "?n \<in> set (ys @ [h])"
    by (rule last_in_insert, rule hd_snoc_in)
  have pbut: "?p \<notin> set (butlast (h # xs))"
    by (rule last_notin_butlast) (use dist in auto)
  have ntl: "?n \<notin> set (tl (ys @ [h]))"
    by (rule hd_notin_tl) (use dist in auto)
  note nb = ring_neighbours(5,6) [OF r]
  have "lseg t h (xs @ ys) h"
  proof (rule lseg_delete [OF seg])
    show "l_next t ?p = ?n" "l_prev t ?n = ?p"
      using nb tn tp by (metis fun_upd_same)+
    fix a
    show "l_next t a = l_next s a" if "a \<in> set (butlast (h # xs)) \<union> set ys"
    proof -
      have "a \<in> set (h # xs) \<union> set ys"
        using that by (meson UnE UnI1 UnI2 in_set_butlastD)
      then have "a \<noteq> x" using dist by auto
      moreover have "a \<noteq> ?p"
        using that dist pbut pin by auto
      ultimately show ?thesis by (metis tn fun_upd_other)
    qed
    show "l_prev t a = l_prev s a" if "a \<in> set xs \<union> set (tl (ys @ [h]))"
    proof -
      have "a \<in> set (xs @ ys @ [h])"
        using that by (auto dest: in_set_tlD)
      then have "a \<noteq> x" using dist by auto
      moreover have "a \<noteq> ?n"
        using that dist ntl nin by auto
      ultimately show ?thesis by (metis tp fun_upd_other)
    qed
  qed
  then show ?thesis using r by (auto simp: ring_def)
qed

lemma ring_list_del:
  assumes "ring s h (xs @ x # ys)"
  shows "ring (list_del x s) h (xs @ ys)"
  by (rule ring_remove [OF assms])
     (simp_all add: list_del_fields [OF ring_neighbours(1-4) [OF assms]])

lemma ring_list_del_init:
  assumes "ring s h (xs @ x # ys)"
  shows "ring (list_del_init x s) h (xs @ ys)" "x \<noteq> NULL \<Longrightarrow> ring (list_del_init x s) x []"
proof -
  show "ring (list_del_init x s) h (xs @ ys)"
    by (rule ring_remove [OF assms])
       (simp_all add: list_del_init_fields [OF ring_neighbours(1-4) [OF assms]])
  show "x \<noteq> NULL \<Longrightarrow> ring (list_del_init x s) x []"
    by (simp add: ring_def list_del_init_fields [OF ring_neighbours(1-4) [OF assms]])
qed

lemma ring_INIT_LIST_HEAD: "h \<noteq> NULL \<Longrightarrow> ring (INIT_LIST_HEAD h s) h []"
  by (simp add: ring_def INIT_LIST_HEAD_def)

lemma ring_last:
  assumes "ring s h xs"
  shows "l_prev s h = last (h # xs)"
  using assms lseg_ends(2) [of s h xs "[]" h] by (simp add: ring_def)

lemma ring_first:
  assumes "ring s h xs"
  shows "l_next s h = hd (xs @ [h])"
  using assms lseg_ends(1) [of s h "[]" xs h] by (simp add: ring_def)

lemma ring_list_add_head:
  assumes "ring s h xs" "x \<notin> set (h # xs)" "x \<noteq> NULL"
  shows "ring (list_add_head x h s) h (xs @ [x])"
  unfolding list_add_head_def
  using ring_insert [of s h xs "[]" x "l_prev s h" h] assms ring_last [OF assms(1)] by simp

lemma ring_list_add_tail:
  assumes "ring s h xs" "x \<notin> set (h # xs)" "x \<noteq> NULL"
  shows "ring (list_add_tail x h s) h (x # xs)"
  unfolding list_add_tail_def
  using ring_insert [of s h "[]" xs x h "l_next s h"] assms ring_first [OF assms(1)] by simp

subsection \<open>The interface the clients use\<close>

text \<open>
  What a client of the list library relies on: \<open>rep s h xs\<close> says that the head \<open>h\<close>
  holds the nodes \<open>xs\<close>; a node can be linked between two neighbours and unlinked; and
  neither touches a list whose nodes are other nodes. The lemmas of the locale are
  about a whole family of lists at once, which is what the page allocator (one list
  per order) and the slab caches (three lists per cache) keep.
\<close>

definition family ::
  "('s \<Rightarrow> addr \<Rightarrow> addr list \<Rightarrow> bool) \<Rightarrow> 's \<Rightarrow> 'i set \<Rightarrow> ('i \<Rightarrow> addr) \<Rightarrow> ('i \<Rightarrow> addr list) \<Rightarrow> bool" where
  "family rep s I hd_of f \<longleftrightarrow>
     (\<forall>i\<in>I. rep s (hd_of i) (f i)) \<and>
     (\<forall>i\<in>I. \<forall>j\<in>I. i \<noteq> j \<longrightarrow> set (hd_of i # f i) \<inter> set (hd_of j # f j) = {})"

locale linked_lists =
  fixes rep :: "'s \<Rightarrow> addr \<Rightarrow> addr list \<Rightarrow> bool"
    and nxt :: "'s \<Rightarrow> addr \<Rightarrow> addr"
    and prv :: "'s \<Rightarrow> addr \<Rightarrow> addr"
    and link :: "addr \<Rightarrow> addr \<Rightarrow> addr \<Rightarrow> 's \<Rightarrow> 's"
    and unlink :: "addr \<Rightarrow> 's \<Rightarrow> 's"
  assumes rep_distinct: "rep s h xs \<Longrightarrow> distinct (h # xs)"
    and rep_nonnull: "rep s h xs \<Longrightarrow> NULL \<notin> set (h # xs)"
    and rep_nxt: "rep s h (xs @ ys) \<Longrightarrow> nxt s (last (h # xs)) = hd (ys @ [h])"
    and rep_prv: "rep s h (xs @ ys) \<Longrightarrow> prv s (hd (ys @ [h])) = last (h # xs)"
    and rep_link: "rep s h (xs @ ys) \<Longrightarrow> x \<notin> set (h # xs @ ys) \<Longrightarrow> x \<noteq> NULL \<Longrightarrow>
      rep (link x (last (h # xs)) (hd (ys @ [h])) s) h (xs @ x # ys)"
    and link_frame: "rep s h' zs \<Longrightarrow> {x, p, n} \<inter> set (h' # zs) = {} \<Longrightarrow>
      rep (link x p n s) h' zs"
    and rep_unlink: "rep s h (xs @ x # ys) \<Longrightarrow> rep (unlink x s) h (xs @ ys)"
    and unlink_frame: "rep s h (xs @ x # ys) \<Longrightarrow> rep s h' zs \<Longrightarrow>
      set (h # xs @ x # ys) \<inter> set (h' # zs) = {} \<Longrightarrow> rep (unlink x s) h' zs"
begin

lemma family_rep: "family rep s I hd_of f \<Longrightarrow> i \<in> I \<Longrightarrow> rep s (hd_of i) (f i)"
  by (simp add: family_def)

lemma family_disjoint:
  "family rep s I hd_of f \<Longrightarrow> i \<in> I \<Longrightarrow> j \<in> I \<Longrightarrow> i \<noteq> j \<Longrightarrow>
   set (hd_of i # f i) \<inter> set (hd_of j # f j) = {}"
  by (simp add: family_def)

lemma family_link:
  assumes fam: "family rep s I hd_of f" and i: "i \<in> I" and f: "f i = xs @ ys"
    and x: "\<And>j. j \<in> I \<Longrightarrow> x \<notin> set (hd_of j # f j)" "x \<noteq> NULL"
  shows "family rep (link x (last (hd_of i # xs)) (hd (ys @ [hd_of i])) s) I hd_of
           (f(i := xs @ x # ys))"
proof -
  let ?p = "last (hd_of i # xs)" and ?n = "hd (ys @ [hd_of i])"
  have ri: "rep s (hd_of i) (xs @ ys)"
    using family_rep [OF fam i] f by simp
  have pn: "{?p, ?n} \<subseteq> set (hd_of i # f i)"
    using last_in_insert [of "hd_of i" xs] hd_snoc_in [of ys "hd_of i"] f by auto
  have "rep (link x ?p ?n s) (hd_of j) ((f(i := xs @ x # ys)) j)" if j: "j \<in> I" for j
  proof (cases "j = i")
    case True
    then show ?thesis using rep_link [OF ri] x(1) [OF i] x(2) f by simp
  next
    case False
    have "{x, ?p, ?n} \<inter> set (hd_of j # f j) = {}"
      using family_disjoint [OF fam i j] False pn x(1) [OF j] by blast
    then show ?thesis using False link_frame [OF family_rep [OF fam j]] by simp
  qed
  moreover have "set (hd_of j # (f(i := xs @ x # ys)) j) \<inter> set (hd_of k # (f(i := xs @ x # ys)) k) = {}"
    if "j \<in> I" "k \<in> I" "j \<noteq> k" for j k
    using family_disjoint [OF fam that] x(1) [OF that(1)] x(1) [OF that(2)] f that(3)
    by (cases "j = i"; cases "k = i") auto
  ultimately show ?thesis by (simp add: family_def)
qed

lemma family_unlink:
  assumes fam: "family rep s I hd_of f" and i: "i \<in> I" and f: "f i = xs @ x # ys"
  shows "family rep (unlink x s) I hd_of (f(i := xs @ ys))"
proof -
  have ri: "rep s (hd_of i) (xs @ x # ys)"
    using family_rep [OF fam i] f by simp
  have "rep (unlink x s) (hd_of j) ((f(i := xs @ ys)) j)" if j: "j \<in> I" for j
  proof (cases "j = i")
    case True
    then show ?thesis using rep_unlink [OF ri] by simp
  next
    case False
    then show ?thesis
      using unlink_frame [OF ri family_rep [OF fam j]] family_disjoint [OF fam i j] f by simp
  qed
  moreover have "set (hd_of j # (f(i := xs @ ys)) j) \<inter> set (hd_of k # (f(i := xs @ ys)) k) = {}"
    if "j \<in> I" "k \<in> I" "j \<noteq> k" for j k
    using family_disjoint [OF fam that] f that(3) by (cases "j = i"; cases "k = i") auto
  ultimately show ?thesis by (simp add: family_def)
qed

lemma family_unlink_fresh:
  assumes fam: "family rep s I hd_of f" and i: "i \<in> I" and f: "f i = xs @ x # ys" and j: "j \<in> I"
  shows "x \<notin> set (hd_of j # (f(i := xs @ ys)) j)" "x \<noteq> NULL"
  using rep_distinct [OF family_rep [OF fam i]] rep_nonnull [OF family_rep [OF fam i]]
    family_disjoint [OF fam i j] f by (cases "j = i"; auto)+

lemma family_move:
  assumes fam: "family rep s I hd_of f" and i: "i \<in> I" and f: "f i = xs @ x # ys"
    and k: "k \<in> I" and fk: "(f(i := xs @ ys)) k = us @ vs"
  shows "family rep (link x (last (hd_of k # us)) (hd (vs @ [hd_of k])) (unlink x s)) I hd_of
           (f(i := xs @ ys, k := us @ x # vs))"
  by (rule family_link [OF family_unlink [OF fam i f] k fk])
     (use family_unlink_fresh [OF fam i f] k in blast)+

end

lemma raw_list_add_frame:
  assumes "ring s h' zs" "{x, p, n} \<inter> set (h' # zs) = {}"
  shows "ring (raw_list_add x p n s) h' zs"
proof -
  have "ring (raw_list_add x p n s) h' zs = ring s h' zs"
    by (rule ring_cong) (use assms(2) in \<open>auto simp: raw_list_add_fields\<close>)
  then show ?thesis using assms(1) by simp
qed

lemma list_del_frame:
  assumes r: "ring s h (xs @ x # ys)" and "ring s h' zs"
    and d: "set (h # xs @ x # ys) \<inter> set (h' # zs) = {}"
  shows "ring (list_del x s) h' zs"
proof -
  have "last (h # xs) \<in> set (h # xs)" "hd (ys @ [h]) \<in> set (ys @ [h])"
    by (rule last_in_insert, rule hd_snoc_in)
  then have "{x, last (h # xs), hd (ys @ [h])} \<inter> set (h' # zs) = {}"
    using d by auto
  then have "ring (list_del x s) h' zs = ring s h' zs"
    by (intro ring_cong) (auto simp: list_del_fields [OF ring_neighbours(1-4) [OF r]])
  then show ?thesis using assms(2) by simp
qed

interpretation kl: linked_lists ring l_next l_prev raw_list_add list_del
proof unfold_locales
  fix s :: "'a list_heap_scheme" and h h' x p n xs ys zs
  show "ring s h xs \<Longrightarrow> distinct (h # xs)" "ring s h xs \<Longrightarrow> NULL \<notin> set (h # xs)"
    by (simp_all add: ring_def)
  show "ring s h (xs @ ys) \<Longrightarrow> l_next s (last (h # xs)) = hd (ys @ [h])"
    "ring s h (xs @ ys) \<Longrightarrow> l_prev s (hd (ys @ [h])) = last (h # xs)"
    unfolding ring_def by (blast dest: lseg_ends)+
  show "ring s h (xs @ ys) \<Longrightarrow> x \<notin> set (h # xs @ ys) \<Longrightarrow> x \<noteq> NULL \<Longrightarrow>
      ring (raw_list_add x (last (h # xs)) (hd (ys @ [h])) s) h (xs @ x # ys)"
    by (rule ring_insert) auto
qed (rule raw_list_add_frame ring_list_del list_del_frame; assumption)+

subsection \<open>Reading a ring\<close>

lemma ring_empty_iff:
  assumes "ring s h xs"
  shows "list_empty_careful h s \<longleftrightarrow> xs = []" and "list_empty h s \<longleftrightarrow> xs = []"
    and "l_next s h = h \<longleftrightarrow> xs = []" and "l_prev s h = h \<longleftrightarrow> xs = []"
proof -
  have d: "distinct (h # xs)" using assms by (simp add: ring_def)
  show n: "l_next s h = h \<longleftrightarrow> xs = []"
    using ring_first [OF assms] d by (cases xs) auto
  show p: "l_prev s h = h \<longleftrightarrow> xs = []"
    using ring_last [OF assms] d last_in_set [of xs] by (cases "xs = []") auto
  show "list_empty_careful h s \<longleftrightarrow> xs = []" "list_empty h s \<longleftrightarrow> xs = []"
    using n p by (simp_all add: list_empty_careful_def list_empty_def)
qed

lemma ring_nonnull: "ring s h xs \<Longrightarrow> h \<noteq> NULL" "ring s h xs \<Longrightarrow> x \<in> set xs \<Longrightarrow> x \<noteq> NULL"
  by (auto simp: ring_def)

lemma ring_list_get_tail:
  assumes "ring s h xs"
  shows "list_get_tail h (Some e) s = (if xs = [] then (-2, Some e) else (0, Some (last xs)))"
  using ring_nonnull(1) [OF assms] ring_empty_iff(4) [OF assms] ring_last [OF assms]
  by (auto simp: list_get_tail_def)

lemma ring_list_get_head:
  assumes "ring s h xs"
  shows "list_get_head h (Some e) s = (if xs = [] then (-2, Some e) else (0, Some (hd xs)))"
  using ring_nonnull(1) [OF assms] ring_empty_iff(3) [OF assms] ring_first [OF assms]
  by (cases xs) (auto simp: list_get_head_def)

lemma ring_list_get_head_del:
  assumes "ring s h (x # xs)"
  shows "list_get_head_del h (Some e) s = ((0, Some x), list_del x s)"
  using ring_list_get_head [OF assms] ring_nonnull(2) [OF assms]
  by (simp add: list_get_head_del_def)

lemma ring_list_get_head_del_Nil:
  assumes "ring s h []"
  shows "list_get_head_del h (Some e) s = ((-2, Some e), s)"
  using ring_list_get_head [OF assms] by (simp add: list_get_head_del_def)

lemma list_num_loop_ring:
  assumes "lseg s p xs h" "h \<notin> set xs"
  shows "list_num_loop s h (hd (xs @ [h])) (l_next s (hd (xs @ [h]))) k = Some (k + int (length xs))"
  using assms
proof (induction xs arbitrary: p k)
  case Nil
  then show ?case by (subst list_num_loop.simps) simp
next
  case (Cons x xs)
  have n: "l_next s x = hd (xs @ [h])"
    using Cons.prems lseg_ends(1) [of s x "[]" xs h] by simp
  have "list_num_loop s h (hd (xs @ [h])) (l_next s (hd (xs @ [h]))) (k + 1)
      = Some (k + 1 + int (length xs))"
    by (rule Cons.IH [of x]) (use Cons.prems in auto)
  then show ?case
    using Cons.prems n by (subst list_num_loop.simps) auto
qed

lemma list_num_ring:
  assumes "ring s h xs"
  shows "list_num h s = Some (int (length xs))"
  using list_num_loop_ring [of s h xs h 0] assms
  by (simp add: list_num_def ring_def ring_first [OF assms])

text \<open>
  Linking a node in order, the loop \<^verbatim>\<open>buddy_list_add_line\<close> and \<^verbatim>\<open>kmem_chain_add\<close> run over
  a list that is not empty: before the first node that \<open>before\<close> holds of, else after the
  last one. The boolean says whether the node was linked.
\<close>

partial_function (option) list_add_line_loop ::
  "(addr \<Rightarrow> bool) \<Rightarrow> addr \<Rightarrow> addr \<Rightarrow> addr \<Rightarrow> addr \<Rightarrow> 'a list_heap_scheme \<Rightarrow>
   (bool \<times> 'a list_heap_scheme) option" where
  "list_add_line_loop before item head pos n s =
     (if pos = head then Some (False, s)
      else if before pos then Some (True, raw_list_add item (l_prev s pos) pos s)
      else if l_next s pos = head then Some (True, raw_list_add item pos n s)
      else list_add_line_loop before item head n (l_next s n) s)"

lemma list_add_line_loop_steps:
  "pos \<noteq> h \<Longrightarrow> before pos \<Longrightarrow> list_add_line_loop before item h pos n s
     = Some (True, raw_list_add item (l_prev s pos) pos s)"
  "pos \<noteq> h \<Longrightarrow> \<not> before pos \<Longrightarrow> l_next s pos = h \<Longrightarrow> list_add_line_loop before item h pos n s
     = Some (True, raw_list_add item pos n s)"
  "pos \<noteq> h \<Longrightarrow> \<not> before pos \<Longrightarrow> l_next s pos \<noteq> h \<Longrightarrow> list_add_line_loop before item h pos n s
     = list_add_line_loop before item h n (l_next s n) s"
  by (subst list_add_line_loop.simps, simp)+

lemma list_add_line_loop_ring:
  assumes "ring s h (xs @ ys)" "ys \<noteq> []" "\<And>a. a \<in> set xs \<Longrightarrow> \<not> before a"
  shows "\<exists>us vs. xs @ ys = us @ vs \<and> (\<forall>a\<in>set us. \<not> before a) \<and> (vs \<noteq> [] \<longrightarrow> before (hd vs)) \<and>
    list_add_line_loop before item h (hd ys) (l_next s (hd ys)) s =
      Some (True, raw_list_add item (last (h # us)) (hd (vs @ [h])) s)"
  using assms
proof (induction ys arbitrary: xs)
  case Nil
  then show ?case by simp
next
  case (Cons y ys)
  note r = Cons.prems(1)
  have yh: "y \<noteq> h" using kl.rep_distinct [OF r] by auto
  note nb = ring_neighbours(1,2) [OF r]
  consider (before) "before y" | (last) "\<not> before y" "ys = []"
    | (step) z zs where "\<not> before y" "ys = z # zs"
    by (cases ys) auto
  then show ?case
  proof cases
    case before
    then have "list_add_line_loop before item h y (l_next s y) s
        = Some (True, raw_list_add item (last (h # xs)) y s)"
      using list_add_line_loop_steps(1) [where before = before and s = s, OF yh] nb by simp
    then show ?thesis
      using before Cons.prems by (intro exI [of _ xs] exI [of _ "y # ys"]) simp
  next
    case last
    then have "list_add_line_loop before item h y (l_next s y) s
        = Some (True, raw_list_add item y h s)"
      using list_add_line_loop_steps(2) [where before = before and s = s, OF yh] nb by simp
    then show ?thesis
      using last Cons.prems by (intro exI [of _ "xs @ [y]"] exI [of _ "[]"]) auto
  next
    case step
    have "z \<noteq> h" using kl.rep_distinct [OF r] step by auto
    then have "list_add_line_loop before item h y (l_next s y) s
        = list_add_line_loop before item h (hd ys) (l_next s (hd ys)) s"
      using list_add_line_loop_steps(3) [where before = before and s = s, OF yh] nb step by simp
    moreover have "\<exists>us vs. (xs @ [y]) @ ys = us @ vs \<and> (\<forall>a\<in>set us. \<not> before a)
        \<and> (vs \<noteq> [] \<longrightarrow> before (hd vs)) \<and>
        list_add_line_loop before item h (hd ys) (l_next s (hd ys)) s =
          Some (True, raw_list_add item (last (h # us)) (hd (vs @ [h])) s)"
      by (rule Cons.IH) (use Cons.prems step in auto)
    ultimately show ?thesis by (simp del: last.simps)
  qed
qed

subsection \<open>Properties\<close>

text \<open>
  C36. The pair the kernel calls \<^verbatim>\<open>list_add\<close> and \<^verbatim>\<open>list_get_del\<close> is a first-in first-out
  queue: after \<^verbatim>\<open>list_add\<close> of a fresh node, \<^verbatim>\<open>list_get_del\<close> succeeds, hands out the
  oldest node and leaves the rest, with the new node last.
\<close>

theorem list_fifo:
  assumes "ring s h xs" "x \<notin> set (h # xs)" "x \<noteq> NULL"
  shows "\<exists>s'. list_get_del h (Some e) (list_add x h s) = ((0, Some (hd (xs @ [x]))), s')
           \<and> ring s' h (tl (xs @ [x]))"
proof -
  obtain y ys where q: "xs @ [x] = y # ys"
    by (cases "xs @ [x]") auto
  have r: "ring (list_add x h s) h (y # ys)"
    using ring_list_add_head [OF assms] q by simp
  have "ring (list_del y (list_add x h s)) h ys"
    using ring_list_del [of "list_add x h s" h "[]" y ys] r by simp
  then show ?thesis
    using ring_list_get_head_del [OF r] q by simp
qed

definition example_heap :: list_heap where
  "example_heap = \<lparr>l_next = (\<lambda>_. 0), l_prev = (\<lambda>_. 0)\<rparr>"

theorem list_fifo_witness:
  "\<exists>s'. list_get_del 16 (Some NULL) (list_add 24 16 (INIT_LIST_HEAD 16 example_heap))
      = ((0, Some 24), s') \<and> ring s' 16 []"
proof -
  have "ring (INIT_LIST_HEAD 16 example_heap) 16 []"
    by (rule ring_INIT_LIST_HEAD) simp
  from list_fifo [OF this, of 24 NULL] show ?thesis by simp
qed

text \<open>
  \<^verbatim>\<open>list_num\<close> ends on every ring and returns the number of its nodes.
\<close>

theorem list_num_correct:
  assumes "ring s h xs"
  shows "list_num h s = Some (int (length xs))"
  by (rule list_num_ring [OF assms])

theorem list_num_correct_witness:
  "list_num 16 (list_add 32 16 (list_add 24 16 (INIT_LIST_HEAD 16 example_heap))) = Some 2"
proof -
  have r0: "ring (INIT_LIST_HEAD 16 example_heap) 16 []"
    by (rule ring_INIT_LIST_HEAD) simp
  have r1: "ring (list_add 24 16 (INIT_LIST_HEAD 16 example_heap)) 16 [24]"
    using ring_list_add_head [OF r0, of 24] by simp
  have r2: "ring (list_add 32 16 (list_add 24 16 (INIT_LIST_HEAD 16 example_heap))) 16 [24, 32]"
    using ring_list_add_head [OF r1, of 32] by simp
  show ?thesis using list_num_correct [OF r2] by simp
qed

text \<open>
  \<^verbatim>\<open>list_get_tail_del\<close> never takes a node off a list that has one: it reports the
  last node in \<^verbatim>\<open>*entry\<close>, returns \<open>-2\<close> and leaves the list as it was, because its test
  of the result of \<^verbatim>\<open>list_get_tail\<close> is the wrong way round; and on an empty list it
  deletes the node \<^verbatim>\<open>*entry\<close> happened to hold and returns success.
\<close>

theorem list_get_tail_del_inverted:
  assumes "ring s h xs" "e \<noteq> NULL"
  shows "list_get_tail_del h (Some e) s =
           (if xs = [] then Some ((0, Some e), list_del e s) else Some ((-2, Some (last xs)), s))"
  using assms ring_list_get_tail [OF assms(1), of e] by (simp add: list_get_tail_del_def)

theorem list_get_tail_del_inverted_witness:
  "list_get_tail_del 16 (Some 48) (list_add 24 16 (INIT_LIST_HEAD 16 example_heap))
     = Some ((-2, Some 24), list_add 24 16 (INIT_LIST_HEAD 16 example_heap))"
proof -
  have r0: "ring (INIT_LIST_HEAD 16 example_heap) 16 []"
    by (rule ring_INIT_LIST_HEAD) simp
  have r1: "ring (list_add 24 16 (INIT_LIST_HEAD 16 example_heap)) 16 [24]"
    using ring_list_add_head [OF r0, of 24] by simp
  show ?thesis using list_get_tail_del_inverted [OF r1, of 48] by simp
qed

end
