(* ===== verification/Kmath.thy ===== *)
theory Kmath
  imports Prelude
begin

section \<open>Powers of two (lib/math.c)\<close>

text \<open>
  \<^verbatim>\<open>power(index)\<close> doubles a 32-bit \<^verbatim>\<open>int\<close> \<open>index\<close> times; the value is kept as the 32-bit
  word the register holds, so it is 0 from \<open>index = 32\<close> on.
\<close>

function kpower_loop :: "int \<Rightarrow> u32 \<Rightarrow> u32" where
  "kpower_loop index acc = (if index > 0 then kpower_loop (index - 1) (acc * 2) else acc)"
  by pat_completeness auto
termination
  by (relation "measure (\<lambda>(index, acc). nat index)") auto

declare kpower_loop.simps [simp del]

definition kpower :: "int \<Rightarrow> u32" where
  "kpower index =
     (if index = 0 then 1
      else if index > 0 then kpower_loop index 1
      else 1)"

lemma kpower_loop_eq: "kpower_loop (int n) x = x * 2 ^ n"
proof (induction n arbitrary: x)
  case 0
  then show ?case by (subst kpower_loop.simps) simp
next
  case (Suc n)
  have "kpower_loop (int (Suc n)) x = kpower_loop (int n) (x * 2)"
    by (subst kpower_loop.simps) simp
  then show ?case using Suc by simp
qed

lemma kpower_int [simp]: "kpower (int n) = 2 ^ n"
  by (cases n) (simp_all add: kpower_def kpower_loop_eq flip: of_nat_Suc)

lemma kpower_eq: "0 \<le> i \<Longrightarrow> kpower i = 2 ^ nat i"
  using kpower_int [of "nat i"] by simp

lemma unat_kpower: "0 \<le> i \<Longrightarrow> i < 32 \<Longrightarrow> unat (kpower i) = 2 ^ nat i"
  by (simp add: kpower_eq unat_pow2_u32)

lemma kpower_wraps: "32 \<le> i \<Longrightarrow> kpower i = 0"
  by (simp add: kpower_eq)

end
