(* ===== verification/Buddy.thy ===== *)
theory Buddy
  imports Klist Kmath
begin

section \<open>The buddy lists (mm/buddy.c)\<close>

text \<open>
  The free blocks of \<open>2 ^ i\<close> page frames are linked in \<^verbatim>\<open>buddy_list[i]\<close>, through the member
  \<^verbatim>\<open>list\<close> of the \<^verbatim>\<open>struct page\<close> of their first frame; \<^verbatim>\<open>list\<close> is the first member, so
  \<^verbatim>\<open>list_entry\<close> does not change the address. The state extends the heap of list nodes by
  the members of \<^verbatim>\<open>struct page\<close> the allocator uses and by the array \<^verbatim>\<open>buddy_list\<close>: its
  address and the counter of each entry. An index outside the array has no defined
  result (\<open>None\<close>).
\<close>

subsection \<open>State\<close>

record mm_heap = list_heap +
  pg_address :: "addr \<Rightarrow> u32"
  pg_flags :: "addr \<Rightarrow> u32"
  buddy_list :: addr
  bl_nr :: "int \<Rightarrow> int"

abbreviation (input) NR_MEM_LISTS :: int where
  "NR_MEM_LISTS \<equiv> 10"

abbreviation (input) PAGE_SIZE :: u32 where
  "PAGE_SIZE \<equiv> 4096"

abbreviation (input) SYS_RESERVED :: u32 where
  "SYS_RESERVED \<equiv> 1"

abbreviation (input) SYS_ROM :: u32 where
  "SYS_ROM \<equiv> 2"

abbreviation (input) SYS_RAM :: u32 where
  "SYS_RAM \<equiv> 4"

text \<open>\<^verbatim>\<open>&(buddy_list[i].list)\<close>, with \<^verbatim>\<open>sizeof(struct buddy_list)\<close> = 12\<close>

definition bl_head :: "'a mm_heap_scheme \<Rightarrow> int \<Rightarrow> addr" where
  "bl_head s i = buddy_list s + 12 * word_of_int i"

definition set_nr :: "int \<Rightarrow> int \<Rightarrow> 'a mm_heap_scheme \<Rightarrow> 'a mm_heap_scheme" where
  "set_nr i v s = s\<lparr>bl_nr := (bl_nr s)(i := v)\<rparr>"

text \<open>\<^verbatim>\<open>page + n\<close>, with \<^verbatim>\<open>sizeof(struct page)\<close> = 56\<close>

definition page_add :: "addr \<Rightarrow> u32 \<Rightarrow> addr" where
  "page_add page n = page + 56 * n"

subsection \<open>Operations\<close>

definition is_pageclosed :: "addr \<Rightarrow> addr \<Rightarrow> int \<Rightarrow> 'a mm_heap_scheme \<Rightarrow> bool" where
  "is_pageclosed prev nxt order s =
     (if prev = NULL \<or> nxt = NULL then False
      else (let index = kpower order
            in pg_address s prev + index * PAGE_SIZE = pg_address s nxt \<or>
               pg_address s prev - index * PAGE_SIZE = pg_address s nxt))"

definition buddy_list_del ::
  "addr \<Rightarrow> int \<Rightarrow> addr option \<Rightarrow> 'a mm_heap_scheme \<Rightarrow>
   ((int \<times> addr option) \<times> 'a mm_heap_scheme) option" where
  "buddy_list_del head order item s =
     (if head = NULL \<or> order \<ge> NR_MEM_LISTS \<or> item = None then Some ((-1, item), s)
      else case list_get_del head item s of
        ((r, item), s) \<Rightarrow>
          if r \<noteq> 0 then Some ((-2, item), s)
          else if order < 0 then None
          else Some ((0, item), set_nr order (bl_nr s order - 1) s))"

definition buddy_list_add ::
  "addr \<Rightarrow> int \<Rightarrow> 'a mm_heap_scheme \<Rightarrow> (int \<times> 'a mm_heap_scheme) option" where
  "buddy_list_add page order s =
     (if page = NULL \<or> order \<ge> NR_MEM_LISTS then Some (-1, s)
      else if order < 0 then None
      else (let s = list_add page (bl_head s order) s
            in Some (0, set_nr order (bl_nr s order + 1) s)))"

definition buddy_list_add_line ::
  "addr \<Rightarrow> int \<Rightarrow> 'a mm_heap_scheme \<Rightarrow> (int \<times> 'a mm_heap_scheme) option" where
  "buddy_list_add_line page order s =
     (if page = NULL \<or> order \<ge> NR_MEM_LISTS then Some (-1, s)
      else if order < 0 then None
      else (let head = bl_head s order
            in if list_empty_careful head s then
                 (let s = list_add page head s
                  in Some (0, set_nr order (bl_nr s order + 1) s))
               else do {
                 (linked, s) \<leftarrow> list_add_line_loop (\<lambda>pos. pg_address s page < pg_address s pos)
                   page head (l_next s head) (l_next s (l_next s head)) s;
                 if linked then Some (0, set_nr order (bl_nr s order + 1) s) else Some (-1, s)
               }))"

fun buddy_list_init_loop :: "int list \<Rightarrow> 'a mm_heap_scheme \<Rightarrow> 'a mm_heap_scheme" where
  "buddy_list_init_loop [] s = s"
| "buddy_list_init_loop (i # is) s =
     (let s = INIT_LIST_HEAD (bl_head s i) s
      in buddy_list_init_loop is (set_nr i 0 s))"

definition buddy_list_init :: "'a mm_heap_scheme \<Rightarrow> 'a mm_heap_scheme" where
  "buddy_list_init s = buddy_list_init_loop [0..NR_MEM_LISTS - 1] s"

text \<open>
  The inner loop of \<^verbatim>\<open>buddy_list_tidy\<close> walks one list and moves the first of two neighbours
  that are one block to the next list. It need not end on a heap that is not a ring.
\<close>

partial_function (option) tidy_loop ::
  "int \<Rightarrow> addr \<Rightarrow> addr \<Rightarrow> 'a mm_heap_scheme \<Rightarrow> 'a mm_heap_scheme option" where
  "tidy_loop i head pos s =
     (if pos \<noteq> NULL \<and> pos \<noteq> head then
        (if l_next s pos \<noteq> head \<and> is_pageclosed pos (l_next s pos) i s then
           (let n = l_next s (l_next s pos);
                s = list_del (l_next s pos) s;
                s = list_del pos s;
                s = set_nr i (bl_nr s i - 2) s;
                s = list_add pos (bl_head s (i + 1)) s;
                s = set_nr (i + 1) (bl_nr s (i + 1) + 1) s
            in tidy_loop i head n s)
         else tidy_loop i head (l_next s pos) s)
      else Some s)"

fun buddy_list_tidy_loop :: "int list \<Rightarrow> 'a mm_heap_scheme \<Rightarrow> (int \<times> 'a mm_heap_scheme) option" where
  "buddy_list_tidy_loop [] s = Some (0, s)"
| "buddy_list_tidy_loop (i # is) s =
     (if bl_nr s i \<le> 0 then Some (0, s)
      else do {
        let head = bl_head s i;
        s \<leftarrow> tidy_loop i head (l_next s head) s;
        buddy_list_tidy_loop is s
      })"

definition buddy_list_tidy :: "'a mm_heap_scheme \<Rightarrow> (int \<times> 'a mm_heap_scheme) option" where
  "buddy_list_tidy s = buddy_list_tidy_loop [0..NR_MEM_LISTS - 2] s"

subsection \<open>What the list operations leave alone\<close>

lemma mm_set_next [heap_simps, simp]:
  "pg_address (set_next p q s) = pg_address s" "pg_flags (set_next p q s) = pg_flags s"
  "buddy_list (set_next p q s) = buddy_list s" "bl_nr (set_next p q s) = bl_nr s"
  "mm_heap.more (set_next p q s) = mm_heap.more s"
  by (simp_all add: set_next_def)

lemma mm_set_prev [heap_simps, simp]:
  "pg_address (set_prev p q s) = pg_address s" "pg_flags (set_prev p q s) = pg_flags s"
  "buddy_list (set_prev p q s) = buddy_list s" "bl_nr (set_prev p q s) = bl_nr s"
  "mm_heap.more (set_prev p q s) = mm_heap.more s"
  by (simp_all add: set_prev_def)

lemma mm_raw_list_add [heap_simps, simp]:
  "pg_address (raw_list_add x p n s) = pg_address s" "pg_flags (raw_list_add x p n s) = pg_flags s"
  "buddy_list (raw_list_add x p n s) = buddy_list s" "bl_nr (raw_list_add x p n s) = bl_nr s"
  "mm_heap.more (raw_list_add x p n s) = mm_heap.more s"
  by (simp_all add: raw_list_add_def Let_def)

lemma mm_list_del [heap_simps, simp]:
  "pg_address (list_del x s) = pg_address s" "pg_flags (list_del x s) = pg_flags s"
  "buddy_list (list_del x s) = buddy_list s" "bl_nr (list_del x s) = bl_nr s"
  "mm_heap.more (list_del x s) = mm_heap.more s"
  by (simp_all add: list_del_def raw_list_del_def Let_def)

lemma mm_list_add [heap_simps, simp]:
  "pg_address (list_add x h s) = pg_address s" "pg_flags (list_add x h s) = pg_flags s"
  "buddy_list (list_add x h s) = buddy_list s" "bl_nr (list_add x h s) = bl_nr s"
  "mm_heap.more (list_add x h s) = mm_heap.more s"
  by (simp_all add: list_add_head_def)

lemma mm_INIT_LIST_HEAD [heap_simps, simp]:
  "pg_address (INIT_LIST_HEAD h s) = pg_address s" "pg_flags (INIT_LIST_HEAD h s) = pg_flags s"
  "buddy_list (INIT_LIST_HEAD h s) = buddy_list s" "bl_nr (INIT_LIST_HEAD h s) = bl_nr s"
  "mm_heap.more (INIT_LIST_HEAD h s) = mm_heap.more s"
  by (simp_all add: INIT_LIST_HEAD_def)

lemma set_nr_fields [heap_simps, simp]:
  "l_next (set_nr i v s) = l_next s" "l_prev (set_nr i v s) = l_prev s"
  "pg_address (set_nr i v s) = pg_address s" "pg_flags (set_nr i v s) = pg_flags s"
  "buddy_list (set_nr i v s) = buddy_list s" "bl_nr (set_nr i v s) = (bl_nr s)(i := v)"
  "mm_heap.more (set_nr i v s) = mm_heap.more s"
  by (simp_all add: set_nr_def)

lemma bl_head_cong: "buddy_list t = buddy_list s \<Longrightarrow> bl_head t = bl_head s"
  by (simp add: bl_head_def fun_eq_iff)

lemma bl_head_fields [heap_simps, simp]:
  "bl_head (set_nr i v s) = bl_head s" "bl_head (raw_list_add x p n s) = bl_head s"
  "bl_head (list_del x s) = bl_head s" "bl_head (list_add x h s) = bl_head s"
  "bl_head (INIT_LIST_HEAD h s) = bl_head s"
  by (rule bl_head_cong, simp)+

lemma ring_set_nr [simp]: "ring (set_nr i v s) h xs = ring s h xs"
  by (rule ring_cong) simp_all

subsection \<open>Blocks of page frames\<close>

text \<open>
  The \<^verbatim>\<open>struct page\<close> of frame \<open>m\<close> is at \<open>pg base m\<close>. \<open>G i\<close> lists the first frames of the
  blocks in \<^verbatim>\<open>buddy_list[i]\<close>, in list order, and \<open>frames (i, m)\<close> are the frames of such a
  block. \<open>buddy_rep base N G s\<close> is the invariant of the allocator: every list is a ring of
  its blocks, the counters count them, all blocks lie inside the \<open>N\<close> frames there are, and
  no frame is in two blocks.
\<close>

definition pg :: "addr \<Rightarrow> nat \<Rightarrow> addr" where
  "pg base m = base + 56 * of_nat m"

definition pages_ok :: "addr \<Rightarrow> nat \<Rightarrow> 'a mm_heap_scheme \<Rightarrow> bool" where
  "pages_ok base N s \<longleftrightarrow> base \<noteq> NULL \<and> unat base + 56 * N < 2 ^ 32 \<and> N < 2 ^ 20 \<and>
     (\<forall>m<N. pg_address s (pg base m) = PAGE_SIZE * of_nat m) \<and>
     (\<forall>i\<in>{0..<10}. \<forall>m<N. bl_head s i \<noteq> pg base m)"

fun frames :: "int \<times> nat \<Rightarrow> nat set" where
  "frames (i, m) = {m..<m + 2 ^ nat i}"

definition blocks :: "(int \<Rightarrow> nat list) \<Rightarrow> (int \<times> nat) set" where
  "blocks G = {(i, m). 0 \<le> i \<and> i < 10 \<and> m \<in> set (G i)}"

definition free_frames :: "(int \<Rightarrow> nat list) \<Rightarrow> nat set" where
  "free_frames G = (\<Union>b\<in>blocks G. frames b)"

definition blocks_ok :: "nat \<Rightarrow> (int \<times> nat) set \<Rightarrow> bool" where
  "blocks_ok N B \<longleftrightarrow> (\<forall>b\<in>B. frames b \<subseteq> {..<N}) \<and>
     (\<forall>b\<in>B. \<forall>c\<in>B. b \<noteq> c \<longrightarrow> frames b \<inter> frames c = {})"

definition buddy_rep :: "addr \<Rightarrow> nat \<Rightarrow> (int \<Rightarrow> nat list) \<Rightarrow> 'a mm_heap_scheme \<Rightarrow> bool" where
  "buddy_rep base N G s \<longleftrightarrow> pages_ok base N s \<and> blocks_ok N (blocks G) \<and>
     family ring s {0..<10} (bl_head s) (\<lambda>i. map (pg base) (G i)) \<and>
     (\<forall>i\<in>{0..<10}. bl_nr s i = int (length (G i)))"

definition heads_ok :: "'a mm_heap_scheme \<Rightarrow> bool" where
  "heads_ok s \<longleftrightarrow> buddy_list s \<noteq> NULL \<and> unat (buddy_list s) + 120 \<le> 2 ^ 32"

definition example_mm :: mm_heap where
  "example_mm = \<lparr>l_next = (\<lambda>_. 0), l_prev = (\<lambda>_. 0),
     pg_address = (\<lambda>a. PAGE_SIZE * ((a - 0x2000) div 56)), pg_flags = (\<lambda>_. SYS_RAM),
     buddy_list = 0x1000, bl_nr = (\<lambda>_. 0)\<rparr>"

text \<open>
  What the operations of the allocator leave alone: everything but the links of the list
  nodes it owns (the \<^verbatim>\<open>struct page\<close>s and the heads of its lists) and the counters.
\<close>

definition bnodes :: "addr \<Rightarrow> nat \<Rightarrow> 'a mm_heap_scheme \<Rightarrow> addr set" where
  "bnodes base N s = bl_head s ` {0..<10} \<union> pg base ` {..<N}"

definition buddy_frame :: "addr \<Rightarrow> nat \<Rightarrow> 'a mm_heap_scheme \<Rightarrow> 'a mm_heap_scheme \<Rightarrow> bool" where
  "buddy_frame base N s t \<longleftrightarrow> pg_address t = pg_address s \<and> pg_flags t = pg_flags s \<and>
     buddy_list t = buddy_list s \<and> mm_heap.more t = mm_heap.more s \<and>
     (\<forall>a. a \<notin> bnodes base N s \<longrightarrow> l_next t a = l_next s a \<and> l_prev t a = l_prev s a)"

lemma pages_okD:
  assumes "pages_ok base N s"
  shows "base \<noteq> NULL" "unat base + 56 * N < 2 ^ 32" "N < 2 ^ 20"
    and "m < N \<Longrightarrow> pg_address s (pg base m) = PAGE_SIZE * of_nat m"
    and "i \<in> {0..<10} \<Longrightarrow> m < N \<Longrightarrow> bl_head s i \<noteq> pg base m"
  using assms unfolding pages_ok_def by blast+

lemma unat_pg:
  assumes "pages_ok base N s" "m \<le> N"
  shows "unat (pg base m) = unat base + 56 * m"
proof -
  have "pg base m = base + of_nat (56 * m)" by (simp add: pg_def)
  moreover have "unat base + 56 * m < 2 ^ 32"
    using pages_okD(2) [OF assms(1)] assms(2) by linarith
  ultimately show ?thesis by (simp only: unat_offset)
qed

lemma pg_inj:
  assumes "pages_ok base N s" "m \<le> N" "k \<le> N"
  shows "pg base m = pg base k \<longleftrightarrow> m = k"
proof
  assume "pg base m = pg base k"
  then have "unat base + 56 * m = unat base + 56 * k"
    using unat_pg [OF assms(1,2)] unat_pg [OF assms(1,3)] by metis
  then show "m = k" by linarith
qed simp

lemma pg_nonnull:
  assumes "pages_ok base N s" "m \<le> N"
  shows "pg base m \<noteq> NULL"
proof
  assume "pg base m = NULL"
  then have "unat base = 0" using unat_pg [OF assms] by simp
  then show False using pages_okD(1) [OF assms(1)] by (simp add: unat_eq_0)
qed

lemma page_add_pg: "0 \<le> i \<Longrightarrow> page_add (pg base m) (kpower i) = pg base (m + 2 ^ nat i)"
  by (simp add: page_add_def pg_def kpower_eq algebra_simps)

lemma frames_nonempty [simp]: "frames b \<noteq> {}" "m \<in> frames (i, m)"
  by (cases b; simp)+

lemma frames_split:
  assumes "0 < k"
  shows "frames (k, m) = frames (k - 1, m) \<union> frames (k - 1, m + 2 ^ nat (k - 1))"
    and "frames (k - 1, m) \<inter> frames (k - 1, m + 2 ^ nat (k - 1)) = {}"
proof -
  have "nat k = Suc (nat (k - 1))" using assms by simp
  then have "(2 :: nat) ^ nat k = 2 ^ nat (k - 1) + 2 ^ nat (k - 1)" by simp
  then show "frames (k, m) = frames (k - 1, m) \<union> frames (k - 1, m + 2 ^ nat (k - 1))"
    "frames (k - 1, m) \<inter> frames (k - 1, m + 2 ^ nat (k - 1)) = {}"
    by auto
qed

lemma blocks_okD:
  "blocks_ok N B \<Longrightarrow> b \<in> B \<Longrightarrow> frames b \<subseteq> {..<N}"
  "blocks_ok N B \<Longrightarrow> b \<in> B \<Longrightarrow> c \<in> B \<Longrightarrow> b \<noteq> c \<Longrightarrow> frames b \<inter> frames c = {}"
  by (auto simp: blocks_ok_def)

lemma blocks_ok_mono: "blocks_ok N B \<Longrightarrow> C \<subseteq> B \<Longrightarrow> blocks_ok N C"
  unfolding blocks_ok_def by (meson subsetD)

lemma blocks_ok_insert:
  assumes "blocks_ok N B" "frames b \<subseteq> {..<N}" "frames b \<inter> (\<Union>c\<in>B. frames c) = {}"
  shows "blocks_ok N (insert b B)"
  using assms unfolding blocks_ok_def by blast

lemma frames_remove:
  assumes "blocks_ok N B" "b \<in> B"
  shows "(\<Union>c\<in>B - {b}. frames c) = (\<Union>c\<in>B. frames c) - frames b"
  using blocks_okD(2) [OF assms] by auto

definition insert_line :: "nat \<Rightarrow> nat list \<Rightarrow> nat list" where
  "insert_line m xs = takeWhile (\<lambda>a. a \<le> m) xs @ m # dropWhile (\<lambda>a. a \<le> m) xs"

text \<open>
  What one pass of \<^verbatim>\<open>buddy_list_tidy\<close> does to a sorted list: the blocks it keeps and the
  blocks of double size it makes.
\<close>

fun tidy_pairs :: "int \<Rightarrow> nat list \<Rightarrow> nat list \<times> nat list" where
  "tidy_pairs i (m # n # ms) =
     (if n = m + 2 ^ nat i then (let (r, q) = tidy_pairs i ms in (r, m # q))
      else (let (r, q) = tidy_pairs i (n # ms) in (m # r, q)))"
| "tidy_pairs i [] = ([], [])"
| "tidy_pairs i [m] = ([m], [])"

subsection \<open>The invariant and the list operations\<close>

lemma buddy_repD:
  assumes "buddy_rep base N G s"
  shows "pages_ok base N s" "blocks_ok N (blocks G)"
    and "family ring s {0..<10} (bl_head s) (\<lambda>i. map (pg base) (G i))"
    and "0 \<le> i \<Longrightarrow> i < 10 \<Longrightarrow> bl_nr s i = int (length (G i))"
    and "0 \<le> i \<Longrightarrow> i < 10 \<Longrightarrow> ring s (bl_head s i) (map (pg base) (G i))"
proof -
  show "pages_ok base N s" "blocks_ok N (blocks G)"
    and fam: "family ring s {0..<10} (bl_head s) (\<lambda>i. map (pg base) (G i))"
    using assms unfolding buddy_rep_def by blast+
  assume "0 \<le> i" "i < 10"
  then have i: "i \<in> {0..<10}" by simp
  show "bl_nr s i = int (length (G i))"
    using assms i unfolding buddy_rep_def by blast
  show "ring s (bl_head s i) (map (pg base) (G i))"
    by (rule kl.family_rep [OF fam i])
qed

lemma mem_blocks: "(i, m) \<in> blocks G \<longleftrightarrow> 0 \<le> i \<and> i < 10 \<and> m \<in> set (G i)"
  by (simp add: blocks_def)

lemma free_framesI: "0 \<le> i \<Longrightarrow> i < 10 \<Longrightarrow> m \<in> set (G i) \<Longrightarrow> frames (i, m) \<subseteq> free_frames G"
  unfolding free_frames_def using mem_blocks by blast

lemma block_in_range:
  assumes "buddy_rep base N G s" "0 \<le> i" "i < 10" "m \<in> set (G i)"
  shows "m + 2 ^ nat i \<le> N" "m < N"
proof -
  have "frames (i, m) \<subseteq> {..<N}"
    using assms blocks_okD(1) [OF buddy_repD(2) [OF assms(1)]] mem_blocks by blast
  moreover have p: "(1 :: nat) \<le> 2 ^ nat i" by simp
  then have "m + 2 ^ nat i - 1 \<in> frames (i, m)"
    using p by (simp only: frames.simps atLeastLessThan_iff) linarith
  ultimately have "m + 2 ^ nat i - 1 < N" by blast
  then show "m + 2 ^ nat i \<le> N" "m < N"
    using p by linarith+
qed

lemma family_set_nr [simp]: "family ring (set_nr i v s) I h f = family ring s I h f"
  by (simp add: family_def)

lemma pages_ok_cong:
  "pg_address t = pg_address s \<Longrightarrow> buddy_list t = buddy_list s \<Longrightarrow> pages_ok base N t = pages_ok base N s"
  unfolding pages_ok_def by (simp add: bl_head_cong [of t s])

lemma blocks_upd_remove:
  "distinct (G k) \<Longrightarrow> G k = xs @ m # ys \<Longrightarrow> blocks (G(k := xs @ ys)) = blocks G - {(k, m)}"
  by (auto simp: blocks_def split: if_splits)

lemma blocks_upd_insert:
  "0 \<le> k \<Longrightarrow> k < 10 \<Longrightarrow> G k = xs @ ys \<Longrightarrow> blocks (G(k := xs @ m # ys)) = insert (k, m) (blocks G)"
  by (auto simp: blocks_def split: if_splits)

lemma buddy_rep_distinct: "buddy_rep base N G s \<Longrightarrow> 0 \<le> i \<Longrightarrow> i < 10 \<Longrightarrow> distinct (G i)"
proof -
  assume "buddy_rep base N G s" "0 \<le> i" "i < 10"
  from kl.rep_distinct [OF buddy_repD(5) [OF this]] show ?thesis
    by (simp add: distinct_map)
qed

lemma map_pg_upd: "(\<lambda>i. map (pg base) ((G(k := xs)) i)) = (\<lambda>i. map (pg base) (G i))(k := map (pg base) xs)"
  by auto

lemma buddy_rep_unlink:
  assumes rep: "buddy_rep base N G s" and k: "0 \<le> k" "k < 10" and G: "G k = xs @ m # ys"
  shows "buddy_rep base N (G(k := xs @ ys)) (set_nr k (bl_nr s k - 1) (list_del (pg base m) s))"
    and "free_frames (G(k := xs @ ys)) = free_frames G - frames (k, m)"
proof -
  let ?s = "set_nr k (bl_nr s k - 1) (list_del (pg base m) s)"
  have B: "blocks (G(k := xs @ ys)) = blocks G - {(k, m)}"
    by (rule blocks_upd_remove [where G = G, OF buddy_rep_distinct [OF rep k] G])
  have mem: "(k, m) \<in> blocks G" using k G by (simp add: mem_blocks)
  show "free_frames (G(k := xs @ ys)) = free_frames G - frames (k, m)"
    unfolding free_frames_def B by (rule frames_remove [OF buddy_repD(2) [OF rep] mem])
  have "family ring (list_del (pg base m) s) {0..<10} (bl_head s)
      ((\<lambda>i. map (pg base) (G i))(k := map (pg base) xs @ map (pg base) ys))"
    by (rule kl.family_unlink [OF buddy_repD(3) [OF rep]]) (use k G in auto)
  then have "family ring ?s {0..<10} (bl_head ?s) (\<lambda>i. map (pg base) ((G(k := xs @ ys)) i))"
    by (simp only: map_pg_upd family_set_nr bl_head_fields map_append)
  moreover have "blocks_ok N (blocks (G(k := xs @ ys)))"
    unfolding B by (rule blocks_ok_mono [OF buddy_repD(2) [OF rep]]) auto
  moreover have "pages_ok base N ?s"
    using buddy_repD(1) [OF rep] by (subst pages_ok_cong) simp_all
  ultimately show "buddy_rep base N (G(k := xs @ ys)) ?s"
    using buddy_repD(4) [OF rep] k G unfolding buddy_rep_def by simp
qed

lemma buddy_rep_fresh:
  assumes rep: "buddy_rep base N G s" and m: "m < N" "m \<notin> free_frames G" and j: "j \<in> {0..<10}"
  shows "pg base m \<notin> set (bl_head s j # map (pg base) (G j))"
proof
  assume "pg base m \<in> set (bl_head s j # map (pg base) (G j))"
  moreover have "bl_head s j \<noteq> pg base m"
    by (rule pages_okD(5) [OF buddy_repD(1) [OF rep] j m(1)])
  ultimately obtain n where n: "n \<in> set (G j)" "pg base m = pg base n" by auto
  moreover have "n < N" using block_in_range(2) [OF rep _ _ n(1)] j by simp
  ultimately have "m \<in> set (G j)"
    using pg_inj [OF buddy_repD(1) [OF rep], of m n] m(1) by simp
  then have "frames (j, m) \<subseteq> free_frames G"
    using free_framesI j by simp
  then show False
    using m(2) frames_nonempty(2) [of m j] by blast
qed

lemma buddy_rep_link:
  assumes rep: "buddy_rep base N G s" and k: "0 \<le> k" "k < 10" and G: "G k = xs @ ys"
    and m: "frames (k, m) \<subseteq> {..<N}" "frames (k, m) \<inter> free_frames G = {}"
  shows "buddy_rep base N (G(k := xs @ m # ys)) (set_nr k (bl_nr s k + 1)
      (raw_list_add (pg base m) (last (bl_head s k # map (pg base) xs)) (hd (map (pg base) ys @ [bl_head s k])) s))"
    (is "buddy_rep _ _ _ (set_nr _ _ ?l)")
    and "free_frames (G(k := xs @ m # ys)) = free_frames G \<union> frames (k, m)"
proof -
  let ?s = "set_nr k (bl_nr s k + 1) ?l"
  have B: "blocks (G(k := xs @ m # ys)) = insert (k, m) (blocks G)"
    by (rule blocks_upd_insert [where G = G, OF k G])
  then show "free_frames (G(k := xs @ m # ys)) = free_frames G \<union> frames (k, m)"
    unfolding free_frames_def by auto
  have mN: "m < N" "m \<notin> free_frames G" using m frames_nonempty(2) [of m k] by blast+
  have "family ring ?l {0..<10} (bl_head s)
      ((\<lambda>i. map (pg base) (G i))(k := map (pg base) xs @ pg base m # map (pg base) ys))"
    by (rule kl.family_link [OF buddy_repD(3) [OF rep]])
      (use k G buddy_rep_fresh [OF rep mN] pg_nonnull [OF buddy_repD(1) [OF rep]] mN in auto)
  then have "family ring ?s {0..<10} (bl_head ?s) (\<lambda>i. map (pg base) ((G(k := xs @ m # ys)) i))"
    by (simp only: map_pg_upd family_set_nr bl_head_fields map_append list.map)
  moreover have "blocks_ok N (blocks (G(k := xs @ m # ys)))"
    unfolding B by (rule blocks_ok_insert [OF buddy_repD(2) [OF rep] m(1)]) (use m(2) in \<open>simp add: free_frames_def\<close>)
  moreover have "pages_ok base N ?s"
    using buddy_repD(1) [OF rep] by (subst pages_ok_cong) simp_all
  ultimately show "buddy_rep base N (G(k := xs @ m # ys)) ?s"
    using buddy_repD(4) [OF rep] k G unfolding buddy_rep_def by (simp del: last.simps)
qed

lemma bnodes_cong: "buddy_list t = buddy_list s \<Longrightarrow> bnodes base N t = bnodes base N s"
  unfolding bnodes_def by (simp add: bl_head_cong [of t s])

lemma buddy_frame_refl [simp]: "buddy_frame base N s s"
  by (simp add: buddy_frame_def)

lemma buddy_frame_trans [trans]:
  assumes "buddy_frame base N s t" "buddy_frame base N t u"
  shows "buddy_frame base N s u"
proof -
  have "bnodes base N t = bnodes base N s"
    by (rule bnodes_cong) (use assms(1) in \<open>simp add: buddy_frame_def\<close>)
  then show ?thesis using assms unfolding buddy_frame_def by simp
qed

lemma buddy_frame_set_nr [simp]: "buddy_frame base N s (set_nr i v t) = buddy_frame base N s t"
  by (simp add: buddy_frame_def)

lemma ring_in_bnodes:
  assumes "buddy_rep base N G s" "0 \<le> k" "k < 10"
  shows "set (bl_head s k # map (pg base) (G k)) \<subseteq> bnodes base N s"
  using block_in_range(2) [OF assms] assms(2,3) by (auto simp: bnodes_def)

lemma buddy_frame_unlink:
  assumes rep: "buddy_rep base N G s" and k: "0 \<le> k" "k < 10" and G: "G k = xs @ m # ys"
  shows "buddy_frame base N s (list_del (pg base m) s)"
proof -
  let ?h = "bl_head s k" and ?xs = "map (pg base) xs" and ?ys = "map (pg base) ys"
  have r: "ring s ?h (?xs @ pg base m # ?ys)" using buddy_repD(5) [OF rep k] G by simp
  have "{last (?h # ?xs), hd (?ys @ [?h]), pg base m} \<subseteq> set (?h # map (pg base) (G k))"
    using last_in_insert [of ?h ?xs] hd_snoc_in [of ?ys ?h] G by auto
  then have "{last (?h # ?xs), hd (?ys @ [?h]), pg base m} \<subseteq> bnodes base N s"
    using ring_in_bnodes [OF rep k] by blast
  then show ?thesis
    using list_del_fields [OF ring_neighbours(1-4) [OF r]]
    by (auto simp: buddy_frame_def simp del: last.simps)
qed

lemma buddy_frame_link:
  assumes rep: "buddy_rep base N G s" and k: "0 \<le> k" "k < 10" and G: "G k = xs @ ys" and m: "m < N"
  shows "buddy_frame base N s (raw_list_add (pg base m) (last (bl_head s k # map (pg base) xs))
    (hd (map (pg base) ys @ [bl_head s k])) s)"
proof -
  let ?h = "bl_head s k" and ?xs = "map (pg base) xs" and ?ys = "map (pg base) ys"
  have "{last (?h # ?xs), hd (?ys @ [?h])} \<subseteq> set (?h # map (pg base) (G k))"
    using last_in_insert [of ?h ?xs] hd_snoc_in [of ?ys ?h] G by auto
  then have "{last (?h # ?xs), hd (?ys @ [?h]), pg base m} \<subseteq> bnodes base N s"
    using ring_in_bnodes [OF rep k] m by (auto simp: bnodes_def)
  then show ?thesis
    by (auto simp: buddy_frame_def raw_list_add_fields simp del: last.simps)
qed

lemma buddy_list_del_rep:
  assumes rep: "buddy_rep base N G s" and k: "0 \<le> k" "k < 10" and G: "G k = m # ms"
  shows "\<exists>s'. buddy_list_del (bl_head s k) k (Some e) s = Some ((0, Some (pg base m)), s') \<and>
    buddy_rep base N (G(k := ms)) s' \<and> buddy_frame base N s s'"
proof -
  have r: "ring s (bl_head s k) (pg base m # map (pg base) ms)"
    using buddy_repD(5) [OF rep k] G by simp
  then have "buddy_list_del (bl_head s k) k (Some e) s
      = Some ((0, Some (pg base m)), set_nr k (bl_nr s k - 1) (list_del (pg base m) s))"
    using k ring_list_get_head_del [OF r, of e] ring_nonnull(1) [OF r] by (simp add: buddy_list_del_def)
  then show ?thesis
    using buddy_rep_unlink(1) [OF rep k, of "[]" m ms] buddy_frame_unlink [OF rep k, of "[]" m ms] G by simp
qed

lemma buddy_list_add_rep:
  assumes rep: "buddy_rep base N G s" and k: "0 \<le> k" "k < 10"
    and m: "frames (k, m) \<subseteq> {..<N}" "frames (k, m) \<inter> free_frames G = {}"
  shows "\<exists>s'. buddy_list_add (pg base m) k s = Some (0, s') \<and>
    buddy_rep base N (G(k := G k @ [m])) s' \<and> buddy_frame base N s s'"
proof -
  have r: "ring s (bl_head s k) (map (pg base) (G k))" by (rule buddy_repD(5) [OF rep k])
  have "m < N" using m(1) frames_nonempty(2) [of m k] by blast
  then have nn: "pg base m \<noteq> NULL" using pg_nonnull [OF buddy_repD(1) [OF rep]] by simp
  have "list_add (pg base m) (bl_head s k) s
      = raw_list_add (pg base m) (last (bl_head s k # map (pg base) (G k))) (bl_head s k) s"
    using nn ring_last [OF r] by (simp add: list_add_head_def del: last.simps)
  then show ?thesis
    using buddy_rep_link(1) [OF rep k _ m, of "G k" "[]"]
      buddy_frame_link [OF rep k _ \<open>m < N\<close>, of "G k" "[]"] nn k
    by (simp add: buddy_list_add_def Let_def del: last.simps)
qed

lemma page_address_less:
  assumes "pages_ok base N s" "m < N" "n < N"
  shows "pg_address s (pg base m) < pg_address s (pg base n) \<longleftrightarrow> m < n"
proof -
  have u: "unat (PAGE_SIZE * of_nat k) = 4096 * k" if "k < N" for k
  proof -
    have "4096 * k < 2 ^ 32" using that pages_okD(3) [OF assms(1)] by simp
    then show ?thesis
      using unat_of_nat [of "4096 * k", where 'a = 32] by (simp add: take_bit_nat_eq_self)
  qed
  show ?thesis
    unfolding pages_okD(4) [OF assms(1,2)] pages_okD(4) [OF assms(1,3)] word_less_nat_alt
      u [OF assms(2)] u [OF assms(3)] by simp
qed

lemma prefix_unique:
  assumes "xs @ ys = us @ vs" "\<forall>a\<in>set xs. P a" "ys = [] \<or> \<not> P (hd ys)"
    "\<forall>a\<in>set us. P a" "vs = [] \<or> \<not> P (hd vs)"
  shows "xs = us" "ys = vs"
proof -
  have "takeWhile P (xs @ ys) = xs" "dropWhile P (xs @ ys) = ys" "takeWhile P (us @ vs) = us"
    "dropWhile P (us @ vs) = vs"
    using assms(2-5) by (cases ys; cases vs; simp)+
  then show "xs = us" "ys = vs" using assms(1) by auto
qed

lemma buddy_list_add_line_rep:
  assumes rep: "buddy_rep base N G s" and k: "0 \<le> k" "k < 10"
    and m: "frames (k, m) \<subseteq> {..<N}" "frames (k, m) \<inter> free_frames G = {}"
  shows "\<exists>s'. buddy_list_add_line (pg base m) k s = Some (0, s') \<and>
    buddy_rep base N (G(k := insert_line m (G k))) s' \<and> buddy_frame base N s s'"
proof -
  let ?h = "bl_head s k" and ?xs = "takeWhile (\<lambda>a. a \<le> m) (G k)" and ?ys = "dropWhile (\<lambda>a. a \<le> m) (G k)"
  have r: "ring s ?h (map (pg base) (G k))" by (rule buddy_repD(5) [OF rep k])
  have mN: "m < N" using m(1) frames_nonempty(2) [of m k] by blast
  then have nn: "pg base m \<noteq> NULL" using pg_nonnull [OF buddy_repD(1) [OF rep]] by simp
  let ?s = "set_nr k (bl_nr s k + 1) (raw_list_add (pg base m) (last (?h # map (pg base) ?xs)) (hd (map (pg base) ?ys @ [?h])) s)"
  have "buddy_list_add_line (pg base m) k s = Some (0, ?s)"
  proof (cases "G k = []")
    case True
    then show ?thesis
      using r nn k ring_empty_iff(1) [OF r] ring_last [OF r]
      by (simp add: buddy_list_add_line_def list_add_head_def Let_def)
  next
    case False
    let ?before = "\<lambda>pos. pg_address s (pg base m) < pg_address s pos"
    have before: "?before (pg base n) \<longleftrightarrow> m < n" if "n \<in> set (G k)" for n
      by (rule page_address_less [OF buddy_repD(1) [OF rep] mN block_in_range(2) [OF rep k that]])
    have "\<exists>us vs. [] @ map (pg base) (G k) = us @ vs \<and> (\<forall>a\<in>set us. \<not> ?before a) \<and> (vs \<noteq> [] \<longrightarrow> ?before (hd vs)) \<and>
      list_add_line_loop ?before (pg base m) ?h (hd (map (pg base) (G k))) (l_next s (hd (map (pg base) (G k)))) s =
        Some (True, raw_list_add (pg base m) (last (?h # us)) (hd (vs @ [?h])) s)"
      by (rule list_add_line_loop_ring) (use r False in auto)
    then obtain us vs where uv: "map (pg base) (G k) = us @ vs" "\<forall>a\<in>set us. \<not> ?before a"
      "vs \<noteq> [] \<longrightarrow> ?before (hd vs)"
      "list_add_line_loop ?before (pg base m) ?h (hd (map (pg base) (G k))) (l_next s (hd (map (pg base) (G k)))) s =
        Some (True, raw_list_add (pg base m) (last (?h # us)) (hd (vs @ [?h])) s)"
      unfolding append_Nil by blast
    have eq: "map (pg base) ?xs @ map (pg base) ?ys = us @ vs"
      using uv(1) by (metis map_append takeWhile_dropWhile_id)
    have xs: "\<forall>a\<in>set (map (pg base) ?xs). \<not> ?before a"
      using before by (auto dest!: set_takeWhileD)
    have ys: "map (pg base) ?ys = [] \<or> \<not> \<not> ?before (hd (map (pg base) ?ys))"
    proof (cases "?ys = []")
      case False
      then have "hd ?ys \<in> set (G k)" by (meson hd_in_set set_dropWhileD)
      moreover have "m < hd ?ys" using hd_dropWhile [OF False] by simp
      ultimately have "?before (pg base (hd ?ys))" using before by blast
      then show ?thesis using False by (simp only: list.map_sel not_not simp_thms)
    qed simp
    have vs: "vs = [] \<or> \<not> \<not> ?before (hd vs)" using uv(3) by blast
    note prefix_unique [OF eq xs ys uv(2) vs]
    moreover have "l_next s ?h = hd (map (pg base) (G k))"
      using ring_first [OF r] False by (cases "G k") auto
    moreover have "\<not> list_empty_careful ?h s"
      using ring_empty_iff(1) [OF r] False by simp
    ultimately show ?thesis
      using uv(4) nn k by (simp add: buddy_list_add_line_def Let_def del: last.simps)
  qed
  then show ?thesis
    using buddy_rep_link(1) [OF rep k _ m, of ?xs ?ys] buddy_frame_link [OF rep k _ mN, of ?xs ?ys]
    by (simp add: insert_line_def del: last.simps)
qed

subsection \<open>Merging neighbours\<close>

lemma list_del_set_nr: "list_del x (set_nr i v s) = set_nr i v (list_del x s)"
  by (simp add: list_del_def raw_list_del_def set_nr_def set_next_def set_prev_def Let_def)

lemma is_pageclosed_iff:
  assumes ok: "pages_ok base N s" and i: "0 \<le> i" "i < 10" and m: "m + 2 ^ nat i \<le> N" "n + 2 ^ nat i \<le> N" "m < n"
  shows "is_pageclosed (pg base m) (pg base n) i s \<longleftrightarrow> n = m + 2 ^ nat i"
proof -
  have N: "N < 2 ^ 20" by (rule pages_okD(3) [OF ok])
  have p: "(1 :: nat) \<le> 2 ^ nat i" by simp
  have less: "m < N" "n < N" using m p by linarith+
  then have nn: "pg base m \<noteq> NULL" "pg base n \<noteq> NULL" using pg_nonnull [OF ok] by simp_all
  have *: "PAGE_SIZE * of_nat a = PAGE_SIZE * of_nat b \<longleftrightarrow> a = b" if "a < 2 ^ 20" "b < 2 ^ 20" for a b
  proof -
    have "(of_nat (4096 * a) :: u32) = of_nat (4096 * b) \<longleftrightarrow> 4096 * a = 4096 * b"
      using that addr_offset_eq [of "4096 * a" "4096 * b" 0] by simp
    then show ?thesis by simp
  qed
  have "pg_address s (pg base m) + kpower i * PAGE_SIZE = PAGE_SIZE * of_nat (m + 2 ^ nat i)"
    using pages_okD(4) [OF ok less(1)] i by (simp add: kpower_eq algebra_simps)
  then have fwd: "pg_address s (pg base m) + kpower i * PAGE_SIZE = pg_address s (pg base n) \<longleftrightarrow> m + 2 ^ nat i = n"
    unfolding pages_okD(4) [OF ok less(2)] using * [of "m + 2 ^ nat i" n] m N less by simp
  have "pg_address s (pg base m) - kpower i * PAGE_SIZE = pg_address s (pg base n)
      \<longleftrightarrow> pg_address s (pg base m) = PAGE_SIZE * of_nat (n + 2 ^ nat i)"
    unfolding pages_okD(4) [OF ok less(2)] using i by (auto simp add: kpower_eq algebra_simps)
  also have "\<dots> \<longleftrightarrow> m = n + 2 ^ nat i"
    unfolding pages_okD(4) [OF ok less(1)] using * [of m "n + 2 ^ nat i"] m N less by simp
  finally show ?thesis
    using fwd nn m(3) by (auto simp: is_pageclosed_def Let_def)
qed

lemma tidy_merge:
  assumes rep: "buddy_rep base N G s" and i: "0 \<le> i" "i < 9"
    and G: "G i = xs @ m # n # ms" and n: "n = m + 2 ^ nat i"
  defines "s1 \<equiv> set_nr i (bl_nr s i - 2) (list_del (pg base m) (list_del (pg base n) s))"
  defines "G' \<equiv> G(i := xs @ ms, i + 1 := G (i + 1) @ [m])"
  shows "buddy_rep base N G' (set_nr (i + 1) (bl_nr s1 (i + 1) + 1) (list_add (pg base m) (bl_head s1 (i + 1)) s1))"
    and "free_frames G' = free_frames G"
proof -
  let ?G1 = "G(i := (xs @ [m]) @ ms)" and ?G2 = "G(i := xs @ ms)"
  let ?t = "set_nr i (bl_nr s i - 1) (list_del (pg base n) s)"
  have i10: "i < 10" using i by simp
  have G1: "G i = (xs @ [m]) @ n # ms" using G by simp
  note r1 = buddy_rep_unlink [OF rep i(1) i10 G1]
  have "?G1 i = xs @ m # ms" by simp
  note r2 = buddy_rep_unlink [OF r1(1) i(1) i10 this]
  have s1: "set_nr i (bl_nr ?t i - 1) (list_del (pg base m) ?t) = s1"
    by (simp add: s1_def list_del_set_nr)
  have rep1: "buddy_rep base N ?G2 s1" using r2(1) unfolding s1 fun_upd_upd .
  have fr: "frames (i + 1, m) = frames (i, m) \<union> frames (i, n)"
    using frames_split(1) [of "i + 1" m] i n by simp
  have mem: "m \<in> set (G i)" "n \<in> set (G i)" using G by auto
  have sub: "frames (i + 1, m) \<subseteq> free_frames G"
    using free_framesI [where G = G, OF i(1) i10 mem(1)] free_framesI [where G = G, OF i(1) i10 mem(2)] fr by blast
  have ff: "free_frames ?G2 = free_frames G - frames (i + 1, m)"
    using r2(2) r1(2) fr unfolding fun_upd_upd by blast
  have sN: "frames (i + 1, m) \<subseteq> {..<N}"
    using blocks_okD(1) [OF buddy_repD(2) [OF rep], of "(i, m)"] blocks_okD(1) [OF buddy_repD(2) [OF rep], of "(i, n)"]
      mem i fr mem_blocks by simp
  have dj: "frames (i + 1, m) \<inter> free_frames ?G2 = {}" using ff by blast
  have G2: "?G2 (i + 1) = G (i + 1) @ []" by simp
  have i1: "0 \<le> i + 1" "i + 1 < 10" using i by simp_all
  have link: "buddy_rep base N (?G2(i + 1 := G (i + 1) @ [m])) (set_nr (i + 1) (bl_nr s1 (i + 1) + 1)
      (raw_list_add (pg base m) (last (bl_head s1 (i + 1) # map (pg base) (G (i + 1)))) (hd (map (pg base) [] @ [bl_head s1 (i + 1)])) s1))"
    and link_ff: "free_frames (?G2(i + 1 := G (i + 1) @ [m])) = free_frames ?G2 \<union> frames (i + 1, m)"
    by (rule buddy_rep_link [OF rep1 i1 G2 sN dj])+
  from link_ff show "free_frames G' = free_frames G" using ff sub unfolding G'_def by blast
  have r: "ring s1 (bl_head s1 (i + 1)) (map (pg base) (G (i + 1)))"
    using buddy_repD(5) [OF rep1, of "i + 1"] i by simp
  have "pg base m \<noteq> NULL"
    using pg_nonnull [OF buddy_repD(1) [OF rep]] block_in_range(2) [OF rep i(1) i10 mem(1)] by simp
  then show "buddy_rep base N G' (set_nr (i + 1) (bl_nr s1 (i + 1) + 1) (list_add (pg base m) (bl_head s1 (i + 1)) s1))"
    using link ring_last [OF r] unfolding G'_def by (simp add: list_add_head_def del: last.simps)
qed

lemma tidy_loop_stop: "pos = head \<Longrightarrow> tidy_loop i head pos s = Some s"
  by (subst tidy_loop.simps) simp

lemma tidy_loop_skip:
  "pos \<noteq> NULL \<Longrightarrow> pos \<noteq> head \<Longrightarrow> l_next s pos = head \<or> \<not> is_pageclosed pos (l_next s pos) i s \<Longrightarrow>
   tidy_loop i head pos s = tidy_loop i head (l_next s pos) s"
  by (subst tidy_loop.simps) auto

lemma tidy_loop_rep:
  assumes "buddy_rep base N G s" "0 \<le> i" "i < 9" "G i = xs @ ys" "sorted_wrt (<) ys" "tidy_pairs i ys = (r, q)"
  shows "\<exists>s'. tidy_loop i (bl_head s i) (hd (map (pg base) ys @ [bl_head s i])) s = Some s' \<and>
    buddy_rep base N (G(i := xs @ r, i + 1 := G (i + 1) @ q)) s' \<and>
    free_frames (G(i := xs @ r, i + 1 := G (i + 1) @ q)) = free_frames G"
  using assms
proof (induction i ys arbitrary: G s xs r q rule: tidy_pairs.induct)
  case (1 i m n ms)
  note rep = 1(3) and i = 1(4,5) and G = 1(6)
  have i10: "i < 10" using i by simp
  let ?h = "bl_head s i"
  have ring: "ring s ?h (map (pg base) xs @ pg base m # pg base n # map (pg base) ms)"
    using buddy_repD(5) [OF rep i(1) i10] G by simp
  have mn: "m \<in> set (G i)" "n \<in> set (G i)" "m < n" using G 1(7) by auto
  have dist: "pg base m \<noteq> NULL" "pg base m \<noteq> ?h" "pg base n \<noteq> ?h"
    using kl.rep_distinct [OF ring] kl.rep_nonnull [OF ring] by auto
  have nx: "l_next s (pg base m) = pg base n"
    using ring_neighbours(2) [OF ring] by simp
  have closed: "is_pageclosed (pg base m) (pg base n) i s \<longleftrightarrow> n = m + 2 ^ nat i"
    by (rule is_pageclosed_iff [OF buddy_repD(1) [OF rep] i(1) i10
        block_in_range(1) [OF rep i(1) i10 mn(1)] block_in_range(1) [OF rep i(1) i10 mn(2)] mn(3)])
  show ?case
  proof (cases "n = m + 2 ^ nat i")
    case True
    obtain r' q' where rq: "tidy_pairs i ms = (r', q')" by force
    with True 1(8) have q: "r = r'" "q = m # q'" by auto
    let ?s1 = "set_nr i (bl_nr s i - 2) (list_del (pg base m) (list_del (pg base n) s))"
    let ?s2 = "set_nr (i + 1) (bl_nr ?s1 (i + 1) + 1) (list_add (pg base m) (bl_head ?s1 (i + 1)) ?s1)"
    let ?G = "G(i := xs @ ms, i + 1 := G (i + 1) @ [m])"
    note merge = tidy_merge [OF rep i G True]
    have "l_next s (pg base n) = hd (map (pg base) ms @ [?h])"
      using ring_neighbours(2) [of s ?h "map (pg base) xs @ [pg base m]" "pg base n" "map (pg base) ms"] ring by simp
    then have "tidy_loop i ?h (pg base m) s = tidy_loop i ?h (hd (map (pg base) ms @ [?h])) ?s2"
      using dist nx closed True by (subst tidy_loop.simps) (simp add: Let_def)
    moreover have "\<exists>s'. tidy_loop i (bl_head ?s2 i) (hd (map (pg base) ms @ [bl_head ?s2 i])) ?s2 = Some s' \<and>
        buddy_rep base N (?G(i := xs @ r', i + 1 := ?G (i + 1) @ q')) s' \<and>
        free_frames (?G(i := xs @ r', i + 1 := ?G (i + 1) @ q')) = free_frames ?G"
      by (rule 1(1) [OF True merge(1) i _ _ rq]) (use 1(7) in simp_all)
    moreover have "?G(i := xs @ r', i + 1 := ?G (i + 1) @ q') = G(i := xs @ r, i + 1 := G (i + 1) @ q)"
      using q by auto
    ultimately show ?thesis using merge(2) by (simp del: fun_upd_apply)
  next
    case False
    obtain r' q' where rq: "tidy_pairs i (n # ms) = (r', q')" by force
    with False 1(8) have q: "r = m # r'" "q = q'" by auto
    have "tidy_loop i ?h (pg base m) s = tidy_loop i ?h (pg base n) s"
      using tidy_loop_skip [of "pg base m" ?h s i] dist nx closed False by simp
    moreover have "\<exists>s'. tidy_loop i ?h (hd (map (pg base) (n # ms) @ [?h])) s = Some s' \<and>
        buddy_rep base N (G(i := (xs @ [m]) @ r', i + 1 := G (i + 1) @ q')) s' \<and>
        free_frames (G(i := (xs @ [m]) @ r', i + 1 := G (i + 1) @ q')) = free_frames G"
      by (rule 1(2) [OF False rep i _ _ rq]) (use 1(7) G in simp_all)
    ultimately show ?thesis using q by (simp del: fun_upd_apply)
  qed
next
  case (2 i)
  then show ?case
    using tidy_loop_stop [of "bl_head s i" "bl_head s i" i s] by (auto simp: fun_upd_idem)
next
  case (3 i m)
  then have i10: "i < 10" by simp
  let ?h = "bl_head s i"
  have ring: "ring s ?h (map (pg base) xs @ pg base m # [])"
    using buddy_repD(5) [OF 3(1,2) i10] 3(4) by simp
  have "pg base m \<noteq> NULL" "pg base m \<noteq> ?h"
    using kl.rep_distinct [OF ring] kl.rep_nonnull [OF ring] by auto
  moreover have "l_next s (pg base m) = ?h"
    using ring_neighbours(2) [OF ring] by simp
  ultimately have "tidy_loop i ?h (pg base m) s = Some s"
    using tidy_loop_skip [of "pg base m" ?h s i] tidy_loop_stop by auto
  then show ?case using 3 by (auto simp: fun_upd_idem)
qed

lemma tidy_pairs_subset: "tidy_pairs i ys = (r, q) \<Longrightarrow> set r \<subseteq> set ys \<and> set q \<subseteq> set ys"
  by (induction i ys arbitrary: r q rule: tidy_pairs.induct) (auto split: if_splits prod.splits)

lemma tidy_pairs_sorted:
  "tidy_pairs i ys = (r, q) \<Longrightarrow> sorted_wrt (<) ys \<Longrightarrow> sorted_wrt (<) r \<and> sorted_wrt (<) q"
proof (induction i ys arbitrary: r q rule: tidy_pairs.induct)
  case (1 i m n ms)
  obtain r1 q1 where t1: "tidy_pairs i ms = (r1, q1)" by force
  obtain r2 q2 where t2: "tidy_pairs i (n # ms) = (r2, q2)" by force
  note s = tidy_pairs_subset [OF t1] tidy_pairs_subset [OF t2]
  show ?case
  proof (cases "n = m + 2 ^ nat i")
    case True
    then have "r = r1" "q = m # q1" using 1(3) t1 by auto
    moreover have "sorted_wrt (<) r1 \<and> sorted_wrt (<) q1"
      using 1(1) [OF True t1] 1(4) by simp
    ultimately show ?thesis using s(1) 1(4) by auto
  next
    case False
    then have "r = m # r2" "q = q2" using 1(3) t2 by auto
    moreover have "sorted_wrt (<) r2 \<and> sorted_wrt (<) q2"
      using 1(2) [OF False t2] 1(4) by simp
    moreover have "\<forall>x\<in>set r2. m < x" using s(2) 1(4) by auto
    ultimately show ?thesis by simp
  qed
qed auto

lemma tidy_pairs_tidied:
  "tidy_pairs i ys = (r, q) \<Longrightarrow> sorted_wrt (\<lambda>a b. a + 2 ^ nat i \<le> b) ys \<Longrightarrow> \<forall>m\<in>set r. m + 2 ^ nat i \<notin> set r"
proof (induction i ys arbitrary: r q rule: tidy_pairs.induct)
  case (1 i m n ms)
  obtain r1 q1 where t1: "tidy_pairs i ms = (r1, q1)" by force
  obtain r2 q2 where t2: "tidy_pairs i (n # ms) = (r2, q2)" by force
  have p: "(0 :: nat) < 2 ^ nat i" by simp
  show ?case
  proof (cases "n = m + 2 ^ nat i")
    case True
    then have "r = r1" using 1(3) t1 by auto
    then show ?thesis using 1(1) [OF True t1] 1(4) by simp
  next
    case False
    then have r: "r = m # r2" using 1(3) t2 by auto
    have IH: "\<forall>m\<in>set r2. m + 2 ^ nat i \<notin> set r2"
      using 1(2) [OF False t2] 1(4) by simp
    have "x \<in> set (n # ms) \<Longrightarrow> m + 2 ^ nat i < x" for x
      using 1(4) False p by fastforce
    then have gap: "\<forall>x\<in>set r2. m + 2 ^ nat i < x" using tidy_pairs_subset [OF t2] by blast
    then show ?thesis using r IH p by fastforce
  qed
qed auto

lemma buddy_rep_spaced:
  assumes rep: "buddy_rep base N G s" and i: "0 \<le> i" "i < 10" and "sorted_wrt (<) (G i)"
  shows "sorted_wrt (\<lambda>a b. a + 2 ^ nat i \<le> b) (G i)"
proof -
  have "a + 2 ^ nat i \<le> b" if "a < b" "a \<in> set (G i)" "b \<in> set (G i)" for a b
  proof (rule ccontr)
    assume "\<not> a + 2 ^ nat i \<le> b"
    then have "b \<in> frames (i, a)" using that by simp
    moreover have "frames (i, a) \<inter> frames (i, b) = {}"
      using blocks_okD(2) [OF buddy_repD(2) [OF rep], of "(i, a)" "(i, b)"] that i mem_blocks by blast
    ultimately show False using frames_nonempty(2) [of b i] by blast
  qed
  then show ?thesis
    using assms(4) by (auto intro: sorted_wrt_mono_rel [rotated])
qed

lemma buddy_list_tidy_loop_rep:
  assumes "buddy_rep base N G s" "0 \<le> i" "i \<le> 9" "sorted_wrt (<) (G i)" "\<forall>j\<in>{i + 1..<10}. G j = []"
    "\<forall>j\<in>{0..<i}. sorted_wrt (<) (G j) \<and> (\<forall>m\<in>set (G j). m + 2 ^ nat j \<notin> set (G j))"
  shows "\<exists>s' G'. buddy_list_tidy_loop [i..8] s = Some (0, s') \<and> buddy_rep base N G' s' \<and>
    free_frames G' = free_frames G \<and>
    (\<forall>j\<in>{0..<9}. sorted_wrt (<) (G' j) \<and> (\<forall>m\<in>set (G' j). m + 2 ^ nat j \<notin> set (G' j))) \<and> sorted_wrt (<) (G' 9)"
  using assms
proof (induction "nat (9 - i)" arbitrary: i G s)
  case 0
  then have "i = 9" by simp
  then show ?case using 0 by auto
next
  case (Suc k)
  note rep = Suc.prems(1)
  have i: "i < 9" "i \<le> 8" using Suc by simp_all
  then have upt: "[i..8] = i # [i + 1..8]" by (simp add: upto_rec1)
  have nr: "bl_nr s i = int (length (G i))" using buddy_repD(4) [OF rep] Suc.prems i by simp
  show ?case
  proof (cases "G i = []")
    case True
    have "G j = []" if "j \<in> {i..<9}" for j
      using True Suc.prems(5) that by (cases "j = i") auto
    then have "\<forall>j\<in>{i..<9}. G j = []" by blast
    then have "\<forall>j\<in>{0..<9}. sorted_wrt (<) (G j) \<and> (\<forall>m\<in>set (G j). m + 2 ^ nat j \<notin> set (G j))"
      using Suc.prems(6) by (metis atLeastLessThan_iff empty_iff list.set(1) not_le sorted_wrt.simps(1))
    moreover have "G 9 = []" using Suc.prems(5) i by simp
    ultimately show ?thesis using True nr rep by (auto simp: upt)
  next
    case False
    obtain r q where t: "tidy_pairs i (G i) = (r, q)" by force
    let ?G = "G(i := r, i + 1 := q)"
    have "G (i + 1) = []" using Suc.prems(5) i by simp
    moreover have "l_next s (bl_head s i) = hd (map (pg base) (G i) @ [bl_head s i])"
      using ring_first [OF buddy_repD(5) [OF rep]] Suc.prems i by simp
    ultimately obtain s1 where s1: "tidy_loop i (bl_head s i) (l_next s (bl_head s i)) s = Some s1"
      "buddy_rep base N ?G s1" "free_frames ?G = free_frames G"
      using tidy_loop_rep [OF rep Suc.prems(2) i(1), of "[]" "G i" r q] Suc.prems(4) t by auto
    have srt: "sorted_wrt (<) r" "sorted_wrt (<) q"
      using tidy_pairs_sorted [OF t Suc.prems(4)] by auto
    have "\<forall>m\<in>set r. m + 2 ^ nat i \<notin> set r"
      by (rule tidy_pairs_tidied [OF t buddy_rep_spaced [OF rep]]) (use Suc.prems i in auto)
    then have done_: "\<forall>j\<in>{0..<i + 1}. sorted_wrt (<) (?G j) \<and> (\<forall>m\<in>set (?G j). m + 2 ^ nat j \<notin> set (?G j))"
      using Suc.prems(6) srt by auto
    have "\<exists>s' G'. buddy_list_tidy_loop [i + 1..8] s1 = Some (0, s') \<and> buddy_rep base N G' s' \<and>
        free_frames G' = free_frames ?G \<and>
        (\<forall>j\<in>{0..<9}. sorted_wrt (<) (G' j) \<and> (\<forall>m\<in>set (G' j). m + 2 ^ nat j \<notin> set (G' j))) \<and> sorted_wrt (<) (G' 9)"
      by (rule Suc.hyps(1) [OF _ s1(2) _ _ _ _ done_]) (use Suc.hyps(2) Suc.prems srt i in auto)
    then show ?thesis
      using s1 False nr by (simp add: upt Let_def)
  qed
qed

subsection \<open>Initialisation\<close>

lemma ring_Nil_iff: "ring s h [] \<longleftrightarrow> h \<noteq> NULL \<and> l_next s h = h \<and> l_prev s h = h"
  by (auto simp: ring_def)

lemma INIT_LIST_HEAD_fields:
  "l_next (INIT_LIST_HEAD h s) = (l_next s)(h := h)" "l_prev (INIT_LIST_HEAD h s) = (l_prev s)(h := h)"
  by (simp_all add: INIT_LIST_HEAD_def Let_def)

lemma buddy_list_init_loop_fields:
  "l_next (buddy_list_init_loop is s) a = (if a \<in> bl_head s ` set is then a else l_next s a)"
  "l_prev (buddy_list_init_loop is s) a = (if a \<in> bl_head s ` set is then a else l_prev s a)"
  "bl_nr (buddy_list_init_loop is s) i = (if i \<in> set is then 0 else bl_nr s i)"
  "pg_address (buddy_list_init_loop is s) = pg_address s"
  "pg_flags (buddy_list_init_loop is s) = pg_flags s"
  "buddy_list (buddy_list_init_loop is s) = buddy_list s"
  by (induction "is" arbitrary: s) (auto simp: Let_def INIT_LIST_HEAD_fields)

lemma unat_bl_head:
  assumes "heads_ok s" "i \<in> {0..<10}"
  shows "unat (bl_head s i) = unat (buddy_list s) + 12 * nat i"
proof -
  have "bl_head s i = buddy_list s + of_nat (12 * nat i)"
    using assms(2) by (simp add: bl_head_def)
  moreover have "unat (buddy_list s) + 12 * nat i < 2 ^ 32"
    using assms unfolding heads_ok_def by auto
  ultimately show ?thesis by (simp only: unat_offset)
qed

lemma bl_head_inj:
  assumes "heads_ok s" "i \<in> {0..<10}" "j \<in> {0..<10}" "bl_head s i = bl_head s j"
  shows "i = j"
proof -
  have "unat (buddy_list s) + 12 * nat i = unat (buddy_list s) + 12 * nat j"
    using unat_bl_head assms by metis
  then show ?thesis using assms(2,3) by (simp add: eq_nat_nat_iff)
qed

lemma bl_head_nonnull: "heads_ok s \<Longrightarrow> i \<in> {0..<10} \<Longrightarrow> bl_head s i \<noteq> NULL"
  using unat_bl_head [of s i] unat_eq_0 [of "buddy_list s"] unfolding heads_ok_def by auto

lemma buddy_list_init_rep:
  assumes "pages_ok base N s" "heads_ok s"
  shows "buddy_rep base N (\<lambda>_. []) (buddy_list_init s)"
proof -
  let ?s = "buddy_list_init s"
  have set: "set [0..NR_MEM_LISTS - 1] = {0..<10}" by auto
  note f = buddy_list_init_loop_fields [of "[0..NR_MEM_LISTS - 1]" s, unfolded set, folded buddy_list_init_def]
  have h: "bl_head ?s = bl_head s" by (rule bl_head_cong [OF f(6)])
  have "family ring ?s {0..<10} (bl_head s) (\<lambda>_. [])"
    unfolding family_def
    using bl_head_nonnull [OF assms(2)] bl_head_inj [OF assms(2)] f(1,2) by (auto simp: ring_Nil_iff)
  moreover have "pages_ok base N ?s"
    using assms(1) f(4,6) by (subst pages_ok_cong) auto
  moreover have "blocks_ok N (blocks (\<lambda>_. []))" by (simp add: blocks_ok_def blocks_def)
  ultimately show ?thesis using f(3) by (simp add: buddy_rep_def h)
qed

lemma less_4_cases: "m < 4 \<longleftrightarrow> m = 0 \<or> m = 1 \<or> m = 2 \<or> m = (3 :: nat)"
  by auto

lemma example_mm_ok: "pages_ok 0x2000 4 example_mm" "heads_ok example_mm"
proof -
  show h: "heads_ok example_mm" by (simp add: heads_ok_def example_mm_def)
  have "bl_head example_mm i \<noteq> pg 0x2000 m" if "i \<in> {0..<10}" "m < 4" for i m
  proof -
    have "unat (bl_head example_mm i) < 0x1078"
      using unat_bl_head [OF h that(1)] that(1) by (simp add: example_mm_def nat_less_iff)
    moreover have "unat (pg 0x2000 m) \<ge> 0x2000"
      using that(2) by (auto simp: less_4_cases pg_def)
    ultimately show ?thesis by auto
  qed
  then show "pages_ok 0x2000 4 example_mm"
    by (auto simp: pages_ok_def less_4_cases example_mm_def pg_def)
qed

lemma free_frames_pages: "free_frames ((\<lambda>_. [])(0 := xs)) = set xs"
  by (auto simp: free_frames_def blocks_def split: if_splits)

lemma example_mm_pages: "\<exists>s :: mm_heap. buddy_rep 0x2000 4 ((\<lambda>_. [])(0 := [0, 1, 2])) s"
proof -
  let ?G = "\<lambda>xs. (\<lambda>_ :: int. [] :: nat list)(0 := xs)"
  have "(\<lambda>_. []) = ?G []" by auto
  then have r0: "buddy_rep 0x2000 4 (?G []) (buddy_list_init example_mm)"
    using buddy_list_init_rep [OF example_mm_ok] by (simp only:)
  obtain s1 where r1: "buddy_rep 0x2000 4 (?G [0]) (s1 :: mm_heap)"
    using buddy_list_add_line_rep [OF r0, of 0 0] by (auto simp: insert_line_def free_frames_pages)
  obtain s2 where r2: "buddy_rep 0x2000 4 (?G [0, 1]) (s2 :: mm_heap)"
    using buddy_list_add_line_rep [OF r1, of 0 1] by (auto simp: insert_line_def free_frames_pages)
  obtain s3 where "buddy_rep 0x2000 4 (?G [0, 1, 2]) (s3 :: mm_heap)"
    using buddy_list_add_line_rep [OF r2, of 0 2]
    by (auto simp: insert_line_def free_frames_pages subset_eq)
  then show ?thesis by blast
qed

subsection \<open>Properties\<close>

text \<open>
  C12: \<^verbatim>\<open>buddy_list_tidy\<close>, run as \<^verbatim>\<open>init_mem\<close> runs it (all free frames in the list of order 0,
  sorted, and the other lists empty), ends and returns 0; it keeps the invariant of the
  allocator, loses no free frame and frees no other, and leaves all ten lists sorted. In the
  lists of order 0 to 8 no two blocks are left that are neighbours; the list of order 9 has none
  above it, and its blocks are not merged.
\<close>

theorem buddy_list_tidy_correct:
  assumes "buddy_rep base N G s" and "sorted_wrt (<) (G 0)" and "\<forall>j\<in>{1..<10}. G j = []"
  shows "\<exists>s' G'. buddy_list_tidy s = Some (0, s') \<and> buddy_rep base N G' s' \<and>
    free_frames G' = free_frames G \<and>
    (\<forall>i\<in>{0..<9}. sorted_wrt (<) (G' i) \<and> (\<forall>m\<in>set (G' i). m + 2 ^ nat i \<notin> set (G' i))) \<and>
    sorted_wrt (<) (G' 9)"
  using buddy_list_tidy_loop_rep [OF assms(1), of 0] assms(2,3) by (simp add: buddy_list_tidy_def)

theorem buddy_list_tidy_correct_witness:
  "\<exists>(s :: mm_heap) s' G'. buddy_rep 0x2000 4 ((\<lambda>_. [])(0 := [0, 1, 2])) s \<and>
    buddy_list_tidy s = Some (0, s') \<and> buddy_rep 0x2000 4 G' s' \<and> free_frames G' = {0, 1, 2}"
proof -
  obtain s :: mm_heap where s: "buddy_rep 0x2000 4 ((\<lambda>_. [])(0 := [0, 1, 2])) s"
    using example_mm_pages by blast
  show ?thesis
    using buddy_list_tidy_correct [OF s] s by (auto simp: free_frames_pages)
qed

end
