(* ===== verification/Kstring.thy ===== *)
theory Kstring
  imports Prelude "HOL-Library.Signed_Division"
begin

section \<open>Strings and memory blocks (lib/string.c, lib/klibc.c)\<close>

text \<open>
  Memory is a function from addresses to bytes; address arithmetic wraps at 32 bits as
  the machine's does. A \<^verbatim>\<open>char\<close> is the byte it is stored in (read as signed where the
  code compares characters by size). A loop over memory that may run forever is a
  \<open>partial_function\<close>: \<open>None\<close> is that it does not end.
\<close>

type_synonym bytes = "addr \<Rightarrow> u8"

subsection \<open>Operations\<close>

definition is_alphanumeric :: "u8 \<Rightarrow> bool" where
  "is_alphanumeric ch \<longleftrightarrow> sint ch \<ge> 32 \<and> sint ch \<le> 126"

partial_function (option) strlen_loop :: "bytes \<Rightarrow> addr \<Rightarrow> int \<Rightarrow> int option" where
  "strlen_loop m str i =
     (if m str \<noteq> 0 then (if i + 1 \<noteq> 0 then strlen_loop m (str + 1) (i + 1) else Some (i + 1))
      else Some i)"

definition strlen :: "addr \<Rightarrow> bytes \<Rightarrow> int option" where
  "strlen str m = (if str = NULL then Some (-1) else strlen_loop m str 0)"

function strreverse_loop :: "addr \<Rightarrow> addr \<Rightarrow> bytes \<Rightarrow> bytes" where
  "strreverse_loop ptr p m =
     (if ptr < p then
        (let tmp = m ptr;
             m = m(ptr := m p);
             m = m(p := tmp)
         in strreverse_loop (ptr + 1) (p - 1) m)
      else m)"
  by pat_completeness auto
termination
proof (relation "measure (\<lambda>(ptr, p, m). unat p - unat ptr)")
  fix ptr p :: addr and m x xa xb :: bytes and y
  assume "ptr < p"
  then have "unat ptr < unat p" by (simp add: word_less_nat_alt)
  moreover have "p \<noteq> 0" using \<open>ptr < p\<close> by auto
  ultimately show "((ptr + 1, p - 1, xb), ptr, p, m) \<in> measure (\<lambda>(ptr, p, m). unat p - unat ptr)"
    using unat_add1_less [OF \<open>ptr < p\<close>] unat_sub1 [of p] by simp
qed simp

declare strreverse_loop.simps [simp del]

definition strreverse :: "addr \<Rightarrow> bytes \<Rightarrow> (int \<times> bytes) option" where
  "strreverse ptr m =
     (if ptr = NULL then Some (-1, m)
      else do {
        len \<leftarrow> strlen ptr m;
        let p = ptr + word_of_int len - 1;
        Some (0, strreverse_loop ptr p m)
      })"

text \<open>
  The value of \<open>itoa\<close> is an \<^verbatim>\<open>int\<close>; division and remainder by 10 round towards zero and stay in
  its range, so that no width needs to be kept.
\<close>

function itoa_loop :: "addr \<Rightarrow> int \<Rightarrow> bytes \<Rightarrow> addr \<times> bytes" where
  "itoa_loop p value m =
     (if value \<noteq> 0 then
        (let bit = (word_of_int (value smod 10) :: u8)
         in itoa_loop (p + 1) (value sdiv 10) (m(p := 0x30 + bit)))
      else (p, m))"
  by pat_completeness auto
termination
proof (relation "measure (\<lambda>(p, value, m). nat \<bar>value\<bar>)")
  fix p :: addr and v :: int and m :: bytes and x
  assume "v \<noteq> 0"
  then have "\<bar>v sdiv 10\<bar> < \<bar>v\<bar>"
    by (auto simp: signed_divide_int_def abs_mult sgn_if)
  then show "((p + 1, v sdiv 10, m(p := 0x30 + x)), p, v, m) \<in> measure (\<lambda>(p, value, m). nat \<bar>value\<bar>)"
    using \<open>v \<noteq> 0\<close> by simp
qed simp

declare itoa_loop.simps [simp del]

definition itoa :: "addr \<Rightarrow> int \<Rightarrow> bytes \<Rightarrow> bytes option" where
  "itoa str value m =
     (if str = NULL then Some m
      else if value = 0 then Some (m(str := 0x30, str + 1 := 0))
      else do {
        let (p, m) = itoa_loop str value m;
        (r, m) \<leftarrow> strreverse str m;
        Some (m(p := 0))
      })"

text \<open>
  The value of \<open>htoa\<close> is an \<open>int\<close> whose 32 bits are read from the top nibble down. The
  arithmetic right shift and the logical one agree on the four bits that the mask keeps.
\<close>

fun htoa_loop :: "nat list \<Rightarrow> u32 \<Rightarrow> addr \<Rightarrow> bool \<Rightarrow> bytes \<Rightarrow> addr \<times> bytes" where
  "htoa_loop [] value p flag m = (p, m)"
| "htoa_loop (i # is) value p flag m =
     (let ch = (ucast (drop_bit i value AND 0xF) :: u8)
      in if flag \<or> sint ch > 0 then
           (let ch = ch + 0x30;
                ch = (if sint ch > 0x39 then ch + 7 else ch)
            in htoa_loop is value (p + 1) True (m(p := ch)))
         else htoa_loop is value p flag m)"

definition htoa :: "addr \<Rightarrow> u32 \<Rightarrow> bytes \<Rightarrow> bytes" where
  "htoa str value m =
     (if str = NULL then m
      else if value = 0 then m(str := 0x30, str + 1 := 0)
      else (let (p, m) = htoa_loop [28, 24, 20, 16, 12, 8, 4, 0] value str False m
            in m(p := 0)))"

fun strncmp_loop :: "bytes \<Rightarrow> nat \<Rightarrow> addr \<Rightarrow> addr \<Rightarrow> int" where
  "strncmp_loop m 0 str1 str2 = 0"
| "strncmp_loop m (Suc n) str1 str2 =
     (if m str1 = m str2 then strncmp_loop m n (str1 + 1) (str2 + 1) else -1)"

definition strncmp :: "addr \<Rightarrow> addr \<Rightarrow> int \<Rightarrow> bytes \<Rightarrow> int option" where
  "strncmp str1 str2 len m = do {
     l1 \<leftarrow> strlen str1 m;
     l2 \<leftarrow> strlen str2 m;
     let min_len = (if l1 > l2 then l2 else l1);
     if len \<le> 0 \<or> str1 = NULL \<or> str2 = NULL then Some (-1)
     else (let len = (if len > min_len then min_len else len)
           in Some (strncmp_loop m (nat len) str1 str2))
   }"

function strcmp_loop :: "bytes \<Rightarrow> addr \<Rightarrow> addr \<Rightarrow> int" where
  "strcmp_loop m str1 str2 =
     (if str1 \<noteq> NULL \<and> str2 \<noteq> NULL then
        (if m str1 \<noteq> m str2 then -1 else strcmp_loop m (str1 + 1) (str2 + 1))
      else 0)"
  by pat_completeness auto
termination
proof (relation "measure (\<lambda>(m, str1, str2). unat (- str1))")
  fix m :: bytes and a b :: addr
  assume "a \<noteq> NULL \<and> b \<noteq> NULL"
  then have "unat (- a - 1) < unat (- a)"
    using unat_sub1 [of "- a"] unat_gt_0 [of "- a"] by simp
  then show "((m, a + 1, b + 1), m, a, b) \<in> measure (\<lambda>(m, str1, str2). unat (- str1))"
    by simp
qed simp

declare strcmp_loop.simps [simp del]

definition strcmp :: "addr \<Rightarrow> addr \<Rightarrow> bytes \<Rightarrow> int" where
  "strcmp str1 str2 m =
     (if str1 = NULL \<or> str2 = NULL then -1 else strcmp_loop m str1 str2)"

function strncpy_loop :: "addr \<Rightarrow> addr \<Rightarrow> int \<Rightarrow> int \<Rightarrow> bytes \<Rightarrow> bytes" where
  "strncpy_loop dst src i sz m =
     (let c = m src; m = m(dst := c)
      in if c \<noteq> 0 \<and> i + 1 < sz then strncpy_loop (dst + 1) (src + 1) (i + 1) sz m else m)"
  by pat_completeness auto
termination
  by (relation "measure (\<lambda>(dst, src, i, sz, m). nat (sz - i))") auto

declare strncpy_loop.simps [simp del]

definition strncpy :: "addr \<Rightarrow> addr \<Rightarrow> int \<Rightarrow> bytes \<Rightarrow> int \<times> bytes" where
  "strncpy dst src sz m =
     (if dst = NULL \<or> src = NULL \<or> sz < 0 then (-1, m) else (0, strncpy_loop dst src 0 sz m))"

partial_function (option) strcpy_loop :: "addr \<Rightarrow> addr \<Rightarrow> bytes \<Rightarrow> bytes option" where
  "strcpy_loop dst src m =
     (if m src \<noteq> 0 then strcpy_loop (dst + 1) (src + 1) (m(dst := m src))
      else Some (m(dst := m src)))"

definition strcpy :: "addr \<Rightarrow> addr \<Rightarrow> bytes \<Rightarrow> (int \<times> bytes) option" where
  "strcpy dst src m =
     (if dst = NULL \<or> src = NULL then Some (-1, m)
      else do { m \<leftarrow> strcpy_loop dst src m; Some (0, m) })"

fun memcmp_loop :: "bytes \<Rightarrow> addr \<Rightarrow> addr \<Rightarrow> nat \<Rightarrow> int" where
  "memcmp_loop m dst src 0 = 0"
| "memcmp_loop m dst src (Suc len) =
     (if dst \<noteq> NULL \<and> src \<noteq> NULL then
        (if m dst \<noteq> m src then -4 else memcmp_loop m (dst + 1) (src + 1) len)
      else 0)"

definition memcmp :: "addr \<Rightarrow> addr \<Rightarrow> int \<Rightarrow> bytes \<Rightarrow> int option" where
  "memcmp dst src len m =
     (if dst = NULL \<or> src = NULL \<or> len \<le> 0 then Some (-1)
      else do {
        l1 \<leftarrow> strlen dst m;
        l2 \<leftarrow> strlen src m;
        if l1 \<noteq> l2 then Some (-2)
        else if len > l1 then Some (-3)
        else Some (memcmp_loop m dst src (nat len))
      })"

fun memset_loop :: "addr \<Rightarrow> u8 \<Rightarrow> nat \<Rightarrow> bytes \<Rightarrow> bytes" where
  "memset_loop dst ch 0 m = m"
| "memset_loop dst ch (Suc n) m =
     (if dst \<noteq> NULL then memset_loop (dst + 1) ch n (m(dst := ch)) else m)"

definition memset :: "addr \<Rightarrow> u8 \<Rightarrow> int \<Rightarrow> bytes \<Rightarrow> int \<times> bytes" where
  "memset dst ch sz m =
     (if dst = NULL \<or> sz \<le> 0 then (-1, m) else (0, memset_loop dst ch (nat sz) m))"

text \<open>The \<open>size_t\<close> argument becomes an \<open>int\<close> at the call: sizes from 2 GB on turn negative.\<close>

definition bzero :: "addr \<Rightarrow> u32 \<Rightarrow> bytes \<Rightarrow> int \<times> bytes" where
  "bzero dst sz m = memset dst 0 (sint sz) m"

text \<open>
  \<^verbatim>\<open>while(size--)\<close> counts a 32-bit integer down to 0, from a negative size through the
  wrap-around: the loop runs as often as the size read unsigned.
\<close>

fun phys_copy_loop :: "addr \<Rightarrow> addr \<Rightarrow> nat \<Rightarrow> bytes \<Rightarrow> addr \<times> bytes" where
  "phys_copy_loop dst src 0 m = (dst, m)"
| "phys_copy_loop dst src (Suc n) m = phys_copy_loop (dst + 1) (src + 1) n (m(dst := m src))"

definition phys_copy :: "addr \<Rightarrow> addr \<Rightarrow> u32 \<Rightarrow> bytes \<Rightarrow> int \<times> bytes" where
  "phys_copy dst src sz m =
     (if dst = NULL \<or> src = NULL then (-1, m)
      else (let (dst, m) = phys_copy_loop dst src (unat sz) m in (0, m(dst := 0))))"

definition u_phys_copy :: "addr \<Rightarrow> addr \<Rightarrow> u32 \<Rightarrow> bytes \<Rightarrow> int \<times> bytes" where
  "u_phys_copy dst src sz m =
     (if dst = NULL \<or> src = NULL then (-1, m)
      else (let (dst, m) = phys_copy_loop dst src (unat sz) m in (0, m(dst := 0))))"

subsection \<open>C strings and blocks of memory\<close>

text \<open>
  \<open>cstr m p cs\<close>: the C string \<open>cs\<close> (without its terminating 0) stands at \<open>p\<close>;
  \<open>store p cs m\<close> writes the bytes \<open>cs\<close> from \<open>p\<close> on, \<open>load m p n\<close> reads \<open>n\<close> bytes, and
  \<open>span p n\<close> is the set of the \<open>n\<close> addresses from \<open>p\<close> on. \<open>ldigits\<close> is the decimal
  numeral of a number with its last digit first, \<open>hexdigits\<close> the hexadecimal one, and
  \<open>decval\<close> and \<open>hexval\<close> read a numeral back.
\<close>

fun cstr :: "bytes \<Rightarrow> addr \<Rightarrow> u8 list \<Rightarrow> bool" where
  "cstr m p [] \<longleftrightarrow> m p = 0"
| "cstr m p (c # cs) \<longleftrightarrow> m p = c \<and> c \<noteq> 0 \<and> cstr m (p + 1) cs"

fun store :: "addr \<Rightarrow> u8 list \<Rightarrow> bytes \<Rightarrow> bytes" where
  "store p [] m = m"
| "store p (c # cs) m = store (p + 1) cs (m(p := c))"

definition span :: "addr \<Rightarrow> nat \<Rightarrow> addr set" where
  "span p n = (\<lambda>i. p + of_nat i) ` {..<n}"

fun ldigits :: "nat \<Rightarrow> u8 list" where
  "ldigits n = (if n = 0 then [] else (0x30 + of_nat (n mod 10)) # ldigits (n div 10))"

declare ldigits.simps [simp del]

text \<open>
  The digits that \<open>itoa\<close> produces, the last one first. The remainder of a negative number is not
  positive, so that a digit \<open>d\<close> of it becomes the character \<open>0x30 - d\<close>.
\<close>

definition itoa_digits :: "int \<Rightarrow> u8 list" where
  "itoa_digits v = (if v < 0 then map (\<lambda>c. 0x60 - c) (ldigits (nat (- v))) else ldigits (nat v))"

definition decval :: "u8 list \<Rightarrow> nat" where
  "decval cs = foldl (\<lambda>acc c. 10 * acc + (unat c - 48)) 0 cs"

definition hexch :: "nat \<Rightarrow> u8" where
  "hexch d = (if d \<le> 9 then 0x30 + of_nat d else 0x37 + of_nat d)"

definition nibble :: "u32 \<Rightarrow> nat \<Rightarrow> nat" where
  "nibble v i = unat (drop_bit i v AND 0xF)"

definition hexdigits :: "u32 \<Rightarrow> u8 list" where
  "hexdigits v = (if v = 0 then [0x30]
     else map hexch (dropWhile ((=) 0) (map (nibble v) [28, 24, 20, 16, 12, 8, 4, 0])))"

definition hexval :: "u8 list \<Rightarrow> nat" where
  "hexval cs = foldl (\<lambda>acc c. 16 * acc + (if unat c \<le> 57 then unat c - 48 else unat c - 55)) 0 cs"

definition load :: "bytes \<Rightarrow> addr \<Rightarrow> nat \<Rightarrow> u8 list" where
  "load m p n = map (\<lambda>i. m (p + of_nat i)) [0..<n]"

subsection \<open>Lemmas\<close>

lemma span_0 [simp]: "span p 0 = {}"
  by (simp add: span_def)

lemma span_Suc: "span p (Suc n) = insert p (span (p + 1) n)"
proof -
  have "{..<Suc n} = insert 0 (Suc ` {..<n})"
    using lessThan_Suc_eq_insert_0 by simp
  then show ?thesis
    by (simp add: span_def image_image add.assoc)
qed

lemma span_numeral [simp]: "span p (numeral k) = insert p (span (p + 1) (pred_numeral k))"
  by (simp only: numeral_eq_Suc span_Suc)

lemma span_one [simp]: "span p 1 = {p}" "span p (Suc 0) = {p}"
  by (simp_all add: span_Suc)

lemma span_add: "span p (a + b) = span p a \<union> span (p + of_nat a) b"
  by (induction a arbitrary: p) (simp_all add: span_Suc ac_simps)

lemma span_first: "n < 2 ^ 32 \<Longrightarrow> p \<notin> span (p + 1) n"
proof
  assume "n < 2 ^ 32" "p \<in> span (p + 1) n"
  then obtain i where "i < n" "p = p + of_nat (Suc i)"
    by (auto simp: span_def add.assoc)
  then show False
    using addr_offset_neq [of "Suc i" p] \<open>n < 2 ^ 32\<close> by auto
qed

lemma span_disjoint: "a + b \<le> 2 ^ 32 \<Longrightarrow> span p a \<inter> span (p + of_nat a) b = {}"
proof -
  assume "a + b \<le> 2 ^ 32"
  then have "i < a \<Longrightarrow> j < b \<Longrightarrow> p + of_nat i \<noteq> p + of_nat (a + j)" for i j
    by (subst addr_offset_eq) auto
  then show ?thesis by (auto simp: span_def add.assoc)
qed

lemma store_append: "store p (xs @ ys) m = store (p + of_nat (length xs)) ys (store p xs m)"
  by (induction xs arbitrary: p m) (simp_all add: ac_simps)

lemma store_other: "a \<notin> span p (length cs) \<Longrightarrow> store p cs m a = m a"
  by (induction cs arbitrary: p m) (simp_all add: span_Suc)

lemma store_nth: "i < length cs \<Longrightarrow> length cs \<le> 2 ^ 32 \<Longrightarrow> store p cs m (p + of_nat i) = cs ! i"
proof (induction cs arbitrary: p m i)
  case (Cons c cs)
  show ?case
  proof (cases i)
    case 0
    then show ?thesis
      using store_other [of p "p + 1" cs "m(p := c)"] span_first [of "length cs" p] Cons.prems by simp
  next
    case (Suc j)
    then have "store (p + 1) cs (m(p := c)) (p + 1 + of_nat j) = cs ! j"
      using Cons.prems by (intro Cons.IH) auto
    then show ?thesis
      using Suc by (simp add: add.assoc del: fun_upd_apply)
  qed
qed simp

lemma cstr_alt: "cstr m p cs \<longleftrightarrow> (\<forall>i<length cs. m (p + of_nat i) = cs ! i) \<and> 0 \<notin> set cs \<and> m (p + of_nat (length cs)) = 0"
proof (induction cs arbitrary: p)
  case (Cons c cs)
  then show ?case
    by (auto simp: All_less_Suc2 add.assoc)
qed simp

lemma cstr_cong: "(\<And>a. a \<in> span p (Suc (length cs)) \<Longrightarrow> m a = m' a) \<Longrightarrow> cstr m p cs = cstr m' p cs"
proof (induction cs arbitrary: p)
  case Nil
  then show ?case by (simp add: span_Suc)
next
  case (Cons c cs)
  have "cstr m (p + 1) cs = cstr m' (p + 1) cs"
    using Cons.prems by (intro Cons.IH) (simp add: span_Suc)
  moreover have "m p = m' p" using Cons.prems by (simp add: span_Suc)
  ultimately show ?case by simp
qed

lemma cstr_append: "0 \<notin> set xs \<Longrightarrow> cstr m p (xs @ ys) \<longleftrightarrow> (\<forall>i<length xs. m (p + of_nat i) = xs ! i) \<and> cstr m (p + of_nat (length xs)) ys"
  by (induction xs arbitrary: p) (auto simp: All_less_Suc2 add.assoc)

lemma cstr_store: "0 \<notin> set cs \<Longrightarrow> length cs < 2 ^ 32 \<Longrightarrow> cstr (store p (cs @ [0]) m) p cs"
  using store_nth [of _ "cs @ [0]" p m]
  by (auto simp: cstr_alt nth_append)

lemma strlen_loop_cstr: "cstr m p cs \<Longrightarrow> 0 \<le> i \<Longrightarrow> strlen_loop m p i = Some (i + int (length cs))"
proof (induction cs arbitrary: p i)
  case Nil
  then show ?case by (subst strlen_loop.simps) simp
next
  case (Cons c cs)
  then show ?case by (subst strlen_loop.simps) (simp add: algebra_simps)
qed

lemma strlen_cstr: "cstr m p cs \<Longrightarrow> p \<noteq> NULL \<Longrightarrow> strlen p m = Some (int (length cs))"
  by (simp add: strlen_def strlen_loop_cstr)

lemma strreverse_loop_reflect:
  "strreverse_loop lo hi m a = (if lo \<le> a \<and> a \<le> hi then m (lo + hi - a) else m a)"
proof (induction lo hi m rule: strreverse_loop.induct)
  case (1 lo hi m)
  show ?case
  proof (cases "lo < hi")
    case True
    then have "hi \<noteq> 0" by auto
    have mid: "lo + 1 \<le> a \<and> a \<le> hi - 1 \<longleftrightarrow> lo \<le> a \<and> a \<le> hi \<and> a \<noteq> lo \<and> a \<noteq> hi"
    proof -
      have "a = lo \<longleftrightarrow> unat a = unat lo" "a = hi \<longleftrightarrow> unat a = unat hi" "0 < unat hi"
        using \<open>hi \<noteq> 0\<close> by (auto simp: unat_gt_0 dest: unsigned_word_eqI)
      then show ?thesis
        unfolding word_le_nat_alt unat_add1_less [OF True] unat_sub1 [OF \<open>hi \<noteq> 0\<close>] by linarith
    qed
    let ?m = "m(lo := m hi, hi := m lo)"
    have step: "strreverse_loop lo hi m = strreverse_loop (lo + 1) (hi - 1) ?m"
      using True by (subst strreverse_loop.simps) (simp add: Let_def del: fun_upd_apply)
    have IH: "strreverse_loop (lo + 1) (hi - 1) ?m a =
        (if lo + 1 \<le> a \<and> a \<le> hi - 1 then ?m (lo + 1 + (hi - 1) - a) else ?m a)"
      by (rule 1 [OF True refl refl refl])
    have "lo + hi - a = lo \<longleftrightarrow> a = hi" "lo + hi - a = hi \<longleftrightarrow> a = lo" "lo + 1 + (hi - 1) - a = lo + hi - a"
      by (auto simp: algebra_simps)
    then show ?thesis
      unfolding step IH mid using True by auto
  next
    case False
    then have "lo \<le> a \<and> a \<le> hi \<Longrightarrow> lo = a \<and> hi = a"
      by (meson antisym not_le order_trans)
    then show ?thesis using False by (subst strreverse_loop.simps) auto
  qed
qed

lemma strcpy_loop_cstr:
  assumes "cstr m src cs" "span dst (Suc (length cs)) \<inter> span src (Suc (length cs)) = {}"
  shows "strcpy_loop dst src m = Some (store dst (cs @ [0]) m)"
  using assms
proof (induction cs arbitrary: dst src m)
  case Nil
  then show ?case by (subst strcpy_loop.simps) simp
next
  case (Cons c cs)
  have "cstr (m(dst := c)) (src + 1) cs"
    using Cons.prems by (subst cstr_cong [where m' = m]) (auto simp: span_Suc)
  moreover have "span (dst + 1) (Suc (length cs)) \<inter> span (src + 1) (Suc (length cs)) = {}"
    using Cons.prems(2) by (auto simp: span_Suc)
  ultimately have "strcpy_loop (dst + 1) (src + 1) (m(dst := c)) = Some (store (dst + 1) (cs @ [0]) (m(dst := c)))"
    by (rule Cons.IH)
  then show ?case
    using Cons.prems by (subst strcpy_loop.simps) simp
qed

lemma itoa_digits_step:
  assumes "v \<noteq> 0"
  shows "itoa_digits v = (0x30 + word_of_int (v smod 10)) # itoa_digits (v sdiv 10)"
proof (cases "v < 0")
  case True
  define n where "n = nat (- v)"
  have v: "v = - int n" "n \<noteq> 0" using True by (simp_all add: n_def)
  have d: "v sdiv 10 = - int (n div 10)"
    using v by (simp add: signed_divide_int_def zdiv_int)
  moreover have "v smod 10 = - int (n mod 10)"
    unfolding signed_modulo_int_def d unfolding v(1) by (simp add: zdiv_int zmod_int minus_div_mult_eq_mod [symmetric])
  moreover have "itoa_digits (- int k) = map (\<lambda>c. 0x60 - c) (ldigits k)" for k
    by (cases "k = 0") (simp_all add: itoa_digits_def ldigits.simps)
  ultimately show ?thesis using v by (simp add: ldigits.simps [of n])
next
  case False
  define n where "n = nat v"
  have v: "v = int n" "n \<noteq> 0" using False assms by (simp_all add: n_def)
  have d: "v sdiv 10 = int (n div 10)"
    using v by (simp add: signed_divide_int_def zdiv_int)
  moreover have "v smod 10 = int (n mod 10)"
    unfolding signed_modulo_int_def d using v by (simp add: zdiv_int zmod_int minus_div_mult_eq_mod)
  ultimately show ?thesis using v by (simp add: itoa_digits_def ldigits.simps [of n])
qed

lemma itoa_loop_digits:
  "itoa_loop p v m = (p + of_nat (length (itoa_digits v)), store p (itoa_digits v) m)"
proof (induction p v m rule: itoa_loop.induct)
  case (1 p v m)
  show ?case
  proof (cases "v = 0")
    case True
    then show ?thesis by (subst itoa_loop.simps) (simp add: itoa_digits_def ldigits.simps)
  next
    case False
    then show ?thesis
      using 1 [OF False refl] itoa_digits_step [OF False]
      by (subst itoa_loop.simps) (simp add: Let_def ac_simps del: fun_upd_apply)
  qed
qed

lemma span_no_wrap:
  assumes "unat p + n \<le> 2 ^ 32"
  shows "a \<in> span p n \<longleftrightarrow> unat p \<le> unat a \<and> unat a < unat p + n"
proof
  assume "a \<in> span p n"
  then obtain i where "i < n" "a = p + of_nat i" by (auto simp: span_def)
  then show "unat p \<le> unat a \<and> unat a < unat p + n"
    using unat_offset [of p i] assms by auto
next
  assume *: "unat p \<le> unat a \<and> unat a < unat p + n"
  then have "p + of_nat (unat a - unat p) = a"
    by (intro unsigned_word_eqI) (simp add: unat_offset)
  then show "a \<in> span p n"
    using * unfolding span_def by (intro image_eqI [of _ _ "unat a - unat p"]) auto
qed

lemma store_eqI:
  assumes "\<And>i. i < length cs \<Longrightarrow> m' (p + of_nat i) = cs ! i"
    and "\<And>a. a \<notin> span p (length cs) \<Longrightarrow> m' a = m a" and "length cs \<le> 2 ^ 32"
  shows "m' = store p cs m"
proof
  fix a
  show "m' a = store p cs m a"
  proof (cases "a \<in> span p (length cs)")
    case True
    then obtain i where "i < length cs" "a = p + of_nat i" by (auto simp: span_def)
    then show ?thesis using assms store_nth by simp
  next
    case False
    then show ?thesis using assms(2) store_other by simp
  qed
qed

lemma strreverse_cstr:
  assumes m: "cstr m p cs" and p: "p \<noteq> NULL" and wrap: "unat p + length cs < 2 ^ 32"
  shows "strreverse p m = Some (0, store p (rev cs) m)"
proof -
  let ?n = "length cs" and ?hi = "p + of_nat (length cs) - 1"
  have in_span: "p \<le> a \<and> a \<le> ?hi \<longleftrightarrow> a \<in> span p ?n" for a
  proof -
    have "p + of_nat ?n \<noteq> 0"
      using unat_offset [of p ?n] wrap p unat_gt_0 [of p] by (metis add_gr_0 less_numeral_extra(3) unsigned_0)
    then have "unat ?hi = unat p + ?n - 1"
      using unat_sub1 [of "p + of_nat ?n"] unat_offset [of p ?n] wrap by simp
    then show ?thesis
      using span_no_wrap [of p ?n a] wrap p unat_gt_0 [of p] by (auto simp: word_le_nat_alt)
  qed
  have "strreverse_loop p ?hi m = store p (rev cs) m"
  proof (rule store_eqI)
    fix i assume i: "i < length (rev cs)"
    then have "p + of_nat i \<in> span p ?n" by (auto simp: span_def)
    then have "strreverse_loop p ?hi m (p + of_nat i) = m (p + ?hi - (p + of_nat i))"
      by (simp add: strreverse_loop_reflect in_span)
    also have "p + ?hi - (p + of_nat i) = p + of_nat (?n - 1 - i)"
      using i by (simp add: of_nat_diff algebra_simps)
    also have "m (p + of_nat (?n - 1 - i)) = rev cs ! i"
    proof -
      have "?n - 1 - i < ?n" using i by auto
      then have "m (p + of_nat (?n - 1 - i)) = cs ! (?n - 1 - i)"
        using m unfolding cstr_alt by blast
      then show ?thesis using i by (simp only: length_rev rev_nth diff_Suc_eq_diff_pred)
    qed
    finally show "strreverse_loop p ?hi m (p + of_nat i) = rev cs ! i" .
  qed (use wrap in \<open>simp_all add: strreverse_loop_reflect in_span\<close>)
  then show ?thesis
    using m p by (simp add: strreverse_def strlen_cstr Let_def)
qed

lemma nz_ldigits: "0 \<notin> set (ldigits v)"
proof (induction v rule: ldigits.induct)
  case (1 v)
  have "(0x30 + of_nat (v mod 10) :: u8) \<noteq> 0"
  proof -
    have "unat (0x30 + of_nat (v mod 10) :: u8) = 48 + v mod 10"
      by (simp add: unat_word_ariths unat_of_nat take_bit_nat_eq_self)
    then show ?thesis by (metis add_is_0 unsigned_0 zero_neq_numeral)
  qed
  then show ?case using 1 by (subst ldigits.simps) auto
qed

lemma unat_digit: "unat (0x30 + of_nat (v mod 10) :: u8) = 48 + v mod 10"
  by (simp add: unat_word_ariths unat_of_nat)

lemma decval_ldigits: "decval (rev (ldigits v)) = v"
proof (induction v rule: ldigits.induct)
  case (1 v)
  then show ?case
    by (subst ldigits.simps) (simp add: decval_def unat_digit)
qed

lemma ldigits_range: "c \<in> set (ldigits v) \<Longrightarrow> \<exists>d < 10. c = 0x30 + of_nat d"
proof (induction v rule: ldigits.induct)
  case (1 v)
  then show ?case by (subst (asm) (2) ldigits.simps) (auto split: if_splits intro: exI [of _ "v mod 10"])
qed

lemma nz_itoa_digits: "0 \<notin> set (itoa_digits v)"
proof -
  have "(0x60 :: u8) \<noteq> c" if c: "c \<in> set (ldigits n)" for c n
  proof -
    obtain d where d: "d < 10" "c = 0x30 + of_nat d" using ldigits_range [OF c] by blast
    then have "unat c = 48 + d" using unat_digit [of d] by simp
    then show ?thesis using d(1) by auto
  qed
  then have "0 \<notin> (\<lambda>c. 0x60 - c) ` set (ldigits n)" for n
    by (metis (no_types, lifting) imageE right_minus_eq)
  then show ?thesis using nz_ldigits by (simp add: itoa_digits_def)
qed

lemma itoa_stale:
  assumes "str \<noteq> NULL" "v \<noteq> 0" "cstr m (str + of_nat (length (itoa_digits v))) rest"
    and "unat str + length (itoa_digits v) + length rest < 2 ^ 32"
  shows "\<exists>m'. itoa str (v) m = Some m' \<and>
    cstr m' str (take (length (itoa_digits v)) (rev rest @ rev (itoa_digits v)))"
proof -
  let ?ds = "itoa_digits v" and ?n = "length (itoa_digits v)"
  let ?m1 = "store str ?ds m" and ?cs = "itoa_digits v @ rest"
  have "0 \<notin> set rest" using assms(3) by (simp add: cstr_alt)
  have "cstr ?m1 (str + of_nat ?n) rest"
    using assms(3,4) span_disjoint [of ?n "Suc (length rest)" str]
    by (subst cstr_cong [where m' = m]) (auto intro: store_other)
  then have c: "cstr ?m1 str ?cs"
    using nz_itoa_digits [of v] assms(4) by (simp add: cstr_append store_nth)
  let ?m2 = "store str (rev ?cs) ?m1"
  have "itoa str (v) m = Some (?m2(str + of_nat ?n := 0))"
    using assms strreverse_cstr [OF c] by (simp add: itoa_def itoa_loop_digits)
  moreover have "cstr (?m2(str + of_nat ?n := 0)) str (take ?n (rev rest @ rev ?ds))"
    unfolding cstr_alt
  proof (intro conjI allI impI)
    fix i assume i: "i < length (take ?n (rev rest @ rev ?ds))"
    then have "str + of_nat i \<noteq> str + of_nat ?n"
      using assms(4) by (subst addr_offset_eq) auto
    then show "(?m2(str + of_nat ?n := 0)) (str + of_nat i) = take ?n (rev rest @ rev ?ds) ! i"
      using i assms(4) store_nth [of i "rev ?cs" str ?m1] by (simp del: take_append)
  next
    show "0 \<notin> set (take ?n (rev rest @ rev ?ds))"
      using nz_itoa_digits [of v] \<open>0 \<notin> set rest\<close> by (auto dest: in_set_takeD)
  next
    have "length (take ?n (rev rest @ rev ?ds)) = ?n" by (simp del: take_append)
    then show "(?m2(str + of_nat ?n := 0)) (str + of_nat (length (take ?n (rev rest @ rev ?ds)))) = 0"
      by (simp only: fun_upd_same)
  qed
  ultimately show ?thesis by blast
qed

lemma nibble_less: "nibble v i < 16"
proof -
  have "drop_bit i v AND 0xF \<le> 0xF" by (rule word_and_le1)
  then show ?thesis by (simp add: nibble_def word_le_nat_alt)
qed

lemma hexch_cases: "d < 16 \<Longrightarrow> P (0::nat) \<Longrightarrow> P 1 \<Longrightarrow> P 2 \<Longrightarrow> P 3 \<Longrightarrow> P 4 \<Longrightarrow> P 5 \<Longrightarrow> P 6 \<Longrightarrow> P 7
  \<Longrightarrow> P 8 \<Longrightarrow> P 9 \<Longrightarrow> P 10 \<Longrightarrow> P 11 \<Longrightarrow> P 12 \<Longrightarrow> P 13 \<Longrightarrow> P 14 \<Longrightarrow> P 15 \<Longrightarrow> P d"
proof -
  assume "d < 16"
  then have "d \<in> {0..<16}" by simp
  moreover have "{0..<16::nat} = {0,1,2,3,4,5,6,7,8,9,10,11,12,13,14,15}" by (simp add: atLeastLessThan_nat_numeral insert_commute)
  ultimately show "P 0 \<Longrightarrow> P 1 \<Longrightarrow> P 2 \<Longrightarrow> P 3 \<Longrightarrow> P 4 \<Longrightarrow> P 5 \<Longrightarrow> P 6 \<Longrightarrow> P 7
  \<Longrightarrow> P 8 \<Longrightarrow> P 9 \<Longrightarrow> P 10 \<Longrightarrow> P 11 \<Longrightarrow> P 12 \<Longrightarrow> P 13 \<Longrightarrow> P 14 \<Longrightarrow> P 15 \<Longrightarrow> P d" by auto
qed

lemma htoa_char:
  assumes "d < 16"
  shows "sint (of_nat d :: u8) > 0 \<longleftrightarrow> d \<noteq> 0"
    and "(let ch = (of_nat d :: u8) + 0x30 in if sint ch > 0x39 then ch + 7 else ch) = hexch d"
  using assms by (induction d rule: hexch_cases, simp_all add: hexch_def)

lemma htoa_loop_step:
  "htoa_loop (i # is) v p flag m =
    (if flag \<or> nibble v i \<noteq> 0 then htoa_loop is v (p + 1) True (m(p := hexch (nibble v i)))
     else htoa_loop is v p flag m)"
proof -
  have ch: "(ucast (drop_bit i v AND 0xF) :: u8) = of_nat (nibble v i)"
    by (simp add: nibble_def)
  show ?thesis
    unfolding htoa_loop.simps ch Let_def
    by (simp only: htoa_char [OF nibble_less, unfolded Let_def])
qed

lemma htoa_loop_nibbles:
  "htoa_loop is v p flag m =
    (let ds = map (nibble v) is; cs = map hexch (if flag then ds else dropWhile ((=) 0) ds)
     in (p + of_nat (length cs), store p cs m))"
proof (induction "is" arbitrary: p flag m)
  case (Cons i "is")
  show ?case
    unfolding htoa_loop_step Cons.IH
    by (auto simp: Let_def add.assoc simp del: fun_upd_apply)
qed simp

lemma htoa_store: "str \<noteq> NULL \<Longrightarrow> htoa str v m = store str (hexdigits v @ [0]) m"
  by (simp add: htoa_def htoa_loop_nibbles hexdigits_def Let_def store_append)

lemma foldl_dropWhile0: "foldl (\<lambda>acc d. 16 * acc + d) 0 (dropWhile ((=) 0) ds) = foldl (\<lambda>acc d. 16 * acc + d) (0::nat) ds"
  by (induction ds) auto

lemma nz_hexdigits: "0 \<notin> set (hexdigits v)"
proof -
  have "d < 16 \<Longrightarrow> hexch d \<noteq> 0" for d
    by (erule hexch_cases) (simp_all add: hexch_def)
  then show ?thesis
    using nibble_less [of v]
    by (auto simp del: list.map simp: hexdigits_def dest!: set_dropWhileD)
qed

lemma hexval_hexch: "d < 16 \<Longrightarrow> (if unat (hexch d) \<le> 57 then unat (hexch d) - 48 else unat (hexch d) - 55) = d"
  by (erule hexch_cases) (simp_all add: hexch_def)

lemma hexval_map: "(\<forall>d\<in>set ds. d < 16) \<Longrightarrow> hexval (map hexch ds) = foldl (\<lambda>acc d. 16 * acc + d) 0 ds"
  unfolding hexval_def foldl_map
  by (intro foldl_cong) (auto simp: hexval_hexch)

lemma fold_nibbles:
  "foldl (\<lambda>acc d. 16 * acc + d) (x div 2 ^ (4 * k))
     (map (\<lambda>i. x div 2 ^ i mod 16) (rev (map ((*) 4) [0..<k]))) = (x :: nat)"
proof (induction k)
  case (Suc k)
  have "x div 2 ^ (4 * Suc k) = x div 2 ^ (4 * k) div 16"
    by (simp add: power_add mult.commute flip: div_mult2_eq)
  then have "16 * (x div 2 ^ (4 * Suc k)) + x div 2 ^ (4 * k) mod 16 = x div 2 ^ (4 * k)"
    by (simp only: mult_div_mod_eq)
  then show ?case using Suc by simp
qed simp

lemma nibble_div: "nibble v i = unat v div 2 ^ i mod 16"
proof -
  have "drop_bit i v AND 0xF = take_bit 4 (drop_bit i v)"
    by (simp add: take_bit_eq_mask mask_eq_exp_minus_1)
  then show ?thesis
    unfolding nibble_def by (simp only: unsigned_take_bit_eq unsigned_drop_bit_eq)
      (use unsigned_less [of v, where 'a = nat] in \<open>simp add: take_bit_eq_mod drop_bit_eq_div\<close>)
qed

lemma nibble_value: "foldl (\<lambda>acc d. 16 * acc + d) 0 (map (nibble v) [28, 24, 20, 16, 12, 8, 4, 0]) = unat v"
proof -
  have "[28, 24, 20, 16, 12, 8, 4, 0] = rev (map ((*) 4) [0..<8])"
    by (simp add: upt_rec)
  moreover have "nibble v = (\<lambda>i. unat v div 2 ^ i mod 16)"
    using nibble_div by blast
  moreover have "unat v div 2 ^ (4 * 8) = 0"
    using unsigned_less [of v, where 'a = nat] by simp
  ultimately show ?thesis
    using fold_nibbles [of "unat v" 8] by (simp only:)
qed

lemma hexval_hexdigits: "hexval (hexdigits v) = unat v"
proof (cases "v = 0")
  case True
  then show ?thesis by (simp add: hexdigits_def hexval_def)
next
  case False
  let ?ds = "map (nibble v) [28, 24, 20, 16, 12, 8, 4, 0]"
  have "\<forall>d\<in>set ?ds. d < 16" by (simp add: nibble_less)
  then have "\<forall>d\<in>set (dropWhile ((=) 0) ?ds). d < 16" by (metis set_dropWhileD)
  then have "hexval (map hexch (dropWhile ((=) 0) ?ds)) = unat v"
    using hexval_map [of "dropWhile ((=) 0) ?ds"] foldl_dropWhile0 [of ?ds] nibble_value [of v] by simp
  then show ?thesis
    using False by (simp add: hexdigits_def)
qed

lemma memset_loop_store: "unat dst + n \<le> 2 ^ 32 \<Longrightarrow> dst \<noteq> NULL \<Longrightarrow> memset_loop dst ch n m = store dst (replicate n ch) m"
proof (induction n arbitrary: dst m)
  case (Suc n)
  show ?case
  proof (cases n)
    case 0
    then show ?thesis using Suc.prems by simp
  next
    case (Suc k)
    then have "unat (dst + 1) = unat dst + 1"
      using unat_offset [of dst 1] Suc.prems by simp
    then have "dst + 1 \<noteq> 0" by (metis add_is_0 one_neq_zero unsigned_0)
    then show ?thesis
      using Suc.IH [of "dst + 1"] Suc.prems \<open>unat (dst + 1) = unat dst + 1\<close> by simp
  qed
qed simp

lemma load_Suc: "load m p (Suc n) = m p # load m (p + 1) n"
  unfolding load_def by (simp only: upt_conv_Cons zero_less_Suc map_Suc_upt [symmetric])
    (simp add: ac_simps)

lemma load_numeral [simp]:
  "load m p 0 = []" "load m p (numeral k) = m p # load m (p + 1) (pred_numeral k)"
  by (simp_all only: numeral_eq_Suc load_Suc) (simp add: load_def)

lemma load_cong: "(\<And>a. a \<in> span p n \<Longrightarrow> m a = m' a) \<Longrightarrow> load m p n = load m' p n"
  by (auto simp: load_def span_def)

lemma phys_copy_loop_store:
  "span dst n \<inter> span src n = {} \<Longrightarrow>
    phys_copy_loop dst src n m = (dst + of_nat n, store dst (load m src n) m)"
proof (induction n arbitrary: dst src m)
  case (Suc n)
  have "load (m(dst := m src)) (src + 1) n = load m (src + 1) n"
    using Suc.prems by (intro load_cong) (auto simp: span_Suc)
  then show ?case
    using Suc.prems Suc.IH [of "dst + 1" "src + 1" "m(dst := m src)"]
    by (simp add: load_Suc span_Suc add.assoc del: fun_upd_apply)
qed (simp add: load_def)

lemma strcmp_loop_neq:
  assumes "\<forall>j<i. m (a + of_nat j) = m (b + of_nat j)" "m (a + of_nat i) \<noteq> m (b + of_nat i)"
    and "a \<noteq> NULL" "b \<noteq> NULL" "unat a + i < 2 ^ 32" "unat b + i < 2 ^ 32"
  shows "strcmp_loop m a b = -1"
  using assms
proof (induction i arbitrary: a b)
  case 0
  then show ?case by (subst strcmp_loop.simps) simp
next
  case (Suc i)
  have "unat (a + 1) = unat a + 1" "unat (b + 1) = unat b + 1"
    using unat_offset [of a 1] unat_offset [of b 1] Suc.prems by simp_all
  moreover from this have "a + 1 \<noteq> 0" "b + 1 \<noteq> 0" by (metis add_is_0 one_neq_zero unsigned_0)+
  ultimately have "strcmp_loop m (a + 1) (b + 1) = -1"
    using Suc.prems by (intro Suc.IH) (simp_all add: All_less_Suc2 add.assoc)
  then show ?case
    using Suc.prems by (subst strcmp_loop.simps) (simp add: All_less_Suc2)
qed

lemma strncmp_loop_prefix:
  "strncmp_loop m n a b = (if load m a n = load m b n then 0 else -1)"
  by (induction n arbitrary: a b) (simp_all add: load_Suc)

subsection \<open>Properties\<close>

text \<open>
  C38: \<open>strcpy\<close> returns 0 and copies the string and its terminator to the destination, and
  changes no other byte of memory, whenever the two blocks do not overlap.
\<close>

theorem strcpy_correct:
  assumes "cstr m src cs" and "src \<noteq> NULL" and "dst \<noteq> NULL" and "length cs < 2 ^ 32"
    and "span dst (Suc (length cs)) \<inter> span src (Suc (length cs)) = {}"
  shows "\<exists>m'. strcpy dst src m = Some (0, m') \<and> cstr m' dst cs \<and>
    (\<forall>a. a \<notin> span dst (Suc (length cs)) \<longrightarrow> m' a = m a)"
proof -
  have "0 \<notin> set cs" using assms(1) by (simp add: cstr_alt)
  then show ?thesis
    using assms strcpy_loop_cstr [OF assms(1,5)] cstr_store [of cs dst m] store_other [of _ dst "cs @ [0]" m]
    by (simp add: strcpy_def)
qed

theorem strcpy_correct_witness:
  "let m = store 100 [0x61, 0x62, 0] (\<lambda>_. 7); cs = [0x61, 0x62]
   in \<exists>m'. strcpy 200 100 m = Some (0, m') \<and> cstr m' 200 cs \<and>
        (\<forall>a. a \<notin> span 200 (Suc (length cs)) \<longrightarrow> m' a = m a)"
  unfolding Let_def by (rule strcpy_correct) (simp_all add: span_Suc)

text \<open>
  C39: \<open>itoa\<close>, into a buffer that does not reach the end of the memory and whose byte after the
  digits is 0, leaves there the decimal numeral of a number that is not negative: the string
  consists of digits, and reading it back gives the number. For a negative number there is no sign,
  and the characters are those of the numeral of its absolute value, mirrored at the character 0.
\<close>

theorem itoa_correct:
  assumes "str \<noteq> NULL" and "v = 0 \<or> m (str + of_nat (length (ldigits (nat \<bar>v\<bar>)))) = 0"
    and "unat str + length (ldigits (nat \<bar>v\<bar>)) < 2 ^ 32"
  shows "\<exists>m' cs. itoa str v m = Some m' \<and> cstr m' str cs \<and>
    (if 0 \<le> v then cs \<noteq> [] \<and> set cs \<subseteq> (\<lambda>d. 0x30 + of_nat d) ` {..<10} \<and> decval cs = nat v
     else cs = map (\<lambda>c. 0x60 - c) (rev (ldigits (nat (- v)))))"
proof (cases "v = 0")
  case True
  have "cstr (m(str := 0x30, str + 1 := 0)) str [0x30]" by simp
  moreover have "(0x30 :: u8) \<in> (\<lambda>d. 0x30 + of_nat d) ` {..<10}" by (intro image_eqI [of _ _ 0]) simp_all
  moreover have "decval [0x30] = nat v" by (simp add: decval_def True)
  ultimately show ?thesis
    using assms(1) True by (intro exI [of _ "m(str := 0x30, str + 1 := 0)"] exI [of _ "[0x30]"]) (simp add: itoa_def)
next
  case False
  have len: "length (itoa_digits v) = length (ldigits (nat \<bar>v\<bar>))" by (simp add: itoa_digits_def)
  then obtain m' where m': "itoa str v m = Some m'" "cstr m' str (rev (itoa_digits v))"
    using itoa_stale [of str v m "[]"] assms False by auto
  show ?thesis
  proof (cases "0 \<le> v")
    case True
    have "ldigits (nat v) \<noteq> []" using True False by (subst ldigits.simps) simp
    moreover have "set (ldigits (nat v)) \<subseteq> (\<lambda>d. 0x30 + of_nat d) ` {..<10}"
      using ldigits_range by fastforce
    ultimately show ?thesis
      using m' True decval_ldigits [of "nat v"]
      by (intro exI [of _ m'] exI [of _ "rev (ldigits (nat v))"]) (simp add: itoa_digits_def)
  next
    case neg: False
    then show ?thesis using m' by (auto simp: itoa_digits_def rev_map)
  qed
qed

theorem itoa_correct_witness:
  "(\<exists>m' cs. itoa 100 4095 (\<lambda>_. 0) = Some m' \<and> cstr m' 100 cs \<and> decval cs = 4095) \<and>
   (\<exists>m'. itoa 100 (- 25) (\<lambda>_. 0) = Some m' \<and> cstr m' 100 [0x2e, 0x2b])"
proof -
  have "length (ldigits 4095) = 4" "ldigits 25 = [0x35, 0x32]" by (simp_all add: ldigits.simps)
  then show ?thesis
    using itoa_correct [of 100 4095 "\<lambda>_. 0"] itoa_correct [of 100 "- 25" "\<lambda>_. 0"] by auto
qed

text \<open>
  \<open>itoa\<close> reverses the digits before it terminates the string, so it also reverses what
  the buffer held behind them. Printing a number of one digit into a buffer that still holds
  the longer numeral of \<open>w\<close> leaves the last digit of \<open>w\<close> there and not the number printed.
\<close>

theorem itoa_reuse:
  assumes "str \<noteq> NULL" and "10 \<le> w" and "0 < v" and "v < 10"
    and "m (str + of_nat (length (ldigits w))) = 0" and "unat str + length (ldigits w) < 2 ^ 32"
  shows "\<exists>m1 m2. itoa str (int w) m = Some m1 \<and> cstr m1 str (rev (ldigits w)) \<and>
    itoa str (int v) m1 = Some m2 \<and> cstr m2 str [0x30 + of_nat (w mod 10)]"
proof -
  obtain m1 where m1: "itoa str (int w) m = Some m1" "cstr m1 str (rev (ldigits w))"
    using itoa_stale [of str "int w" m "[]"] assms by (auto simp: itoa_digits_def)
  have w: "ldigits w = (0x30 + of_nat (w mod 10)) # ldigits (w div 10)" "ldigits (w div 10) \<noteq> []"
    using assms by (subst ldigits.simps, simp)+
  have v: "ldigits v = [0x30 + of_nat v]"
    using assms by (subst ldigits.simps, simp, subst ldigits.simps, simp)
  obtain c rest where rest: "rev (ldigits w) = c # rest" and last: "last rest = 0x30 + of_nat (w mod 10)" "rest \<noteq> []"
    using w by (cases "rev (ldigits (w div 10))") auto
  then have "cstr m1 (str + 1) rest" using m1 by simp
  moreover have "length (ldigits w) = Suc (length rest)"
    using rest by (metis length_Cons length_rev)
  ultimately obtain m2 where "itoa str (int v) m1 = Some m2" "cstr m2 str (take 1 (rev rest @ [0x30 + of_nat v]))"
    using itoa_stale [of str "int v" m1 rest] assms v by (auto simp: itoa_digits_def)
  moreover have "take 1 (rev rest @ [0x30 + of_nat v]) = [last rest]"
    using last(2) by (cases rest rule: rev_cases) auto
  ultimately show ?thesis using m1 last(1) by auto
qed

theorem itoa_reuse_witness:
  "\<exists>m1 m2. itoa 100 (int 12345) (\<lambda>_. 0) = Some m1 \<and> cstr m1 100 (rev (ldigits 12345)) \<and>
    itoa 100 (int 7) m1 = Some m2 \<and> cstr m2 100 [0x35]"
proof -
  have "length (ldigits 12345) = 5" by (simp add: ldigits.simps)
  then show ?thesis using itoa_reuse [of 100 12345 7 "\<lambda>_. 0"] by simp
qed

text \<open>
  C40: \<open>htoa\<close> leaves the hexadecimal numeral of every 32-bit value in the buffer, whatever
  the buffer held before: the string ends where the digits do, and reading it back gives
  the value.
\<close>

theorem htoa_roundtrip:
  assumes "str \<noteq> NULL"
  shows "\<exists>cs. cstr (htoa str v m) str cs \<and> hexval cs = unat v \<and> length cs \<le> 8"
proof -
  have "length (hexdigits v) \<le> 8"
    using length_dropWhile_le [of "(=) 0" "map (nibble v) [28, 24, 20, 16, 12, 8, 4, 0]"]
    by (simp add: hexdigits_def del: dropWhile.simps list.map)
  then show ?thesis
    using assms cstr_store [OF nz_hexdigits, of v str m] hexval_hexdigits [of v]
    by (auto simp: htoa_store)
qed

theorem htoa_roundtrip_witness:
  "\<exists>cs. cstr (htoa 100 0xdeadbeef (\<lambda>_. 0x41)) 100 cs \<and> hexval cs = unat (0xdeadbeef :: u32) \<and> length cs \<le> 8"
  using htoa_roundtrip [where str = 100 and v = "0xdeadbeef" and m = "\<lambda>_. 0x41"] by simp

text \<open>
  \<open>strcmp\<close> does not stop at the end of the strings: two equal strings that are followed
  by different bytes are reported as different.
\<close>

theorem strcmp_past_end:
  assumes "cstr m a cs" and "cstr m b cs" and "a \<noteq> NULL" and "b \<noteq> NULL"
    and "m (a + of_nat (Suc (length cs))) \<noteq> m (b + of_nat (Suc (length cs)))"
    and "unat a + Suc (length cs) < 2 ^ 32" and "unat b + Suc (length cs) < 2 ^ 32"
  shows "strcmp a b m = -1"
proof -
  have "\<forall>j<Suc (length cs). m (a + of_nat j) = m (b + of_nat j)"
    using assms(1,2) unfolding cstr_alt by (metis less_antisym)
  then show ?thesis
    using assms strcmp_loop_neq [of "Suc (length cs)" m a b] by (simp add: strcmp_def)
qed

theorem strcmp_past_end_witness:
  "strcmp 100 200 (store 100 [0x61, 0, 1] (store 200 [0x61, 0, 2] (\<lambda>_. 0))) = -1"
  using strcmp_past_end [of "store 100 [0x61, 0, 1] (store 200 [0x61, 0, 2] (\<lambda>_. 0))" 100 "[0x61]" 200]
  by simp

text \<open>
  \<open>phys_copy\<close> of \<open>n\<close> bytes to a block that does not overlap the source writes the \<open>n\<close>
  bytes and then a 0 at the byte after them, which belongs to whatever follows the buffer.
\<close>

theorem phys_copy_overrun:
  assumes "dst \<noteq> NULL" and "src \<noteq> NULL"
    and "span dst (unat n) \<inter> span src (unat n) = {}"
  shows "phys_copy dst src n m = (0, store dst (load m src (unat n) @ [0]) m)"
  using assms phys_copy_loop_store [of dst "unat n" src m]
  by (simp add: phys_copy_def store_append load_def)

theorem phys_copy_overrun_witness:
  "phys_copy 200 100 2 (store 100 [1, 2, 3] (\<lambda>_. 9)) = (0, store 200 [1, 2, 0] (store 100 [1, 2, 3] (\<lambda>_. 9)))"
proof -
  have "span 200 2 \<inter> span 100 2 = {}"
    by simp
  moreover have "load (store 100 [1, 2, 3] (\<lambda>_. 9)) 100 2 = [1, 2]"
    by (simp add: load_Suc)
  ultimately show ?thesis
    using phys_copy_overrun [of 200 100 2 "store 100 [1, 2, 3] (\<lambda>_. 9)"] by (simp del: store.simps)
qed

end
