(* ===== verification/Page_alloc.thy ===== *)
theory Page_alloc
  imports Buddy Kstring
begin

section \<open>The page allocator (mm/page_alloc.c)\<close>

text \<open>
  \<^verbatim>\<open>get_free_pages\<close> takes a block of the order asked for, splitting a larger one when
  the list of that order is empty; \<^verbatim>\<open>free_pages\<close> puts a block back. The addresses they
  return are those of the frames; the failure codes \<^verbatim>\<open>-2\<close> and \<^verbatim>\<open>-3\<close> come out as the
  \<^verbatim>\<open>unsigned long\<close> they are converted to. The search for a larger block is not bounded by
  the array: when there is none it reads past its end (\<open>None\<close>).
\<close>

record pa_heap = mm_heap +
  mem :: bytes

subsection \<open>Operations\<close>

definition free_pages_ok ::
  "addr \<Rightarrow> int \<Rightarrow> 'a mm_heap_scheme \<Rightarrow> (int \<times> 'a mm_heap_scheme) option" where
  "free_pages_ok page order s =
     (if page = NULL \<or> order \<ge> NR_MEM_LISTS then Some (-1, s)
      else do {
        (r, s) \<leftarrow> buddy_list_add_line page order s;
        if r < 0 then Some (-2, s) else Some (0, s)
      })"

definition free_pages ::
  "addr \<Rightarrow> int \<Rightarrow> 'a mm_heap_scheme \<Rightarrow> (int \<times> 'a mm_heap_scheme) option" where
  "free_pages page order s =
     (if page = NULL \<or> order \<ge> NR_MEM_LISTS then Some (-1, s)
      else if pg_flags s page AND SYS_RAM \<noteq> 0 then do {
        (r, s) \<leftarrow> free_pages_ok page order s;
        if r < 0 then Some (-2, s) else Some (0, s)
      }
      else Some (0, s))"

text \<open>\<^verbatim>\<open>while(queue->nr_free_pages == 0) { ++new_order; ++queue; }\<close>\<close>

function find_order :: "'a mm_heap_scheme \<Rightarrow> int \<Rightarrow> int option" where
  "find_order s new_order =
     (if new_order < 0 \<or> new_order \<ge> NR_MEM_LISTS then None
      else if bl_nr s new_order = 0 then find_order s (new_order + 1)
      else Some new_order)"
  by pat_completeness auto
termination
  by (relation "measure (\<lambda>(s, i). nat (NR_MEM_LISTS - i))") auto

declare find_order.simps [simp del]

text \<open>The code from the label \<^verbatim>\<open>repeat\<close> on; \<open>item\<close> is the local variable it leaves set.\<close>

partial_function (option) get_free_pages_repeat ::
  "int \<Rightarrow> addr \<Rightarrow> 'a mm_heap_scheme \<Rightarrow> (u32 \<times> 'a mm_heap_scheme) option" where
  "get_free_pages_repeat order item s =
     (if order < 0 then None
      else if bl_nr s order > 0 then do {
        ((r, item), s) \<leftarrow> buddy_list_del (bl_head s order) order (Some item) s;
        if r \<noteq> 0 then Some (- 3, s) else Some (pg_address s (the item), s)
      }
      else do {
        new_order \<leftarrow> find_order s order;
        ((r, item), s) \<leftarrow> buddy_list_del (bl_head s new_order) new_order (Some item) s;
        if r \<noteq> 0 then Some (- 2, s)
        else do {
          let page = the item;
          let new_order = new_order - 1;
          (_, s) \<leftarrow> buddy_list_add page new_order s;
          let page = page_add page (kpower new_order);
          (_, s) \<leftarrow> buddy_list_add page new_order s;
          get_free_pages_repeat order (the item) s
        }
      })"

definition get_free_pages :: "int \<Rightarrow> 'a mm_heap_scheme \<Rightarrow> (u32 \<times> 'a mm_heap_scheme) option" where
  "get_free_pages order s =
     (if order \<ge> NR_MEM_LISTS then Some (NULL, s) else get_free_pages_repeat order NULL s)"

abbreviation (input) GFP_ATOMIC :: int where
  "GFP_ATOMIC \<equiv> 2"

abbreviation (input) GFP_KERNEL :: int where
  "GFP_KERNEL \<equiv> 3"

definition raw_get_free_pages ::
  "int \<Rightarrow> int \<Rightarrow> 'a mm_heap_scheme \<Rightarrow> (u32 \<times> 'a mm_heap_scheme) option" where
  "raw_get_free_pages priority order s =
     (if priority = GFP_ATOMIC then get_free_pages order s else Some (0, s))"

definition get_free_page :: "int \<Rightarrow> 'a pa_heap_scheme \<Rightarrow> (u32 \<times> 'a pa_heap_scheme) option" where
  "get_free_page priority s = do {
     (address, s) \<leftarrow> raw_get_free_pages priority 0 s;
     let (_, m) = memset address 0 (uint PAGE_SIZE) (mem s);
     Some (address, s\<lparr>mem := m\<rparr>)
   }"

text \<open>\<^verbatim>\<open>power\<close> returns an \<^verbatim>\<open>int\<close>: from \<open>2 ^ 31\<close> on its value is negative.\<close>

definition alloc_mem :: "u32 \<Rightarrow> 'a mm_heap_scheme \<Rightarrow> (u32 \<times> 'a mm_heap_scheme) option" where
  "alloc_mem sz s =
     (let order = sint (kpower (uint (drop_bit 12 sz)))
      in get_free_pages order s)"

subsection \<open>Lemmas\<close>

definition sorted_lists :: "(int \<Rightarrow> nat list) \<Rightarrow> bool" where
  "sorted_lists G \<longleftrightarrow> (\<forall>i\<in>{0..<10}. sorted_wrt (<) (G i))"

text \<open>
  Which lists an allocation that split a block of order \<open>k\<close> leaves as they were: those of
  larger blocks, the rest of list \<open>k\<close>, and one half of the block split first.
\<close>

definition taken :: "int \<Rightarrow> int \<Rightarrow> (int \<Rightarrow> nat list) \<Rightarrow> (int \<Rightarrow> nat list) \<Rightarrow> bool" where
  "taken order k G G' \<longleftrightarrow> (\<forall>j>k. G' j = G j) \<and> G' k = tl (G k) \<and> (order < k \<longrightarrow> G' (k - 1) \<noteq> [])"

lemma find_order_least:
  assumes "0 \<le> order" "order \<le> k" "k < 10" "bl_nr s k \<noteq> 0" "\<forall>j\<in>{order..<k}. bl_nr s j = 0"
  shows "find_order s order = Some k"
  using assms
proof (induction "nat (k - order)" arbitrary: order)
  case 0
  then show ?case by (subst find_order.simps) simp
next
  case (Suc n)
  then have "order < k" by simp
  moreover have "find_order s (order + 1) = Some k"
    by (rule Suc.hyps(1)) (use Suc in auto)
  ultimately show ?case using Suc by (subst find_order.simps) simp
qed

lemma find_order_none:
  assumes "\<forall>j\<in>{order..<10}. bl_nr s j = 0"
  shows "find_order s order = None"
  using assms
proof (induction "nat (10 - order)" arbitrary: order)
  case 0
  then show ?case by (subst find_order.simps) simp
next
  case (Suc n)
  then have "find_order s (order + 1) = None" by (intro Suc.hyps(1)) auto
  then show ?case using Suc by (subst find_order.simps) simp
qed

lemma split_block:
  assumes rep: "buddy_rep base N G s" and k: "0 < k" "k < 10" and G: "G k = m # ms" "G (k - 1) = []"
  defines "n \<equiv> m + 2 ^ nat (k - 1)"
  shows "\<exists>s1 s2 s3. buddy_list_del (bl_head s k) k (Some e) s = Some ((0, Some (pg base m)), s1) \<and>
    buddy_list_add (pg base m) (k - 1) s1 = Some (0, s2) \<and>
    buddy_list_add (pg base n) (k - 1) s2 = Some (0, s3) \<and>
    buddy_rep base N (G(k := ms, k - 1 := [m, n])) s3 \<and>
    free_frames (G(k := ms, k - 1 := [m, n])) = free_frames G \<and>
    buddy_frame base N s s3"
proof -
  let ?G1 = "G(k := ms)" and ?G2 = "G(k := ms, k - 1 := [m])"
  have k0: "0 \<le> k" "0 \<le> k - 1" "k - 1 < 10" using k by simp_all
  note sp = frames_split [OF k(1), of m, folded n_def]
  have sub: "frames (k, m) \<subseteq> free_frames G"
    by (rule free_framesI) (use k G in auto)
  have N: "frames (k, m) \<subseteq> {..<N}"
    using blocks_okD(1) [OF buddy_repD(2) [OF rep], of "(k, m)"] k G by (simp add: mem_blocks)
  obtain s1 where s1: "buddy_list_del (bl_head s k) k (Some e) s = Some ((0, Some (pg base m)), s1)"
    "buddy_rep base N ?G1 s1" "buddy_frame base N s s1"
    using buddy_list_del_rep [OF rep k0(1) k(2) G(1)] by blast
  have f1: "free_frames ?G1 = free_frames G - frames (k, m)"
    using buddy_rep_unlink(2) [OF rep k0(1) k(2), of "[]" m ms] G by simp
  have d1: "frames (k - 1, m) \<subseteq> {..<N}" "frames (k - 1, m) \<inter> free_frames ?G1 = {}"
    using N f1 sp by blast+
  have G1: "?G1 (k - 1) = []" using G by simp
  obtain s2 where s2: "buddy_list_add (pg base m) (k - 1) s1 = Some (0, s2)"
    "buddy_rep base N ?G2 s2" "buddy_frame base N s1 s2"
    using buddy_list_add_rep [OF s1(2) k0(2,3) d1] unfolding G1 append_Nil by blast
  have f2: "free_frames ?G2 = free_frames ?G1 \<union> frames (k - 1, m)"
    using buddy_rep_link(2) [OF s1(2) k0(2,3) _ d1, of "[]" "[]"] G1 by simp
  have d2: "frames (k - 1, n) \<subseteq> {..<N}" "frames (k - 1, n) \<inter> free_frames ?G2 = {}"
    using N f1 f2 sp by blast+
  have G2: "?G2 (k - 1) = [m]" by simp
  obtain s3 where s3: "buddy_list_add (pg base n) (k - 1) s2 = Some (0, s3)"
    "buddy_rep base N (G(k := ms, k - 1 := [m, n])) s3" "buddy_frame base N s2 s3"
    using buddy_list_add_rep [OF s2(2) k0(2,3) d2] unfolding G2 fun_upd_upd append_Cons append_Nil by blast
  have f3: "free_frames (G(k := ms, k - 1 := [m, n])) = free_frames ?G2 \<union> frames (k - 1, n)"
    using buddy_rep_link(2) [OF s2(2) k0(2,3) _ d2, of "[m]" "[]"] G2 by simp
  have "free_frames (G(k := ms, k - 1 := [m, n])) = free_frames G"
    using f1 f2 f3 sub sp by blast
  moreover have "buddy_frame base N s s3"
    using buddy_frame_trans [OF buddy_frame_trans [OF s1(3) s2(3)] s3(3)] .
  ultimately show ?thesis using s1 s2 s3 by auto
qed

lemma get_free_pages_repeat_take:
  assumes rep: "buddy_rep base N G s" and o: "0 \<le> order" "order < 10" and G: "G order = m # ms"
  shows "\<exists>s'. get_free_pages_repeat order item s = Some (PAGE_SIZE * of_nat m, s') \<and>
    buddy_rep base N (G(order := ms)) s' \<and> buddy_frame base N s s'"
proof -
  have "bl_nr s order > 0" using buddy_repD(4) [OF rep o] G by simp
  moreover have "pg_address s (pg base m) = PAGE_SIZE * of_nat m"
    using pages_okD(4) [OF buddy_repD(1) [OF rep]] block_in_range(2) [OF rep o] G by simp
  ultimately show ?thesis
    using buddy_list_del_rep [OF rep o G, of item] o
    by (subst get_free_pages_repeat.simps) (auto simp: buddy_frame_def)
qed

lemma get_free_pages_repeat_split:
  assumes rep: "buddy_rep base N G s" and o: "0 \<le> order" "order < k" "k < 10"
    and G: "G k = m # ms" "\<forall>j\<in>{order..<k}. G j = []"
  shows "\<exists>s'. get_free_pages_repeat order item s = get_free_pages_repeat order (pg base m) s' \<and>
    buddy_rep base N (G(k := ms, k - 1 := [m, m + 2 ^ nat (k - 1)])) s' \<and>
    free_frames (G(k := ms, k - 1 := [m, m + 2 ^ nat (k - 1)])) = free_frames G \<and>
    buddy_frame base N s s'"
proof -
  have nr: "bl_nr s order = 0" using buddy_repD(4) [OF rep, of order] o G(2) by simp
  have "find_order s order = Some k"
    using buddy_repD(4) [OF rep] o G by (intro find_order_least) auto
  moreover have "G (k - 1) = []" using G(2) o by simp
  moreover have "page_add (pg base m) (kpower (k - 1)) = pg base (m + 2 ^ nat (k - 1))"
    by (rule page_add_pg) (use o in simp)
  ultimately show ?thesis
    using split_block [OF rep _ o(3) G(1), of item] o nr
    by (subst get_free_pages_repeat.simps) (auto simp: Let_def)
qed

lemma get_free_pages_repeat_rep:
  assumes "buddy_rep base N G s" "0 \<le> order" "order \<le> k" "k < 10" "G k \<noteq> []" "\<forall>j\<in>{order..<k}. G j = []"
    "sorted_lists G"
  shows "\<exists>fr s' G'. get_free_pages_repeat order item s = Some (PAGE_SIZE * of_nat fr, s') \<and>
    buddy_rep base N G' s' \<and> sorted_lists G' \<and> frames (order, fr) \<subseteq> free_frames G \<and>
    free_frames G' = free_frames G - frames (order, fr) \<and>
    buddy_frame base N s s' \<and> taken order k G G'"
  using assms
proof (induction "nat (k - order)" arbitrary: k G s item)
  case 0
  then have k: "k = order" by simp
  with 0 obtain m ms where G: "G order = m # ms" by (cases "G order") auto
  have o: "0 \<le> order" "order < 10" using 0 k by auto
  have "free_frames (G(order := ms)) = free_frames G - frames (order, m)"
    using buddy_rep_unlink(2) [OF 0(2) o, of "[]" m ms] G by simp
  moreover have "frames (order, m) \<subseteq> free_frames G"
    by (rule free_framesI) (use o G in auto)
  moreover have "sorted_lists (G(order := ms))"
    using 0(8) G o unfolding sorted_lists_def by (metis (no_types) fun_upd_apply sorted_wrt.simps(2) atLeastLessThan_iff)
  moreover have "taken order k G (G(order := ms))"
    using G k by (simp add: taken_def)
  ultimately show ?case
    using get_free_pages_repeat_take [OF 0(2) o G, of item] by metis
next
  case (Suc n)
  then have k: "order < k" by simp
  from Suc obtain m ms where G: "G k = m # ms" by (cases "G k") auto
  let ?G = "G(k := ms, k - 1 := [m, m + 2 ^ nat (k - 1)])"
  obtain s1 where s1: "get_free_pages_repeat order item s = get_free_pages_repeat order (pg base m) s1"
    "buddy_rep base N ?G s1" "free_frames ?G = free_frames G" "buddy_frame base N s s1"
    using get_free_pages_repeat_split [OF Suc.prems(1,2) k Suc.prems(4) G Suc.prems(6)] by blast
  have srt: "sorted_lists ?G"
    using Suc.prems(7) G k Suc.prems unfolding sorted_lists_def by (auto dest: bspec [of _ _ k])
  have "\<exists>fr s' G'. get_free_pages_repeat order (pg base m) s1 = Some (PAGE_SIZE * of_nat fr, s') \<and>
    buddy_rep base N G' s' \<and> sorted_lists G' \<and> frames (order, fr) \<subseteq> free_frames ?G \<and>
    free_frames G' = free_frames ?G - frames (order, fr) \<and>
    buddy_frame base N s1 s' \<and> taken order (k - 1) ?G G'"
    by (rule Suc.hyps(1) [of "k - 1", OF _ s1(2) Suc.prems(2) _ _ _ _ srt]) (use Suc.hyps(2) Suc.prems k in auto)
  moreover have "taken order (k - 1) ?G G' \<Longrightarrow> taken order k G G'" for G'
    using G by (auto simp: taken_def)
  ultimately show ?case using s1 buddy_frame_trans [OF s1(4)] by metis
qed

lemma sorted_insert_line:
  assumes "sorted_wrt (<) xs" "m \<notin> set xs"
  shows "sorted_wrt (<) (insert_line m xs)"
  using assms
proof (induction xs)
  case (Cons x xs)
  then show ?case
    by (cases "x \<le> m") (auto simp: insert_line_def dest: set_takeWhileD set_dropWhileD)
qed (simp add: insert_line_def)

lemma free_pages_rep:
  assumes rep: "buddy_rep base N G s" and srt: "sorted_lists G" and i: "0 \<le> i" "i < 10"
    and m: "frames (i, m) \<subseteq> {..<N}" "frames (i, m) \<inter> free_frames G = {}"
    and ram: "pg_flags s (pg base m) AND SYS_RAM \<noteq> 0"
  shows "\<exists>s' G'. free_pages (pg base m) i s = Some (0, s') \<and> buddy_rep base N G' s' \<and>
    sorted_lists G' \<and> free_frames G' = free_frames G \<union> frames (i, m) \<and>
    buddy_frame base N s s'"
proof -
  let ?G = "G(i := insert_line m (G i))"
  obtain s' where s': "buddy_list_add_line (pg base m) i s = Some (0, s')" "buddy_rep base N ?G s'"
    "buddy_frame base N s s'"
    using buddy_list_add_line_rep [OF rep i m] by blast
  have mem: "m < N" "m \<notin> free_frames G" using m frames_nonempty(2) [of m i] by blast+
  have "m \<notin> set (G i)"
    using free_framesI [of i m G] i mem(2) frames_nonempty(2) [of m i] by blast
  then have "sorted_lists ?G"
    using srt i by (auto simp: sorted_lists_def sorted_insert_line)
  moreover have "free_frames ?G = free_frames G \<union> frames (i, m)"
    unfolding insert_line_def by (rule buddy_rep_link(2) [OF rep i _ m]) simp
  moreover have "pg base m \<noteq> NULL"
    using pg_nonnull [OF buddy_repD(1) [OF rep]] mem by simp
  ultimately show ?thesis
    using s' i ram by (intro exI [of _ s'] exI [of _ ?G]) (simp add: free_pages_def free_pages_ok_def)
qed

lemma least_nonempty:
  assumes "\<exists>k\<in>{order..<10}. G k \<noteq> ([] :: nat list)"
  obtains k where "order \<le> k" "k < (10 :: int)" "G k \<noteq> []" "\<forall>j\<in>{order..<k}. G j = []"
proof -
  let ?P = "\<lambda>n. order + int n < 10 \<and> G (order + int n) \<noteq> []"
  obtain k where k: "order \<le> k" "k < 10" "G k \<noteq> []" using assms by auto
  then have P: "?P (nat (k - order))" by simp
  define l where "l = (LEAST n. ?P n)"
  have l: "?P l" unfolding l_def by (rule LeastI [of ?P, OF P])
  have "G j = []" if j: "j \<in> {order..<order + int l}" for j
  proof -
    have "nat (j - order) < l" using j by auto
    then have "\<not> ?P (nat (j - order))" unfolding l_def by (rule not_less_Least)
    then show ?thesis using j l by auto
  qed
  then show ?thesis using l by (intro that [of "order + int l"]) auto
qed

lemma get_free_pages_rep:
  assumes "buddy_rep base N G s" and "sorted_lists G" and "0 \<le> order"
    and "\<exists>k\<in>{order..<10}. G k \<noteq> []"
  shows "\<exists>fr s' G'. get_free_pages order s = Some (PAGE_SIZE * of_nat fr, s') \<and>
    buddy_rep base N G' s' \<and> sorted_lists G' \<and> frames (order, fr) \<subseteq> free_frames G \<and>
    free_frames G' = free_frames G - frames (order, fr) \<and>
    buddy_frame base N s s' \<and>
    (\<forall>j\<in>{order<..<10}. G j \<noteq> [] \<longrightarrow> G' j \<noteq> [] \<or> G' (j - 1) \<noteq> [])"
proof -
  obtain k where k: "order \<le> k" "k < 10" "G k \<noteq> []" "\<forall>j\<in>{order..<k}. G j = []"
    using least_nonempty [OF assms(4)] .
  then have "get_free_pages order s = get_free_pages_repeat order NULL s"
    by (simp add: get_free_pages_def)
  moreover have "\<forall>j\<in>{order<..<10}. G j \<noteq> [] \<longrightarrow> G' j \<noteq> [] \<or> G' (j - 1) \<noteq> []" if t: "taken order k G G'" for G'
  proof (intro ballI impI)
    fix j assume j: "j \<in> {order<..<10}" "G j \<noteq> []"
    then have "k \<le> j" using k(4) by (metis atLeastLessThan_iff greaterThanLessThan_iff less_imp_le not_le)
    then show "G' j \<noteq> [] \<or> G' (j - 1) \<noteq> []"
      using t j by (cases "k = j") (auto simp: taken_def)
  qed
  ultimately show ?thesis
    using get_free_pages_repeat_rep [OF assms(1,3) k assms(2), of NULL] by metis
qed

subsection \<open>Properties\<close>

text \<open>
  C1: when some list from the order asked for on is not empty, \<^verbatim>\<open>get_free_pages\<close> ends and
  returns the address of a block of \<open>2 ^ order\<close> frames that were all free, and exactly these
  frames stop being free; the invariant and the order of the lists are kept. So no frame is
  handed out twice.
\<close>

theorem get_free_pages_safe:
  assumes "buddy_rep base N G s" and "sorted_lists G" and "0 \<le> order"
    and "\<exists>k\<in>{order..<10}. G k \<noteq> []"
  shows "\<exists>fr s' G'. get_free_pages order s = Some (PAGE_SIZE * of_nat fr, s') \<and>
    buddy_rep base N G' s' \<and> sorted_lists G' \<and> frames (order, fr) \<subseteq> free_frames G \<and>
    free_frames G' = free_frames G - frames (order, fr) \<and>
    buddy_frame base N s s'"
  using get_free_pages_rep [OF assms] by blast

theorem get_free_pages_safe_witness:
  "\<exists>(s :: mm_heap) fr s' G'. get_free_pages 0 s = Some (PAGE_SIZE * of_nat fr, s') \<and>
    buddy_rep 0x2000 4 G' s' \<and> frames (0, fr) \<subseteq> {0, 1, 2} \<and> free_frames G' = {0, 1, 2} - frames (0, fr)"
proof -
  let ?G = "(\<lambda>_ :: int. [] :: nat list)(0 := [0, 1, 2])"
  obtain s :: mm_heap where s: "buddy_rep 0x2000 4 ?G s" using example_mm_pages by blast
  have srt: "sorted_lists ?G" by (simp add: sorted_lists_def)
  have ne: "\<exists>k\<in>{0..<10}. ?G k \<noteq> []" by (rule bexI [of _ 0]) auto
  have ff: "free_frames ?G = {0, 1, 2}" by (simp add: free_frames_pages)
  show ?thesis
    using get_free_pages_safe [OF s srt order.refl ne] unfolding ff by blast
qed

text \<open>
  C2: \<^verbatim>\<open>free_pages\<close> of a block none of whose frames is free, inside the page array. Of an order
  below 10 (the number of lists) and with a page that is marked \<^verbatim>\<open>SYS_RAM\<close>, it makes exactly the
  frames of the block free again, keeps the invariant and the order of the lists, and returns 0.
  A page without the mark is left alone, and 0 returned as well; a larger order gives -1 and no
  change. (A negative order, which the code does not test for, is not covered.)
\<close>

theorem free_pages_correct:
  assumes "buddy_rep base N G s" and "sorted_lists G" and "0 \<le> i"
    and "frames (i, m) \<subseteq> {..<N}" and "frames (i, m) \<inter> free_frames G = {}"
  shows "if 10 \<le> i then free_pages (pg base m) i s = Some (-1, s)
    else if pg_flags s (pg base m) AND SYS_RAM = 0 then free_pages (pg base m) i s = Some (0, s)
    else \<exists>s' G'. free_pages (pg base m) i s = Some (0, s') \<and> buddy_rep base N G' s' \<and>
      sorted_lists G' \<and> free_frames G' = free_frames G \<union> frames (i, m)"
proof -
  have "m < N" using assms(4) frames_nonempty(2) [of m i] by blast
  then have "pg base m \<noteq> NULL" using pg_nonnull [OF buddy_repD(1) [OF assms(1)]] by simp
  then have kept: "free_pages (pg base m) i s = Some (if 10 \<le> i then -1 else 0, s)"
    if "10 \<le> i \<or> pg_flags s (pg base m) AND SYS_RAM = 0"
    using that by (auto simp: free_pages_def)
  show ?thesis
  proof (cases "10 \<le> i \<or> pg_flags s (pg base m) AND SYS_RAM = 0")
    case True
    then show ?thesis using kept by auto
  next
    case False
    then have "\<exists>s' G'. free_pages (pg base m) i s = Some (0, s') \<and> buddy_rep base N G' s' \<and>
        sorted_lists G' \<and> free_frames G' = free_frames G \<union> frames (i, m)"
      using free_pages_rep [OF assms(1-3) _ assms(4,5)] by (simp del: frames.simps) blast
    then show ?thesis using False by simp
  qed
qed

theorem free_pages_correct_witness:
  "\<exists>s' G'. free_pages (pg 0x2000 2) 1 (buddy_list_init example_mm) = Some (0, s') \<and>
    buddy_rep 0x2000 4 G' s' \<and> sorted_lists G' \<and> free_frames G' = {2, 3}"
proof -
  have f: "pg_flags (buddy_list_init example_mm) = (\<lambda>_. SYS_RAM)"
    unfolding buddy_list_init_def by (simp only: buddy_list_init_loop_fields) (simp add: example_mm_def)
  have n: "free_frames (\<lambda>_. []) = {}" by (simp add: free_frames_def blocks_def)
  have fr: "frames (1, 2) = {2, 3}" by auto
  show ?thesis
    using free_pages_correct [OF buddy_list_init_rep [OF example_mm_ok], of 1 2]
    by (simp add: f n sorted_lists_def fr del: frames.simps)
qed

text \<open>
  C13: when every list from the order asked for on is empty, \<^verbatim>\<open>get_free_pages\<close> does not
  return the NULL its callers test for: the search loop has no bound and reads counters
  behind the last entry of \<^verbatim>\<open>buddy_list\<close>.
\<close>

theorem get_free_pages_exhausted:
  assumes "buddy_rep base N G s" and "0 \<le> order" and "order < 10" and "\<forall>k\<in>{order..<10}. G k = []"
  shows "get_free_pages order s = None"
proof -
  have nr: "\<forall>j\<in>{order..<10}. bl_nr s j = 0"
    using buddy_repD(4) [OF assms(1)] assms by auto
  then show ?thesis
    using find_order_none [OF nr] assms
    by (simp add: get_free_pages_def) (subst get_free_pages_repeat.simps, simp)
qed

theorem get_free_pages_exhausted_witness: "get_free_pages 0 (buddy_list_init example_mm) = None"
  using get_free_pages_exhausted [OF buddy_list_init_rep [OF example_mm_ok], of 0] by simp

text \<open>
  \<^verbatim>\<open>get_free_page(GFP_KERNEL)\<close>, the call of the page fault handler, returns 0 in every
  state: only \<^verbatim>\<open>GFP_ATOMIC\<close> requests are served.
\<close>

theorem get_free_page_kernel: "get_free_page GFP_KERNEL s = Some (0, s)"
  by (simp add: get_free_page_def raw_get_free_pages_def memset_def)

text \<open>
  C14: \<^verbatim>\<open>alloc_mem\<close> uses \<open>2 ^ pages\<close> as the order of the block: sizes of 4 to 30 pages get
  NULL whatever is free, 31 pages index \<^verbatim>\<open>buddy_list\<close> with a negative number, and from 32
  pages on the power overflows to 0 and the caller gets a single page.
\<close>

theorem alloc_mem_sizes:
  "alloc_mem sz s =
     (let pages = unat sz div 4096
      in if pages < 4 then get_free_pages (2 ^ pages) s
         else if pages < 31 then Some (NULL, s)
         else if pages = 31 then None
         else get_free_pages 0 s)"
proof -
  let ?p = "unat sz div 4096"
  have p: "uint (drop_bit 12 sz) = int ?p"
    by (simp add: drop_bit_eq_div uint_div zdiv_int flip: uint_nat)
  have small: "sint (2 ^ n :: u32) = 2 ^ n" if "n < 31" for n
  proof -
    have "(2 :: int) ^ n < 2 ^ 31" using that by (intro power_strict_increasing) auto
    moreover have "- (2 ^ 31) \<le> (2 :: int) ^ n" by (rule order_trans [of _ 0]) simp_all
    ultimately have "sint (of_int (2 ^ n) :: u32) = 2 ^ n"
      unfolding signed_of_int by (simp add: signed_take_bit_int_eq_self_iff)
    then show ?thesis by simp
  qed
  consider "?p < 4" | "4 \<le> ?p" "?p < 31" | "?p = 31" | "32 \<le> ?p" by linarith
  then show ?thesis
  proof cases
    case 1
    then show ?thesis by (simp add: alloc_mem_def p small)
  next
    case 2
    have "(2 :: int) ^ 4 \<le> 2 ^ ?p" using 2 by (intro power_increasing) auto
    then show ?thesis using 2 by (simp add: alloc_mem_def p small get_free_pages_def)
  next
    case 3
    have "sint (kpower 31) = - (2 ^ 31)" by (simp add: kpower_eq)
    then have "alloc_mem sz s = get_free_pages_repeat (- (2 ^ 31)) NULL s"
      using 3 by (simp add: alloc_mem_def p get_free_pages_def)
    also have "\<dots> = None" by (subst get_free_pages_repeat.simps) simp
    finally show ?thesis using 3 by simp
  next
    case 4
    then have k: "kpower (int ?p) = 0" by (intro kpower_wraps) simp
    show ?thesis unfolding alloc_mem_def p k Let_def using 4 by simp
  qed
qed

end
