(* ===== verification/Slab.thy ===== *)
theory Slab
  imports Page_alloc
begin

section \<open>The slab allocator (mm/slab.c)\<close>

text \<open>
  A cache hands out objects of one size. Its slabs are blocks of 16 pages: a \<^verbatim>\<open>struct slab\<close>
  (20 bytes), the array of \<^verbatim>\<open>unsigned int\<close> that links the free objects, and the objects.
  The members of \<^verbatim>\<open>struct slab\<close> and \<^verbatim>\<open>struct kmem_cache\<close> are one function per member over
  the address of the struct; \<open>bufctl\<close> holds the cells of the arrays behind the slab
  headers, by address. The member \<^verbatim>\<open>list\<close> of a slab is its first one; the list heads
  inside a cache are at the offsets of the C struct (\<^verbatim>\<open>next\<close> 44, \<^verbatim>\<open>partial\<close> 52, \<^verbatim>\<open>full\<close>
  60, \<^verbatim>\<open>free\<close> 68), and its name is bytes of memory at offset 28. The \<^verbatim>\<open>int\<close> members
  \<^verbatim>\<open>obj_size\<close> and \<^verbatim>\<open>obj_num\<close> are kept as words and read signed where the code does.
\<close>

subsection \<open>State\<close>

record slab_heap = pa_heap +
  sl_s_mem :: "addr \<Rightarrow> addr"
  sl_free :: "addr \<Rightarrow> u32"
  sl_inuse :: "addr \<Rightarrow> u32"
  bufctl :: "addr \<Rightarrow> u32"
  kc_flags :: "addr \<Rightarrow> u32"
  kc_nr_frees :: "addr \<Rightarrow> u32"
  kc_nr_pages :: "addr \<Rightarrow> u32"
  kc_obj_size :: "addr \<Rightarrow> u32"
  kc_obj_num :: "addr \<Rightarrow> u32"
  cache_chain :: addr
  tsk_cachep :: addr
  thread_union_cachep :: addr
  vma_cachep :: addr
  inode_cachep :: addr
  file_cachep :: addr

abbreviation (input) DEFAULT_SLAB_PAGES :: int where
  "DEFAULT_SLAB_PAGES \<equiv> 4"

abbreviation (input) MAX_SLAB_PAGES :: int where
  "MAX_SLAB_PAGES \<equiv> 8"

abbreviation (input) BUFCTL_END :: u32 where
  "BUFCTL_END \<equiv> 0xffffffff"

definition kc_partial :: "addr \<Rightarrow> addr" where
  "kc_partial cachep = cachep + 52"

definition kc_full :: "addr \<Rightarrow> addr" where
  "kc_full cachep = cachep + 60"

definition kc_free :: "addr \<Rightarrow> addr" where
  "kc_free cachep = cachep + 68"

definition kc_next :: "addr \<Rightarrow> addr" where
  "kc_next cachep = cachep + 44"

subsection \<open>Operations on a slab\<close>

definition slab_bufctl :: "addr \<Rightarrow> addr" where
  "slab_bufctl slabp = slabp + 20"

text \<open>\<^verbatim>\<open>slab_bufctl(slabp)[i]\<close>\<close>

definition bufctl_cell :: "addr \<Rightarrow> u32 \<Rightarrow> addr" where
  "bufctl_cell slabp i = slab_bufctl slabp + 4 * i"

definition set_bufctl :: "addr \<Rightarrow> u32 \<Rightarrow> 'a slab_heap_scheme \<Rightarrow> 'a slab_heap_scheme" where
  "set_bufctl a v s = s\<lparr>bufctl := (bufctl s)(a := v)\<rparr>"

definition set_free :: "addr \<Rightarrow> u32 \<Rightarrow> 'a slab_heap_scheme \<Rightarrow> 'a slab_heap_scheme" where
  "set_free slabp v s = s\<lparr>sl_free := (sl_free s)(slabp := v)\<rparr>"

definition set_inuse :: "addr \<Rightarrow> u32 \<Rightarrow> 'a slab_heap_scheme \<Rightarrow> 'a slab_heap_scheme" where
  "set_inuse slabp v s = s\<lparr>sl_inuse := (sl_inuse s)(slabp := v)\<rparr>"

definition set_s_mem :: "addr \<Rightarrow> addr \<Rightarrow> 'a slab_heap_scheme \<Rightarrow> 'a slab_heap_scheme" where
  "set_s_mem slabp v s = s\<lparr>sl_s_mem := (sl_s_mem s)(slabp := v)\<rparr>"

text \<open>The difference of the pointers is a signed number, and so is the division.\<close>

definition obj_to_index :: "addr \<Rightarrow> addr \<Rightarrow> addr \<Rightarrow> 'a slab_heap_scheme \<Rightarrow> u32" where
  "obj_to_index cachep slabp objp s =
     word_of_int (sint (objp - sl_s_mem s slabp) sdiv sint (kc_obj_size s cachep))"

definition index_to_obj :: "addr \<Rightarrow> addr \<Rightarrow> u32 \<Rightarrow> 'a slab_heap_scheme \<Rightarrow> addr" where
  "index_to_obj cachep slabp free s = sl_s_mem s slabp + kc_obj_size s cachep * free"

definition slab_get_obj ::
  "addr \<Rightarrow> addr \<Rightarrow> 'a slab_heap_scheme \<Rightarrow> addr \<times> 'a slab_heap_scheme" where
  "slab_get_obj cachep slabp s =
     (if cachep = NULL \<or> slabp = NULL then (NULL, s)
      else if sl_free s slabp = BUFCTL_END then (NULL, s)
      else (let objp = index_to_obj cachep slabp (sl_free s slabp) s;
                nxt = bufctl s (bufctl_cell slabp (sl_free s slabp));
                s = set_inuse slabp (sl_inuse s slabp + 1) s;
                s = set_free slabp nxt s;
                s = (if sl_inuse s slabp = kc_obj_num s cachep
                     then list_add slabp (kc_full cachep) (list_del slabp s)
                     else s)
            in (objp, s)))"

text \<open>An object size of 0 divides by 0: \<open>None\<close>.\<close>

definition slab_free_obj ::
  "addr \<Rightarrow> addr \<Rightarrow> addr \<Rightarrow> 'a slab_heap_scheme \<Rightarrow> (int \<times> 'a slab_heap_scheme) option" where
  "slab_free_obj cachep slabp objp s =
     (if cachep = NULL \<or> slabp = NULL \<or> objp = NULL then Some (-1, s)
      else if kc_obj_size s cachep = 0 then None
      else (let objnr = obj_to_index cachep slabp objp s
            in if objnr > kc_obj_num s cachep then Some (-2, s)
               else (let s = set_bufctl (bufctl_cell slabp objnr) (sl_free s slabp) s;
                         s = set_free slabp objnr s;
                         s = set_inuse slabp (sl_inuse s slabp - 1) s;
                         s = (if sl_inuse s slabp = 0
                              then list_add slabp (kc_free cachep) (list_del slabp s)
                              else s)
                     in Some (0, s))))"

definition slab_alloc :: "'a slab_heap_scheme \<Rightarrow> (addr \<times> 'a slab_heap_scheme) option" where
  "slab_alloc s = get_free_pages DEFAULT_SLAB_PAGES s"

definition slab_estimate :: "u32 \<Rightarrow> u32" where
  "slab_estimate obj_size = (kpower DEFAULT_SLAB_PAGES * PAGE_SIZE - 20) div obj_size"

fun slab_init_loop :: "addr \<Rightarrow> nat \<Rightarrow> nat \<Rightarrow> 'a slab_heap_scheme \<Rightarrow> 'a slab_heap_scheme" where
  "slab_init_loop slabp i 0 s = s"
| "slab_init_loop slabp i (Suc n) s =
     slab_init_loop slabp (Suc i) n (set_bufctl (bufctl_cell slabp (of_nat i)) (of_nat i + 1) s)"

text \<open>
  With no objects the end mark would go to the cell before the array: \<open>None\<close>. The control
  entries and the fields of a slab are maps of their own: that the entries or the objects of a
  slab which do not fit overwrite what lies behind it is not seen in the state, and the
  invariant of the component asks for sizes that fit.
\<close>

definition slab_init ::
  "addr \<Rightarrow> addr \<Rightarrow> addr \<Rightarrow> 'a slab_heap_scheme \<Rightarrow> (int \<times> 'a slab_heap_scheme) option" where
  "slab_init cachep slabp args s =
     (let ptr = args;
          s = set_free slabp 0 s;
          s = set_inuse slabp 0 s;
          s = INIT_LIST_HEAD slabp s;
          ptr = ptr + (kc_obj_num s cachep + 1) * 4;
          s = set_s_mem slabp ptr s;
          n = nat (sint (kc_obj_num s cachep));
          s = slab_init_loop slabp 0 n s
      in if n = 0 then None
         else Some (0, set_bufctl (bufctl_cell slabp (of_nat (n - 1))) BUFCTL_END s))"

subsection \<open>Operations on a cache\<close>

definition kmem_get_slab :: "addr \<Rightarrow> 'a slab_heap_scheme \<Rightarrow> addr \<times> 'a slab_heap_scheme" where
  "kmem_get_slab cachep s =
     (if cachep = NULL then (NULL, s)
      else
        (let (ok, s) =
           (if list_empty_careful (kc_partial cachep) s then
              (if list_empty_careful (kc_free cachep) s then (False, s)
               else (case list_get_del (kc_free cachep) (Some NULL) s of
                       ((r, item), s) \<Rightarrow>
                         if r \<noteq> 0 then (False, s)
                         else (True, list_add (the item) (kc_partial cachep) s)))
            else (True, s))
         in if \<not> ok then (NULL, s)
            else (case list_get (kc_partial cachep) (Some NULL) s of
                    (r, pos) \<Rightarrow> if r \<noteq> 0 then (NULL, s) else (the pos, s))))"

definition kmem_add_slab :: "addr \<Rightarrow> addr \<Rightarrow> 'a slab_heap_scheme \<Rightarrow> int \<times> 'a slab_heap_scheme" where
  "kmem_add_slab cachep slabp s =
     (if cachep = NULL \<or> slabp = NULL then (-1, s)
      else (let s = s\<lparr>kc_nr_frees := (kc_nr_frees s)(cachep := kc_nr_frees s cachep + kc_obj_num s cachep)\<rparr>
            in (0, list_add_tail slabp (kc_free cachep) s)))"

definition kmem_free_slab :: "addr \<Rightarrow> addr \<Rightarrow> 'a slab_heap_scheme \<Rightarrow> int \<times> 'a slab_heap_scheme" where
  "kmem_free_slab cachep slabp s =
     (if cachep = NULL \<or> slabp = NULL then (-1, s) else (0, list_del slabp s))"

definition cache_grow :: "addr \<Rightarrow> 'a slab_heap_scheme \<Rightarrow> (int \<times> 'a slab_heap_scheme) option" where
  "cache_grow cachep s =
     (if cachep = NULL \<or> kc_obj_size s cachep = 0 then Some (-1, s)
      else do {
        (ptr, s) \<leftarrow> slab_alloc s;
        let slabp = ptr;
        let obj_num = slab_estimate (kc_obj_size s cachep);
        let s = s\<lparr>kc_obj_num := (kc_obj_num s)(cachep := obj_num)\<rparr>;
        let s = s\<lparr>kc_nr_pages := (kc_nr_pages s)(cachep := kc_nr_pages s cachep + kpower DEFAULT_SLAB_PAGES)\<rparr>;
        (_, s) \<leftarrow> slab_init cachep slabp (ptr + 20) s;
        let (_, s) = kmem_add_slab cachep slabp s;
        Some (0, s)
      })"

partial_function (option) kmem_get_obj ::
  "addr \<Rightarrow> 'a slab_heap_scheme \<Rightarrow> (addr \<times> 'a slab_heap_scheme) option" where
  "kmem_get_obj cachep s =
     (case kmem_get_slab cachep s of
        (slabp, s) \<Rightarrow>
          (case slab_get_obj cachep slabp s of
             (obj, s) \<Rightarrow>
               if obj = NULL then
                 (if kc_nr_pages s cachep \<ge> kpower MAX_SLAB_PAGES then Some (NULL, s)
                  else do { (_, s) \<leftarrow> cache_grow cachep s; kmem_get_obj cachep s })
               else Some (obj, s)))"

text \<open>\<^verbatim>\<open>#define VALUE_MASK(v) (~(v) + 1)\<close>\<close>

definition VALUE_MASK :: "u32 \<Rightarrow> u32" where
  "VALUE_MASK v = NOT v + 1"

definition kmem_free_obj ::
  "addr \<Rightarrow> addr \<Rightarrow> 'a slab_heap_scheme \<Rightarrow> (int \<times> 'a slab_heap_scheme) option" where
  "kmem_free_obj cachep objp s =
     (if cachep = NULL \<or> objp = NULL then Some (-1, s)
      else (let address = objp AND VALUE_MASK (word_of_int DEFAULT_SLAB_PAGES * PAGE_SIZE)
            in slab_free_obj cachep address objp s))"

definition kmem_list_init :: "addr \<Rightarrow> 'a slab_heap_scheme \<Rightarrow> 'a slab_heap_scheme" where
  "kmem_list_init cachep s =
     INIT_LIST_HEAD (kc_free cachep) (INIT_LIST_HEAD (kc_full cachep)
       (INIT_LIST_HEAD (kc_partial cachep) s))"

definition kmem_cache_init :: "'a slab_heap_scheme \<Rightarrow> 'a slab_heap_scheme" where
  "kmem_cache_init s = INIT_LIST_HEAD (cache_chain s) s"

text \<open>The first cache goes into the empty chain, but the function then returns \<open>-1\<close>.\<close>

definition kmem_chain_add :: "addr \<Rightarrow> 'a slab_heap_scheme \<Rightarrow> (int \<times> 'a slab_heap_scheme) option" where
  "kmem_chain_add cachep s =
     (if cachep = NULL then Some (-1, s)
      else (let head = cache_chain s
            in if list_empty_careful head s then Some (-1, list_add (kc_next cachep) head s)
               else do {
                 (linked, s) \<leftarrow> list_add_line_loop
                   (\<lambda>pos. sint (kc_obj_size s cachep) < sint (kc_obj_size s (pos - 44)))
                   (kc_next cachep) head (l_next s head) (l_next s (l_next s head)) s;
                 if linked then Some (0, s) else Some (-1, s)
               }))"

text \<open>\<^verbatim>\<open>sizeof(struct kmem_cache)\<close> is 76, so the order is 0.\<close>

definition kmem_cache_alloc :: "'a slab_heap_scheme \<Rightarrow> (addr \<times> 'a slab_heap_scheme) option" where
  "kmem_cache_alloc s = get_free_pages (uint (drop_bit 12 (76 :: u32))) s"

definition kmem_cache_create ::
  "addr \<Rightarrow> u32 \<Rightarrow> u32 \<Rightarrow> 'a slab_heap_scheme \<Rightarrow> (addr \<times> 'a slab_heap_scheme) option" where
  "kmem_cache_create name obj_size flags s =
     (if name = NULL \<or> obj_size = 0 then Some (NULL, s)
      else do {
        (ptr, s) \<leftarrow> kmem_cache_alloc s;
        if ptr = NULL then Some (NULL, s)
        else do {
          let cachep = ptr;
          let s = s\<lparr>mem := snd (strncpy (cachep + 28) name 16 (mem s))\<rparr>;
          let s = s\<lparr>kc_obj_size := (kc_obj_size s)(cachep := obj_size)\<rparr>;
          let s = s\<lparr>kc_nr_frees := (kc_nr_frees s)(cachep := 0)\<rparr>;
          let s = s\<lparr>kc_obj_num := (kc_obj_num s)(cachep := 0)\<rparr>;
          let s = s\<lparr>kc_flags := (kc_flags s)(cachep := flags)\<rparr>;
          let s = s\<lparr>kc_nr_pages := (kc_nr_pages s)(cachep := 0)\<rparr>;
          let s = kmem_list_init cachep s;
          (_, s) \<leftarrow> cache_grow cachep s;
          (_, s) \<leftarrow> kmem_chain_add cachep s;
          Some (cachep, s)
        }
      })"

definition kmem_cache_size :: "addr \<Rightarrow> 'a slab_heap_scheme \<Rightarrow> u32" where
  "kmem_cache_size cachep s = kc_obj_size s cachep"

definition kmem_cache_num :: "addr \<Rightarrow> 'a slab_heap_scheme \<Rightarrow> u32" where
  "kmem_cache_num cachep s = kc_obj_num s cachep"

definition kmem_cache_name :: "addr \<Rightarrow> addr" where
  "kmem_cache_name cachep = cachep + 28"

definition kmem_cache_frees :: "addr \<Rightarrow> 'a slab_heap_scheme \<Rightarrow> u32" where
  "kmem_cache_frees cachep s = kc_nr_frees s cachep"

text \<open>
  The addresses of the string literals and the sizes of the structs are the compiler's:
  \<open>name i\<close> and \<open>sizeof i\<close> for the five caches in the order of the calls.
\<close>

definition init_kmem_cache ::
  "(nat \<Rightarrow> addr) \<Rightarrow> (nat \<Rightarrow> u32) \<Rightarrow> 'a slab_heap_scheme \<Rightarrow> (int \<times> 'a slab_heap_scheme) option" where
  "init_kmem_cache name sizeof s = do {
     (p, s) \<leftarrow> kmem_cache_create (name 0) (sizeof 0) 0 s;
     let s = s\<lparr>tsk_cachep := p\<rparr>;
     if tsk_cachep s = NULL then Some (-1, s) else do {
     (p, s) \<leftarrow> kmem_cache_create (name 1) (sizeof 1) 0 s;
     let s = s\<lparr>thread_union_cachep := p\<rparr>;
     if thread_union_cachep s = NULL then Some (-2, s) else do {
     (p, s) \<leftarrow> kmem_cache_create (name 2) (sizeof 2) 0 s;
     let s = s\<lparr>vma_cachep := p\<rparr>;
     if vma_cachep s = NULL then Some (-3, s) else do {
     (p, s) \<leftarrow> kmem_cache_create (name 3) (sizeof 3) 0 s;
     let s = s\<lparr>inode_cachep := p\<rparr>;
     if inode_cachep s = NULL then Some (-4, s) else do {
     (p, s) \<leftarrow> kmem_cache_create (name 4) (sizeof 4) 0 s;
     let s = s\<lparr>file_cachep := p\<rparr>;
     if file_cachep s = NULL then Some (-5, s) else Some (0, s) }}}}
   }"

end
