(* ===== verification/Slab_inv.thy ===== *)
theory Slab_inv
  imports Slab
begin

section \<open>The slab allocator is correct\<close>

text \<open>
  The free objects of a slab are a chain of indices through its \<^verbatim>\<open>bufctl\<close> array. A cache
  owns slabs, which are blocks of 16 page frames, in three lists: partly used, full and
  free ones. The invariant \<open>cache_rep\<close> ties a cache to the page allocator below it: the
  frames of its slabs and of its descriptor are neither free nor shared.
\<close>

subsection \<open>Invariant\<close>

fun chain :: "(addr \<Rightarrow> u32) \<Rightarrow> addr \<Rightarrow> u32 \<Rightarrow> nat list \<Rightarrow> bool" where
  "chain b sl f [] \<longleftrightarrow> f = BUFCTL_END"
| "chain b sl f (i # is) \<longleftrightarrow> f = of_nat i \<and> chain b sl (b (bufctl_cell sl f)) is"

definition slab_ok :: "nat \<Rightarrow> addr \<Rightarrow> nat list \<Rightarrow> 'a slab_heap_scheme \<Rightarrow> bool" where
  "slab_ok n sl fs s \<longleftrightarrow> chain (bufctl s) sl (sl_free s sl) fs \<and> distinct fs \<and> set fs \<subseteq> {..<n} \<and>
     sl_inuse s sl = of_nat (n - length fs) \<and> sl_s_mem s sl = sl + 20 + 4 * (of_nat n + 1)"

definition fa :: "nat \<Rightarrow> addr" where
  "fa fr = PAGE_SIZE * of_nat fr"

definition kc_head :: "addr \<Rightarrow> nat \<Rightarrow> addr" where
  "kc_head cachep i = cachep + 52 + 8 * of_nat i"

definition slabs :: "(nat \<Rightarrow> nat list) \<Rightarrow> nat set" where
  "slabs K = set (K 0) \<union> set (K 1) \<union> set (K 2)"

definition slab_frames :: "(nat \<Rightarrow> nat list) \<Rightarrow> nat set" where
  "slab_frames K = (\<Union>fr\<in>slabs K. frames (4, fr))"

definition obj_count :: "nat \<Rightarrow> nat" where
  "obj_count sz = 65516 div sz"

definition fits :: "nat \<Rightarrow> nat \<Rightarrow> bool" where
  "fits n sz \<longleftrightarrow> 0 < n \<and> 0 < sz \<and> 24 + n * (sz + 4) \<le> 65536"

text \<open>No list node of the page allocator lies in the frames \<open>R\<close> it manages.\<close>

definition ram_ok :: "addr \<Rightarrow> nat \<Rightarrow> nat set \<Rightarrow> 'a mm_heap_scheme \<Rightarrow> bool" where
  "ram_ok base N R s \<longleftrightarrow> R \<subseteq> {1..<N} \<and> (\<forall>a\<in>bnodes base N s. unat a div 4096 \<notin> R)"

definition cache_lists :: "nat \<Rightarrow> (nat \<Rightarrow> nat list) \<Rightarrow> 'a slab_heap_scheme \<Rightarrow> bool" where
  "cache_lists cf K s \<longleftrightarrow> family ring s {0, 1, 2} (kc_head (fa cf)) (\<lambda>i. map fa (K i))"

definition cache_rep :: "addr \<Rightarrow> nat \<Rightarrow> nat set \<Rightarrow> (int \<Rightarrow> nat list) \<Rightarrow> nat \<Rightarrow> (nat \<Rightarrow> nat list) \<Rightarrow>
    (nat \<Rightarrow> nat list) \<Rightarrow> 'a slab_heap_scheme \<Rightarrow> bool" where
  "cache_rep base N R G cf K fs s \<longleftrightarrow>
     buddy_rep base N G s \<and> sorted_lists G \<and> ram_ok base N R s \<and>
     free_frames G \<subseteq> R \<and> slab_frames K \<subseteq> R \<and> cf \<in> R \<and>
     cf \<notin> free_frames G \<and> cf \<notin> slab_frames K \<and> slab_frames K \<inter> free_frames G = {} \<and>
     (\<forall>a\<in>slabs K. \<forall>b\<in>slabs K. a \<noteq> b \<longrightarrow> frames (4, a) \<inter> frames (4, b) = {}) \<and>
     (let sz = unat (kc_obj_size s (fa cf)); n = obj_count sz in
        fits n sz \<and> (slabs K \<noteq> {} \<longrightarrow> kc_obj_num s (fa cf) = of_nat n) \<and> cache_lists cf K s \<and>
        (\<forall>fr\<in>slabs K. slab_ok n (fa fr) (fs fr) s) \<and>
        (\<forall>fr\<in>set (K 0). fs fr \<noteq> []) \<and> (\<forall>fr\<in>set (K 2). length (fs fr) = n))"

definition allocated :: "nat \<Rightarrow> (nat \<Rightarrow> nat list) \<Rightarrow> (nat \<Rightarrow> nat list) \<Rightarrow> (nat \<times> nat) set" where
  "allocated n K fs = {(fr, i). fr \<in> slabs K \<and> i < n \<and> i \<notin> set (fs fr)}"

definition obj_addr :: "nat \<Rightarrow> nat \<Rightarrow> nat \<times> nat \<Rightarrow> addr" where
  "obj_addr n sz x = fa (fst x) + of_nat (20 + 4 * (n + 1) + sz * snd x)"

definition cnodes :: "nat \<Rightarrow> (nat \<Rightarrow> nat list) \<Rightarrow> addr set" where
  "cnodes cf K = kc_head (fa cf) ` {0, 1, 2} \<union> fa ` slabs K"

subsection \<open>Lemmas\<close>

lemma slab_fields_cong:
  assumes "mm_heap.more t = mm_heap.more s"
  shows "mem t = mem s" "sl_s_mem t = sl_s_mem s" "sl_free t = sl_free s" "sl_inuse t = sl_inuse s"
    "bufctl t = bufctl s" "kc_nr_frees t = kc_nr_frees s" "kc_nr_pages t = kc_nr_pages s"
    "kc_obj_size t = kc_obj_size s" "kc_obj_num t = kc_obj_num s" "cache_chain t = cache_chain s"
    "kc_flags t = kc_flags s"
  using assms by (cases s; cases t; simp)+

lemmas slab_list_ops [simp] =
  slab_fields_cong [OF mm_raw_list_add(5)] slab_fields_cong [OF mm_list_del(5)]
  slab_fields_cong [OF mm_list_add(5)] slab_fields_cong [OF mm_INIT_LIST_HEAD(5)]

lemma set_slab_fields [simp]:
  "l_next (set_free a v s) = l_next s" "l_prev (set_free a v s) = l_prev s"
  "l_next (set_inuse a v s) = l_next s" "l_prev (set_inuse a v s) = l_prev s"
  "l_next (set_bufctl a v s) = l_next s" "l_prev (set_bufctl a v s) = l_prev s"
  "l_next (set_s_mem a v s) = l_next s" "l_prev (set_s_mem a v s) = l_prev s"
  "sl_free (set_free a v s) = (sl_free s)(a := v)" "sl_free (set_inuse a v s) = sl_free s"
  "sl_free (set_bufctl a v s) = sl_free s" "sl_free (set_s_mem a v s) = sl_free s"
  "sl_inuse (set_free a v s) = sl_inuse s" "sl_inuse (set_inuse a v s) = (sl_inuse s)(a := v)"
  "sl_inuse (set_bufctl a v s) = sl_inuse s" "sl_inuse (set_s_mem a v s) = sl_inuse s"
  "bufctl (set_free a v s) = bufctl s" "bufctl (set_inuse a v s) = bufctl s"
  "bufctl (set_bufctl a v s) = (bufctl s)(a := v)" "bufctl (set_s_mem a v s) = bufctl s"
  "sl_s_mem (set_free a v s) = sl_s_mem s" "sl_s_mem (set_inuse a v s) = sl_s_mem s"
  "sl_s_mem (set_bufctl a v s) = sl_s_mem s" "sl_s_mem (set_s_mem a v s) = (sl_s_mem s)(a := v)"
  "kc_obj_num (set_free a v s) = kc_obj_num s" "kc_obj_num (set_inuse a v s) = kc_obj_num s"
  "kc_obj_num (set_bufctl a v s) = kc_obj_num s" "kc_obj_num (set_s_mem a v s) = kc_obj_num s"
  "kc_obj_size (set_free a v s) = kc_obj_size s" "kc_obj_size (set_inuse a v s) = kc_obj_size s"
  "kc_obj_size (set_bufctl a v s) = kc_obj_size s" "kc_obj_size (set_s_mem a v s) = kc_obj_size s"
  "kc_nr_pages (set_free a v s) = kc_nr_pages s" "kc_nr_pages (set_inuse a v s) = kc_nr_pages s"
  "kc_nr_pages (set_bufctl a v s) = kc_nr_pages s" "kc_nr_pages (set_s_mem a v s) = kc_nr_pages s"
  by (simp_all add: set_free_def set_inuse_def set_bufctl_def set_s_mem_def)

lemma buddy_rep_cong:
  assumes n: "\<And>a. a \<in> bnodes base N s \<Longrightarrow> l_next t a = l_next s a \<and> l_prev t a = l_prev s a"
    and f: "pg_address t = pg_address s" "buddy_list t = buddy_list s" "bl_nr t = bl_nr s"
    and rep: "buddy_rep base N G s"
  shows "buddy_rep base N G t"
proof -
  note h = bl_head_cong [OF f(2)]
  have "ring t (bl_head s i) (map (pg base) (G i))" if i: "i \<in> {0..<10}" for i
  proof -
    have "set (bl_head s i # map (pg base) (G i)) \<subseteq> bnodes base N s"
      using ring_in_bnodes [OF rep, of i] i by simp
    then have "ring t (bl_head s i) (map (pg base) (G i)) = ring s (bl_head s i) (map (pg base) (G i))"
      using n by (intro ring_cong) blast+
    then show ?thesis using buddy_repD(5) [OF rep] i by simp
  qed
  moreover have "pages_ok base N t" using buddy_repD(1) [OF rep] pages_ok_cong [OF f(1,2)] by blast
  ultimately show ?thesis
    using rep f(3) unfolding buddy_rep_def family_def h by auto
qed

lemma unat_frame_addr:
  assumes "fr < N" "N < 2 ^ 20" "d < 4096"
  shows "unat (fa fr + of_nat d) = 4096 * fr + d"
proof -
  have "fa fr + of_nat d = 0 + of_nat (4096 * fr + d)" by (simp add: fa_def)
  moreover have "4096 * fr + d < 2 ^ 32" using assms by simp
  moreover have "unat (0 :: addr) + (4096 * fr + d) < 2 ^ 32 \<Longrightarrow>
      unat (0 + of_nat (4096 * fr + d) :: addr) = unat (0 :: addr) + (4096 * fr + d)"
    by (rule unat_offset)
  ultimately show ?thesis by (simp only: unsigned_0 add_0)
qed

lemma unat_fa: "fr < N \<Longrightarrow> N < 2 ^ 20 \<Longrightarrow> unat (fa fr) = 4096 * fr"
  using unat_frame_addr [of fr N 0] by simp

lemma fa_inj: "a < N \<Longrightarrow> b < N \<Longrightarrow> N < 2 ^ 20 \<Longrightarrow> fa a = fa b \<longleftrightarrow> a = b"
  using unat_fa [of a N] unat_fa [of b N] by (metis mult_cancel1 zero_neq_numeral)

lemma fa_nonnull: "0 < fr \<Longrightarrow> fr < N \<Longrightarrow> N < 2 ^ 20 \<Longrightarrow> fa fr \<noteq> NULL"
  using unat_fa [of fr N] by (metis mult_is_0 less_irrefl unsigned_0 zero_neq_numeral)

lemma unat_kc_head:
  assumes "cf < N" "N < 2 ^ 20" "i \<in> {0, 1, 2}"
  shows "unat (kc_head (fa cf) i) = 4096 * cf + 52 + 8 * i"
proof -
  have eq: "kc_head (fa cf) i = fa cf + of_nat (52 + 8 * i)" by (simp add: kc_head_def)
  have lt: "52 + 8 * i < 4096" using assms(3) by auto
  show ?thesis by (simp only: eq unat_frame_addr [OF assms(1,2) lt] add.assoc)
qed

lemma kc_heads: "kc_partial c = kc_head c 0" "kc_full c = kc_head c 1" "kc_free c = kc_head c 2"
  by (simp_all add: kc_head_def kc_partial_def kc_full_def kc_free_def)

lemma cache_listsD: "cache_lists cf K s \<Longrightarrow> i \<in> {0, 1, 2} \<Longrightarrow> ring s (kc_head (fa cf) i) (map fa (K i))"
  unfolding cache_lists_def by (rule kl.family_rep)

lemma map_fa_upd: "(\<lambda>i. map fa ((K(k := xs)) i)) = (\<lambda>i. map fa (K i))(k := map fa xs)"
  by auto

lemma list_add_ring:
  assumes "ring s h xs" "x \<noteq> NULL"
  shows "list_add x h s = raw_list_add x (last (h # xs)) (hd ([] @ [h])) s"
  using assms ring_last [OF assms(1)] by (simp add: list_add_head_def del: last.simps)

lemma cache_lists_move:
  assumes l: "cache_lists cf K s" and i: "i \<in> {0, 1, 2}" "k \<in> {0, 1, 2}" and K: "K i = xs @ fr # ys"
  defines "K' \<equiv> K(i := xs @ ys)"
  shows "cache_lists cf (K'(k := K' k @ [fr])) (list_add (fa fr) (kc_head (fa cf) k) (list_del (fa fr) s))"
proof -
  let ?f = "\<lambda>i. map fa (K i)" and ?h = "kc_head (fa cf)"
  have fam: "family ring s {0, 1, 2} ?h ?f" using l by (simp add: cache_lists_def)
  have f: "?f i = map fa xs @ fa fr # map fa ys" using K by simp
  have K': "(?f(i := map fa xs @ map fa ys)) k = map fa (K' k) @ []" by (simp add: K'_def)
  have nn: "fa fr \<noteq> NULL" using kl.family_unlink_fresh(2) [OF fam i(1) f i(1)] .
  have r: "ring (list_del (fa fr) s) (?h k) (map fa (K' k))"
    using kl.family_rep [OF kl.family_unlink [OF fam i(1) f] i(2)] K' by simp
  have "family ring (list_add (fa fr) (?h k) (list_del (fa fr) s)) {0, 1, 2} ?h
      (?f(i := map fa xs @ map fa ys, k := map fa (K' k) @ fa fr # []))"
    using kl.family_move [OF fam i(1) f i(2) K'] list_add_ring [OF r nn] by simp
  moreover have "?f(i := map fa xs @ map fa ys, k := map fa (K' k) @ fa fr # []) = (\<lambda>j. map fa ((K'(k := K' k @ [fr])) j))"
    by (auto simp: K'_def)
  ultimately show ?thesis by (simp only: cache_lists_def)
qed

lemma list_del_outside:
  assumes "cache_lists cf K s" "i \<in> {0, 1, 2}" "K i = xs @ fr # ys" "a \<notin> cnodes cf K"
  shows "l_next (list_del (fa fr) s) a = l_next s a" "l_prev (list_del (fa fr) s) a = l_prev s a"
proof -
  let ?h = "kc_head (fa cf) i"
  have r: "ring s ?h (map fa xs @ fa fr # map fa ys)" using cache_listsD [OF assms(1,2)] assms(3) by simp
  have "set (?h # map fa (K i)) \<subseteq> cnodes cf K" using assms(2) by (auto simp: cnodes_def slabs_def)
  moreover have "{last (?h # map fa xs), hd (map fa ys @ [?h]), fa fr} \<subseteq> set (?h # map fa (K i))"
    using last_in_insert [of ?h "map fa xs"] hd_snoc_in [of "map fa ys" ?h] assms(3) by auto
  ultimately have "a \<notin> {last (?h # map fa xs), hd (map fa ys @ [?h]), fa fr}" using assms(4) by blast
  then show "l_next (list_del (fa fr) s) a = l_next s a" "l_prev (list_del (fa fr) s) a = l_prev s a"
    using list_del_fields [OF ring_neighbours(1-4) [OF r]] by (simp_all del: last.simps)
qed

lemma list_add_outside:
  assumes "ring s (kc_head (fa cf) k) (map fa xs)" "k \<in> {0, 1, 2}" "set xs \<subseteq> slabs K" "fr \<in> slabs K" "a \<notin> cnodes cf K"
  shows "l_next (list_add (fa fr) (kc_head (fa cf) k) s) a = l_next s a"
    "l_prev (list_add (fa fr) (kc_head (fa cf) k) s) a = l_prev s a"
proof -
  let ?h = "kc_head (fa cf) k"
  have "last (?h # map fa xs) \<in> set (?h # map fa xs)" by (rule last_in_insert)
  then have "{last (?h # map fa xs), ?h, fa fr} \<subseteq> cnodes cf K"
    using assms by (auto simp: cnodes_def simp del: last.simps)
  then have "a \<notin> {last (?h # map fa xs), ?h, fa fr}" using assms(5) by blast
  then show "l_next (list_add (fa fr) ?h s) a = l_next s a" "l_prev (list_add (fa fr) ?h s) a = l_prev s a"
    using ring_last [OF assms(1)] by (simp_all add: list_add_head_def raw_list_add_fields del: last.simps)
qed

lemma cache_repD:
  assumes "cache_rep base N R G cf K fs s"
  shows "buddy_rep base N G s" "sorted_lists G" "ram_ok base N R s"
    "free_frames G \<subseteq> R" "slab_frames K \<subseteq> R" "cf \<in> R"
    "cf \<notin> free_frames G" "cf \<notin> slab_frames K" "slab_frames K \<inter> free_frames G = {}"
    "\<lbrakk>a \<in> slabs K; b \<in> slabs K; a \<noteq> b\<rbrakk> \<Longrightarrow> frames (4, a) \<inter> frames (4, b) = {}"
    "fits (obj_count (unat (kc_obj_size s (fa cf)))) (unat (kc_obj_size s (fa cf)))"
    "slabs K \<noteq> {} \<Longrightarrow> kc_obj_num s (fa cf) = of_nat (obj_count (unat (kc_obj_size s (fa cf))))"
    "cache_lists cf K s"
    "fr \<in> slabs K \<Longrightarrow> slab_ok (obj_count (unat (kc_obj_size s (fa cf)))) (fa fr) (fs fr) s"
    "fr \<in> set (K 0) \<Longrightarrow> fs fr \<noteq> []"
    "fr \<in> set (K 2) \<Longrightarrow> length (fs fr) = obj_count (unat (kc_obj_size s (fa cf)))"
  using assms unfolding cache_rep_def Let_def by blast+

lemma cache_rep_R:
  assumes "cache_rep base N R G cf K fs s"
  shows "N < 2 ^ 20" "x \<in> R \<Longrightarrow> 0 < x \<and> x < N" "fr \<in> slabs K \<Longrightarrow> fr \<in> R"
proof -
  show "N < 2 ^ 20" using pages_okD(3) [OF buddy_repD(1) [OF cache_repD(1) [OF assms]]] .
  show "x \<in> R \<Longrightarrow> 0 < x \<and> x < N"
    using cache_repD(3) [OF assms] unfolding ram_ok_def by auto
  show "fr \<in> slabs K \<Longrightarrow> fr \<in> R"
    using cache_repD(5) [OF assms] frames_nonempty(2) [of fr 4] unfolding slab_frames_def by blast
qed

lemma cnodes_not_bnodes:
  assumes rep: "cache_rep base N R G cf K fs s"
  shows "a \<in> bnodes base N s \<Longrightarrow> a \<notin> cnodes cf K"
proof
  assume a: "a \<in> bnodes base N s" and "a \<in> cnodes cf K"
  then consider i where "i \<in> {0, 1, 2}" "a = kc_head (fa cf) i" | fr where "fr \<in> slabs K" "a = fa fr"
    by (auto simp: cnodes_def)
  then have "unat a div 4096 \<in> R"
  proof cases
    case 1
    have cf: "cf < N" using cache_rep_R(2) [OF rep cache_repD(6) [OF rep]] by blast
    have "52 + 8 * i < 4096" using 1 by auto
    then have "unat a div 4096 = cf"
      using unat_kc_head [OF cf cache_rep_R(1) [OF rep] 1(1)] 1(2) by (simp only: add.assoc)
    then show ?thesis using cache_repD(6) [OF rep] by simp
  next
    case 2
    note fr = cache_rep_R(3) [OF rep 2(1)]
    have "unat a = 4096 * fr"
      using unat_fa [OF _ cache_rep_R(1) [OF rep]] cache_rep_R(2) [OF rep fr] 2(2) by simp
    then show ?thesis using fr by simp
  qed
  then show False using cache_repD(3) [OF rep] a unfolding ram_ok_def by blast
qed

lemma cache_rep_update:
  assumes rep: "cache_rep base N R G cf K fs s"
    and out: "\<And>a. a \<notin> cnodes cf K \<Longrightarrow> l_next t a = l_next s a \<and> l_prev t a = l_prev s a"
    and f: "pg_address t = pg_address s" "buddy_list t = buddy_list s" "bl_nr t = bl_nr s"
    and c: "kc_obj_num t (fa cf) = kc_obj_num s (fa cf)" "kc_obj_size t (fa cf) = kc_obj_size s (fa cf)"
    and K: "cache_lists cf K' t" "slabs K' = slabs K"
    and ok: "\<And>fr. fr \<in> slabs K \<Longrightarrow> slab_ok (obj_count (unat (kc_obj_size s (fa cf)))) (fa fr) (fs' fr) t"
    and fs: "\<And>fr. fr \<in> set (K' 0) \<Longrightarrow> fs' fr \<noteq> []"
      "\<And>fr. fr \<in> set (K' 2) \<Longrightarrow> length (fs' fr) = obj_count (unat (kc_obj_size s (fa cf)))"
  shows "cache_rep base N R G cf K' fs' t"
proof -
  have "buddy_rep base N G t"
    by (rule buddy_rep_cong [OF _ f cache_repD(1) [OF rep]]) (use out cnodes_not_bnodes [OF rep] in blast)
  moreover have "ram_ok base N R t"
    using cache_repD(3) [OF rep] bnodes_cong [OF f(2)] unfolding ram_ok_def by simp
  moreover have "slab_frames K' = slab_frames K" by (simp add: slab_frames_def K(2))
  ultimately show ?thesis
    using cache_repD(2,4-9,11,12) [OF rep] cache_repD(10) [OF rep] K(1) ok fs
    by (simp add: cache_rep_def Let_def c K(2) del: frames.simps)
qed

lemma chain_length: "chain b sl f fs \<Longrightarrow> distinct fs \<Longrightarrow> set fs \<subseteq> {..<n} \<Longrightarrow> length fs \<le> n"
  by (metis card_lessThan card_mono distinct_card finite_lessThan)

lemma slab_get_obj_step:
  assumes ok: "slab_ok n sl (i # is) s" and n: "kc_obj_num s c = of_nat n" "n < 2 ^ 16" and nn: "c \<noteq> NULL" "sl \<noteq> NULL"
  defines "t \<equiv> set_free sl (bufctl s (bufctl_cell sl (of_nat i))) (set_inuse sl (sl_inuse s sl + 1) s)"
  shows "slab_get_obj c sl s = (sl_s_mem s sl + kc_obj_size s c * of_nat i,
      if is = [] then list_add sl (kc_full c) (list_del sl t) else t)"
    and "slab_ok n sl is t"
proof -
  have ch: "sl_free s sl = of_nat i" "chain (bufctl s) sl (bufctl s (bufctl_cell sl (of_nat i))) is"
    and d: "distinct (i # is)" "set (i # is) \<subseteq> {..<n}"
    and u: "sl_inuse s sl = of_nat (n - length (i # is))"
    and m: "sl_s_mem s sl = sl + 20 + 4 * (of_nat n + 1)"
    using ok unfolding slab_ok_def by auto
  have len: "length (i # is) \<le> n"
    using chain_length [of "bufctl s" sl "of_nat i" "i # is" n] ch d by simp
  have inuse: "sl_inuse s sl + 1 = of_nat (n - length is)"
  proof -
    have "n - length is = Suc (n - length (i # is))" using len by simp
    then show ?thesis unfolding u by (simp only: of_nat_Suc add.commute)
  qed
  show "slab_ok n sl is t"
    using ch(2) d m inuse by (simp add: slab_ok_def t_def)
  have "i < n" using d by simp
  then have "(of_nat i :: u32) \<noteq> 0xffffffff"
    using n(2) addr_offset_eq [of i "0xffffffff" 0] by auto
  moreover have "sl_inuse t sl = kc_obj_num t c \<longleftrightarrow> is = []"
  proof -
    have "(of_nat (n - length is) :: u32) = of_nat n \<longleftrightarrow> n - length is = n"
      using n(2) addr_offset_eq [of "n - length is" n 0] by simp
    moreover have "n - length is = n \<longleftrightarrow> is = []" using len by (cases "is") auto
    ultimately show ?thesis using inuse n(1) by (simp add: t_def del: of_nat_diff)
  qed
  ultimately show "slab_get_obj c sl s = (sl_s_mem s sl + kc_obj_size s c * of_nat i,
      if is = [] then list_add sl (kc_full c) (list_del sl t) else t)"
    using nn ch(1) by (simp add: slab_get_obj_def index_to_obj_def Let_def t_def)
qed

lemma fits_bounds: "fits n sz \<Longrightarrow> n < 2 ^ 16 \<and> 0 < n \<and> 0 < sz"
proof -
  assume "fits n sz"
  then have f: "24 + n * (sz + 4) \<le> 65536" "0 < n" "0 < sz" by (simp_all add: fits_def)
  have "n * 1 \<le> n * (sz + 4)" by (rule mult_le_mono2) simp
  then have "n < 65536" using f(1) by linarith
  then show ?thesis using f by simp
qed

lemma slab_ok_list_ops [simp]:
  "slab_ok n sl fs (list_add x h s) = slab_ok n sl fs s" "slab_ok n sl fs (list_del x s) = slab_ok n sl fs s"
  by (simp_all add: slab_ok_def)

lemma cache_lists_cong:
  assumes "l_next t = l_next s" "l_prev t = l_prev s"
  shows "cache_lists cf K t = cache_lists cf K s"
proof -
  have "ring t h xs = ring s h xs" for h xs by (rule ring_cong) (simp_all add: assms)
  then show ?thesis by (simp add: cache_lists_def family_def)
qed

lemma cache_lists_distinct:
  assumes "cache_lists cf K s" "i \<in> {0, 1, 2}"
  shows "distinct (K i)"
  using kl.rep_distinct [OF cache_listsD [OF assms]] by (simp add: distinct_map)

lemma cache_lists_disjoint:
  assumes "cache_lists cf K s" "i \<in> {0, 1, 2}" "k \<in> {0, 1, 2}" "i \<noteq> k"
  shows "set (K i) \<inter> set (K k) = {}"
  using kl.family_disjoint [OF assms(1) [unfolded cache_lists_def] assms(2-4)] by auto

text \<open>Moving a slab from one list of the cache to the end of another.\<close>

lemma cache_rep_move:
  assumes rep: "cache_rep base N R G cf K fs s" and t: "l_next t = l_next s" "l_prev t = l_prev s"
    and i: "i \<in> {0, 1, 2}" "k \<in> {0, 1, 2}" "i \<noteq> k" and K: "K i = xs @ fr # ys"
  defines "K' \<equiv> K(i := xs @ ys, k := K k @ [fr])"
  defines "u \<equiv> list_add (fa fr) (kc_head (fa cf) k) (list_del (fa fr) t)"
  shows "cache_lists cf K' u" "slabs K' = slabs K"
    "a \<notin> cnodes cf K \<Longrightarrow> l_next u a = l_next s a \<and> l_prev u a = l_prev s a"
proof -
  have lt: "cache_lists cf K t"
    using cache_lists_cong [OF t] cache_repD(13) [OF rep] by simp
  show "cache_lists cf K' u"
    using cache_lists_move [OF lt i(1,2) K] i(3) unfolding K'_def u_def by simp
  have split: "\<And>P. P \<in> {0, 1, 2 :: nat} \<Longrightarrow> P = 0 \<or> P = 1 \<or> P = 2" by auto
  show sl: "slabs K' = slabs K"
    using i K unfolding slabs_def K'_def by (elim insertE) auto
  assume a: "a \<notin> cnodes cf K"
  have fr: "fr \<in> slabs K" using i(1) K by (auto simp: slabs_def)
  have sub: "set (K k) \<subseteq> slabs K" using i(2) by (auto simp: slabs_def)
  have "family ring (list_del (fa fr) t) {0, 1, 2} (kc_head (fa cf)) ((\<lambda>i. map fa (K i))(i := map fa xs @ map fa ys))"
    by (rule kl.family_unlink [OF lt [unfolded cache_lists_def] i(1)]) (simp add: K)
  from kl.family_rep [OF this i(2)] i(3)
  have r: "ring (list_del (fa fr) t) (kc_head (fa cf) k) (map fa (K k))" by simp
  show "l_next u a = l_next s a \<and> l_prev u a = l_prev s a"
    unfolding u_def using list_add_outside [OF r i(2) sub fr a] list_del_outside [OF lt i(1) K a] t by simp
qed

lemma slab_get_obj_rep:
  assumes rep: "cache_rep base N R G cf K fs s" and fr: "fr \<in> set (K 0)" and i: "fs fr = i # is"
  defines "n \<equiv> obj_count (unat (kc_obj_size s (fa cf)))" and "sz \<equiv> unat (kc_obj_size s (fa cf))"
  shows "\<exists>s' K'. slab_get_obj (fa cf) (fa fr) s = (obj_addr n sz (fr, i), s') \<and>
    cache_rep base N R G cf K' (fs(fr := is)) s' \<and> slabs K' = slabs K \<and>
    kc_obj_num s' = kc_obj_num s \<and> kc_obj_size s' = kc_obj_size s"
proof -
  let ?c = "fa cf" and ?sl = "fa fr"
  note R = cache_rep_R [OF rep]
  have slab: "fr \<in> slabs K" using fr by (simp add: slabs_def)
  have nn: "?c \<noteq> NULL" "?sl \<noteq> NULL"
    using R cache_repD(6) [OF rep] slab by (meson fa_nonnull)+
  have ok: "slab_ok n ?sl (i # is) s" using cache_repD(14) [OF rep slab] i unfolding n_def by simp
  have fit: "n < 2 ^ 16" using fits_bounds [OF cache_repD(11) [OF rep]] unfolding n_def by simp
  have num: "kc_obj_num s ?c = of_nat n" using cache_repD(12) [OF rep] slab unfolding n_def by blast
  define t where "t = set_free ?sl (bufctl s (bufctl_cell ?sl (of_nat i))) (set_inuse ?sl (sl_inuse s ?sl + 1) s)"
  note step = slab_get_obj_step [OF ok num fit nn, folded t_def]
  have obj: "sl_s_mem s ?sl + kc_obj_size s ?c * of_nat i = obj_addr n sz (fr, i)"
    using ok by (simp add: slab_ok_def obj_addr_def sz_def algebra_simps)
  have tf: "l_next t = l_next s" "l_prev t = l_prev s" "kc_obj_num t = kc_obj_num s" "kc_obj_size t = kc_obj_size s"
    "pg_address t = pg_address s" "buddy_list t = buddy_list s" "bl_nr t = bl_nr s"
    by (simp_all add: t_def) (simp_all add: set_free_def set_inuse_def)
  have ok': "slab_ok n (fa a) ((fs(fr := is)) a) t" if "a \<in> slabs K" for a
  proof (cases "a = fr")
    case False
    then have "fa a \<noteq> ?sl" using fa_inj [of a N fr] R(1) R(2) R(3) that slab by blast
    then show ?thesis
      using False cache_repD(14) [OF rep that] unfolding n_def by (simp add: t_def slab_ok_def)
  qed (use step(2) in simp)
  have lt: "cache_lists cf K t"
    using cache_lists_cong [OF tf(1,2)] cache_repD(13) [OF rep] by simp
  obtain xs ys where K0: "K 0 = xs @ fr # ys" using fr by (meson split_list)
  have fr': "fr \<notin> set (xs @ ys)"
    using cache_lists_distinct [OF cache_repD(13) [OF rep], of 0] K0 by simp
  have fr2: "fr \<notin> set (K 2)"
    using cache_lists_disjoint [OF cache_repD(13) [OF rep], of 0 2] fr by auto
  show ?thesis
  proof (cases "is = []")
    case False
    have "cache_rep base N R G cf K (fs(fr := is)) t"
      by (rule cache_rep_update [OF rep _ tf(5-7)])
        (use tf lt ok' False fr2 cache_repD(15,16) [OF rep] in \<open>auto simp: n_def\<close>)
    then show ?thesis using step(1) obj False tf by auto
  next
    case True
    let ?K = "K(0 := xs @ ys, 1 := K 1 @ [fr])"
    let ?u = "list_add ?sl (kc_head ?c 1) (list_del ?sl t)"
    have mv: "cache_lists cf ?K ?u" "slabs ?K = slabs K"
      "\<And>a. a \<notin> cnodes cf K \<Longrightarrow> l_next ?u a = l_next s a \<and> l_prev ?u a = l_prev s a"
      by (rule cache_rep_move [OF rep tf(1,2) _ _ _ K0]; simp)+
    have "cache_rep base N R G cf ?K (fs(fr := is)) ?u"
      by (rule cache_rep_update [OF rep mv(3) _ _ _ _ _ mv(1,2)])
        (use tf ok' K0 fr' fr2 cache_repD(15,16) [OF rep] in \<open>auto simp: n_def\<close>)
    then show ?thesis using step(1) obj True tf mv(2) by (auto simp: kc_heads)
  qed
qed

lemma kmem_get_slab_partial:
  assumes rep: "cache_rep base N R G cf K fs s" and K: "K 0 \<noteq> []"
  shows "kmem_get_slab (fa cf) s = (fa (last (K 0)), s)"
proof -
  have nn: "fa cf \<noteq> NULL"
    using cache_rep_R [OF rep] cache_repD(6) [OF rep] by (meson fa_nonnull)
  have r: "ring s (kc_head (fa cf) 0) (map fa (K 0))"
    by (rule cache_listsD [OF cache_repD(13) [OF rep]]) simp
  show ?thesis
    using nn K ring_empty_iff(1) [OF r] ring_list_get_tail [OF r, of NULL]
    by (simp add: kmem_get_slab_def kc_heads last_map)
qed

lemma kmem_get_slab_empty:
  assumes rep: "cache_rep base N R G cf K fs s" and K: "K 0 = []" "K 2 = []"
  shows "kmem_get_slab (fa cf) s = (NULL, s)"
proof -
  have r0: "ring s (kc_head (fa cf) 0) (map fa (K 0))" and r2: "ring s (kc_head (fa cf) 2) (map fa (K 2))"
    by (rule cache_listsD [OF cache_repD(13) [OF rep]]; simp)+
  show ?thesis
    using K ring_empty_iff(1) [OF r0] ring_empty_iff(1) [OF r2]
    by (simp add: kmem_get_slab_def kc_heads)
qed

lemma kmem_get_slab_free:
  assumes rep: "cache_rep base N R G cf K fs s" and K: "K 0 = []" "K 2 = fr # ks"
  shows "\<exists>s' K'. kmem_get_slab (fa cf) s = (fa fr, s') \<and> cache_rep base N R G cf K' fs s' \<and>
    K' 0 = [fr] \<and> slabs K' = slabs K \<and> kc_obj_num s' = kc_obj_num s \<and> kc_obj_size s' = kc_obj_size s"
proof -
  let ?c = "fa cf" and ?sl = "fa fr" and ?K = "K(2 := ks, 0 := [fr])"
  have nn: "?c \<noteq> NULL"
    using cache_rep_R [OF rep] cache_repD(6) [OF rep] by (meson fa_nonnull)
  have K2: "K 2 = [] @ fr # ks" using K by simp
  define u where "u = list_add ?sl (kc_head ?c 0) (list_del ?sl s)"
  have mv: "cache_lists cf ?K u" "slabs ?K = slabs K"
    "\<And>a. a \<notin> cnodes cf K \<Longrightarrow> l_next u a = l_next s a \<and> l_prev u a = l_prev s a"
    using cache_rep_move [OF rep refl refl, of 2 0 "[]" fr ks] K2 K(1) unfolding u_def by auto
  have n0: "0 < obj_count (unat (kc_obj_size s ?c))" using fits_bounds [OF cache_repD(11) [OF rep]] by simp
  then have ne: "fs fr \<noteq> []" using cache_repD(16) [OF rep, of fr] K by auto
  have rep': "cache_rep base N R G cf ?K fs u"
    by (rule cache_rep_update [OF rep mv(3) _ _ _ _ _ mv(1,2)])
      (use cache_repD(14-16) [OF rep] ne K in \<open>auto simp: u_def\<close>)
  have r0: "ring s (kc_head ?c 0) (map fa (K 0))" and r2: "ring s (kc_head ?c 2) (?sl # map fa ks)"
    using cache_listsD [OF cache_repD(13) [OF rep], of 0] cache_listsD [OF cache_repD(13) [OF rep], of 2] K by simp_all
  have ru: "ring u (kc_head ?c 0) [?sl]"
    using cache_listsD [OF mv(1), of 0] by simp
  have "kmem_get_slab ?c s = (?sl, u)"
    using nn K ring_empty_iff(1) [OF r0] ring_empty_iff(1) [OF r2] ring_list_get_head_del [OF r2, of NULL]
      ring_list_get_tail [OF ru, of NULL]
    by (simp add: kmem_get_slab_def kc_heads flip: u_def)
  then show ?thesis using rep' mv(2) by (intro exI [of _ u] exI [of _ ?K]) (simp add: u_def)
qed

lemma chain_cong:
  "(\<And>i. i \<in> set fs \<Longrightarrow> b' (bufctl_cell sl (of_nat i)) = b (bufctl_cell sl (of_nat i))) \<Longrightarrow> chain b' sl f fs = chain b sl f fs"
  by (induction fs arbitrary: f) auto

lemma unat_bufctl_cell:
  assumes "fr + 16 \<le> N" "N < 2 ^ 20" "20 + 4 * i < 65536"
  shows "unat (bufctl_cell (fa fr) (of_nat i)) = 4096 * fr + 20 + 4 * i"
proof -
  have "bufctl_cell (fa fr) (of_nat i) = fa fr + of_nat (20 + 4 * i)"
    by (simp add: bufctl_cell_def slab_bufctl_def)
  moreover have "unat (fa fr) = 4096 * fr" using unat_fa [of fr N] assms by simp
  moreover have "unat (fa fr) + (20 + 4 * i) < 2 ^ 32" using assms calculation(2) by simp
  ultimately show ?thesis using unat_offset [of "fa fr" "20 + 4 * i"] by (simp only: add.assoc)
qed

lemma slab_frames_apart:
  assumes "frames (4, a) \<inter> frames (4, b) = {}"
  shows "a + 16 \<le> b \<or> b + 16 \<le> a"
proof (rule ccontr)
  assume "\<not> ?thesis"
  then have "max a b \<in> frames (4, a)" "max a b \<in> frames (4, b)" by (auto simp: max_def)
  then show False using assms by blast
qed

lemma bufctl_cells_apart:
  assumes "frames (4, a) \<inter> frames (4, b) = {}" "a + 16 \<le> N" "b + 16 \<le> N" "N < 2 ^ 20"
    and "20 + 4 * i < 65536" "20 + 4 * j < 65536"
  shows "bufctl_cell (fa a) (of_nat i) \<noteq> bufctl_cell (fa b) (of_nat j)"
proof
  assume "bufctl_cell (fa a) (of_nat i) = bufctl_cell (fa b) (of_nat j)"
  then have "4096 * a + 20 + 4 * i = 4096 * b + 20 + 4 * j"
    using unat_bufctl_cell [OF assms(2,4,5)] unat_bufctl_cell [OF assms(3,4,6)] by metis
  then show False using slab_frames_apart [OF assms(1)] assms(5,6) by linarith
qed

lemma slab_init_loop_fields:
  "l_next (slab_init_loop sl i n s) = l_next s" "l_prev (slab_init_loop sl i n s) = l_prev s"
  "sl_free (slab_init_loop sl i n s) = sl_free s" "sl_inuse (slab_init_loop sl i n s) = sl_inuse s"
  "sl_s_mem (slab_init_loop sl i n s) = sl_s_mem s"
  "kc_obj_num (slab_init_loop sl i n s) = kc_obj_num s" "kc_obj_size (slab_init_loop sl i n s) = kc_obj_size s"
  "kc_nr_pages (slab_init_loop sl i n s) = kc_nr_pages s" "kc_nr_frees (slab_init_loop sl i n s) = kc_nr_frees s"
  "pg_address (slab_init_loop sl i n s) = pg_address s" "buddy_list (slab_init_loop sl i n s) = buddy_list s"
  "bl_nr (slab_init_loop sl i n s) = bl_nr s" "cache_chain (slab_init_loop sl i n s) = cache_chain s"
  by (induction n arbitrary: i s) (simp_all add: set_bufctl_def)

lemma slab_init_loop_bufctl:
  "bufctl (slab_init_loop sl i n s) a =
    (if \<exists>j\<in>{i..<i + n}. a = bufctl_cell sl (of_nat j) then bufctl (slab_init_loop sl i n s) a else bufctl s a)"
proof (induction n arbitrary: i s)
  case (Suc n)
  show ?case
  proof (cases "\<exists>j\<in>{i..<i + Suc n}. a = bufctl_cell sl (of_nat j)")
    case False
    then have "\<not> (\<exists>j\<in>{Suc i..<Suc i + n}. a = bufctl_cell sl (of_nat j))" "a \<noteq> bufctl_cell sl (of_nat i)" by auto
    then show ?thesis using Suc [of "Suc i" "set_bufctl (bufctl_cell sl (of_nat i)) (of_nat i + 1) s"] False by auto
  qed simp
qed simp

lemma bufctl_cell_inj:
  "i < 2 ^ 16 \<Longrightarrow> j < 2 ^ 16 \<Longrightarrow> bufctl_cell sl (of_nat i) = bufctl_cell sl (of_nat j) \<longleftrightarrow> i = j"
  using addr_offset_eq [of "4 * i" "4 * j" "sl + 20"] by (simp add: bufctl_cell_def slab_bufctl_def)

lemma slab_init_loop_cell:
  assumes "i \<le> j" "j < i + n" "i + n \<le> 2 ^ 16"
  shows "bufctl (slab_init_loop sl i n s) (bufctl_cell sl (of_nat j)) = of_nat (Suc j)"
  using assms
proof (induction n arbitrary: i s)
  case (Suc n)
  let ?s = "set_bufctl (bufctl_cell sl (of_nat i)) (of_nat i + 1) s"
  show ?case
  proof (cases "j = i")
    case True
    have "\<not> (\<exists>k\<in>{Suc i..<Suc i + n}. bufctl_cell sl (of_nat j) = bufctl_cell sl (of_nat k))"
      using bufctl_cell_inj [of j] Suc.prems True by auto
    then show ?thesis
      using slab_init_loop_bufctl [of sl "Suc i" n ?s "bufctl_cell sl (of_nat j)"] True by simp
  next
    case False
    then show ?thesis using Suc.IH [of "Suc i" ?s] Suc.prems by simp
  qed
qed simp

lemma chain_upto:
  assumes "k < n" "\<And>j. j < n - 1 \<Longrightarrow> b (bufctl_cell sl (of_nat j)) = of_nat (Suc j)"
    "b (bufctl_cell sl (of_nat (n - 1))) = BUFCTL_END"
  shows "chain b sl (of_nat k) [k..<n]"
  using assms(1)
proof (induction "n - k" arbitrary: k)
  case (Suc d)
  then have u: "[k..<n] = k # [Suc k..<n]" by (simp add: upt_conv_Cons)
  show ?case
  proof (cases "Suc k = n")
    case True
    then show ?thesis using assms(3) u by auto
  next
    case False
    then have "chain b sl (of_nat (Suc k)) [Suc k..<n]"
      using Suc.hyps(1) [of "Suc k"] Suc.hyps(2) Suc.prems False by (simp del: of_nat_Suc)
    moreover have "b (bufctl_cell sl (of_nat k)) = of_nat (Suc k)"
      using assms(2) [of k] False Suc.prems by simp
    ultimately show ?thesis unfolding u by (simp only: chain.simps simp_thms)
  qed
qed simp

lemma slab_init_ok:
  assumes n: "kc_obj_num s c = of_nat n" "0 < n" "n < 2 ^ 16"
  shows "\<exists>t. slab_init c sl (sl + 20) s = Some (0, t) \<and> slab_ok n sl [0..<n] t \<and>
    l_next t = (l_next s)(sl := sl) \<and> l_prev t = (l_prev s)(sl := sl) \<and>
    pg_address t = pg_address s \<and> buddy_list t = buddy_list s \<and> bl_nr t = bl_nr s \<and>
    kc_obj_num t = kc_obj_num s \<and> kc_obj_size t = kc_obj_size s \<and> kc_nr_pages t = kc_nr_pages s \<and> cache_chain t = cache_chain s \<and>
    (\<forall>x. x \<noteq> sl \<longrightarrow> sl_free t x = sl_free s x \<and> sl_inuse t x = sl_inuse s x \<and> sl_s_mem t x = sl_s_mem s x) \<and>
    (\<forall>a. (\<forall>j<n. a \<noteq> bufctl_cell sl (of_nat j)) \<longrightarrow> bufctl t a = bufctl s a)"
proof -
  have sn: "sint (of_nat n :: u32) = int n"
  proof -
    have "sint (of_int (int n) :: u32) = int n"
      using n(3) unfolding signed_of_int by (simp add: signed_take_bit_int_eq_self_iff)
    then show ?thesis by simp
  qed
  define s1 where "s1 = set_s_mem sl (sl + 20 + (of_nat n + 1) * 4) (INIT_LIST_HEAD sl (set_inuse sl 0 (set_free sl 0 s)))"
  define s2 where "s2 = slab_init_loop sl 0 n s1"
  define t where "t = set_bufctl (bufctl_cell sl (of_nat (n - 1))) BUFCTL_END s2"
  have run: "slab_init c sl (sl + 20) s = Some (0, t)"
    using n by (simp add: slab_init_def Let_def sn t_def s2_def s1_def)
  have b: "bufctl t (bufctl_cell sl (of_nat j)) = of_nat (Suc j)" if "j < n - 1" for j
    using slab_init_loop_cell [of 0 j n sl s1] bufctl_cell_inj [of j "n - 1" sl] that n
    by (simp add: t_def s2_def del: of_nat_diff of_nat_Suc)
  have "chain (bufctl t) sl (of_nat 0) [0..<n]"
    by (rule chain_upto [OF n(2) b]) (simp_all add: t_def)
  then have ok: "slab_ok n sl [0..<n] t"
    by (auto simp: slab_ok_def t_def s2_def slab_init_loop_fields s1_def algebra_simps)
  have out: "bufctl t a = bufctl s a" if "\<forall>j<n. a \<noteq> bufctl_cell sl (of_nat j)" for a
  proof -
    have "a \<noteq> bufctl_cell sl (of_nat (n - 1))" using that n by (simp del: of_nat_diff)
    moreover have "bufctl s2 a = bufctl s a"
      using slab_init_loop_bufctl [of sl 0 n s1 a] that by (auto simp: s2_def s1_def)
    ultimately show ?thesis by (simp add: t_def del: of_nat_diff)
  qed
  show ?thesis
    using run ok out
    by (intro exI [of _ t] conjI)
      (simp_all add: t_def s2_def slab_init_loop_fields s1_def INIT_LIST_HEAD_fields del: of_nat_diff,
       simp_all add: set_bufctl_def slab_init_loop_fields s1_def set_s_mem_def set_inuse_def set_free_def del: of_nat_diff)
qed

lemma cache_lists_cong_nodes:
  assumes "cache_lists cf K s" "\<And>a. a \<in> cnodes cf K \<Longrightarrow> l_next t a = l_next s a \<and> l_prev t a = l_prev s a"
  shows "cache_lists cf K t"
proof -
  have "ring t (kc_head (fa cf) i) (map fa (K i)) = ring s (kc_head (fa cf) i) (map fa (K i))" if "i \<in> {0, 1, 2}" for i
  proof -
    have "set (kc_head (fa cf) i # map fa (K i)) \<subseteq> cnodes cf K"
      using that by (auto simp: cnodes_def slabs_def)
    then show ?thesis using assms(2) by (intro ring_cong) blast+
  qed
  then show ?thesis using assms(1) unfolding cache_lists_def family_def by simp
qed

lemma frames_bound: "frames (i, fr) \<subseteq> {..<N} \<Longrightarrow> fr + 2 ^ nat i \<le> N"
proof -
  assume a: "frames (i, fr) \<subseteq> {..<N}"
  have p: "(1 :: nat) \<le> 2 ^ nat i" by simp
  then have "fr + 2 ^ nat i - 1 \<in> frames (i, fr)"
    by (simp only: frames.simps atLeastLessThan_iff) linarith
  then have "fr + 2 ^ nat i - 1 < N" using a by blast
  then show ?thesis using p by linarith
qed

lemma slab_estimate_num: "slab_estimate sz = of_nat (obj_count (unat sz))"
proof -
  have "slab_estimate sz = 65516 div sz" by (simp add: slab_estimate_def kpower_eq)
  then have "unat (slab_estimate sz) = obj_count (unat sz)" by (simp add: unat_div obj_count_def)
  then show ?thesis by (metis of_nat_unat ucast_id)
qed

text \<open>What is known of a block of 16 frames that was free.\<close>

lemma new_slab_facts:
  assumes rep: "cache_rep base N R G cf K fs s" and fr: "frames (4, fr) \<subseteq> free_frames G"
  shows "fr \<in> R" "fr + 16 \<le> N" "fr \<notin> slabs K" "fa fr \<noteq> NULL" "fa fr \<notin> cnodes cf K" "fa fr \<notin> bnodes base N s"
    "b \<in> slabs K \<Longrightarrow> frames (4, fr) \<inter> frames (4, b) = {}" "b \<in> slabs K \<Longrightarrow> b + 16 \<le> N" "b \<in> slabs K \<Longrightarrow> fa b \<noteq> fa fr"
proof -
  note R = cache_rep_R [OF rep]
  have frR: "frames (4, fr) \<subseteq> R" using fr cache_repD(4) [OF rep] by blast
  then show r: "fr \<in> R" using frames_nonempty(2) [of fr 4] by blast
  have RN: "R \<subseteq> {..<N}" using R(2) by blast
  show "fr + 16 \<le> N" using frames_bound [of 4 fr N] frR RN by simp
  show dj: "frames (4, fr) \<inter> frames (4, b) = {}" if "b \<in> slabs K" for b
    using cache_repD(9) [OF rep] fr that unfolding slab_frames_def by blast
  then show ns: "fr \<notin> slabs K" using frames_nonempty(2) [of fr 4] by blast
  show "b + 16 \<le> N" if "b \<in> slabs K" for b
  proof -
    have "frames (4, b) \<subseteq> {..<N}" using cache_repD(5) [OF rep] RN that unfolding slab_frames_def by blast
    then show ?thesis using frames_bound [of 4 b N] by simp
  qed
  show "fa fr \<noteq> NULL" using fa_nonnull R(1) R(2) [OF r] by blast
  show nb: "fa b \<noteq> fa fr" if "b \<in> slabs K" for b
    using fa_inj [of b N fr] R(1) R(2) [OF r] R(2) [OF R(3) [OF that]] ns that by metis
  have u: "unat (fa fr) = 4096 * fr" using unat_fa R(1) R(2) [OF r] by blast
  have "fa fr \<noteq> kc_head (fa cf) i" if "i \<in> {0, 1, 2}" for i
  proof
    assume "fa fr = kc_head (fa cf) i"
    then have "4096 * fr = 4096 * cf + 52 + 8 * i"
      using unat_kc_head [of cf N i] that u R(1) R(2) [OF cache_repD(6) [OF rep]] by metis
    then have "(4096 * fr) mod 4096 = (52 + 8 * i + 4096 * cf) mod 4096" by (simp only: ac_simps)
    then have "0 = (52 + 8 * i) mod 4096" by (simp only: mod_mult_self1_is_0 mod_mult_self2)
    moreover have "52 + 8 * i < 4096" using that by auto
    ultimately show False by (simp only: mod_less)
  qed
  then have "fa fr \<notin> kc_head (fa cf) ` {0, 1, 2}" by (metis imageE)
  moreover have "fa fr \<notin> fa ` slabs K" using nb by (metis imageE)
  ultimately show "fa fr \<notin> cnodes cf K" unfolding cnodes_def by simp
  have "unat (fa fr) div 4096 \<in> R" using u r by simp
  then show "fa fr \<notin> bnodes base N s" using cache_repD(3) [OF rep] unfolding ram_ok_def by blast
qed

lemma slab_ok_other:
  assumes ok: "slab_ok n (fa b) fl s" and apart: "frames (4, fr) \<inter> frames (4, b) = {}" "fr + 16 \<le> N" "b + 16 \<le> N" "N < 2 ^ 20"
    and n: "20 + 4 * n \<le> 65536"
    and t: "sl_free t (fa b) = sl_free s (fa b)" "sl_inuse t (fa b) = sl_inuse s (fa b)" "sl_s_mem t (fa b) = sl_s_mem s (fa b)"
      "\<And>a. (\<forall>j<n. a \<noteq> bufctl_cell (fa fr) (of_nat j)) \<Longrightarrow> bufctl t a = bufctl s a"
  shows "slab_ok n (fa b) fl t"
proof -
  have "bufctl t (bufctl_cell (fa b) (of_nat i)) = bufctl s (bufctl_cell (fa b) (of_nat i))" if "i \<in> set fl" for i
  proof (rule t(4), intro allI impI)
    fix j assume j: "j < n"
    have i: "i < n" using ok that by (auto simp: slab_ok_def)
    have "20 + 4 * j < 65536" "20 + 4 * i < 65536" using i j n by linarith+
    from bufctl_cells_apart [OF apart this] show "bufctl_cell (fa b) (of_nat i) \<noteq> bufctl_cell (fa fr) (of_nat j)"
      by metis
  qed
  then have "chain (bufctl t) (fa b) (sl_free t (fa b)) fl = chain (bufctl s) (fa b) (sl_free t (fa b)) fl"
    by (rule chain_cong)
  then show ?thesis using ok t(1-3) by (simp add: slab_ok_def)
qed

lemma cache_lists_link:
  assumes l: "cache_lists cf K s" and fr: "fa fr \<noteq> NULL" "fa fr \<notin> cnodes cf K"
  defines "u \<equiv> list_add_tail (fa fr) (kc_head (fa cf) 2) s"
  shows "cache_lists cf (K(2 := fr # K 2)) u"
    and "a \<notin> cnodes cf K \<Longrightarrow> a \<noteq> fa fr \<Longrightarrow> l_next u a = l_next s a \<and> l_prev u a = l_prev s a"
proof -
  let ?h = "kc_head (fa cf) 2" and ?f = "\<lambda>i. map fa (K i)"
  have r: "ring s ?h (map fa (K 2))" by (rule cache_listsD [OF l]) simp
  have u: "u = raw_list_add (fa fr) (last (?h # [])) (hd (map fa (K 2) @ [?h])) s"
    using fr(1) ring_first [OF r] by (simp add: u_def list_add_tail_def)
  have "family ring u {0, 1, 2} (kc_head (fa cf)) (?f(2 := [] @ fa fr # map fa (K 2)))"
    unfolding u by (rule kl.family_link [OF l [unfolded cache_lists_def]])
      (use fr in \<open>auto simp: cnodes_def slabs_def\<close>)
  moreover have "?f(2 := [] @ fa fr # map fa (K 2)) = (\<lambda>i. map fa ((K(2 := fr # K 2)) i))" by auto
  ultimately show "cache_lists cf (K(2 := fr # K 2)) u" by (simp only: cache_lists_def)
  assume a: "a \<notin> cnodes cf K" "a \<noteq> fa fr"
  have "{?h, hd (map fa (K 2) @ [?h])} \<subseteq> cnodes cf K"
    by (cases "K 2") (auto simp: cnodes_def slabs_def)
  then show "l_next u a = l_next s a \<and> l_prev u a = l_prev s a"
    using a unfolding u by (auto simp: raw_list_add_fields)
qed

lemma cache_grow_rep:
  assumes rep: "cache_rep base N R G cf K fs s" and ex: "\<exists>k\<in>{4..<10}. G k \<noteq> []"
  defines "n \<equiv> obj_count (unat (kc_obj_size s (fa cf)))"
  shows "\<exists>s' G' fr. cache_grow (fa cf) s = Some (0, s') \<and> fr \<notin> slabs K \<and>
    cache_rep base N R G' cf (K(2 := fr # K 2)) (fs(fr := [0..<n])) s' \<and>
    kc_obj_num s' = (kc_obj_num s)(fa cf := of_nat n) \<and> kc_obj_size s' = kc_obj_size s \<and>
    kc_nr_pages s' = (kc_nr_pages s)(fa cf := kc_nr_pages s (fa cf) + 16) \<and>
    frames (4, fr) \<subseteq> free_frames G \<and> cache_chain s' = cache_chain s \<and> buddy_list s' = buddy_list s \<and>
    (\<forall>a. a \<notin> bnodes base N s \<longrightarrow> a \<notin> cnodes cf K \<longrightarrow> a \<noteq> fa fr \<longrightarrow>
       l_next s' a = l_next s a \<and> l_prev s' a = l_prev s a)"
proof -
  let ?c = "fa cf"
  note R = cache_rep_R [OF rep]
  obtain fr s1 G' where s1: "get_free_pages 4 s = Some (fa fr, s1)" "buddy_rep base N G' s1" "sorted_lists G'"
      and fr: "frames (4, fr) \<subseteq> free_frames G" and ff: "free_frames G' = free_frames G - frames (4, fr)"
      and bf: "buddy_frame base N s s1"
    using get_free_pages_rep [OF cache_repD(1,2) [OF rep] _ ex] unfolding fa_def [symmetric]
    by (metis zero_le_numeral)
  note new = new_slab_facts [OF rep fr]
  have nn: "?c \<noteq> NULL" using fa_nonnull R cache_repD(6) [OF rep] by blast
  have fit: "fits n (unat (kc_obj_size s ?c))" using cache_repD(11) [OF rep] unfolding n_def .
  note nb = fits_bounds [OF fit]
  have n4: "20 + 4 * n \<le> 65536"
  proof -
    have "n * 4 \<le> n * (unat (kc_obj_size s ?c) + 4)" by (rule mult_le_mono2) simp
    then show ?thesis using fit unfolding fits_def by linarith
  qed
  note more = slab_fields_cong [OF bf [unfolded buddy_frame_def, THEN conjunct2, THEN conjunct2, THEN conjunct2, THEN conjunct1]]
  have est: "slab_estimate (kc_obj_size s1 ?c) = of_nat n" using slab_estimate_num more by (simp add: n_def)
  define s2 where "s2 = s1\<lparr>kc_obj_num := (kc_obj_num s)(?c := of_nat n),
    kc_nr_pages := (kc_nr_pages s)(?c := kc_nr_pages s ?c + kpower 4)\<rparr>"
  have s2f: "l_next s2 = l_next s1" "l_prev s2 = l_prev s1" "pg_address s2 = pg_address s1"
    "buddy_list s2 = buddy_list s1" "bl_nr s2 = bl_nr s1" "kc_obj_num s2 = (kc_obj_num s)(?c := of_nat n)"
    "kc_obj_size s2 = kc_obj_size s" "kc_nr_pages s2 = (kc_nr_pages s)(?c := kc_nr_pages s ?c + 16)"
    "sl_free s2 = sl_free s" "sl_inuse s2 = sl_inuse s" "sl_s_mem s2 = sl_s_mem s" "bufctl s2 = bufctl s" "cache_chain s2 = cache_chain s"
    by (simp_all add: s2_def more kpower_eq)
  have "kc_obj_num s2 ?c = of_nat n" by (simp add: s2f)
  then obtain t where t: "slab_init ?c (fa fr) (fa fr + 20) s2 = Some (0, t)" "slab_ok n (fa fr) [0..<n] t"
    and tl: "l_next t = (l_next s2)(fa fr := fa fr)" "l_prev t = (l_prev s2)(fa fr := fa fr)"
    and tf: "pg_address t = pg_address s2" "buddy_list t = buddy_list s2" "bl_nr t = bl_nr s2"
      "kc_obj_num t = kc_obj_num s2" "kc_obj_size t = kc_obj_size s2" "kc_nr_pages t = kc_nr_pages s2" "cache_chain t = cache_chain s2"
    and tsl: "\<forall>x. x \<noteq> fa fr \<longrightarrow> sl_free t x = sl_free s2 x \<and> sl_inuse t x = sl_inuse s2 x \<and> sl_s_mem t x = sl_s_mem s2 x"
    and tb: "\<forall>a. (\<forall>j<n. a \<noteq> bufctl_cell (fa fr) (of_nat j)) \<longrightarrow> bufctl t a = bufctl s2 a"
    using slab_init_ok [of s2 ?c n "fa fr"] nb by auto
  define s3 where "s3 = t\<lparr>kc_nr_frees := (kc_nr_frees t)(?c := kc_nr_frees t ?c + kc_obj_num t ?c)\<rparr>"
  define s4 where "s4 = list_add_tail (fa fr) (kc_head ?c 2) s3"
  have sz0: "kc_obj_size s ?c \<noteq> 0" using nb by auto
  have run: "cache_grow ?c s = Some (0, s4)"
    using nn sz0 est s1(1) t(1) new(4) more
    by (simp add: cache_grow_def slab_alloc_def s4_def s3_def kmem_add_slab_def kc_heads flip: s2_def)
  have s3f: "l_next s3 = l_next t" "l_prev s3 = l_prev t" by (simp_all add: s3_def)
  have same: "l_next s3 a = l_next s1 a \<and> l_prev s3 a = l_prev s1 a" if "a \<noteq> fa fr" for a
    using that by (simp add: s3f tl s2f)
  have l3: "cache_lists cf K s3"
  proof (rule cache_lists_cong_nodes [OF cache_repD(13) [OF rep]])
    fix a assume a: "a \<in> cnodes cf K"
    then have "a \<notin> bnodes base N s" "a \<noteq> fa fr" using cnodes_not_bnodes [OF rep] new(5) by blast+
    then show "l_next s3 a = l_next s a \<and> l_prev s3 a = l_prev s a"
      using same bf unfolding buddy_frame_def by simp
  qed
  note l4 = cache_lists_link [OF l3 new(4,5), folded s4_def]
  have bl: "buddy_list s1 = buddy_list s" using bf unfolding buddy_frame_def by simp
  have s4f: "pg_address s4 = pg_address s1" "buddy_list s4 = buddy_list s1" "bl_nr s4 = bl_nr s1"
    "kc_obj_num s4 = (kc_obj_num s)(?c := of_nat n)" "kc_obj_size s4 = kc_obj_size s" "kc_nr_pages s4 = kc_nr_pages s2"
    "sl_free s4 = sl_free t" "sl_inuse s4 = sl_inuse t" "sl_s_mem s4 = sl_s_mem t" "bufctl s4 = bufctl t" "cache_chain s4 = cache_chain s"
    by (simp_all add: s4_def list_add_tail_def s3_def tf s2f)
  have buddy: "buddy_rep base N G' s4"
  proof (rule buddy_rep_cong [OF _ s4f(1-3) s1(2)])
    fix a assume "a \<in> bnodes base N s1"
    then have "a \<in> bnodes base N s" using bnodes_cong [OF bl] by simp
    then have "a \<notin> cnodes cf K" "a \<noteq> fa fr" using cnodes_not_bnodes [OF rep] new(6) by blast+
    then show "l_next s4 a = l_next s1 a \<and> l_prev s4 a = l_prev s1 a" using l4(2) same by simp
  qed
  have ok: "slab_ok n (fa b) ((fs(fr := [0..<n])) b) s4" if "b \<in> insert fr (slabs K)" for b
  proof (cases "b = fr")
    case True
    then show ?thesis using t(2) by (simp add: slab_ok_def s4f)
  next
    case False
    then have b: "b \<in> slabs K" using that by simp
    have "slab_ok n (fa b) (fs b) t"
      by (rule slab_ok_other [OF cache_repD(14) [OF rep b, folded n_def] new(7) [OF b] new(2) new(8) [OF b] R(1) n4])
        (use tsl tb new(9) [OF b] in \<open>simp_all add: s2f\<close>)
    then show ?thesis using False by (simp add: slab_ok_def s4f)
  qed
  let ?K = "K(2 := fr # K 2)"
  have sl: "slabs ?K = insert fr (slabs K)" by (auto simp: slabs_def)
  have slf: "slab_frames ?K = frames (4, fr) \<union> slab_frames K" unfolding slab_frames_def sl by auto
  have sep: "\<forall>a\<in>insert fr (slabs K). \<forall>b\<in>insert fr (slabs K). a \<noteq> b \<longrightarrow> frames (4, a) \<inter> frames (4, b) = {}"
    using cache_repD(10) [OF rep] new(7) by blast
  have fs': "\<forall>x\<in>set (?K 0). (fs(fr := [0..<n])) x \<noteq> []" "\<forall>x\<in>set (?K 2). length ((fs(fr := [0..<n])) x) = n"
    using cache_repD(15,16) [OF rep] nb n_def by auto
  have ram: "ram_ok base N R s4"
    using cache_repD(3) [OF rep] bnodes_cong [of s4 s base N] s4f(2) bl unfolding ram_ok_def by simp
  have fr_sets: "free_frames G' \<subseteq> R" "slab_frames ?K \<subseteq> R" "cf \<notin> free_frames G'" "cf \<notin> slab_frames ?K"
    "slab_frames ?K \<inter> free_frames G' = {}"
    using ff slf fr cache_repD(4,5,7,8,9) [OF rep] by blast+
  have "cache_rep base N R G' cf ?K (fs(fr := [0..<n])) s4"
    using buddy s1(3) ram fr_sets cache_repD(6) [OF rep] sep fit l4(1) ok fs'
    by (simp add: cache_rep_def Let_def s4f(4,5) sl flip: n_def del: frames.simps fun_upd_apply)
       (simp)
  moreover have "kc_nr_pages s4 = (kc_nr_pages s)(?c := kc_nr_pages s ?c + 16)"
    using s4f(6) s2f(8) by (simp only:)
  moreover have "\<forall>a. a \<notin> bnodes base N s \<longrightarrow> a \<notin> cnodes cf K \<longrightarrow> a \<noteq> fa fr \<longrightarrow>
      l_next s4 a = l_next s a \<and> l_prev s4 a = l_prev s a"
    using l4(2) same bf unfolding buddy_frame_def by simp
  moreover have "buddy_list s4 = buddy_list s" using s4f(2) bl by simp
  ultimately show ?thesis using run new(3) s4f(4,5,11) fr by blast
qed

lemma obj_addr_bounds:
  assumes fit: "fits n sz" and i: "i < n" and fr: "fr + 16 \<le> N" "N < 2 ^ 20"
  shows "unat (obj_addr n sz (fr, i)) = 4096 * fr + 24 + 4 * n + sz * i"
    and "24 + 4 * n + sz * i + sz \<le> 65536"
proof -
  have "sz * i + sz \<le> sz * n" using i by (metis Suc_leI mult_Suc_right mult_le_mono2 add.commute)
  moreover have "24 + n * (sz + 4) \<le> 65536" using fit by (simp add: fits_def)
  moreover have "n * (sz + 4) = sz * n + 4 * n" by (simp add: algebra_simps)
  ultimately show b: "24 + 4 * n + sz * i + sz \<le> 65536" by linarith
  have u: "unat (fa fr) = 4096 * fr" using unat_fa [of fr N] fr by simp
  have lt: "unat (fa fr) + (20 + 4 * (n + 1) + sz * i) < 2 ^ 32" using u b fr by simp
  have "unat (obj_addr n sz (fr, i)) = unat (fa fr) + (20 + 4 * (n + 1) + sz * i)"
    unfolding obj_addr_def fst_conv snd_conv by (rule unat_offset [OF lt])
  then show "unat (obj_addr n sz (fr, i)) = 4096 * fr + 24 + 4 * n + sz * i" unfolding u by simp
qed

lemma slab_ok_free: "slab_ok n sl (i # is) s \<Longrightarrow> i < n \<and> i \<notin> set is \<and> set is \<subseteq> {..<n}"
  by (simp add: slab_ok_def)

lemma allocated_take:
  assumes "fr \<in> slabs K" "slabs K' = slabs K" "fs fr = i # is" "i < n" "i \<notin> set is"
  shows "allocated n K' (fs(fr := is)) = insert (fr, i) (allocated n K fs)" "(fr, i) \<notin> allocated n K fs"
  using assms by (auto simp: allocated_def split: if_splits)

lemma slab_range:
  assumes "cache_rep base N R G cf K fs s" "fr \<in> slabs K"
  shows "fr + 16 \<le> N"
proof -
  have "frames (4, fr) \<subseteq> R" using cache_repD(5) [OF assms(1)] assms(2) unfolding slab_frames_def by blast
  then have "frames (4, fr) \<subseteq> {..<N}" using cache_rep_R(2) [OF assms(1)] by blast
  then show ?thesis using frames_bound [of 4 fr N] by simp
qed

lemma kmem_get_obj_take:
  assumes rep: "cache_rep base N R G cf K fs s" and K: "K 0 \<noteq> [] \<or> K 2 \<noteq> []"
  defines "n \<equiv> obj_count (unat (kc_obj_size s (fa cf)))" and "sz \<equiv> unat (kc_obj_size s (fa cf))"
  shows "\<exists>s' K' fs' x. kmem_get_obj (fa cf) s = Some (obj_addr n sz x, s') \<and>
    cache_rep base N R G cf K' fs' s' \<and> x \<notin> allocated n K fs \<and>
    allocated n K' fs' = insert x (allocated n K fs) \<and>
    kc_obj_num s' = kc_obj_num s \<and> kc_obj_size s' = kc_obj_size s"
proof -
  obtain s1 K1 fr where s1: "kmem_get_slab (fa cf) s = (fa fr, s1)" "cache_rep base N R G cf K1 fs s1"
    "fr \<in> set (K1 0)" "slabs K1 = slabs K" "kc_obj_num s1 = kc_obj_num s" "kc_obj_size s1 = kc_obj_size s"
  proof (cases "K 0 = []")
    case True
    then obtain fr ks where "K 2 = fr # ks" using K by (cases "K 2") auto
    from kmem_get_slab_free [OF rep True this] show ?thesis using that by auto
  next
    case False
    from kmem_get_slab_partial [OF rep False] rep False show ?thesis using that [of "last (K 0)" s K] by simp
  qed
  obtain i "is" where i: "fs fr = i # is"
    using cache_repD(15) [OF s1(2,3)] by (cases "fs fr") auto
  have sl: "fr \<in> slabs K1" using s1(3) by (simp add: slabs_def)
  have ok: "i < n" "i \<notin> set is"
    using slab_ok_free [of n "fa fr" i "is" s1] cache_repD(14) [OF s1(2) sl] i s1(6) unfolding n_def by auto
  obtain s2 K2 where s2: "slab_get_obj (fa cf) (fa fr) s1 = (obj_addr n sz (fr, i), s2)"
    "cache_rep base N R G cf K2 (fs(fr := is)) s2" "slabs K2 = slabs K1" "kc_obj_num s2 = kc_obj_num s1" "kc_obj_size s2 = kc_obj_size s1"
    using slab_get_obj_rep [OF s1(2,3) i] unfolding n_def sz_def s1(5,6) by blast
  have "unat (obj_addr n sz (fr, i)) \<noteq> 0"
    using obj_addr_bounds(1) [OF cache_repD(11) [OF s1(2), unfolded s1(6), folded n_def sz_def] ok(1)
        slab_range [OF s1(2) sl] cache_rep_R(1) [OF rep]] by linarith
  then have "obj_addr n sz (fr, i) \<noteq> NULL" by auto
  then have "kmem_get_obj (fa cf) s = Some (obj_addr n sz (fr, i), s2)"
    using s1(1) s2(1) by (subst kmem_get_obj.simps) simp
  then show ?thesis
    using s2 s1(4-6) allocated_take [of fr K K2 fs i "is" n] sl i ok by metis
qed

lemma kmem_get_obj_rep:
  assumes rep: "cache_rep base N R G cf K fs s"
    and room: "K 0 \<noteq> [] \<or> K 2 \<noteq> [] \<or> kc_nr_pages s (fa cf) < 256 \<and> (\<exists>k\<in>{4..<10}. G k \<noteq> [])"
  defines "n \<equiv> obj_count (unat (kc_obj_size s (fa cf)))" and "sz \<equiv> unat (kc_obj_size s (fa cf))"
  shows "\<exists>s' G' K' fs' x. kmem_get_obj (fa cf) s = Some (obj_addr n sz x, s') \<and>
    cache_rep base N R G' cf K' fs' s' \<and> x \<notin> allocated n K fs \<and>
    allocated n K' fs' = insert x (allocated n K fs) \<and>
    kc_obj_size s' = kc_obj_size s"
proof (cases "K 0 \<noteq> [] \<or> K 2 \<noteq> []")
  case True
  from kmem_get_obj_take [OF rep this] show ?thesis unfolding n_def sz_def by blast
next
  case False
  then have e: "K 0 = []" "K 2 = []" and pages: "kc_nr_pages s (fa cf) < 256" and ex: "\<exists>k\<in>{4..<10}. G k \<noteq> []"
    using room by auto
  obtain s1 G1 fr where g: "cache_grow (fa cf) s = Some (0, s1)" "fr \<notin> slabs K"
    "cache_rep base N R G1 cf (K(2 := fr # K 2)) (fs(fr := [0..<n])) s1"
    "kc_obj_size s1 = kc_obj_size s"
    using cache_grow_rep [OF rep ex] unfolding n_def by blast
  have "\<not> kpower MAX_SLAB_PAGES \<le> kc_nr_pages s (fa cf)" using pages by (simp add: kpower_eq not_le)
  then have "kmem_get_obj (fa cf) s = kmem_get_obj (fa cf) s1"
    using kmem_get_slab_empty [OF rep e] g(1)
    by (subst kmem_get_obj.simps) (simp add: slab_get_obj_def)
  moreover have "allocated n (K(2 := fr # K 2)) (fs(fr := [0..<n])) = allocated n K fs"
    using g(2) e by (auto simp: allocated_def slabs_def split: if_splits)
  moreover have "\<exists>s' K' fs' x. kmem_get_obj (fa cf) s1 = Some (obj_addr n sz x, s') \<and>
      cache_rep base N R G1 cf K' fs' s' \<and> x \<notin> allocated n (K(2 := fr # K 2)) (fs(fr := [0..<n])) \<and>
      allocated n K' fs' = insert x (allocated n (K(2 := fr # K 2)) (fs(fr := [0..<n]))) \<and>
      kc_obj_size s' = kc_obj_size s"
    using kmem_get_obj_take [OF g(3), unfolded g(4), folded n_def sz_def] by (simp del: fun_upd_apply) (metis fun_upd_same list.discI)
  ultimately show ?thesis by (simp only:) blast
qed

lemma sint_of_nat_small: "k < 2 ^ 31 \<Longrightarrow> sint (of_nat k :: u32) = int k"
proof -
  assume "k < 2 ^ 31"
  then have "sint (of_int (int k) :: u32) = int k"
    unfolding signed_of_int by (simp add: signed_take_bit_int_eq_self_iff)
  then show ?thesis by simp
qed

lemma obj_to_index_obj_addr:
  assumes fit: "fits n sz" and i: "i < n" and sz: "kc_obj_size s c = of_nat sz" and m: "sl_s_mem s (fa fr) = fa fr + 20 + 4 * (of_nat n + 1)"
  shows "obj_to_index c (fa fr) (obj_addr n sz (fr, i)) s = of_nat i"
proof -
  have "sz * i + sz \<le> sz * n" using i by (metis Suc_leI mult_Suc_right mult_le_mono2 add.commute)
  moreover have "24 + n * (sz + 4) \<le> 65536" "0 < sz" using fit by (simp_all add: fits_def)
  moreover have "n * (sz + 4) = sz * n + 4 * n" by (simp add: algebra_simps)
  ultimately have "sz * i < 65536" "sz < 65536" by linarith+
  then have b: "sz * i < 2 ^ 31" "sz < 2 ^ 31" by simp_all
  have "obj_addr n sz (fr, i) - sl_s_mem s (fa fr) = of_nat (sz * i)"
    by (simp add: obj_addr_def m)
  then have "sint (obj_addr n sz (fr, i) - sl_s_mem s (fa fr)) sdiv sint (kc_obj_size s c) = int (sz * i) sdiv int sz"
    using sint_of_nat_small [OF b(1)] sint_of_nat_small [OF b(2)] sz by (simp only:)
  also have "\<dots> = int i" using \<open>0 < sz\<close> by (auto simp: signed_divide_int_def sgn_if)
  finally show ?thesis by (simp add: obj_to_index_def)
qed

lemma slab_free_obj_step:
  assumes ok: "slab_ok n (fa fr) fl s" and n: "kc_obj_num s c = of_nat n" "fits n sz" and sz: "kc_obj_size s c = of_nat sz"
    and i: "i < n" "i \<notin> set fl" and nn: "c \<noteq> NULL" "fa fr \<noteq> NULL" "obj_addr n sz (fr, i) \<noteq> NULL"
  defines "t \<equiv> set_inuse (fa fr) (sl_inuse s (fa fr) - 1) (set_free (fa fr) (of_nat i)
    (set_bufctl (bufctl_cell (fa fr) (of_nat i)) (sl_free s (fa fr)) s))"
  shows "slab_free_obj c (fa fr) (obj_addr n sz (fr, i)) s =
      Some (0, if Suc (length fl) = n then list_add (fa fr) (kc_free c) (list_del (fa fr) t) else t)"
    and "slab_ok n (fa fr) (i # fl) t"
proof -
  note fb = fits_bounds [OF n(2)]
  have ch: "chain (bufctl s) (fa fr) (sl_free s (fa fr)) fl" and d: "distinct fl" "set fl \<subseteq> {..<n}"
    and u: "sl_inuse s (fa fr) = of_nat (n - length fl)"
    and m: "sl_s_mem s (fa fr) = fa fr + 20 + 4 * (of_nat n + 1)"
    using ok unfolding slab_ok_def by auto
  have "length (i # fl) \<le> n"
    using d i by (metis card_lessThan card_mono distinct_card finite_lessThan distinct.simps(2) insert_subset lessThan_iff list.set(2))
  then have len: "Suc (length fl) \<le> n" by simp
  have "(of_nat (n - length fl) :: u32) - 1 = of_nat (n - Suc (length fl))"
  proof -
    have "n - length fl = Suc (n - Suc (length fl))" using len by simp
    then show ?thesis by (simp only: of_nat_Suc) simp
  qed
  then have inuse: "sl_inuse s (fa fr) - 1 = of_nat (n - Suc (length fl))" using u by simp
  have "chain (bufctl t) (fa fr) (sl_free s (fa fr)) fl = chain (bufctl s) (fa fr) (sl_free s (fa fr)) fl"
  proof (rule chain_cong)
    fix j assume j: "j \<in> set fl"
    then have "j < n" "j \<noteq> i" using d i by auto
    then have "bufctl_cell (fa fr) (of_nat j) \<noteq> bufctl_cell (fa fr) (of_nat i)"
      using bufctl_cell_inj [of j i] i fb by simp
    then show "bufctl t (bufctl_cell (fa fr) (of_nat j)) = bufctl s (bufctl_cell (fa fr) (of_nat j))"
      by (simp add: t_def)
  qed
  then show "slab_ok n (fa fr) (i # fl) t"
    using ch d i m inuse by (simp add: slab_ok_def t_def)
  have oi: "obj_to_index c (fa fr) (obj_addr n sz (fr, i)) s = of_nat i"
    by (rule obj_to_index_obj_addr [OF n(2) i(1) sz m])
  have sz0: "(of_nat sz :: u32) \<noteq> 0"
  proof -
    have "sz * 1 \<le> sz * n" using fb by (intro mult_le_mono2) simp
    moreover have "sz * n \<le> n * (sz + 4)" by (simp add: algebra_simps)
    ultimately have "sz < 65536" using n(2) unfolding fits_def by linarith
    then show ?thesis using addr_offset_eq [of sz 0 0] fb by simp
  qed
  have le: "\<not> (of_nat n :: u32) < of_nat i"
    using i fb by (simp add: word_less_nat_alt unat_of_nat take_bit_nat_eq_self)
  have zero: "(of_nat (n - Suc (length fl)) :: u32) = 0 \<longleftrightarrow> Suc (length fl) = n"
  proof -
    have "n - Suc (length fl) < 2 ^ 32" using fb by (intro le_less_trans [OF diff_le_self]) simp
    then have "(of_nat (n - Suc (length fl)) :: u32) = 0 \<longleftrightarrow> n - Suc (length fl) = 0"
      using addr_offset_eq [of "n - Suc (length fl)" 0 0] by (simp del: of_nat_diff)
    then show ?thesis using len by linarith
  qed
  have one: "sl_inuse s (fa fr) = 1 \<longleftrightarrow> Suc (length fl) = n"
    unfolding zero [symmetric] inuse [symmetric] by simp
  show "slab_free_obj c (fa fr) (obj_addr n sz (fr, i)) s =
      Some (0, if Suc (length fl) = n then list_add (fa fr) (kc_free c) (list_del (fa fr) t) else t)"
    using nn sz0 le one by (simp add: slab_free_obj_def Let_def oi sz n(1) t_def del: of_nat_diff)
qed

lemma fits_cells: "fits n sz \<Longrightarrow> 20 + 4 * n \<le> 65536"
proof -
  assume "fits n sz"
  moreover have "n * 4 \<le> n * (sz + 4)" by (rule mult_le_mono2) simp
  ultimately show ?thesis unfolding fits_def by linarith
qed

lemma slab_free_obj_rep:
  assumes rep: "cache_rep base N R G cf K fs s"
  defines "n \<equiv> obj_count (unat (kc_obj_size s (fa cf)))" and "sz \<equiv> unat (kc_obj_size s (fa cf))"
  assumes x: "(fr, i) \<in> allocated n K fs"
  shows "\<exists>s' K'. slab_free_obj (fa cf) (fa fr) (obj_addr n sz (fr, i)) s = Some (0, s') \<and>
    cache_rep base N R G cf K' (fs(fr := i # fs fr)) s' \<and> slabs K' = slabs K \<and>
    kc_obj_num s' = kc_obj_num s \<and> kc_obj_size s' = kc_obj_size s"
proof -
  let ?c = "fa cf" and ?sl = "fa fr" and ?fs = "fs(fr := i # fs fr)"
  note R = cache_rep_R [OF rep]
  have slab: "fr \<in> slabs K" and i: "i < n" "i \<notin> set (fs fr)" using x by (auto simp: allocated_def)
  have nn: "?c \<noteq> NULL" "?sl \<noteq> NULL" using R cache_repD(6) [OF rep] slab by (meson fa_nonnull)+
  have ok: "slab_ok n ?sl (fs fr) s" using cache_repD(14) [OF rep slab] unfolding n_def .
  have fit: "fits n sz" using cache_repD(11) [OF rep] unfolding n_def sz_def .
  have num: "kc_obj_num s ?c = of_nat n" "kc_obj_size s ?c = of_nat sz"
    using cache_repD(12) [OF rep] slab unfolding n_def by (blast, simp add: sz_def)
  have "unat (obj_addr n sz (fr, i)) \<noteq> 0"
    using obj_addr_bounds(1) [OF fit i(1) slab_range [OF rep slab] R(1)] by linarith
  then have onn: "obj_addr n sz (fr, i) \<noteq> NULL" by auto
  define t where "t = set_inuse ?sl (sl_inuse s ?sl - 1) (set_free ?sl (of_nat i)
    (set_bufctl (bufctl_cell ?sl (of_nat i)) (sl_free s ?sl) s))"
  note step = slab_free_obj_step [OF ok num(1) fit num(2) i nn onn, folded t_def]
  have tf: "l_next t = l_next s" "l_prev t = l_prev s" "kc_obj_num t = kc_obj_num s" "kc_obj_size t = kc_obj_size s"
    "pg_address t = pg_address s" "buddy_list t = buddy_list s" "bl_nr t = bl_nr s"
    by (simp_all add: t_def) (simp_all add: set_free_def set_inuse_def set_bufctl_def)
  have ok': "slab_ok n (fa a) (?fs a) t" if a: "a \<in> slabs K" for a
  proof (cases "a = fr")
    case False
    then have ne: "fa a \<noteq> ?sl" using fa_inj [of a N fr] R(1) R(2) R(3) a slab by blast
    have dj: "frames (4, fr) \<inter> frames (4, a) = {}" using cache_repD(10) [OF rep slab a] False by blast
    have "slab_ok n (fa a) (fs a) t"
      by (rule slab_ok_other [OF cache_repD(14) [OF rep a, folded n_def] dj slab_range [OF rep slab] slab_range [OF rep a] R(1) fits_cells [OF fit]])
        (use ne i in \<open>auto simp: t_def\<close>)
    then show ?thesis using False by simp
  qed (use step(2) in simp)
  have not2: "fr \<notin> set (K 2)"
  proof
    assume "fr \<in> set (K 2)"
    then have "length (fs fr) = n" using cache_repD(16) [OF rep] unfolding n_def by simp
    moreover have "distinct (fs fr)" "set (fs fr) \<subseteq> {..<n}" using ok by (simp_all add: slab_ok_def)
    ultimately have "set (fs fr) = {..<n}" by (metis card_lessThan card_subset_eq distinct_card finite_lessThan)
    then show False using i by simp
  qed
  show ?thesis
  proof (cases "Suc (length (fs fr)) = n")
    case False
    have "cache_rep base N R G cf K ?fs t"
      by (rule cache_rep_update [OF rep _ tf(5-7)])
        (use tf ok' not2 cache_lists_cong [OF tf(1,2)] cache_repD(13,15,16) [OF rep] in \<open>auto simp: n_def\<close>)
    then show ?thesis using step(1) False tf by auto
  next
    case True
    have "fr \<in> set (K 0) \<or> fr \<in> set (K 1)" using slab not2 unfolding slabs_def by auto
    then obtain k where k: "k \<in> {0, 1, 2}" "k \<noteq> 2" "fr \<in> set (K k)"
      by (elim disjE) (fastforce intro: that [of 0] that [of 1])+
    obtain xs ys where Kk: "K k = xs @ fr # ys" using k(3) by (meson split_list)
    let ?K = "K(k := xs @ ys, 2 := K 2 @ [fr])"
    let ?u = "list_add ?sl (kc_head ?c 2) (list_del ?sl t)"
    have fr': "fr \<notin> set (xs @ ys)"
      using cache_lists_distinct [OF cache_repD(13) [OF rep] k(1)] Kk by simp
    have mv: "cache_lists cf ?K ?u" "slabs ?K = slabs K"
      "\<And>a. a \<notin> cnodes cf K \<Longrightarrow> l_next ?u a = l_next s a \<and> l_prev ?u a = l_prev s a"
      by (rule cache_rep_move [OF rep tf(1,2) k(1) _ k(2) Kk]; simp)+
    have "fr \<notin> set (K j)" if "j \<in> {0, 1, 2}" "j \<noteq> k" for j
      using cache_lists_disjoint [OF cache_repD(13) [OF rep] k(1) that(1)] that(2) k(3) by auto
    then have n0: "x \<in> set (?K 0) \<Longrightarrow> ?fs x \<noteq> []" "x \<in> set (?K 2) \<Longrightarrow> length (?fs x) = n" for x
      using cache_repD(15,16) [OF rep] Kk fr' True k not2 unfolding n_def by (auto split: if_splits)
    have "cache_rep base N R G cf ?K ?fs ?u"
      by (rule cache_rep_update [OF rep mv(3) _ _ _ _ _ mv(1,2)])
        (use tf ok' n0 in \<open>simp_all add: n_def\<close>)
    then show ?thesis using step(1) True tf mv(2) by (auto simp: kc_heads)
  qed
qed

lemma allocated_free:
  assumes "(fr, i) \<in> allocated n K fs" "slabs K' = slabs K"
  shows "allocated n K' (fs(fr := i # fs fr)) = allocated n K fs - {(fr, i)}"
  using assms by (auto simp: allocated_def split: if_splits)

lemma unat_mask_16k: "unat (x AND VALUE_MASK (word_of_int 4 * 4096)) = unat x div 16384 * 16384"
proof -
  have "VALUE_MASK (word_of_int 4 * 4096) = NOT (mask 14)"
    by (simp add: VALUE_MASK_def mask_eq_exp_minus_1)
  moreover have "x AND NOT (mask 14) = push_bit 14 (drop_bit 14 x)"
    by (rule bit_eqI) (auto simp: bit_simps)
  ultimately have "x AND VALUE_MASK (word_of_int 4 * 4096) = push_bit 14 (drop_bit 14 x)" by simp
  moreover have "unat x div 16384 * 16384 < 2 ^ 32"
    using unsigned_less [of x, where 'a = nat] by (intro le_less_trans [OF div_times_less_eq_dividend]) simp
  moreover have "unat (drop_bit 14 x) = unat x div 16384"
    by (simp add: drop_bit_eq_div unat_div)
  ultimately show ?thesis
    by (simp add: push_bit_eq_mult unat_word_ariths)
qed

lemma cache_rep_outside:
  assumes rep: "cache_rep base N R G cf K fs s"
    and n: "\<And>a. a \<in> bnodes base N s \<union> cnodes cf K \<Longrightarrow> l_next t a = l_next s a \<and> l_prev t a = l_prev s a"
    and f: "pg_address t = pg_address s" "buddy_list t = buddy_list s" "bl_nr t = bl_nr s" "mm_heap.more t = mm_heap.more s"
  shows "cache_rep base N R G cf K fs t"
proof -
  note c = slab_fields_cong [OF f(4)]
  have "buddy_rep base N G t"
    by (rule buddy_rep_cong [OF _ f(1-3) cache_repD(1) [OF rep]]) (use n in blast)
  moreover have "cache_lists cf K t"
    by (rule cache_lists_cong_nodes [OF cache_repD(13) [OF rep]]) (use n in blast)
  moreover have "ram_ok base N R t"
    using cache_repD(3) [OF rep] bnodes_cong [OF f(2)] unfolding ram_ok_def by simp
  moreover have "slab_ok m a fl t = slab_ok m a fl s" for m a fl by (simp add: slab_ok_def c)
  ultimately show ?thesis
    using rep by (simp add: cache_rep_def Let_def c del: frames.simps)
qed

lemma unat_kc_next:
  assumes "cf < N" "N < 2 ^ 20"
  shows "unat (kc_next (fa cf)) = 4096 * cf + 44"
  using unat_frame_addr [OF assms, of 44] by (simp add: kc_next_def)

lemma div_4096: "d < 4096 \<Longrightarrow> (4096 * m + d) div 4096 = (m :: nat)"
  by simp

lemma kc_head_frame:
  assumes "cf < N" "N < 2 ^ 20" "i \<in> {0, 1, 2}"
  shows "unat (kc_head (fa cf) i) div 4096 = cf" "kc_head (fa cf) i \<noteq> kc_next (fa cf)"
proof -
  have u: "unat (kc_head (fa cf) i) = 4096 * cf + (52 + 8 * i)" using unat_kc_head [OF assms] by simp
  have d: "52 + 8 * i < 4096" using assms(3) by auto
  show "unat (kc_head (fa cf) i) div 4096 = cf" unfolding u by (rule div_4096 [OF d])
  show "kc_head (fa cf) i \<noteq> kc_next (fa cf)"
  proof
    assume "kc_head (fa cf) i = kc_next (fa cf)"
    then have "4096 * cf + (52 + 8 * i) = 4096 * cf + 44" using u unat_kc_next [OF assms(1,2)] by metis
    then show False by simp
  qed
qed

lemma kc_head_inj:
  assumes "cf < N" "N < 2 ^ 20" "i \<in> {0, 1, 2}" "k \<in> {0, 1, 2}" "kc_head (fa cf) i = kc_head (fa cf) k"
  shows "i = k"
proof -
  have "4096 * cf + 52 + 8 * i = 4096 * cf + 52 + 8 * k"
    using unat_kc_head [OF assms(1,2,3)] unat_kc_head [OF assms(1,2,4)] assms(5) by metis
  then show ?thesis by simp
qed

lemma kmem_list_init_fields:
  "l_next (kmem_list_init (fa cf) s) a = (if a \<in> kc_head (fa cf) ` {0, 1, 2} then a else l_next s a)"
  "l_prev (kmem_list_init (fa cf) s) a = (if a \<in> kc_head (fa cf) ` {0, 1, 2} then a else l_prev s a)"
  "mm_heap.more (kmem_list_init (fa cf) s) = mm_heap.more s"
  "pg_address (kmem_list_init (fa cf) s) = pg_address s" "buddy_list (kmem_list_init (fa cf) s) = buddy_list s"
  "bl_nr (kmem_list_init (fa cf) s) = bl_nr s"
  by (auto simp: kmem_list_init_def kc_heads INIT_LIST_HEAD_fields)

text \<open>A new cache with its lists initialised: no slabs yet.\<close>

lemma cache_rep_new:
  assumes b: "buddy_rep base N G s" "sorted_lists G" "ram_ok base N R s" "free_frames G \<subseteq> R"
    and cf: "cf \<in> R" "cf \<notin> free_frames G" and sz: "fits (obj_count (unat (kc_obj_size s (fa cf)))) (unat (kc_obj_size s (fa cf)))"
  shows "cache_rep base N R G cf (\<lambda>_. []) fs (kmem_list_init (fa cf) s)"
proof -
  let ?s = "kmem_list_init (fa cf) s"
  note f = kmem_list_init_fields [of cf s]
  have cfN: "0 < cf" "cf < N" using b(3) cf(1) unfolding ram_ok_def by auto
  have N: "N < 2 ^ 20" using pages_okD(3) [OF buddy_repD(1) [OF b(1)]] .
  have "buddy_rep base N G ?s"
  proof (rule buddy_rep_cong [OF _ f(4-6) b(1)])
    fix a assume "a \<in> bnodes base N s"
    then have "unat a div 4096 \<notin> R" using b(3) unfolding ram_ok_def by blast
    then have "a \<notin> kc_head (fa cf) ` {0, 1, 2}"
      using cf(1) kc_head_frame(1) [OF cfN(2) N] by (metis imageE)
    then show "l_next ?s a = l_next s a \<and> l_prev ?s a = l_prev s a" using f(1,2) by simp
  qed
  moreover have "ram_ok base N R ?s" using b(3) bnodes_cong [OF f(5)] unfolding ram_ok_def by simp
  moreover have "cache_lists cf (\<lambda>_. []) ?s"
  proof -
    have "ring ?s (kc_head (fa cf) i) []" if "i \<in> {0, 1, 2}" for i
    proof -
      have "unat (kc_head (fa cf) i) \<noteq> 0" using unat_kc_head [OF cfN(2) N that] by simp
      then show ?thesis using f(1,2) that by (auto simp: ring_Nil_iff)
    qed
    moreover have "kc_head (fa cf) i \<noteq> kc_head (fa cf) k" if "i \<in> {0, 1, 2}" "k \<in> {0, 1, 2}" "i \<noteq> k" for i k
      using kc_head_inj [OF cfN(2) N that(1,2)] that(3) by blast
    ultimately show ?thesis unfolding cache_lists_def family_def by simp
  qed
  moreover have "slabs (\<lambda>_. []) = {}" "slab_frames (\<lambda>_. []) = {}" by (simp_all add: slabs_def slab_frames_def)
  ultimately show ?thesis
    using b(2,4) cf sz slab_fields_cong(8) [OF f(3)] by (simp add: cache_rep_def Let_def)
qed

lemma kmem_chain_add_ring:
  assumes r: "ring s (cache_chain s) cs" and x: "kc_next c \<notin> set (cache_chain s # cs)" "kc_next c \<noteq> NULL" "c \<noteq> NULL"
  shows "\<exists>ret us vs t. cs = us @ vs \<and> kmem_chain_add c s = Some (ret, t) \<and> ring t (cache_chain s) (us @ kc_next c # vs) \<and>
    t = raw_list_add (kc_next c) (last (cache_chain s # us)) (hd (vs @ [cache_chain s])) s"
proof (cases "cs = []")
  case True
  let ?t = "raw_list_add (kc_next c) (last (cache_chain s # [])) (hd ([] @ [cache_chain s])) s"
  have "list_add (kc_next c) (cache_chain s) s = ?t"
    using list_add_ring [OF r x(2)] True by simp
  then have "kmem_chain_add c s = Some (-1, ?t)"
    using x(3) ring_empty_iff(1) [OF r] True by (simp add: kmem_chain_add_def Let_def)
  moreover have "ring ?t (cache_chain s) ([] @ kc_next c # [])"
    by (rule kl.rep_link) (use r x True in auto)
  ultimately show ?thesis using True by blast
next
  case False
  let ?h = "cache_chain s" and ?before = "\<lambda>pos. sint (kc_obj_size s c) < sint (kc_obj_size s (pos - 44))"
  have "\<exists>us vs. [] @ cs = us @ vs \<and> (\<forall>a\<in>set us. \<not> ?before a) \<and> (vs \<noteq> [] \<longrightarrow> ?before (hd vs)) \<and>
      list_add_line_loop ?before (kc_next c) ?h (hd cs) (l_next s (hd cs)) s =
        Some (True, raw_list_add (kc_next c) (last (?h # us)) (hd (vs @ [?h])) s)"
    by (rule list_add_line_loop_ring) (use r False in auto)
  then obtain us vs where uv: "cs = us @ vs"
    "list_add_line_loop ?before (kc_next c) ?h (hd cs) (l_next s (hd cs)) s =
        Some (True, raw_list_add (kc_next c) (last (?h # us)) (hd (vs @ [?h])) s)"
    unfolding append_Nil by blast
  let ?t = "raw_list_add (kc_next c) (last (?h # us)) (hd (vs @ [?h])) s"
  have "l_next s ?h = hd cs" using ring_first [OF r] False by (cases cs) auto
  then have "kmem_chain_add c s = Some (0, ?t)"
    using x(3) ring_empty_iff(1) [OF r] False uv(2) by (simp add: kmem_chain_add_def Let_def del: last.simps)
  moreover have "ring ?t ?h (us @ kc_next c # vs)"
    by (rule kl.rep_link) (use r x uv(1) in auto)
  ultimately show ?thesis using uv(1) by blast
qed

lemma kmem_cache_create_rep:
  assumes b: "buddy_rep base N G s" "sorted_lists G" "ram_ok base N R s" "free_frames G \<subseteq> R"
    and room: "\<exists>k\<in>{5..<10}. G k \<noteq> []" and sz: "fits (obj_count (unat sz)) (unat sz)" and name: "name \<noteq> NULL"
    and r: "ring s (cache_chain s) cs"
    and nodes: "\<And>a. a \<in> set (cache_chain s # cs) \<Longrightarrow> a \<notin> bnodes base N s \<and> unat a div 4096 \<notin> free_frames G"
  shows "\<exists>s' G' cf K fs us vs. kmem_cache_create name sz flags s = Some (fa cf, s') \<and>
    cache_rep base N R G' cf K fs s' \<and> kc_obj_size s' (fa cf) = sz \<and> kc_nr_pages s' (fa cf) = 16 \<and>
    cf \<in> free_frames G \<and> K 2 \<noteq> [] \<and> allocated (obj_count (unat sz)) K fs = {} \<and>
    cs = us @ vs \<and> cache_chain s' = cache_chain s \<and> ring s' (cache_chain s') (us @ kc_next (fa cf) # vs)"
proof -
  have ex0: "\<exists>k\<in>{0..<10}. G k \<noteq> []" using room by (metis atLeastLessThan_iff order_trans zero_le_numeral)
  obtain cf s1 G1 where s1: "get_free_pages 0 s = Some (fa cf, s1)" "buddy_rep base N G1 s1" "sorted_lists G1"
    and cf: "frames (0, cf) \<subseteq> free_frames G" and ff: "free_frames G1 = free_frames G - frames (0, cf)"
    and bf: "buddy_frame base N s s1"
    and left: "\<forall>j\<in>{0<..<10}. G j \<noteq> [] \<longrightarrow> G1 j \<noteq> [] \<or> G1 (j - 1) \<noteq> []"
    using get_free_pages_rep [OF b(1,2) order.refl ex0] unfolding fa_def [symmetric] by blast
  have cfR: "cf \<in> free_frames G" using cf by auto
  have cfN: "0 < cf" "cf < N" using b(3,4) cfR unfolding ram_ok_def by auto
  have N: "N < 2 ^ 20" using pages_okD(3) [OF buddy_repD(1) [OF b(1)]] .
  let ?c = "fa cf"
  have cn: "?c \<noteq> NULL" using fa_nonnull [OF cfN N] .
  define s2 where "s2 = s1\<lparr>mem := snd (strncpy (?c + 28) name 16 (mem s1)), kc_obj_size := (kc_obj_size s1)(?c := sz),
     kc_nr_frees := (kc_nr_frees s1)(?c := 0), kc_obj_num := (kc_obj_num s1)(?c := 0),
     kc_flags := (kc_flags s1)(?c := flags), kc_nr_pages := (kc_nr_pages s1)(?c := 0)\<rparr>"
  define s3 where "s3 = kmem_list_init ?c s2"
  have bl1: "buddy_list s1 = buddy_list s" using bf unfolding buddy_frame_def by simp
  have cc1: "cache_chain s1 = cache_chain s" using bf slab_fields_cong(10) unfolding buddy_frame_def by blast
  have "buddy_rep base N G1 s2"
    by (rule buddy_rep_cong [OF _ _ _ _ s1(2)]) (simp_all add: s2_def)
  moreover have "ram_ok base N R s2"
    using b(3) bnodes_cong [of s2 s base N] bl1 unfolding ram_ok_def by (simp add: s2_def)
  moreover have "free_frames G1 \<subseteq> R" "cf \<notin> free_frames G1" "cf \<in> R" using ff b(4) cfR by auto
  ultimately have rep3: "cache_rep base N R G1 cf (\<lambda>_. []) (\<lambda>_. []) s3"
    unfolding s3_def using s1(3) sz by (intro cache_rep_new) (simp_all add: s2_def)
  note f3 = kmem_list_init_fields [of cf s2, folded s3_def]
  note g3 = slab_fields_cong [OF f3(3)]
  have ex1: "\<exists>k\<in>{4..<10}. G1 k \<noteq> []"
  proof -
    obtain k where k: "k \<in> {5..<10}" "G k \<noteq> []" using room by blast
    then have "G1 k \<noteq> [] \<or> G1 (k - 1) \<noteq> []" using left by simp
    then show ?thesis using k(1) by (auto intro: bexI [of _ k] bexI [of _ "k - 1"])
  qed
  have sz3: "kc_obj_size s3 ?c = sz" by (simp add: g3 s2_def)
  obtain s4 G' fr where s4: "cache_grow ?c s3 = Some (0, s4)"
      "cache_rep base N R G' cf ((\<lambda>_. [])(2 := [fr])) ((\<lambda>_. [])(fr := [0..<obj_count (unat sz)])) s4"
      "kc_obj_size s4 = kc_obj_size s3" "kc_nr_pages s4 = (kc_nr_pages s3)(?c := kc_nr_pages s3 ?c + 16)"
      "frames (4, fr) \<subseteq> free_frames G1" "cache_chain s4 = cache_chain s3" "buddy_list s4 = buddy_list s3"
      "\<forall>a. a \<notin> bnodes base N s3 \<longrightarrow> a \<notin> cnodes cf (\<lambda>_. []) \<longrightarrow> a \<noteq> fa fr \<longrightarrow>
         l_next s4 a = l_next s3 a \<and> l_prev s4 a = l_prev s3 a"
    using cache_grow_rep [OF rep3 ex1] unfolding sz3 by blast
  have frR: "fr \<in> free_frames G1" using s4(5) by auto
  have frG: "fr \<in> free_frames G" "fr \<noteq> cf" using frR ff cfR by auto
  have frN: "fr < N" using b(3,4) frG(1) unfolding ram_ok_def by auto
  have bn3: "bnodes base N s3 = bnodes base N s" using bnodes_cong bl1 f3(5) by (simp add: s2_def bnodes_def bl_head_def)
  have bn4: "bnodes base N s4 = bnodes base N s" using bnodes_cong [OF s4(7)] bn3 by simp
  have cc: "cache_chain s4 = cache_chain s" using s4(6) g3(10) cc1 by (simp add: s2_def)
  have fd: "unat (fa fr) div 4096 = fr" using unat_frame_addr [OF frN N, of 0] by simp
  have hd: "a \<in> kc_head ?c ` {0, 1, 2} \<Longrightarrow> unat a div 4096 = cf" for a
    using kc_head_frame(1) [OF cfN(2) N] by blast
  have same: "l_next s4 a = l_next s a \<and> l_prev s4 a = l_prev s a" if a: "a \<in> set (cache_chain s # cs)" for a
  proof -
    have na: "a \<notin> bnodes base N s" "unat a div 4096 \<notin> free_frames G" using nodes [OF a] by simp_all
    have h: "a \<notin> kc_head ?c ` {0, 1, 2}" using hd na(2) cfR by metis
    moreover have "a \<noteq> fa fr" using na(2) fd frG(1) by metis
    moreover have "a \<notin> bnodes base N s3" using na(1) bn3 by simp
    ultimately have "l_next s4 a = l_next s3 a \<and> l_prev s4 a = l_prev s3 a"
      using s4(8) by (simp add: cnodes_def slabs_def)
    moreover have "l_next s3 a = l_next s1 a \<and> l_prev s3 a = l_prev s1 a" using h f3(1,2) by (simp add: s2_def)
    moreover have "l_next s1 a = l_next s a \<and> l_prev s1 a = l_prev s a" using na bf unfolding buddy_frame_def by simp
    ultimately show ?thesis by simp
  qed
  have r4: "ring s4 (cache_chain s4) cs" unfolding cc using r ring_cong [of "cache_chain s" cs s4 s] same by blast
  have xf: "unat (kc_next ?c) = 4096 * cf + 44" using unat_kc_next [OF cfN(2) N] .
  then have xd: "unat (kc_next ?c) div 4096 = cf" by (simp only: div_4096)
  have x: "kc_next ?c \<notin> set (cache_chain s4 # cs)" using nodes xd cfR unfolding cc by metis
  have xn: "kc_next ?c \<noteq> NULL" using xf by auto
  obtain ret us vs t where t: "cs = us @ vs" "kmem_chain_add ?c s4 = Some (ret, t)"
      "ring t (cache_chain s4) (us @ kc_next ?c # vs)"
      "t = raw_list_add (kc_next ?c) (last (cache_chain s4 # us)) (hd (vs @ [cache_chain s4])) s4"
    using kmem_chain_add_ring [OF r4 x xn cn] by blast
  let ?K = "(\<lambda>_. [])(2 := [fr])" and ?fs = "(\<lambda>_. [])(fr := [0..<obj_count (unat sz)])"
  have tf: "mm_heap.more t = mm_heap.more s4" "pg_address t = pg_address s4" "buddy_list t = buddy_list s4" "bl_nr t = bl_nr s4"
    by (simp_all add: t(4))
  have rep: "cache_rep base N R G' cf ?K ?fs t"
  proof (rule cache_rep_outside [OF s4(2) _ tf(2-4,1)])
    fix a assume a: "a \<in> bnodes base N s4 \<union> cnodes cf ?K"
    have c1: "a \<notin> set (cache_chain s # cs)"
    proof
      assume "a \<in> set (cache_chain s # cs)"
      then have na: "a \<notin> bnodes base N s" "unat a div 4096 \<notin> free_frames G" using nodes by simp_all
      then have "a \<in> kc_head ?c ` {0, 1, 2} \<union> {fa fr}" using a bn4 by (auto simp: cnodes_def slabs_def)
      then show False using na(2) hd fd cfR frG(1) by (metis UnE singletonD)
    qed
    have c2: "a \<noteq> kc_next ?c"
    proof
      assume e: "a = kc_next ?c"
      have "kc_next ?c \<notin> bnodes base N s" using b(3,4) xd cfR unfolding ram_ok_def by (metis subsetD)
      moreover have "kc_next ?c \<notin> kc_head ?c ` {0, 1, 2}" using kc_head_frame(2) [OF cfN(2) N] by (metis imageE)
      moreover have "kc_next ?c \<noteq> fa fr" using xd fd frG(2) by metis
      ultimately show False using a e bn4 by (auto simp: cnodes_def slabs_def)
    qed
    have "last (cache_chain s4 # us) \<in> set (cache_chain s # cs)" "hd (vs @ [cache_chain s4]) \<in> set (cache_chain s # cs)"
      using last_in_insert [of "cache_chain s" us] hd_snoc_in [of vs "cache_chain s"] unfolding t(1) cc by auto
    then show "l_next t a = l_next s4 a \<and> l_prev t a = l_prev s4 a"
      using c1 c2 unfolding t(4) by (auto simp: raw_list_add_fields simp del: last.simps)
  qed
  have sz0: "sz \<noteq> 0" using sz by (auto simp: fits_def)
  have "uint (drop_bit 12 (76 :: u32)) = 0" by simp
  then have run: "kmem_cache_create name sz flags s = Some (?c, t)"
    using s1(1) cn name sz0 s4(1) t(2) by (simp add: kmem_cache_create_def kmem_cache_alloc_def s3_def s2_def Let_def)
  have al: "allocated (obj_count (unat sz)) ?K ?fs = {}" by (auto simp: allocated_def slabs_def)
  have "kc_obj_size t = kc_obj_size s4" "kc_nr_pages t = kc_nr_pages s4" "cache_chain t = cache_chain s4"
    using slab_fields_cong [OF tf(1)] by simp_all
  then have "kc_obj_size t ?c = sz" "kc_nr_pages t ?c = 16" "cache_chain t = cache_chain s"
    using s4(3,4) sz3 cc g3(7) by (simp_all add: s2_def)
  moreover have "ring t (cache_chain t) (us @ kc_next ?c # vs)" using t(3) tf slab_fields_cong(10) by metis
  ultimately show ?thesis
    using run rep cfR al t(1)
    by (intro exI [of _ t] exI [of _ G'] exI [of _ cf] exI [of _ ?K] exI [of _ ?fs] exI [of _ us] exI [of _ vs]) simp
qed

end
