(* ===== verification/Slab_props.thy ===== *)
theory Slab_props
  imports Slab_inv
begin

section \<open>Properties of the slab allocator\<close>

text \<open>
  What the clients of \<^verbatim>\<open>mm/slab.c\<close> rely on, over the invariant of \<open>Slab_inv\<close>, and a concrete
  machine of 64 page frames on which the properties apply.
\<close>

definition obj_bytes :: "nat \<Rightarrow> nat \<Rightarrow> nat \<times> nat \<Rightarrow> nat set" where
  "obj_bytes n sz x = {unat (obj_addr n sz x)..<unat (obj_addr n sz x) + sz}"

text \<open>64 frames, page structures at 0x2000, list heads at 0x1000, the cache chain at 0x500.\<close>

definition example_slab :: slab_heap where
  "example_slab = \<lparr>l_next = (\<lambda>_. 0x500), l_prev = (\<lambda>_. 0x500),
     pg_address = (\<lambda>a. PAGE_SIZE * ((a - 0x2000) div 56)), pg_flags = (\<lambda>_. SYS_RAM),
     buddy_list = 0x1000, bl_nr = (\<lambda>_. 0), mem = (\<lambda>_. 0), sl_s_mem = (\<lambda>_. 0), sl_free = (\<lambda>_. 0),
     sl_inuse = (\<lambda>_. 0), bufctl = (\<lambda>_. 0), kc_flags = (\<lambda>_. 0), kc_nr_frees = (\<lambda>_. 0), kc_nr_pages = (\<lambda>_. 0),
     kc_obj_size = (\<lambda>_. 0), kc_obj_num = (\<lambda>_. 0), cache_chain = 0x500, tsk_cachep = 0, thread_union_cachep = 0,
     vma_cachep = 0, inode_cachep = 0, file_cachep = 0\<rparr>"

lemma obj_bytes_in_slab:
  assumes rep: "cache_rep base N R G cf K fs s"
  defines "n \<equiv> obj_count (unat (kc_obj_size s (fa cf)))" and "sz \<equiv> unat (kc_obj_size s (fa cf))"
  assumes x: "(fr, i) \<in> allocated n K fs"
  shows "obj_bytes n sz (fr, i) \<subseteq> {4096 * fr + 24 + 4 * n..<4096 * (fr + 16)}"
    "unat (obj_addr n sz (fr, i)) = 4096 * fr + 24 + 4 * n + sz * i"
proof -
  have fit: "fits n sz" using cache_repD(11) [OF rep] unfolding n_def sz_def .
  have fr: "fr \<in> slabs K" "i < n" using x by (auto simp: allocated_def)
  have N: "N < 2 ^ 20" using pages_okD(3) [OF buddy_repD(1) [OF cache_repD(1) [OF rep]]] .
  note b = obj_addr_bounds [OF fit fr(2) slab_range [OF rep fr(1)] N]
  show "unat (obj_addr n sz (fr, i)) = 4096 * fr + 24 + 4 * n + sz * i" by (rule b)
  then show "obj_bytes n sz (fr, i) \<subseteq> {4096 * fr + 24 + 4 * n..<4096 * (fr + 16)}"
    using b(2) by (auto simp: obj_bytes_def)
qed


lemma buddy_list_init_loop_frame:
  "mm_heap.more (buddy_list_init_loop is s) = mm_heap.more s"
  "buddy_list (buddy_list_init_loop is s) = buddy_list s"
  "a \<notin> bl_head s ` set is \<Longrightarrow> l_next (buddy_list_init_loop is s) a = l_next s a \<and> l_prev (buddy_list_init_loop is s) a = l_prev s a"
proof (induction "is" arbitrary: s)
  case (Cons i "is")
  have "bl_head (set_nr i 0 (INIT_LIST_HEAD (bl_head s i) s)) = bl_head s" by (simp add: bl_head_def fun_eq_iff)
  {
    case 1 then show ?case using Cons.IH(1) by simp
  next
    case 2 then show ?case using Cons.IH(2) by simp
  next
    case 3
    then show ?case using Cons.IH(3) [of "set_nr i 0 (INIT_LIST_HEAD (bl_head s i) s)"]
      by (simp add: INIT_LIST_HEAD_fields bl_head_def Let_def)
  }
qed simp_all

lemma example_slab_pg:
  assumes "m < 64"
  shows "unat (pg 0x2000 m) = 0x2000 + 56 * m" "pg_address example_slab (pg 0x2000 m) = PAGE_SIZE * of_nat m"
proof -
  have p: "pg 0x2000 m = 0x2000 + of_nat (56 * m)" by (simp add: pg_def)
  show "unat (pg 0x2000 m) = 0x2000 + 56 * m"
    unfolding p using assms by (subst unat_offset) simp_all
  have "of_nat (56 * m) div (56 :: addr) = of_nat m"
    using assms by (intro word_unat_eq_iff [THEN iffD2]) (simp add: unat_div unat_of_nat take_bit_nat_eq_self del: of_nat_mult)
  then show "pg_address example_slab (pg 0x2000 m) = PAGE_SIZE * of_nat m"
    unfolding p by (simp add: example_slab_def)
qed

lemma example_slab_head:
  assumes "i \<in> {0..<10}"
  shows "unat (bl_head example_slab i) \<in> {0x1000..<0x1078}"
proof -
  have h: "heads_ok example_slab" by (simp add: heads_ok_def example_slab_def)
  show ?thesis using unat_bl_head [OF h assms] assms by (simp add: example_slab_def nat_less_iff)
qed

lemma example_slab_nodes:
  assumes "buddy_list s = 0x1000" "a \<in> bnodes 0x2000 64 s"
  shows "unat a \<in> {0x1000..<0x3000}"
proof -
  have "bnodes 0x2000 64 s = bnodes 0x2000 64 example_slab"
    using assms(1) by (simp add: bnodes_def bl_head_def example_slab_def)
  then have "a \<in> bl_head example_slab ` {0..<10} \<union> pg 0x2000 ` {..<64}" using assms(2) unfolding bnodes_def by (simp only:)
  then consider i where "i \<in> {0..<10}" "a = bl_head example_slab i" | m where "m < 64" "a = pg 0x2000 m"
    by blast
  then show ?thesis
  proof cases
    case 1
    then show ?thesis using example_slab_head [OF 1(1)] by simp
  next
    case 2
    then show ?thesis using example_slab_pg(1) [OF 2(1)] by simp
  qed
qed

lemma example_slab_pages_ok: "pages_ok 0x2000 64 example_slab"
proof -
  have "bl_head example_slab i \<noteq> pg 0x2000 m" if "i \<in> {0..<10}" "m < 64" for i m
    using example_slab_head [OF that(1)] example_slab_pg(1) [OF that(2)] by auto
  then show ?thesis using example_slab_pg(2) by (simp add: pages_ok_def)
qed

lemma example_slab_rep:
  "\<exists>s :: slab_heap. buddy_rep 0x2000 64 ((\<lambda>_. [])(5 := [32])) s \<and> ram_ok 0x2000 64 {3..<64} s \<and>
     ring s (cache_chain s) [] \<and> cache_chain s = 0x500 \<and> 0x500 \<notin> bnodes 0x2000 64 s"
proof -
  let ?s = "buddy_list_init example_slab" and ?G = "\<lambda>_ :: int. [] :: nat list"
  have "heads_ok example_slab" by (simp add: heads_ok_def example_slab_def)
  note r0 = buddy_list_init_rep [OF example_slab_pages_ok this]
  have "frames (5, 32) \<subseteq> {..<64}" "frames (5, 32) \<inter> free_frames ?G = {}"
    by (auto simp: free_frames_def blocks_def)
  then obtain s where s: "buddy_rep 0x2000 64 (?G(5 := [32])) s" "buddy_frame 0x2000 64 ?s s"
    using buddy_list_add_line_rep [OF r0, of 5 32] by (auto simp: insert_line_def)
  note fr = buddy_list_init_loop_frame [where ?is = "[0..NR_MEM_LISTS - 1]" and s = example_slab, folded buddy_list_init_def]
  have bl: "buddy_list s = 0x1000" "buddy_list ?s = 0x1000"
    using s(2) fr(2) by (simp_all add: buddy_frame_def example_slab_def)
  have nb: "0x500 \<notin> bnodes 0x2000 64 s" "0x500 \<notin> bnodes 0x2000 64 ?s"
    using example_slab_nodes [OF bl(1), of "0x500"] example_slab_nodes [OF bl(2), of "0x500"] by auto
  have "cache_chain s = cache_chain ?s" using s(2) slab_fields_cong(10) unfolding buddy_frame_def by blast
  also have "\<dots> = 0x500" using slab_fields_cong(10) [OF fr(1)] by (simp add: example_slab_def)
  finally have cc: "cache_chain s = 0x500" .
  have "0x500 \<notin> bl_head example_slab ` set [0..NR_MEM_LISTS - 1]" 
  proof
    assume "0x500 \<in> bl_head example_slab ` set [0..NR_MEM_LISTS - 1]"
    then obtain i where i: "0x500 = bl_head example_slab i" "i \<in> set [0..NR_MEM_LISTS - 1]" by blast
    from i(2) have "i \<in> {0..<10}" by auto
    then show False using example_slab_head [of i] by (simp flip: i(1))
  qed
  then have "l_next ?s 0x500 = 0x500 \<and> l_prev ?s 0x500 = 0x500" using fr(3) by (simp add: example_slab_def)
  then have "l_next s 0x500 = 0x500 \<and> l_prev s 0x500 = 0x500" using s(2) nb unfolding buddy_frame_def by simp
  then have "ring s (cache_chain s) []" by (simp add: cc ring_Nil_iff)
  moreover have "ram_ok 0x2000 64 {3..<64} s"
  proof -
    have "unat a div 4096 \<notin> {3..<64}" if "a \<in> bnodes 0x2000 64 s" for a
      using example_slab_nodes [OF bl(1) that] by auto
    then show ?thesis by (auto simp: ram_ok_def)
  qed
  ultimately show ?thesis using s(1) cc nb by blast
qed

lemma round_16k: "4 * ((4096 * m + d) div 16384) = m \<longleftrightarrow> 4 dvd m \<and> d < (16384 :: nat)"
proof (cases "4 dvd m")
  case True
  then obtain k where k: "m = 4 * k" by blast
  have "(4096 * m + d) div 16384 = (16384 * k + d) div 16384" using k by simp
  also have "\<dots> = k + d div 16384" by simp
  finally show ?thesis using k by (auto simp: div_eq_0_iff)
qed (metis dvd_triv_left)

lemma example_slab_G:
  defines "G \<equiv> (\<lambda>_ :: int. [] :: nat list)(5 := [32])"
  shows "sorted_lists G" "free_frames G = {32..<64}" "\<exists>k\<in>{5..<10}. G k \<noteq> []"
  by (auto simp: G_def sorted_lists_def free_frames_def blocks_def split: if_splits)

lemma example_cache:
  "\<exists>(s :: slab_heap) G cf K fs. cache_rep 0x2000 64 {3..<64} G cf K fs s \<and> kc_obj_size s (fa cf) = 8192 \<and> K 2 \<noteq> []"
proof -
  let ?G = "(\<lambda>_ :: int. [] :: nat list)(5 := [32])"
  obtain s :: slab_heap where s: "buddy_rep 0x2000 64 ?G s" "ram_ok 0x2000 64 {3..<64} s"
     "ring s (cache_chain s) []" "cache_chain s = 0x500" "0x500 \<notin> bnodes 0x2000 64 s"
    using example_slab_rep by blast
  note G = example_slab_G
  have c: "fits (obj_count (unat (8192 :: u32))) (unat (8192 :: u32))" by (simp add: fits_def obj_count_def)
  have R: "free_frames ?G \<subseteq> {3..<64}" unfolding G(2) by auto
  have nodes: "a \<notin> bnodes 0x2000 64 s \<and> unat a div 4096 \<notin> free_frames ?G" if "a \<in> set (cache_chain s # [])" for a
    using that s(4,5) unfolding G(2) by auto
  obtain s' :: slab_heap and G' cf K fs where "cache_rep 0x2000 64 {3..<64} G' cf K fs s'" "kc_obj_size s' (fa cf) = 8192" "K 2 \<noteq> []"
    using kmem_cache_create_rep [OF s(1) G(1) s(2) R G(3) c _ s(3) nodes, of "0x600" 0] by auto
  then show ?thesis by blast
qed

lemma example_cache_obj:
  "\<exists>(s :: slab_heap) G cf K fs fr i. cache_rep 0x2000 64 {3..<64} G cf K fs s \<and> kc_obj_size s (fa cf) = 8192 \<and>
     (fr, i) \<in> allocated 7 K fs"
proof -
  obtain s :: slab_heap and G cf K fs where s: "cache_rep 0x2000 64 {3..<64} G cf K fs s" "K 2 \<noteq> []"
      "kc_obj_size s (fa cf) = 8192"
    using example_cache by blast
  have "K 0 \<noteq> [] \<or> K 2 \<noteq> [] \<or> kc_nr_pages s (fa cf) < 256 \<and> (\<exists>k\<in>{4..<10}. G k \<noteq> [])" using s(2) by blast
  from kmem_get_obj_rep [OF s(1) this] s(3) obtain s' :: slab_heap and G' K' fs' x
    where "cache_rep 0x2000 64 {3..<64} G' cf K' fs' s'" "allocated 7 K' fs' = insert x (allocated 7 K fs)"
      "kc_obj_size s' = kc_obj_size s"
    by (auto simp: obj_count_def)
  then show ?thesis using s(3) by (metis insertI1 surj_pair)
qed

subsection \<open>Properties\<close>

text \<open>
  C19: \<^verbatim>\<open>kmem_cache_create\<close> without a name changes nothing and returns NULL. With a name, for an
  object size for which the objects of a slab and their control entries fit in its 16 pages, and
  on a page allocator that has a free block of order 5 or more, it returns a cache in frames
  that were free; the cache satisfies the invariant of the slab allocator with one empty
  slab and no object handed out, and the chain of caches gets it as one more element. The
  condition on the size excludes every size up to 511, and so the caches of areas, inodes and
  files that the kernel creates: there the objects run over the end of the slab.
\<close>

theorem kmem_cache_create_correct:
  assumes "buddy_rep base N G s" "sorted_lists G" "ram_ok base N R s" "free_frames G \<subseteq> R"
    and "\<exists>k\<in>{5..<10}. G k \<noteq> []" and "fits (obj_count (unat sz)) (unat sz)"
    and "ring s (cache_chain s) cs"
    and "\<And>a. a \<in> set (cache_chain s # cs) \<Longrightarrow> a \<notin> bnodes base N s \<and> unat a div 4096 \<notin> free_frames G"
  shows "if name = NULL then kmem_cache_create name sz flags s = Some (NULL, s)
    else \<exists>s' G' cf K fs us vs. kmem_cache_create name sz flags s = Some (fa cf, s') \<and>
      cache_rep base N R G' cf K fs s' \<and> kc_obj_size s' (fa cf) = sz \<and> kc_nr_pages s' (fa cf) = 16 \<and>
      cf \<in> free_frames G \<and> K 2 \<noteq> [] \<and> allocated (obj_count (unat sz)) K fs = {} \<and>
      cs = us @ vs \<and> cache_chain s' = cache_chain s \<and> ring s' (cache_chain s') (us @ kc_next (fa cf) # vs)"
proof (cases "name = NULL")
  case True
  then show ?thesis by (simp add: kmem_cache_create_def)
next
  case False
  then show ?thesis using kmem_cache_create_rep [OF assms(1-6) False assms(7,8)] by simp
qed

theorem kmem_cache_create_correct_witness:
  "\<exists>(s :: slab_heap) s' G' cf K fs. buddy_rep 0x2000 64 ((\<lambda>_. [])(5 := [32])) s \<and>
    kmem_cache_create 0x600 8192 0 s = Some (fa cf, s') \<and>
    cache_rep 0x2000 64 {3..<64} G' cf K fs s' \<and> kc_obj_size s' (fa cf) = 8192 \<and> K 2 \<noteq> []"
proof -
  let ?G = "(\<lambda>_ :: int. [] :: nat list)(5 := [32])"
  obtain s :: slab_heap where s: "buddy_rep 0x2000 64 ?G s" "ram_ok 0x2000 64 {3..<64} s"
     "ring s (cache_chain s) []" "cache_chain s = 0x500" "0x500 \<notin> bnodes 0x2000 64 s"
    using example_slab_rep by blast
  have G: "sorted_lists ?G" "free_frames ?G = {32..<64}" "\<exists>k\<in>{5..<10}. ?G k \<noteq> []"
    using example_slab_G by blast+
  have c: "fits (obj_count (unat (8192 :: u32))) (unat (8192 :: u32))" by (simp add: fits_def obj_count_def)
  show ?thesis
    using kmem_cache_create_correct [OF s(1) G(1) s(2) _ G(3) c s(3), of "0x600" 0] s(4,5) s(1) G(2) by fastforce
qed



text \<open>
  C21: \<^verbatim>\<open>slab_free_obj\<close> on an object that is handed out returns 0, keeps the invariant and
  gives back exactly that object.
\<close>

theorem slab_free_obj_correct:
  assumes "cache_rep base N R G cf K fs s" and "sz = unat (kc_obj_size s (fa cf))" and "n = obj_count sz"
    and "(fr, i) \<in> allocated n K fs"
  shows "\<exists>s' K' fs'. slab_free_obj (fa cf) (fa fr) (obj_addr n sz (fr, i)) s = Some (0, s') \<and>
    cache_rep base N R G cf K' fs' s' \<and> allocated n K' fs' = allocated n K fs - {(fr, i)}"
  using slab_free_obj_rep [OF assms(1)] allocated_free [of fr i n K fs] assms(2-4) by metis

theorem slab_free_obj_correct_witness:
  "\<exists>(s :: slab_heap) s' cf fr i. slab_free_obj (fa cf) (fa fr) (obj_addr 7 8192 (fr, i)) s = Some (0, s')"
proof -
  obtain s :: slab_heap and G cf K fs fr i where s: "cache_rep 0x2000 64 {3..<64} G cf K fs s" "(fr, i) \<in> allocated 7 K fs"
      "kc_obj_size s (fa cf) = 8192"
    using example_cache_obj by blast
  from slab_free_obj_correct [OF s(1), of 8192 7 fr i] s show ?thesis by (auto simp: obj_count_def)
qed

text \<open>
  C22: \<^verbatim>\<open>kmem_free_obj\<close> looks for the slab of an object at a 16 KB boundary, although a slab has
  64 KB: it frees the object in its own slab exactly when the slab starts at such a
  boundary and the object in the first 16 KB of it, and otherwise changes the descriptor
  fields at the address of another frame.
\<close>

theorem kmem_free_obj_slab:
  assumes "cache_rep base N R G cf K fs s" and "sz = unat (kc_obj_size s (fa cf))" and "n = obj_count sz"
    and "(fr, i) \<in> allocated n K fs"
  shows "\<exists>fr'. kmem_free_obj (fa cf) (obj_addr n sz (fr, i)) s = slab_free_obj (fa cf) (fa fr') (obj_addr n sz (fr, i)) s \<and>
    fr' < N \<and> (fr' = fr \<longleftrightarrow> 4 dvd fr \<and> 24 + 4 * n + sz * i < 16384)"
proof -
  let ?a = "obj_addr n sz (fr, i)" and ?d = "24 + 4 * n + sz * i"
  have u: "unat ?a = 4096 * fr + ?d" using obj_bytes_in_slab(2) [OF assms(1)] assms(2-4) by simp
  have frs: "fr \<in> slabs K" "i < n" using assms(4) by (auto simp: allocated_def)
  note R = cache_rep_R [OF assms(1)]
  have d: "?d < 65536"
    using obj_bytes_in_slab(1) [OF assms(1), of fr i] u assms(1-4) cache_repD(11) [OF assms(1)]
    by (auto simp: obj_bytes_def fits_def)
  let ?f = "4 * (unat ?a div 16384)"
  have "fr + 16 \<le> N" using slab_range [OF assms(1) frs(1)] .
  then have f: "?f < N" using u d by linarith
  have N: "N < 2 ^ 20" using pages_okD(3) [OF buddy_repD(1) [OF cache_repD(1) [OF assms(1)]]] .
  have "unat (?a AND VALUE_MASK (word_of_int DEFAULT_SLAB_PAGES * PAGE_SIZE)) = unat (fa ?f)"
    using unat_mask_16k [of ?a] unat_frame_addr [OF f N, of 0] by simp
  then have m: "?a AND VALUE_MASK (word_of_int DEFAULT_SLAB_PAGES * PAGE_SIZE) = fa ?f" by (rule unsigned_word_eqI)
  have "fa cf \<noteq> NULL" using fa_nonnull R cache_repD(6) [OF assms(1)] by blast
  moreover have "?a \<noteq> NULL" using u by auto
  ultimately have "kmem_free_obj (fa cf) ?a s = slab_free_obj (fa cf) (fa ?f) ?a s"
    unfolding kmem_free_obj_def m by simp
  moreover have "?f = fr \<longleftrightarrow> 4 dvd fr \<and> ?d < 16384" unfolding u by (rule round_16k)
  ultimately show ?thesis using f by blast
qed

theorem kmem_free_obj_slab_witness:
  "\<exists>(s :: slab_heap) cf fr fr' i. kmem_free_obj (fa cf) (obj_addr 7 8192 (fr, i)) s =
      slab_free_obj (fa cf) (fa fr') (obj_addr 7 8192 (fr, i)) s \<and> (fr' = fr \<longleftrightarrow> 4 dvd fr \<and> 52 + 8192 * i < 16384)"
proof -
  obtain s :: slab_heap and G cf K fs fr i where s: "cache_rep 0x2000 64 {3..<64} G cf K fs s" "(fr, i) \<in> allocated 7 K fs"
      "kc_obj_size s (fa cf) = 8192"
    using example_cache_obj by blast
  from kmem_free_obj_slab [OF s(1), of 8192 7 fr i] s(2,3)
  obtain fr' where "kmem_free_obj (fa cf) (obj_addr 7 8192 (fr, i)) s =
      slab_free_obj (fa cf) (fa fr') (obj_addr 7 8192 (fr, i)) s" "fr' = fr \<longleftrightarrow> 4 dvd fr \<and> 52 + 8192 * i < 16384"
    by (auto simp: obj_count_def)
  then show ?thesis by blast
qed

text \<open>
  C23: the number of objects \<^verbatim>\<open>slab_estimate\<close> plans for a slab leaves no room for the \<^verbatim>\<open>bufctl\<close>
  array that \<^verbatim>\<open>slab_init\<close> puts in front of them: for every object size up to 511 bytes the
  last object of a slab ends outside its 64 KB.
\<close>

theorem slab_estimate_overflow:
  assumes "0 < sz" and "sz \<le> (511 :: u32)"
  shows "24 + 4 * unat (slab_estimate sz) + unat (slab_estimate sz) * unat sz > 65536"
proof -
  have sz: "0 < unat sz" "unat sz \<le> 511" using assms by (simp_all add: word_less_nat_alt word_le_nat_alt)
  obtain n r where nr: "n = 65516 div unat sz" "r = 65516 mod unat sz" by blast
  have n: "unat (slab_estimate sz) = n" by (simp add: slab_estimate_def kpower_eq unat_div nr(1))
  have "65516 div 511 \<le> n" unfolding nr by (rule div_le_mono2 [OF sz])
  then have "128 \<le> n" by simp
  moreover have "n * unat sz + r = 65516" unfolding nr by (rule div_mult_mod_eq)
  moreover have "r < unat sz" unfolding nr using sz(1) by simp
  ultimately show ?thesis unfolding n using sz(2) by linarith
qed

theorem slab_estimate_overflow_witness: "24 + 4 * unat (slab_estimate 32) + unat (slab_estimate 32) * unat (32 :: u32) > 65536"
  using slab_estimate_overflow [of 32] by simp
end
