(* ===== verification/Rbtree.thy ===== *)
theory Rbtree
  imports Klist
begin

section \<open>Red-black trees\<close>

text \<open>
  The model of \<^verbatim>\<open>lib/rbtree.c\<close> and \<^verbatim>\<open>include/linux/rbtree.h\<close>: nodes in a heap with the parent
  pointer and the colour packed into one word, as in the code. \<open>rb_root\<close> is the pointer a
  \<^verbatim>\<open>struct rb_root\<close> holds. Loops follow pointers and need not end on a heap that is not a tree,
  so they are partial functions and \<open>None\<close> is a loop that does not end.
\<close>

subsection \<open>State\<close>

record rb_heap = list_heap +
  rb_parent_color :: "addr \<Rightarrow> u32"
  rb_right :: "addr \<Rightarrow> addr"
  rb_left :: "addr \<Rightarrow> addr"
  rb_root :: "addr \<Rightarrow> addr"

definition rb_parent :: "addr \<Rightarrow> 'a rb_heap_scheme \<Rightarrow> addr" where
  "rb_parent r s = rb_parent_color s r AND NOT 3"

definition rb_color :: "addr \<Rightarrow> 'a rb_heap_scheme \<Rightarrow> u32" where
  "rb_color r s = rb_parent_color s r AND 1"

definition rb_is_red :: "addr \<Rightarrow> 'a rb_heap_scheme \<Rightarrow> bool" where
  "rb_is_red r s \<longleftrightarrow> rb_color r s = 0"

definition rb_is_black :: "addr \<Rightarrow> 'a rb_heap_scheme \<Rightarrow> bool" where
  "rb_is_black r s \<longleftrightarrow> rb_color r s \<noteq> 0"

definition set_parent_color :: "addr \<Rightarrow> u32 \<Rightarrow> 'a rb_heap_scheme \<Rightarrow> 'a rb_heap_scheme" where
  "set_parent_color r v s = s\<lparr>rb_parent_color := (rb_parent_color s)(r := v)\<rparr>"

definition set_left :: "addr \<Rightarrow> addr \<Rightarrow> 'a rb_heap_scheme \<Rightarrow> 'a rb_heap_scheme" where
  "set_left r v s = s\<lparr>rb_left := (rb_left s)(r := v)\<rparr>"

definition set_right :: "addr \<Rightarrow> addr \<Rightarrow> 'a rb_heap_scheme \<Rightarrow> 'a rb_heap_scheme" where
  "set_right r v s = s\<lparr>rb_right := (rb_right s)(r := v)\<rparr>"

definition set_root :: "addr \<Rightarrow> addr \<Rightarrow> 'a rb_heap_scheme \<Rightarrow> 'a rb_heap_scheme" where
  "set_root root v s = s\<lparr>rb_root := (rb_root s)(root := v)\<rparr>"

definition rb_set_red :: "addr \<Rightarrow> 'a rb_heap_scheme \<Rightarrow> 'a rb_heap_scheme" where
  "rb_set_red r s = set_parent_color r (rb_parent_color s r AND NOT 1) s"

definition rb_set_black :: "addr \<Rightarrow> 'a rb_heap_scheme \<Rightarrow> 'a rb_heap_scheme" where
  "rb_set_black r s = set_parent_color r (rb_parent_color s r OR 1) s"

definition rb_set_parent :: "addr \<Rightarrow> addr \<Rightarrow> 'a rb_heap_scheme \<Rightarrow> 'a rb_heap_scheme" where
  "rb_set_parent rb p s = set_parent_color rb ((rb_parent_color s rb AND 3) OR p) s"

definition rb_set_color :: "addr \<Rightarrow> u32 \<Rightarrow> 'a rb_heap_scheme \<Rightarrow> 'a rb_heap_scheme" where
  "rb_set_color rb color s = set_parent_color rb ((rb_parent_color s rb AND NOT 1) OR color) s"

text \<open>The pointer cell a \<^verbatim>\<open>struct rb_node **\<close> points to: a root, or a child field of a node.\<close>

datatype rb_link = Root addr | Left addr | Right addr

fun read_link :: "rb_link \<Rightarrow> 'a rb_heap_scheme \<Rightarrow> addr" where
  "read_link (Root r) s = rb_root s r"
| "read_link (Left n) s = rb_left s n"
| "read_link (Right n) s = rb_right s n"

fun write_link :: "rb_link \<Rightarrow> addr \<Rightarrow> 'a rb_heap_scheme \<Rightarrow> 'a rb_heap_scheme" where
  "write_link (Root r) v s = set_root r v s"
| "write_link (Left n) v s = set_left n v s"
| "write_link (Right n) v s = set_right n v s"

definition rb_link_node :: "addr \<Rightarrow> addr \<Rightarrow> rb_link \<Rightarrow> 'a rb_heap_scheme \<Rightarrow> 'a rb_heap_scheme" where
  "rb_link_node node parent rb_link s =
     (let s = set_parent_color node parent s;
          s = set_left node NULL (set_right node NULL s)
      in write_link rb_link node s)"

subsection \<open>Rotations\<close>

definition rb_rotate_left :: "addr \<Rightarrow> addr \<Rightarrow> 'a rb_heap_scheme \<Rightarrow> 'a rb_heap_scheme" where
  "rb_rotate_left node root s =
     (let right = rb_right s node;
          parent = rb_parent node s;
          s = set_right node (rb_left s right) s;
          s = (if rb_right s node \<noteq> NULL then rb_set_parent (rb_left s right) node s else s);
          s = set_left right node s;
          s = rb_set_parent right parent s;
          s = (if parent \<noteq> NULL
               then (if node = rb_left s parent then set_left parent right s
                     else set_right parent right s)
               else set_root root right s)
      in rb_set_parent node right s)"

definition rb_rotate_right :: "addr \<Rightarrow> addr \<Rightarrow> 'a rb_heap_scheme \<Rightarrow> 'a rb_heap_scheme" where
  "rb_rotate_right node root s =
     (let left = rb_left s node;
          parent = rb_parent node s;
          s = set_left node (rb_right s left) s;
          s = (if rb_left s node \<noteq> NULL then rb_set_parent (rb_right s left) node s else s);
          s = set_right left node s;
          s = rb_set_parent left parent s;
          s = (if parent \<noteq> NULL
               then (if node = rb_right s parent then set_right parent left s
                     else set_left parent left s)
               else set_root root left s)
      in rb_set_parent node left s)"

subsection \<open>Insertion\<close>

partial_function (option) rb_insert_color_loop ::
  "addr \<Rightarrow> addr \<Rightarrow> 'a rb_heap_scheme \<Rightarrow> 'a rb_heap_scheme option" where
  "rb_insert_color_loop node root s =
     (let parent = rb_parent node s in
      if parent \<noteq> NULL \<and> rb_is_red parent s then
        (let gparent = rb_parent parent s in
         if parent = rb_left s gparent then
           (let uncle = rb_right s gparent in
            if uncle \<noteq> NULL \<and> rb_is_red uncle s then
              rb_insert_color_loop gparent root (rb_set_red gparent (rb_set_black parent (rb_set_black uncle s)))
            else
              (let (parent, node, s) =
                 (if rb_right s parent = node then (node, parent, rb_rotate_left parent root s)
                  else (parent, node, s));
                 s = rb_set_red gparent (rb_set_black parent s)
               in rb_insert_color_loop node root (rb_rotate_right gparent root s)))
         else
           (let uncle = rb_left s gparent in
            if uncle \<noteq> NULL \<and> rb_is_red uncle s then
              rb_insert_color_loop gparent root (rb_set_red gparent (rb_set_black parent (rb_set_black uncle s)))
            else
              (let (parent, node, s) =
                 (if rb_left s parent = node then (node, parent, rb_rotate_right parent root s)
                  else (parent, node, s));
                 s = rb_set_red gparent (rb_set_black parent s)
               in rb_insert_color_loop node root (rb_rotate_left gparent root s))))
      else Some s)"

definition rb_insert_color :: "addr \<Rightarrow> addr \<Rightarrow> 'a rb_heap_scheme \<Rightarrow> 'a rb_heap_scheme option" where
  "rb_insert_color node root s =
     do { s \<leftarrow> rb_insert_color_loop node root s; Some (rb_set_black (rb_root s root) s) }"

subsection \<open>Deletion\<close>

definition null_or_black :: "addr \<Rightarrow> 'a rb_heap_scheme \<Rightarrow> bool" where
  "null_or_black r s \<longleftrightarrow> r = NULL \<or> rb_is_black r s"

partial_function (option) rb_erase_color_loop ::
  "addr \<Rightarrow> addr \<Rightarrow> addr \<Rightarrow> 'a rb_heap_scheme \<Rightarrow> (addr \<times> 'a rb_heap_scheme) option" where
  "rb_erase_color_loop node parent root s =
     (if null_or_black node s \<and> node \<noteq> rb_root s root then
        (if rb_left s parent = node then
           (let other = rb_right s parent;
                (other, s) =
                  (if rb_is_red other s
                   then (let s = rb_rotate_left parent root (rb_set_red parent (rb_set_black other s))
                         in (rb_right s parent, s))
                   else (other, s))
            in if null_or_black (rb_left s other) s \<and> null_or_black (rb_right s other) s
               then (let s = rb_set_red other s in rb_erase_color_loop parent (rb_parent parent s) root s)
               else
                 (let (other, s) =
                    (if null_or_black (rb_right s other) s
                     then (let s = rb_rotate_right other root (rb_set_red other (rb_set_black (rb_left s other) s))
                           in (rb_right s parent, s))
                     else (other, s));
                    s = rb_set_color other (rb_color parent s) s;
                    s = rb_set_black parent s;
                    s = rb_set_black (rb_right s other) s;
                    s = rb_rotate_left parent root s
                  in Some (rb_root s root, s)))
         else
           (let other = rb_left s parent;
                (other, s) =
                  (if rb_is_red other s
                   then (let s = rb_rotate_right parent root (rb_set_red parent (rb_set_black other s))
                         in (rb_left s parent, s))
                   else (other, s))
            in if null_or_black (rb_left s other) s \<and> null_or_black (rb_right s other) s
               then (let s = rb_set_red other s in rb_erase_color_loop parent (rb_parent parent s) root s)
               else
                 (let (other, s) =
                    (if null_or_black (rb_left s other) s
                     then (let s = rb_rotate_left other root (rb_set_red other (rb_set_black (rb_right s other) s))
                           in (rb_left s parent, s))
                     else (other, s));
                    s = rb_set_color other (rb_color parent s) s;
                    s = rb_set_black parent s;
                    s = rb_set_black (rb_left s other) s;
                    s = rb_rotate_right parent root s
                  in Some (rb_root s root, s))))
      else Some (node, s))"

definition rb_erase_color :: "addr \<Rightarrow> addr \<Rightarrow> addr \<Rightarrow> 'a rb_heap_scheme \<Rightarrow> 'a rb_heap_scheme option" where
  "rb_erase_color node parent root s =
     do {
       (node, s) \<leftarrow> rb_erase_color_loop node parent root s;
       Some (if node \<noteq> NULL then rb_set_black node s else s)
     }"

text \<open>\<^verbatim>\<open>while (n->rb_left) n = n->rb_left\<close> and the same to the right.\<close>

partial_function (option) go_left :: "addr \<Rightarrow> 'a rb_heap_scheme \<Rightarrow> addr option" where
  "go_left n s = (if rb_left s n \<noteq> NULL then go_left (rb_left s n) s else Some n)"

partial_function (option) go_right :: "addr \<Rightarrow> 'a rb_heap_scheme \<Rightarrow> addr option" where
  "go_right n s = (if rb_right s n \<noteq> NULL then go_right (rb_right s n) s else Some n)"

text \<open>Replaces the child \<open>old\<close> of \<open>parent\<close>, or the root when there is no parent.\<close>

definition replace_child :: "addr \<Rightarrow> addr \<Rightarrow> addr \<Rightarrow> addr \<Rightarrow> 'a rb_heap_scheme \<Rightarrow> 'a rb_heap_scheme" where
  "replace_child parent old new root s =
     (if parent \<noteq> NULL
      then (if rb_left s parent = old then set_left parent new s else set_right parent new s)
      else set_root root new s)"

definition rb_erase :: "addr \<Rightarrow> addr \<Rightarrow> 'a rb_heap_scheme \<Rightarrow> 'a rb_heap_scheme option" where
  "rb_erase node root s =
     do {
       (child, parent, color, s) \<leftarrow>
         (if rb_left s node = NULL \<or> rb_right s node = NULL then
            (let child = (if rb_left s node = NULL then rb_right s node else rb_left s node);
                 parent = rb_parent node s;
                 color = rb_color node s;
                 s = (if child \<noteq> NULL then rb_set_parent child parent s else s)
             in Some (child, parent, color, replace_child parent node child root s))
          else do {
            let old = node;
            node \<leftarrow> go_left (rb_right s old) s;
            let s = replace_child (rb_parent old s) old node root s;
            let child = rb_right s node;
            let parent = rb_parent node s;
            let color = rb_color node s;
            let (parent, s) =
              (if parent = old then (node, s)
               else
                 (let s = (if child \<noteq> NULL then rb_set_parent child parent s else s);
                      s = set_left parent child s;
                      s = set_right node (rb_right s old) s
                  in (parent, rb_set_parent (rb_right s old) node s)));
            let s = set_parent_color node (rb_parent_color s old) s;
            let s = set_left node (rb_left s old) s;
            let s = rb_set_parent (rb_left s old) node s;
            Some (child, parent, color, s)
          });
       if color = 1 then rb_erase_color child parent root s else Some s
     }"

subsection \<open>Traversal\<close>

definition rb_first :: "addr \<Rightarrow> 'a rb_heap_scheme \<Rightarrow> addr option" where
  "rb_first root s = (if rb_root s root = NULL then Some NULL else go_left (rb_root s root) s)"

definition rb_last :: "addr \<Rightarrow> 'a rb_heap_scheme \<Rightarrow> addr option" where
  "rb_last root s = (if rb_root s root = NULL then Some NULL else go_right (rb_root s root) s)"

partial_function (option) rb_next_up :: "addr \<Rightarrow> 'a rb_heap_scheme \<Rightarrow> addr option" where
  "rb_next_up node s =
     (let parent = rb_parent node s
      in if parent \<noteq> NULL \<and> node = rb_right s parent then rb_next_up parent s else Some parent)"

partial_function (option) rb_prev_up :: "addr \<Rightarrow> 'a rb_heap_scheme \<Rightarrow> addr option" where
  "rb_prev_up node s =
     (let parent = rb_parent node s
      in if parent \<noteq> NULL \<and> node = rb_left s parent then rb_prev_up parent s else Some parent)"

definition rb_next :: "addr \<Rightarrow> 'a rb_heap_scheme \<Rightarrow> addr option" where
  "rb_next node s =
     (if rb_parent node s = node then Some NULL
      else if rb_right s node \<noteq> NULL then go_left (rb_right s node) s
      else rb_next_up node s)"

definition rb_prev :: "addr \<Rightarrow> 'a rb_heap_scheme \<Rightarrow> addr option" where
  "rb_prev node s =
     (if rb_parent node s = node then Some NULL
      else if rb_left s node \<noteq> NULL then go_right (rb_left s node) s
      else rb_prev_up node s)"

definition rb_replace_node :: "addr \<Rightarrow> addr \<Rightarrow> addr \<Rightarrow> 'a rb_heap_scheme \<Rightarrow> 'a rb_heap_scheme" where
  "rb_replace_node victim new root s =
     (let parent = rb_parent victim s;
          s = (if parent \<noteq> NULL
               then (if victim = rb_left s parent then set_left parent new s else set_right parent new s)
               else set_root root new s);
          s = (if rb_left s victim \<noteq> NULL then rb_set_parent (rb_left s victim) new s else s);
          s = (if rb_right s victim \<noteq> NULL then rb_set_parent (rb_right s victim) new s else s);
          s = set_parent_color new (rb_parent_color s victim) s;
          s = set_right new (rb_right s victim) s
      in set_left new (rb_left s victim) s)"

end
