(* ===== verification/Kbitmap.thy ===== *)
theory Kbitmap
  imports Prelude
begin

section \<open>Byte bitmaps and process numbers (lib/bitmap.c, kernel/pid.c)\<close>

text \<open>
  A bitmap is an array of bytes; an access outside the array is \<open>None\<close>. \<^verbatim>\<open>find_first_bit\<close>
  is the \<^verbatim>\<open>bsf\<close> instruction on a register that holds the byte, with the result register
  preloaded with 0, which \<^verbatim>\<open>bsf\<close> leaves alone when there is no bit to find.
\<close>

subsection \<open>Operations\<close>

definition raw_set_bit :: "nat \<Rightarrow> u8 \<Rightarrow> u8" where
  "raw_set_bit nr ch = ch OR ucast (push_bit nr (1 :: u32) AND 0xFF)"

definition raw_clear_bit :: "nat \<Rightarrow> u8 \<Rightarrow> u8" where
  "raw_clear_bit nr ch = ch AND ucast (NOT (push_bit nr (1 :: u32)) AND 0xFF)"

definition find_first_bit :: "u8 \<Rightarrow> nat" where
  "find_first_bit ch = (case find (\<lambda>i. bit ch i) [0..<8] of None \<Rightarrow> 0 | Some i \<Rightarrow> i)"

definition find_first_zero :: "u8 \<Rightarrow> nat" where
  "find_first_zero ch = find_first_bit (NOT ch AND 0xFF)"

function get_first_bit_loop :: "u8 list \<Rightarrow> nat \<Rightarrow> nat \<Rightarrow> int option" where
  "get_first_bit_loop bitmap sz i =
     (if i < sz then
        if i < length bitmap then
          if bitmap ! i = 0xff then get_first_bit_loop bitmap sz (Suc i)
          else Some (int (find_first_zero (bitmap ! i)) + 1 * int i)
        else None
      else Some (-1))"
  by pat_completeness auto
termination
  by (relation "measure (\<lambda>(bitmap, sz, i). sz - i)") auto

definition get_first_bit :: "u8 list \<Rightarrow> nat \<Rightarrow> int option" where
  "get_first_bit bitmap sz = get_first_bit_loop bitmap sz 0"

function set_first_bit_loop :: "u8 list \<Rightarrow> nat \<Rightarrow> nat \<Rightarrow> (int \<times> u8 list) option" where
  "set_first_bit_loop bitmap sz i =
     (if i < sz then
        if i < length bitmap then
          if bitmap ! i = 0xff then set_first_bit_loop bitmap sz (Suc i)
          else (let first = find_first_zero (bitmap ! i)
                in Some (int first + 1 * int i, bitmap[i := raw_set_bit first (bitmap ! i)]))
        else None
      else Some (-1, bitmap))"
  by pat_completeness auto
termination
  by (relation "measure (\<lambda>(bitmap, sz, i). sz - i)") auto

definition set_first_bit :: "u8 list \<Rightarrow> nat \<Rightarrow> (int \<times> u8 list) option" where
  "set_first_bit bitmap sz = set_first_bit_loop bitmap sz 0"

declare get_first_bit_loop.simps [simp del] set_first_bit_loop.simps [simp del]

text \<open>
  \<^verbatim>\<open>MAX_PIDNUM/8\<close> bytes of process numbers; \<^verbatim>\<open>pid_t\<close> is unsigned, so the \<open>-1\<close> of a full
  map is the process number \<open>0xFFFFFFFF\<close>.
\<close>

definition PIDMAP_BYTES :: nat where
  "PIDMAP_BYTES = 128"

definition init_pidmap :: "u8 list" where
  "init_pidmap = (replicate PIDMAP_BYTES 0)[0 := 0 OR 0x01]"

definition get_pidmap :: "u8 list \<Rightarrow> (u32 \<times> u8 list) option" where
  "get_pidmap pidmap =
     map_option (\<lambda>(first, m). (word_of_int first, m)) (set_first_bit pidmap PIDMAP_BYTES)"

subsection \<open>Bits\<close>

text \<open>The map as one sequence of bits: bit \<open>k\<close> is bit \<open>k mod 8\<close> of byte \<open>k div 8\<close>.\<close>

definition map_bit :: "u8 list \<Rightarrow> nat \<Rightarrow> bool" where
  "map_bit m k \<longleftrightarrow> bit (m ! (k div 8)) (k mod 8)"

lemma bit_raw_set_bit: "nr < 8 \<Longrightarrow> bit (raw_set_bit nr ch) k \<longleftrightarrow> bit ch k \<or> k = nr"
  by (auto simp: raw_set_bit_def bit_simps dest: bit_imp_le_length)

lemma bit_raw_clear_bit: "nr < 8 \<Longrightarrow> bit (raw_clear_bit nr ch) k \<longleftrightarrow> bit ch k \<and> k \<noteq> nr"
  by (auto simp: raw_clear_bit_def bit_simps dest: bit_imp_le_length)

lemma byte_full_iff: "(ch :: u8) = 0xff \<longleftrightarrow> (\<forall>k<8. bit ch k)"
  by (auto simp: bit_eq_iff dest: bit_imp_le_length)

lemma find_first_zero_spec:
  assumes "ch \<noteq> 0xff"
  shows "find_first_zero ch < 8" "\<not> bit ch (find_first_zero ch)"
    "\<And>k. k < find_first_zero ch \<Longrightarrow> bit ch k"
proof -
  have b: "bit (NOT ch AND 0xFF) i \<longleftrightarrow> \<not> bit ch i" if "i < 8" for i
    using that by (simp add: bit_simps)
  obtain i where i: "find (\<lambda>i. bit (NOT ch AND 0xFF) i) [0..<8] = Some i"
    using assms b by (fastforce simp: byte_full_iff find_None_iff
        dest!: iffD1 [OF find_None_iff] split: option.splits
        intro: option.exhaust [of "find (\<lambda>i. bit (NOT ch AND 0xFF) i) [0..<8]"])
  then have e: "find_first_zero ch = i"
    by (simp add: find_first_zero_def find_first_bit_def)
  from i obtain j where j: "j < 8" "i = [0..<8] ! j" "bit (NOT ch AND 0xFF) ([0..<8] ! j)"
      "\<And>k. k < j \<Longrightarrow> \<not> bit (NOT ch AND 0xFF) ([0..<8] ! k)"
    by (auto simp: find_Some_iff)
  then show "find_first_zero ch < 8" "\<not> bit ch (find_first_zero ch)"
    "\<And>k. k < find_first_zero ch \<Longrightarrow> bit ch k"
    using b e by auto
qed

lemma set_first_bit_loop_found:
  assumes "i \<le> j" "j < sz" "j < length m" "m ! j \<noteq> 0xff" "\<And>k. i \<le> k \<Longrightarrow> k < j \<Longrightarrow> m ! k = 0xff"
  shows "set_first_bit_loop m sz i =
    Some (int (find_first_zero (m ! j)) + int j, m[j := raw_set_bit (find_first_zero (m ! j)) (m ! j)])"
  using assms
proof (induction "j - i" arbitrary: i)
  case 0
  then show ?case by (subst set_first_bit_loop.simps) (simp add: Let_def)
next
  case (Suc d)
  then have "i < j" "m ! i = 0xff" by auto
  moreover have "set_first_bit_loop m sz (Suc i) =
    Some (int (find_first_zero (m ! j)) + int j, m[j := raw_set_bit (find_first_zero (m ! j)) (m ! j)])"
    using Suc by (intro Suc.hyps(1)) auto
  ultimately show ?case
    using Suc.prems by (subst set_first_bit_loop.simps) simp
qed

lemma set_first_bit_loop_full:
  assumes "sz \<le> length m" "\<And>k. i \<le> k \<Longrightarrow> k < sz \<Longrightarrow> m ! k = 0xff"
  shows "set_first_bit_loop m sz i = Some (-1, m)"
  using assms
proof (induction "sz - i" arbitrary: i)
  case 0
  then show ?case by (subst set_first_bit_loop.simps) simp
next
  case (Suc d)
  then have "set_first_bit_loop m sz (Suc i) = Some (-1, m)"
    by (intro Suc.hyps(1)) auto
  then show ?case
    using Suc by (subst set_first_bit_loop.simps) simp
qed

lemma first_not_full:
  assumes "\<exists>k < sz. m ! k \<noteq> (0xff :: u8)"
  obtains j where "j < sz" "m ! j \<noteq> 0xff" "\<And>k. k < j \<Longrightarrow> m ! k = 0xff"
proof -
  let ?j = "LEAST k. k < sz \<and> m ! k \<noteq> 0xff"
  have j: "?j < sz \<and> m ! ?j \<noteq> 0xff" using assms by (rule LeastI_ex)
  have "m ! k = 0xff" if "k < ?j" for k
    using not_less_Least [OF that] that j by auto
  then show ?thesis using that [of ?j] j by blast
qed

lemma map_bit_update:
  assumes "j < length m" "nr < 8" "k < 8 * length m"
  shows "map_bit (m[j := raw_set_bit nr (m ! j)]) k \<longleftrightarrow> map_bit m k \<or> k = 8 * j + nr"
proof (cases "k div 8 = j")
  case True
  then have "k = 8 * j + nr \<longleftrightarrow> k mod 8 = nr"
    using assms(2) True by presburger
  then show ?thesis
    using True assms bit_raw_set_bit [OF assms(2), of "m ! j" "k mod 8"]
    by (simp add: map_bit_def)
next
  case False
  then have "k \<noteq> 8 * j + nr" using assms(2) by auto
  then show ?thesis using False assms by (simp add: map_bit_def)
qed

subsection \<open>Properties\<close>

text \<open>
  C37. \<^verbatim>\<open>set_first_bit\<close> on a map that has a clear bit sets exactly the first clear bit,
  bit \<open>b\<close> of byte \<open>j\<close>, and returns \<open>b + j\<close>; on a full map it returns \<open>-1\<close> and
  changes nothing.
\<close>

theorem set_first_bit_correct:
  assumes "sz = length m"
  shows "if \<forall>k<8 * sz. map_bit m k then set_first_bit m sz = Some (-1, m)
         else \<exists>j b m'. set_first_bit m sz = Some (int b + int j, m') \<and> b < 8 \<and> j < sz
           \<and> \<not> map_bit m (8 * j + b) \<and> (\<forall>k<8 * j + b. map_bit m k)
           \<and> length m' = sz \<and> (\<forall>k<8 * sz. map_bit m' k \<longleftrightarrow> map_bit m k \<or> k = 8 * j + b)"
proof (cases "\<forall>k < sz. m ! k = 0xff")
  case True
  have "map_bit m k" if "k < 8 * sz" for k
    using True that by (simp add: map_bit_def byte_full_iff)
  then show ?thesis
    using True assms by (simp add: set_first_bit_def set_first_bit_loop_full)
next
  case False
  then obtain j where j: "j < sz" "m ! j \<noteq> 0xff" "\<And>k. k < j \<Longrightarrow> m ! k = 0xff"
    using first_not_full by blast
  define b where "b = find_first_zero (m ! j)"
  note ffz = find_first_zero_spec [OF j(2), folded b_def]
  let ?m = "m[j := raw_set_bit b (m ! j)]"
  have res: "set_first_bit m sz = Some (int b + int j, ?m)"
    unfolding set_first_bit_def b_def by (rule set_first_bit_loop_found) (use j assms in auto)
  have clear: "\<not> map_bit m (8 * j + b)"
    using ffz by (simp add: map_bit_def)
  have below: "map_bit m k" if "k < 8 * j + b" for k
  proof (cases "k < 8 * j")
    case True
    then have "m ! (k div 8) = 0xff" using j(3) by simp
    then show ?thesis by (simp add: map_bit_def byte_full_iff)
  next
    case False
    then have "k div 8 = j" using that ffz(1) by auto
    moreover from this have "k mod 8 < b" using that by (auto simp: modulo_nat_def)
    ultimately show ?thesis using ffz(3) by (simp add: map_bit_def)
  qed
  have upd: "map_bit ?m k \<longleftrightarrow> map_bit m k \<or> k = 8 * j + b" if "k < 8 * sz" for k
    by (rule map_bit_update) (use that j ffz(1) assms in auto)
  have some: "\<not> (\<forall>k<8 * sz. map_bit m k)"
    using clear j(1) ffz(1) by (auto intro!: exI [of _ "8 * j + b"])
  show ?thesis
    unfolding if_not_P [OF some]
    by (rule exI [of _ j], rule exI [of _ b], rule exI [of _ ?m])
       (use res ffz(1) j(1) clear below upd assms in simp)
qed

theorem set_first_bit_correct_witness:
  "set_first_bit [0xff, 0x05] 2 = Some (2, [0xff, 0x07])
   \<and> (if \<forall>k<8 * 2. map_bit [0xff, 0x05] k then set_first_bit [0xff, 0x05] 2 = Some (-1, [0xff, 0x05])
      else \<exists>j b m'. set_first_bit [0xff, 0x05] 2 = Some (int b + int j, m') \<and> b < 8 \<and> j < 2
        \<and> \<not> map_bit [0xff, 0x05] (8 * j + b) \<and> (\<forall>k<8 * j + b. map_bit [0xff, 0x05] k)
        \<and> length m' = 2 \<and> (\<forall>k<8 * 2. map_bit m' k \<longleftrightarrow> map_bit [0xff, 0x05] k \<or> k = 8 * j + b))"
proof
  show "set_first_bit [0xff, 0x05] 2 = Some (2, [0xff, 0x07])"
    by code_simp
qed (rule set_first_bit_correct, simp)

text \<open>
  Process numbers are not unique: after \<^verbatim>\<open>init_pidmap\<close> the first call of
  \<^verbatim>\<open>get_pidmap\<close> returns 1, and the eighth call, which sets bit 0 of byte 1, returns 1
  again, because the byte index is scaled by \<^verbatim>\<open>sizeof(unsigned char)\<close> instead of by
  the eight bits of a byte.
\<close>

fun get_pidmaps :: "nat \<Rightarrow> u8 list \<Rightarrow> (u32 list \<times> u8 list) option" where
  "get_pidmaps 0 m = Some ([], m)"
| "get_pidmaps (Suc n) m =
     do { (p, m) \<leftarrow> get_pidmap m; (ps, m) \<leftarrow> get_pidmaps n m; Some (p # ps, m) }"

theorem get_pidmap_duplicates:
  "map_option fst (get_pidmaps 8 init_pidmap) = Some [1, 2, 3, 4, 5, 6, 7, 1]"
  by code_simp

end
