(* ===== verification/Sched.thy ===== *)
theory Sched
  imports Rbtree Kbitmap "HOL-Library.Signed_Division"
begin

section \<open>Scheduling\<close>

text \<open>
  The model of \<^verbatim>\<open>kernel/sched_fair.c\<close>, \<^verbatim>\<open>kernel/sched.c\<close>, the clock interrupt of
  \<^verbatim>\<open>kernel/clock.c\<close> and \<^verbatim>\<open>kernel/exit.c\<close>. A \<^verbatim>\<open>struct sched_entity\<close> starts with its tree node, so
  both have one address; it lies at offset 656 of a \<^verbatim>\<open>task_struct\<close>, whose run queue node is
  at offset 672. The code's \<^verbatim>\<open>schedule\<close> only picks the next task; the registers are switched
  when the interrupt returns.
\<close>

subsection \<open>State\<close>

record stackframe =
  r_gs :: u32
  r_fs :: u32
  r_es :: u32
  r_ds :: u32
  r_edi :: u32
  r_esi :: u32
  r_ebp :: u32
  r_kernel_esp :: u32
  r_ebx :: u32
  r_edx :: u32
  r_ecx :: u32
  r_eax :: u32
  r_retaddr :: u32
  r_eip :: u32
  r_cs :: u32
  r_eflags :: u32
  r_esp :: u32
  r_ss :: u32

record descriptor =
  limit_low :: u16
  base_low :: u16
  base_mid :: u8
  attr1 :: u8
  limit_high_attr2 :: u8
  base_high :: u8

text \<open>The one scheduling class of the kernel; \<open>None\<close> in a task is the null pointer.\<close>

datatype sched_class = Rr_sched

record sched_heap = rb_heap +
  se_vruntime :: "addr \<Rightarrow> u32"
  tsk_regs :: "addr \<Rightarrow> stackframe"
  tsk_ldt_sel :: "addr \<Rightarrow> u16"
  tsk_ldts :: "addr \<Rightarrow> descriptor \<times> descriptor"
  tsk_sa_flags :: "addr \<Rightarrow> nat \<Rightarrow> u32"
  tsk_sa_handler :: "addr \<Rightarrow> nat \<Rightarrow> addr"
  tsk_state :: "addr \<Rightarrow> int"
  tsk_signal :: "addr \<Rightarrow> u32"
  tsk_ticks :: "addr \<Rightarrow> u32"
  tsk_priority :: "addr \<Rightarrow> u32"
  tsk_pid :: "addr \<Rightarrow> u32"
  tsk_parent :: "addr \<Rightarrow> addr"
  tsk_next :: "addr \<Rightarrow> addr"
  tsk_sibling :: "addr \<Rightarrow> addr"
  tsk_class :: "addr \<Rightarrow> sched_class option"
  nr_running :: "addr \<Rightarrow> u32"
  min_vruntime :: "addr \<Rightarrow> u32"
  current :: addr
  sched_rq :: addr
  pidmap :: "u8 list"
  jiffies :: u32
  ticks :: u32
  k_reenter :: u32

abbreviation (input) TASK_RUNNING :: int where
  "TASK_RUNNING \<equiv> 0"

abbreviation (input) TASK_INTERRUPTIBLE :: int where
  "TASK_INTERRUPTIBLE \<equiv> 1"

abbreviation (input) TASK_UNINTERRUPTIBLE :: int where
  "TASK_UNINTERRUPTIBLE \<equiv> 2"

abbreviation (input) TASK_ZOMBIE :: int where
  "TASK_ZOMBIE \<equiv> 3"

abbreviation (input) MIN_VRUNTIME :: u32 where
  "MIN_VRUNTIME \<equiv> 100"

abbreviation (input) NR_PROCESS :: int where
  "NR_PROCESS \<equiv> 4"

definition sched_entity :: "addr \<Rightarrow> addr" where
  "sched_entity p = p + 656"

definition se_entry :: "addr \<Rightarrow> addr" where
  "se_entry se = se - 656"

definition tsk_list :: "addr \<Rightarrow> addr" where
  "tsk_list p = p + 672"

definition task_timeline :: "addr \<Rightarrow> addr" where
  "task_timeline rq = rq + 4"

definition rr_rq_list :: "addr \<Rightarrow> addr" where
  "rr_rq_list rq = rq + 4"

definition set_vruntime :: "addr \<Rightarrow> u32 \<Rightarrow> 'a sched_heap_scheme \<Rightarrow> 'a sched_heap_scheme" where
  "set_vruntime se v s = s\<lparr>se_vruntime := (se_vruntime s)(se := v)\<rparr>"

definition set_min_vruntime :: "addr \<Rightarrow> u32 \<Rightarrow> 'a sched_heap_scheme \<Rightarrow> 'a sched_heap_scheme" where
  "set_min_vruntime rq v s = s\<lparr>min_vruntime := (min_vruntime s)(rq := v)\<rparr>"

definition set_state :: "addr \<Rightarrow> int \<Rightarrow> 'a sched_heap_scheme \<Rightarrow> 'a sched_heap_scheme" where
  "set_state p v s = s\<lparr>tsk_state := (tsk_state s)(p := v)\<rparr>"

definition set_ticks :: "addr \<Rightarrow> u32 \<Rightarrow> 'a sched_heap_scheme \<Rightarrow> 'a sched_heap_scheme" where
  "set_ticks p v s = s\<lparr>tsk_ticks := (tsk_ticks s)(p := v)\<rparr>"

subsection \<open>The tree of runnable tasks\<close>

text \<open>The difference of two unsigned numbers, stored in an \<^verbatim>\<open>int\<close>.\<close>

definition vdiff :: "u32 \<Rightarrow> u32 \<Rightarrow> int" where
  "vdiff a b = sint (a - b)"

partial_function (option) se_search_loop :: "addr \<Rightarrow> u32 \<Rightarrow> 'a sched_heap_scheme \<Rightarrow> addr option" where
  "se_search_loop node vruntime s =
     (if node = NULL then Some NULL
      else if vdiff vruntime (se_vruntime s node) < 0 then se_search_loop (rb_left s node) vruntime s
      else if vdiff vruntime (se_vruntime s node) > 0 then se_search_loop (rb_right s node) vruntime s
      else Some node)"

definition se_search :: "addr \<Rightarrow> u32 \<Rightarrow> 'a sched_heap_scheme \<Rightarrow> addr option" where
  "se_search root vruntime s = se_search_loop (rb_root s root) vruntime s"

definition ts_earse :: "addr \<Rightarrow> addr \<Rightarrow> 'a sched_heap_scheme \<Rightarrow> (int \<times> 'a sched_heap_scheme) option" where
  "ts_earse root se s = do { s \<leftarrow> rb_erase se root s; Some (0, s) }"

text \<open>The place for a new node: its parent and the link to it, or \<open>None\<close> when the key is taken.\<close>

partial_function (option) ts_insert_loop ::
  "rb_link \<Rightarrow> addr \<Rightarrow> u32 \<Rightarrow> 'a sched_heap_scheme \<Rightarrow> (addr \<times> rb_link) option option" where
  "ts_insert_loop new parent v s =
     (let this = read_link new s in
      if this = NULL then Some (Some (parent, new))
      else if vdiff v (se_vruntime s this) < 0 then ts_insert_loop (Left this) this v s
      else if vdiff v (se_vruntime s this) > 0 then ts_insert_loop (Right this) this v s
      else Some None)"

definition ts_insert :: "addr \<Rightarrow> addr \<Rightarrow> 'a sched_heap_scheme \<Rightarrow> (int \<times> 'a sched_heap_scheme) option" where
  "ts_insert root se s =
     do {
       place \<leftarrow> ts_insert_loop (Root root) NULL (se_vruntime s se) s;
       case place of
         None \<Rightarrow> Some (0, s)
       | Some (parent, new) \<Rightarrow> do {
           s \<leftarrow> rb_insert_color se root (rb_link_node se parent new s);
           Some (1, s)
         }
     }"

definition ts_leftmost :: "addr \<Rightarrow> 'a sched_heap_scheme \<Rightarrow> addr option" where
  "ts_leftmost root s = rb_first root s"

subsection \<open>Scheduling classes\<close>

definition unblock :: "addr \<Rightarrow> 'a sched_heap_scheme \<Rightarrow> 'a sched_heap_scheme" where
  "unblock p s = set_state p TASK_RUNNING s"

text \<open>
  The run queues are members of one union: the list head of the round-robin queue and the
  root of the tree are the same word, and so are the counters. The last write wins.
\<close>

definition init_sched :: "'a sched_heap_scheme \<Rightarrow> 'a sched_heap_scheme" where
  "init_sched s =
     (let rq = sched_rq s;
          s = s\<lparr>nr_running := (nr_running s)(rq := 0)\<rparr>;
          s = INIT_LIST_HEAD (rr_rq_list rq) s;
          s = s\<lparr>nr_running := (nr_running s)(rq := 0)\<rparr>;
          s = set_root (task_timeline rq) NULL (set_next (rr_rq_list rq) NULL s);
          s = set_min_vruntime rq MIN_VRUNTIME s
      in s\<lparr>pidmap := init_pidmap\<rparr>)"

text \<open>
  The search of the greatest ticks; a task in the queue that is not runnable fails the
  assertion, which is \<open>None\<close>.
\<close>

partial_function (option) rr_greatest ::
  "addr \<Rightarrow> addr \<Rightarrow> addr \<Rightarrow> addr \<Rightarrow> u32 \<Rightarrow> 'a sched_heap_scheme \<Rightarrow> (addr \<times> u32) option" where
  "rr_greatest head pos n p greatest s =
     (if pos = head then Some (p, greatest)
      else
        (let tsk = pos - 672 in
         if tsk_state s tsk \<noteq> TASK_RUNNING then None
         else if sint (tsk_ticks s tsk) > sint greatest
              then rr_greatest head n (l_next s n) tsk (tsk_ticks s tsk) s
              else rr_greatest head n (l_next s n) p greatest s))"

partial_function (option) rr_refill ::
  "addr \<Rightarrow> addr \<Rightarrow> addr \<Rightarrow> 'a sched_heap_scheme \<Rightarrow> 'a sched_heap_scheme option" where
  "rr_refill head pos n s =
     (if pos = head then Some s
      else (let tsk = pos - 672; s = set_ticks tsk (tsk_priority s tsk) s
            in rr_refill head n (l_next s n) s))"

text \<open>An empty queue is a panic, and a queue of tasks without priorities is an endless loop.\<close>

partial_function (option) rr_next_task ::
  "addr \<Rightarrow> addr \<Rightarrow> 'a sched_heap_scheme \<Rightarrow> (addr \<times> 'a sched_heap_scheme) option" where
  "rr_next_task rq p s =
     (let head = rr_rq_list rq in
      if list_empty_careful head s then None
      else do {
        (p, greatest) \<leftarrow> rr_greatest head (l_next s head) (l_next s (l_next s head)) p 0 s;
        if greatest = 0 then do {
          s \<leftarrow> rr_refill head (l_next s head) (l_next s (l_next s head)) s;
          rr_next_task rq p s
        } else Some (p, s)
      })"

definition rr_enqueue :: "addr \<Rightarrow> addr \<Rightarrow> int \<Rightarrow> 'a sched_heap_scheme \<Rightarrow> 'a sched_heap_scheme" where
  "rr_enqueue rq p wakeup s = (if p \<noteq> NULL then list_add (tsk_list p) (rr_rq_list rq) s else s)"

definition rr_dequeue :: "addr \<Rightarrow> addr \<Rightarrow> int \<Rightarrow> 'a sched_heap_scheme \<Rightarrow> 'a sched_heap_scheme" where
  "rr_dequeue rq p sleep s = (if p \<noteq> NULL then list_del (tsk_list p) s else s)"

definition cfs_enqueue :: "addr \<Rightarrow> addr \<Rightarrow> int \<Rightarrow> 'a sched_heap_scheme \<Rightarrow> 'a sched_heap_scheme option" where
  "cfs_enqueue rq p wakeup s =
     (let se = sched_entity p;
          s = (if wakeup = 0 then set_vruntime se (se_vruntime s se + min_vruntime s rq) s else s)
      in map_option snd (ts_insert (task_timeline rq) se s))"

definition cfs_dequeue :: "addr \<Rightarrow> addr \<Rightarrow> int \<Rightarrow> 'a sched_heap_scheme \<Rightarrow> 'a sched_heap_scheme option" where
  "cfs_dequeue rq p sleep s =
     (let se = sched_entity p;
          s = (if sleep = 1 then set_vruntime se (se_vruntime s se - min_vruntime s rq) s else s)
      in map_option snd (ts_earse (task_timeline rq) se s))"

definition cfs_next_task :: "addr \<Rightarrow> 'a sched_heap_scheme \<Rightarrow> (addr \<times> 'a sched_heap_scheme) option" where
  "cfs_next_task rq s =
     do {
       let root = task_timeline rq;
       let cur = sched_entity (current s);
       let s = set_vruntime cur (se_vruntime s cur - min_vruntime s (sched_rq s)) s;
       s \<leftarrow> cfs_dequeue rq (current s) 0 s;
       se \<leftarrow> ts_leftmost root s;
       let tsk = se_entry se;
       let s = set_min_vruntime rq (se_vruntime s se) s;
       s \<leftarrow> (if tsk_state s (current s) \<noteq> TASK_RUNNING then Some s
             else cfs_enqueue rq (current s) 0 s);
       Some (tsk, s)
     }"

fun pick_next_task :: "sched_class \<Rightarrow> addr \<Rightarrow> 'a sched_heap_scheme \<Rightarrow> (addr \<times> 'a sched_heap_scheme) option" where
  "pick_next_task Rr_sched rq s = cfs_next_task rq s"

fun enqueue_task ::
  "sched_class \<Rightarrow> addr \<Rightarrow> addr \<Rightarrow> int \<Rightarrow> 'a sched_heap_scheme \<Rightarrow> 'a sched_heap_scheme option" where
  "enqueue_task Rr_sched rq p wakeup s = cfs_enqueue rq p wakeup s"

fun dequeue_task ::
  "sched_class \<Rightarrow> addr \<Rightarrow> addr \<Rightarrow> int \<Rightarrow> 'a sched_heap_scheme \<Rightarrow> 'a sched_heap_scheme option" where
  "dequeue_task Rr_sched rq p sleep s = cfs_dequeue rq p sleep s"

text \<open>A call through a null class pointer has no defined result.\<close>

definition schedule :: "'a sched_heap_scheme \<Rightarrow> 'a sched_heap_scheme option" where
  "schedule s =
     do {
       cls \<leftarrow> tsk_class s (current s);
       (p, s) \<leftarrow> pick_next_task cls (sched_rq s) s;
       if p \<noteq> NULL then (if p = current s then Some s else Some (s\<lparr>current := p\<rparr>))
       else Some s
     }"

definition block :: "addr \<Rightarrow> 'a sched_heap_scheme \<Rightarrow> 'a sched_heap_scheme option" where
  "block p s = schedule (set_state p TASK_INTERRUPTIBLE s)"

definition clock_handler :: "'a sched_heap_scheme \<Rightarrow> 'a sched_heap_scheme option" where
  "clock_handler s =
     (let s = s\<lparr>jiffies := jiffies s + 1\<rparr>;
          s = s\<lparr>ticks := ticks s + 1\<rparr>;
          s = set_ticks (current s) (tsk_ticks s (current s) - 1) s;
          cur = sched_entity (current s);
          s = set_vruntime cur (se_vruntime s cur + 1) s
      in if k_reenter s \<noteq> 0 then Some s
         else if sint (jiffies s) smod NR_PROCESS = 0 then schedule s else Some s)"

definition do_exit :: "'a sched_heap_scheme \<Rightarrow> (int \<times> 'a sched_heap_scheme) option" where
  "do_exit s = do { s \<leftarrow> schedule (set_state (current s) TASK_ZOMBIE s); Some (0, s) }"

definition getpid :: "'a sched_heap_scheme \<Rightarrow> int" where
  "getpid s = sint (tsk_pid s (current s))"

end
