(* ===== verification/Wait.thy ===== *)
theory Wait
  imports Sched
begin

section \<open>Wait queues and semaphores\<close>

text \<open>
  The model of \<^verbatim>\<open>kernel/wait.c\<close>. A \<^verbatim>\<open>struct wait_queue *\<close> that a queue is given by is a cell of
  \<open>wq_cell\<close>; the entry a sleeping task queues is a local variable of the function, whose
  address \<open>wait\<close> is an argument here. Null pointers are addresses as any other: the memory
  at 0 is mapped.
\<close>

record wait_heap = sched_heap +
  wq_task :: "addr \<Rightarrow> addr"
  wq_next :: "addr \<Rightarrow> addr"
  wq_cell :: "addr \<Rightarrow> addr"
  sem_count :: "addr \<Rightarrow> u32"

definition set_wq_next :: "addr \<Rightarrow> addr \<Rightarrow> 'a wait_heap_scheme \<Rightarrow> 'a wait_heap_scheme" where
  "set_wq_next w v s = s\<lparr>wq_next := (wq_next s)(w := v)\<rparr>"

definition set_wq_cell :: "addr \<Rightarrow> addr \<Rightarrow> 'a wait_heap_scheme \<Rightarrow> 'a wait_heap_scheme" where
  "set_wq_cell wq v s = s\<lparr>wq_cell := (wq_cell s)(wq := v)\<rparr>"

definition sem_wait :: "addr \<Rightarrow> addr" where
  "sem_wait sem = sem + 4"

text \<open>\<^verbatim>\<open>struct wait_queue wait = {current, NULL}\<close>\<close>

definition new_wait :: "addr \<Rightarrow> 'a wait_heap_scheme \<Rightarrow> 'a wait_heap_scheme" where
  "new_wait wait s = set_wq_next wait NULL (s\<lparr>wq_task := (wq_task s)(wait := current s)\<rparr>)"

definition add_wait_queue :: "addr \<Rightarrow> addr \<Rightarrow> 'a wait_heap_scheme \<Rightarrow> 'a wait_heap_scheme" where
  "add_wait_queue wq wait s =
     (if wq_cell s wq \<noteq> NULL then set_wq_cell wq wait (set_wq_next wait NULL s)
      else (let s = set_wq_next wait (wq_next s (wq_cell s wq)) s
            in set_wq_next (wq_cell s wq) wait s))"

partial_function (option) remove_wait_queue_loop :: "addr \<Rightarrow> addr \<Rightarrow> 'a wait_heap_scheme \<Rightarrow> addr option" where
  "remove_wait_queue_loop tmp wait s =
     (if wq_next s tmp \<noteq> wait then remove_wait_queue_loop (wq_next s tmp) wait s else Some tmp)"

definition remove_wait_queue :: "addr \<Rightarrow> addr \<Rightarrow> 'a wait_heap_scheme \<Rightarrow> 'a wait_heap_scheme option" where
  "remove_wait_queue wq wait s =
     do {
       let first = (wq_cell s wq = wait);
       let s = (if first then set_wq_cell wq (wq_next s wait) s else s);
       s \<leftarrow> (if first \<and> wq_cell s wq = wait then Some (set_wq_cell wq NULL s)
             else do {
               tmp \<leftarrow> remove_wait_queue_loop wait wait s;
               Some (set_wq_next tmp (wq_next s wait) s)
             });
       Some (set_wq_next wait NULL s)
     }"

text \<open>The loop of \<^verbatim>\<open>wake_up\<close>: tasks in a state of \<open>states\<close> are made runnable.\<close>

partial_function (option) wake_up_loop ::
  "int list \<Rightarrow> addr \<Rightarrow> addr \<Rightarrow> 'a wait_heap_scheme \<Rightarrow> 'a wait_heap_scheme option" where
  "wake_up_loop states wq tmp s =
     (let task = wq_task s tmp;
          s = (if task \<noteq> NULL \<and> List.member states (tsk_state s task) then set_state task TASK_RUNNING s else s)
      in if wq_next s tmp = NULL then Some s
         else if wq_next s tmp = wq_cell s wq then Some s
         else wake_up_loop states wq (wq_next s tmp) s)"

definition wake_up :: "addr \<Rightarrow> 'a wait_heap_scheme \<Rightarrow> 'a wait_heap_scheme option" where
  "wake_up wq s =
     (if wq = NULL \<or> wq_cell s wq = NULL then Some s
      else wake_up_loop [TASK_INTERRUPTIBLE, TASK_UNINTERRUPTIBLE] wq (wq_cell s wq) s)"

definition wake_up_interruptible :: "addr \<Rightarrow> 'a wait_heap_scheme \<Rightarrow> 'a wait_heap_scheme option" where
  "wake_up_interruptible wq s =
     (if wq = NULL \<or> wq_cell s wq = NULL then Some s
      else wake_up_loop [TASK_INTERRUPTIBLE] wq (wq_cell s wq) s)"

definition raw_sleep_on :: "addr \<Rightarrow> int \<Rightarrow> addr \<Rightarrow> 'a wait_heap_scheme \<Rightarrow> 'a wait_heap_scheme option" where
  "raw_sleep_on wq state wait s =
     (let s = new_wait wait s in
      if wq = NULL then Some s
      else do {
        let s = set_state (current s) state s;
        let s = add_wait_queue wq wait s;
        s \<leftarrow> schedule s;
        remove_wait_queue wq wait s
      })"

definition interruptible_sleep_on :: "addr \<Rightarrow> addr \<Rightarrow> 'a wait_heap_scheme \<Rightarrow> 'a wait_heap_scheme option" where
  "interruptible_sleep_on wq wait s = raw_sleep_on wq TASK_INTERRUPTIBLE wait s"

definition sleep_on :: "addr \<Rightarrow> addr \<Rightarrow> 'a wait_heap_scheme \<Rightarrow> 'a wait_heap_scheme option" where
  "sleep_on wq wait s = raw_sleep_on wq TASK_UNINTERRUPTIBLE wait s"

text \<open>
  \<^verbatim>\<open>schedule\<close> returns at once, so the waiting loop is a busy one: \<open>others\<close> is what interrupt
  handlers and other tasks do between two rounds of it.
\<close>

partial_function (option) raw_down_loop ::
  "('a wait_heap_scheme \<Rightarrow> 'a wait_heap_scheme) \<Rightarrow> addr \<Rightarrow> 'a wait_heap_scheme \<Rightarrow> 'a wait_heap_scheme option" where
  "raw_down_loop others sem s =
     (if sint (sem_count s sem) \<le> 0 then do {
        s \<leftarrow> schedule s;
        let s = set_state (current s) TASK_UNINTERRUPTIBLE s;
        raw_down_loop others sem (others s)
      } else Some s)"

definition raw_down ::
  "('a wait_heap_scheme \<Rightarrow> 'a wait_heap_scheme) \<Rightarrow> addr \<Rightarrow> addr \<Rightarrow> 'a wait_heap_scheme \<Rightarrow> 'a wait_heap_scheme option" where
  "raw_down others wait sem s =
     do {
       let s = add_wait_queue (sem_wait sem) wait (new_wait wait s);
       let s = set_state (current s) TASK_UNINTERRUPTIBLE s;
       s \<leftarrow> raw_down_loop others sem s;
       let s = set_state (current s) TASK_RUNNING s;
       remove_wait_queue (sem_wait sem) wait s
     }"

definition raw_up :: "addr \<Rightarrow> 'a wait_heap_scheme \<Rightarrow> 'a wait_heap_scheme option" where
  "raw_up sem s = wake_up (sem_wait sem) (s\<lparr>sem_count := (sem_count s)(sem := sem_count s sem + 1)\<rparr>)"

definition down ::
  "('a wait_heap_scheme \<Rightarrow> 'a wait_heap_scheme) \<Rightarrow> addr \<Rightarrow> addr \<Rightarrow> 'a wait_heap_scheme \<Rightarrow> 'a wait_heap_scheme option" where
  "down others wait sem s =
     do {
       s \<leftarrow> (if sint (sem_count s sem) \<le> 0 then raw_down others wait sem s else Some s);
       Some (s\<lparr>sem_count := (sem_count s)(sem := sem_count s sem - 1)\<rparr>)
     }"

definition up :: "addr \<Rightarrow> 'a wait_heap_scheme \<Rightarrow> 'a wait_heap_scheme option" where
  "up sem s = raw_up sem s"

end
