(* ===== verification/Process.thy ===== *)
theory Process
  imports Wait Slab
begin

section \<open>Processes, descriptors and signals\<close>

text \<open>
  The model of \<^verbatim>\<open>kernel/fork.c\<close>, \<^verbatim>\<open>kernel/signal.c\<close>, the descriptors of \<^verbatim>\<open>kernel/traps.c\<close> and
  \<^verbatim>\<open>kernel/proc.c\<close>. \<^verbatim>\<open>do_fork\<close> allocates the task from a slab cache and queues it, so its state is the
  pair of the memory allocator's heap and the scheduler's. \<^verbatim>\<open>char\<close> and \<^verbatim>\<open>short\<close> are signed: the
  fields of a descriptor are extended with their sign when they are read.
\<close>

subsection \<open>Descriptors\<close>

definition init_descriptor :: "u32 \<Rightarrow> u32 \<Rightarrow> u16 \<Rightarrow> descriptor" where
  "init_descriptor base limit attribute =
     \<lparr>limit_low = ucast (limit AND 0x0FFFF),
      base_low = ucast (base AND 0x0FFFF),
      base_mid = ucast (signed_drop_bit 16 base AND 0x0FF),
      attr1 = ucast (attribute AND 0xFF),
      limit_high_attr2 = ucast ((signed_drop_bit 16 limit AND 0x0F) OR (signed_drop_bit 8 (scast attribute :: u32) AND 0xF0)),
      base_high = ucast (signed_drop_bit 24 base AND 0x0FF)\<rparr>"

definition get_limit :: "descriptor option \<Rightarrow> u32" where
  "get_limit dp =
     (case dp of None \<Rightarrow> 0
      | Some d \<Rightarrow> signed_drop_bit 16 ((scast (limit_high_attr2 d) :: u32) AND 0xF) + scast (limit_low d))"

definition get_base :: "descriptor option \<Rightarrow> u32" where
  "get_base dp =
     (case dp of None \<Rightarrow> 0
      | Some d \<Rightarrow> push_bit 24 (scast (base_high d)) + push_bit 16 (scast (base_mid d)) + scast (base_low d))"

definition ldt_seg_linear :: "descriptor \<Rightarrow> u32" where
  "ldt_seg_linear d = scast (base_low d) OR push_bit 16 (scast (base_mid d)) OR push_bit 24 (scast (base_high d))"

definition seg2phys :: "u16 \<Rightarrow> descriptor list \<Rightarrow> u32 option" where
  "seg2phys seg gdt =
     (let i = sint (signed_drop_bit 3 (scast seg :: u32)) in
      if 0 \<le> i \<and> nat i < length gdt
      then Some (push_bit 24 (scast (base_high (gdt ! nat i))) OR push_bit 16 (scast (base_mid (gdt ! nat i)))
                 OR scast (base_low (gdt ! nat i)))
      else None)"

record gate =
  offset_low :: u16
  selector :: u16
  dcount :: u8
  attr :: u8
  offset_high :: u16

abbreviation (input) SELECTOR_KERNEL_CS :: u16 where
  "SELECTOR_KERNEL_CS \<equiv> 8"

definition init_idt_desc :: "nat \<Rightarrow> u8 \<Rightarrow> u32 \<Rightarrow> u8 \<Rightarrow> gate list \<Rightarrow> gate list option" where
  "init_idt_desc n desc_type handler privilege idt =
     (if n < length idt
      then Some (idt[n := \<lparr>offset_low = ucast (handler AND 0xFFFF), selector = SELECTOR_KERNEL_CS, dcount = 0,
                           attr = desc_type OR ucast (push_bit 5 (ucast privilege :: u32)),
                           offset_high = ucast (signed_drop_bit 16 handler AND 0xFFFF)\<rparr>])
      else None)"

subsection \<open>Signals\<close>

definition get_signal_bitmap :: "'a sched_heap_scheme \<Rightarrow> u32" where
  "get_signal_bitmap s = tsk_signal s (current s)"

definition do_signal :: "nat \<Rightarrow> 'a sched_heap_scheme \<Rightarrow> 'a sched_heap_scheme" where
  "do_signal signr s =
     s\<lparr>tsk_signal := (tsk_signal s)(current s := tsk_signal s (current s) AND NOT (push_bit signr 1))\<rparr>"

abbreviation (input) NR_SIGNALS :: nat where
  "NR_SIGNALS \<equiv> 32"

abbreviation (input) SIGKILL :: int where
  "SIGKILL \<equiv> 9"

definition send_signal :: "int \<Rightarrow> int \<Rightarrow> int" where
  "send_signal signr pid =
     (if signr < 0 \<or> signr > int NR_SIGNALS \<or> signr = SIGKILL then -1
      else if pid < 0 \<or> pid > NR_PROCESS then -1
      else 0)"

subsection \<open>Fork\<close>

definition get_empty_process :: "'m slab_heap_scheme \<Rightarrow> (addr \<times> 'm slab_heap_scheme) option" where
  "get_empty_process m = kmem_get_obj (tsk_cachep m) m"

definition copy_regs :: "addr \<Rightarrow> 'a sched_heap_scheme \<Rightarrow> 'a sched_heap_scheme" where
  "copy_regs p s =
     (let c = tsk_regs s (current s);
          r = (tsk_regs s p)\<lparr>r_cs := r_cs c, r_ds := r_ds c, r_es := r_es c, r_fs := r_fs c, r_ss := r_ss c, r_gs := r_gs c,
                r_eip := r_eip c, r_esp := r_esp c, r_eflags := r_eflags c\<rparr>;
          s = s\<lparr>tsk_regs := (tsk_regs s)(p := r)\<rparr>;
          s = set_ticks p (tsk_ticks s (current s)) s
      in s\<lparr>tsk_priority := (tsk_priority s)(p := tsk_priority s (current s))\<rparr>)"

definition copy_mem :: "addr \<Rightarrow> 'a sched_heap_scheme \<Rightarrow> int \<times> 'a sched_heap_scheme" where
  "copy_mem p s = (0, s\<lparr>tsk_ldts := (tsk_ldts s)(p := tsk_ldts s (current s))\<rparr>)"

fun init_sig_action :: "addr \<Rightarrow> addr \<Rightarrow> nat list \<Rightarrow> 'a sched_heap_scheme \<Rightarrow> 'a sched_heap_scheme" where
  "init_sig_action handler p [] s = s"
| "init_sig_action handler p (i # is) s =
     init_sig_action handler p is
       (s\<lparr>tsk_sa_flags := (tsk_sa_flags s)(p := (tsk_sa_flags s p)(i := 0)),
          tsk_sa_handler := (tsk_sa_handler s)(p := (tsk_sa_handler s p)(i := handler))\<rparr>)"

text \<open>
  \<open>child_proc\<close> and \<open>do_signal_addr\<close> are the addresses of the functions \<^verbatim>\<open>ChildProc\<close> and \<^verbatim>\<open>do_signal\<close>.
  \<^verbatim>\<open>pid_t\<close> is unsigned, so the test for a negative number never holds; a cache without objects
  is a panic (\<open>None\<close>), and so is a call through a null class.
\<close>

definition do_fork ::
  "addr \<Rightarrow> addr \<Rightarrow> 'm slab_heap_scheme \<times> 'a sched_heap_scheme
   \<Rightarrow> (int \<times> 'm slab_heap_scheme \<times> 'a sched_heap_scheme) option" where
  "do_fork child_proc do_signal_addr ms =
     do {
       let (m, s) = ms;
       (p, m) \<leftarrow> get_empty_process m;
       if p = NULL then None
       else do {
         (pid, pm) \<leftarrow> get_pidmap (pidmap s);
         let s = s\<lparr>pidmap := pm, tsk_pid := (tsk_pid s)(p := pid)\<rparr>;
         let s = s\<lparr>tsk_parent := (tsk_parent s)(p := current s)\<rparr>;
         let s = s\<lparr>tsk_sibling := (tsk_sibling s)(p := NULL)\<rparr>;
         let s = s\<lparr>tsk_next := (tsk_next s)(p := NULL)\<rparr>;
         let s = init_sig_action do_signal_addr p [0..<NR_SIGNALS] s;
         let s = s\<lparr>tsk_signal := (tsk_signal s)(p := 0)\<rparr>;
         let s = s\<lparr>tsk_class := (tsk_class s)(p := tsk_class s (current s))\<rparr>;
         let s = s\<lparr>tsk_ldt_sel := (tsk_ldt_sel s)(p := tsk_ldt_sel s (current s))\<rparr>;
         let (_, s) = copy_mem p s;
         let s = copy_regs p s;
         let s = s\<lparr>tsk_regs := (tsk_regs s)(p := (tsk_regs s p)\<lparr>r_eip := child_proc\<rparr>)\<rparr>;
         let s = set_vruntime (sched_entity p) 10 s;
         let s = set_state p TASK_RUNNING s;
         cls \<leftarrow> tsk_class s p;
         s \<leftarrow> enqueue_task cls (sched_rq s) p 0 s;
         Some (sint (tsk_pid s p), m, s)
       }
     }"

end
