(* ===== verification/Radix_tree.thy ===== *)
theory Radix_tree
  imports Slab
begin

section \<open>Radix trees\<close>

text \<open>
  The model of \<^verbatim>\<open>lib/radix-tree.c\<close>. A pointer cell (\<^verbatim>\<open>struct radix_tree_node **\<close>) is the address of
  a word of \<open>rt_slot\<close>: the slots of a node are the 16 words from offset 4 on, and the root
  pointer of a tree is the word at offset 8 of its \<^verbatim>\<open>struct radix_tree_root\<close>. The nodes are objects
  of a slab cache, and only their first 8 bytes are cleared.
\<close>

subsection \<open>State\<close>

record radix_heap = slab_heap +
  rt_count :: "addr \<Rightarrow> u32"
  rt_slot :: "addr \<Rightarrow> addr"
  rt_height :: "addr \<Rightarrow> u32"
  radix_tree_node_cachep :: addr

abbreviation (input) RADIX_TREE_SLOT_RESERVED :: addr where
  "RADIX_TREE_SLOT_RESERVED \<equiv> 0xffffffff"

definition rnode :: "addr \<Rightarrow> addr" where
  "rnode root = root + 8"

definition slot_addr :: "addr \<Rightarrow> u32 \<Rightarrow> addr" where
  "slot_addr node i = node + 4 + 4 * i"

definition set_slot :: "addr \<Rightarrow> addr \<Rightarrow> 'a radix_heap_scheme \<Rightarrow> 'a radix_heap_scheme" where
  "set_slot p v s = s\<lparr>rt_slot := (rt_slot s)(p := v)\<rparr>"

definition set_count :: "addr \<Rightarrow> u32 \<Rightarrow> 'a radix_heap_scheme \<Rightarrow> 'a radix_heap_scheme" where
  "set_count node v s = s\<lparr>rt_count := (rt_count s)(node := v)\<rparr>"

definition set_height :: "addr \<Rightarrow> u32 \<Rightarrow> 'a radix_heap_scheme \<Rightarrow> 'a radix_heap_scheme" where
  "set_height root v s = s\<lparr>rt_height := (rt_height s)(root := v)\<rparr>"

subsection \<open>Operations\<close>

text \<open>The \<^verbatim>\<open>memset\<close> clears \<^verbatim>\<open>sizeof(struct list_head)\<close> bytes: the count and the first slot.\<close>

definition radix_tree_node_alloc :: "'a radix_heap_scheme \<Rightarrow> (addr \<times> 'a radix_heap_scheme) option" where
  "radix_tree_node_alloc s =
     do {
       (node, s) \<leftarrow> kmem_get_obj (radix_tree_node_cachep s) s;
       Some (node, if node \<noteq> NULL then set_slot (slot_addr node 0) NULL (set_count node 0 s) else s)
     }"

definition radix_tree_node_free :: "addr \<Rightarrow> 'a radix_heap_scheme \<Rightarrow> 'a radix_heap_scheme option" where
  "radix_tree_node_free node s = map_option snd (kmem_free_obj (radix_tree_node_cachep s) node s)"

text \<open>
  \<^verbatim>\<open>(~0UL >> (32 - tmp - 1)) >> 1\<close>: the processor takes a shift count modulo 32. A height of 8 and
  more is answered by the test below, so its shift does not matter.
\<close>

definition radix_tree_maxindex :: "u32 \<Rightarrow> u32" where
  "radix_tree_maxindex height =
     (let tmp = height * 4;
          index = drop_bit 1 (drop_bit (unat ((32 - tmp - 1) AND 31)) (0xffffffff :: u32))
      in if tmp \<ge> 32 then 0xffffffff else index)"

partial_function (option) radix_height_loop :: "u32 \<Rightarrow> u32 \<Rightarrow> u32 option" where
  "radix_height_loop index height =
     (if index > radix_tree_maxindex height then radix_height_loop index (height + 1) else Some height)"

partial_function (option) radix_extend_loop ::
  "addr \<Rightarrow> u32 \<Rightarrow> 'a radix_heap_scheme \<Rightarrow> (int \<times> 'a radix_heap_scheme) option" where
  "radix_extend_loop root height s =
     do {
       (node, s) \<leftarrow> radix_tree_node_alloc s;
       if node = NULL then Some (-2, s)
       else do {
         let s = set_slot (slot_addr node 0) (rt_slot s (rnode root)) s;
         let s = (if rt_slot s (rnode root) \<noteq> NULL then set_count node 1 s else s);
         let s = set_slot (rnode root) node s;
         let s = set_height root (rt_height s root + 1) s;
         if height > rt_height s root then radix_extend_loop root height s else Some (0, s)
       }
     }"

definition radix_tree_extend :: "addr \<Rightarrow> u32 \<Rightarrow> 'a radix_heap_scheme \<Rightarrow> (int \<times> 'a radix_heap_scheme) option" where
  "radix_tree_extend root index s =
     do {
       height \<leftarrow> radix_height_loop index (rt_height s root + 1);
       if rt_slot s (rnode root) \<noteq> NULL then radix_extend_loop root height s
       else Some (0, set_height root height s)
     }"

text \<open>
  The descent of \<^verbatim>\<open>radix_tree_reserve\<close>: \<open>height\<close> levels below \<open>slot\<close>, with new nodes for empty
  slots. The result is the error or the last node and slot. \<^verbatim>\<open>shift\<close> is a multiple of 4 below
  32, and -4 after the last level, where it is not used.
\<close>

fun radix_reserve_loop ::
  "nat \<Rightarrow> u32 \<Rightarrow> u32 \<Rightarrow> addr \<Rightarrow> addr \<Rightarrow> 'a radix_heap_scheme
   \<Rightarrow> ((int + addr \<times> addr) \<times> 'a radix_heap_scheme) option" where
  "radix_reserve_loop 0 index shift node slot s = Some (Inr (node, slot), s)"
| "radix_reserve_loop (Suc height) index shift node slot s =
     do {
       (e, s) \<leftarrow>
         (if rt_slot s slot = NULL then do {
            (tmp, s) \<leftarrow> radix_tree_node_alloc s;
            if tmp = NULL then Some (True, s)
            else do {
              let s = set_slot slot tmp s;
              Some (False, if node \<noteq> NULL then set_count node (rt_count s node + 1) s else s)
            }
          } else Some (False, s));
       if e then Some (Inl (-2), s)
       else do {
         let node = rt_slot s slot;
         let slot = slot_addr node (drop_bit (unat (shift AND 31)) index AND 15);
         radix_reserve_loop height index (shift - 4) node slot s
       }
     }"

definition radix_tree_reserve ::
  "addr \<Rightarrow> u32 \<Rightarrow> 'a radix_heap_scheme \<Rightarrow> ((int \<times> addr) \<times> 'a radix_heap_scheme) option" where
  "radix_tree_reserve root index s =
     do {
       (error, s) \<leftarrow> (if index > radix_tree_maxindex (rt_height s root)
                      then radix_tree_extend root index s else Some (0, s));
       if error \<noteq> 0 then Some ((error, NULL), s)
       else do {
         let height = rt_height s root;
         (r, s) \<leftarrow> radix_reserve_loop (unat height) index ((height - 1) * 4) NULL (rnode root) s;
         case r of
           Inl e \<Rightarrow> Some ((e, NULL), s)
         | Inr (node, slot) \<Rightarrow>
             if rt_slot s slot \<noteq> NULL then Some ((-3, NULL), s)
             else do {
               let s = (if node \<noteq> NULL then set_count node (rt_count s node + 1) s else s);
               Some ((0, slot), set_slot slot RADIX_TREE_SLOT_RESERVED s)
             }
       }
     }"

definition radix_tree_insert ::
  "addr \<Rightarrow> u32 \<Rightarrow> addr \<Rightarrow> 'a radix_heap_scheme \<Rightarrow> (int \<times> 'a radix_heap_scheme) option" where
  "radix_tree_insert root index item s =
     do {
       ((error, slot), s) \<leftarrow> radix_tree_reserve root index s;
       if error = 0 then Some (0, set_slot slot item s) else Some (error, s)
     }"

fun radix_lookup_loop :: "nat \<Rightarrow> u32 \<Rightarrow> u32 \<Rightarrow> addr \<Rightarrow> 'a radix_heap_scheme \<Rightarrow> addr" where
  "radix_lookup_loop 0 index shift slot s = rt_slot s slot"
| "radix_lookup_loop (Suc height) index shift slot s =
     (if rt_slot s slot = NULL then NULL
      else radix_lookup_loop height index (shift - 4)
             (slot_addr (rt_slot s slot) (drop_bit (unat (shift AND 31)) index AND 15)) s)"

definition radix_tree_lookup :: "addr \<Rightarrow> u32 \<Rightarrow> 'a radix_heap_scheme \<Rightarrow> addr" where
  "radix_tree_lookup root index s =
     (let height = rt_height s root in
      if index > radix_tree_maxindex height then NULL
      else radix_lookup_loop (unat height) index ((height - 1) * 4) (rnode root) s)"

text \<open>The body of \<^verbatim>\<open>radix_tree_delete\<close> is compiled out.\<close>

definition radix_tree_delete :: "addr \<Rightarrow> u32 \<Rightarrow> 'a radix_heap_scheme \<Rightarrow> int \<times> 'a radix_heap_scheme" where
  "radix_tree_delete root index s = (0, s)"

text \<open>\<open>name\<close> is the address of the cache's name; no cache is a panic.\<close>

definition radix_tree_init :: "addr \<Rightarrow> 'a radix_heap_scheme \<Rightarrow> 'a radix_heap_scheme option" where
  "radix_tree_init name s =
     do {
       (c, s) \<leftarrow> kmem_cache_create name 68 0 s;
       let s = s\<lparr>radix_tree_node_cachep := c\<rparr>;
       if c = NULL then None else Some s
     }"

end
