(* ===== verification/Bytes.thy ===== *)
theory Bytes
  imports Kstring
begin

section \<open>Words in byte memory\<close>

text \<open>16-bit and 32-bit numbers in memory, the low byte first.\<close>

definition load16 :: "bytes \<Rightarrow> addr \<Rightarrow> u16" where
  "load16 m a = ucast (m a) OR push_bit 8 (ucast (m (a + 1)))"

definition store16 :: "addr \<Rightarrow> u16 \<Rightarrow> bytes \<Rightarrow> bytes" where
  "store16 a v m = m(a := ucast v, a + 1 := ucast (drop_bit 8 v))"

definition load32 :: "bytes \<Rightarrow> addr \<Rightarrow> u32" where
  "load32 m a = ucast (m a) OR push_bit 8 (ucast (m (a + 1))) OR push_bit 16 (ucast (m (a + 2)))
     OR push_bit 24 (ucast (m (a + 3)))"

definition store32 :: "addr \<Rightarrow> u32 \<Rightarrow> bytes \<Rightarrow> bytes" where
  "store32 a v m = m(a := ucast v, a + 1 := ucast (drop_bit 8 v), a + 2 := ucast (drop_bit 16 v),
     a + 3 := ucast (drop_bit 24 v))"

lemma load16_store16 [simp]: "load16 (store16 a v m) a = v"
  by (rule bit_word_eqI) (auto simp: load16_def store16_def bit_simps)

lemma addr_add_ne [simp]: "(a :: addr) + 1 \<noteq> a" "a \<noteq> a + 1" "a + 2 \<noteq> a" "a + 3 \<noteq> a" "a \<noteq> a + 2" "a \<noteq> a + 3"
  "a + 2 \<noteq> a + 1" "a + 3 \<noteq> a + 1" "a + 3 \<noteq> a + 2" "a + 1 \<noteq> a + 2" "a + 1 \<noteq> a + 3" "a + 2 \<noteq> a + 3"
  by simp_all

lemma load32_store32 [simp]: "load32 (store32 a v m) a = v"
proof (rule bit_word_eqI)
  fix n assume n: "n < LENGTH(32)"
  then consider "n < 8" | "8 \<le> n \<and> n < 16" | "16 \<le> n \<and> n < 24" | "24 \<le> n" by linarith
  then show "bit (load32 (store32 a v m) a) n = bit v n"
    using n by cases (auto simp: load32_def store32_def bit_simps)
qed

end
