(* ===== verification/Pgtable.thy ===== *)
theory Pgtable
  imports Radix_tree Bytes
begin

section \<open>Page tables\<close>

text \<open>
  The model of \<^verbatim>\<open>mm/pgtable.c\<close>, with \<^verbatim>\<open>swap_free\<close> of \<^verbatim>\<open>mm/swap.c\<close>, which it calls, and the low
  memory allocator of \<^verbatim>\<open>mm/memory.c\<close>. Entries of page tables and of \<^verbatim>\<open>mem_map\<close> are 32-bit words in
  byte memory, since the code computes addresses of entries that are not aligned. An entry
  that a function takes by value is a number here, so clearing it changes no memory. A panic
  is \<open>None\<close>.
\<close>

subsection \<open>State\<close>

record swap_info =
  swi_file :: addr
  swi_device :: u32
  swi_map :: addr
  swi_lowest :: u32
  swi_highest :: u32
  swi_max :: u32

record pgt_heap = radix_heap +
  mem_map :: addr
  page_fns :: u32
  low_mem_start :: u32
  low_mem_end :: u32
  main_memory_end :: u32
  swapper_pg_dir :: addr
  cur_task :: addr
  tsk_cr3 :: "addr \<Rightarrow> u32"
  tsk_mm :: "addr \<Rightarrow> addr"
  mm_rss :: "addr \<Rightarrow> u32"
  nr_swapfiles :: u32
  nr_swap_pages :: u32
  swap_files :: "swap_info list"

definition entry :: "addr \<Rightarrow> 'a pgt_heap_scheme \<Rightarrow> u32" where
  "entry p s = load32 (mem s) p"

definition set_entry :: "addr \<Rightarrow> u32 \<Rightarrow> 'a pgt_heap_scheme \<Rightarrow> 'a pgt_heap_scheme" where
  "set_entry p v s = s\<lparr>mem := store32 p v (mem s)\<rparr>"

abbreviation (input) PAGE_PRESENT :: u32 where "PAGE_PRESENT \<equiv> 0x001"
abbreviation (input) PAGE_RW :: u32 where "PAGE_RW \<equiv> 0x002"
abbreviation (input) PAGE_ACCESSED :: u32 where "PAGE_ACCESSED \<equiv> 0x008"
abbreviation (input) PAGE_DIRTY :: u32 where "PAGE_DIRTY \<equiv> 0x010"
abbreviation (input) PAGE_BAD :: u32 where "PAGE_BAD \<equiv> 0x800"
abbreviation (input) PAGE_SHARED :: u32 where "PAGE_SHARED \<equiv> 0x7"
abbreviation (input) PAGE_TABLE :: u32 where "PAGE_TABLE \<equiv> 0x17"
abbreviation (input) PAGE_MASK :: u32 where "PAGE_MASK \<equiv> 0xfffff000"
abbreviation (input) PGD_SIZE :: u32 where "PGD_SIZE \<equiv> 0x400000"
abbreviation (input) PGD_MASK :: u32 where "PGD_MASK \<equiv> 0xffc00000"
abbreviation (input) PAGE_OFFSET :: u32 where "PAGE_OFFSET \<equiv> 0xC0000000"
abbreviation (input) PTRS_PER_PTE :: nat where "PTRS_PER_PTE \<equiv> 1024"
abbreviation (input) PTRS_PER_PGD :: nat where "PTRS_PER_PGD \<equiv> 1024"

definition MAP_NR :: "u32 \<Rightarrow> u32" where
  "MAP_NR a = drop_bit 12 a"

definition mem_map_page :: "u32 \<Rightarrow> 'a pgt_heap_scheme \<Rightarrow> addr" where
  "mem_map_page i s = load32 (mem s) (mem_map s + 4 * i)"

definition free_page :: "addr \<Rightarrow> 'a mm_heap_scheme \<Rightarrow> 'a mm_heap_scheme option" where
  "free_page page s = map_option snd (free_pages page 0 s)"

subsection \<open>Entries\<close>

definition pmd_none :: "u32 \<Rightarrow> bool" where
  "pmd_none pmd \<longleftrightarrow> pmd = 0"

definition pmd_bad :: "u32 \<Rightarrow> 'a pgt_heap_scheme \<Rightarrow> bool" where
  "pmd_bad pmd s \<longleftrightarrow> pmd AND NOT PAGE_MASK \<noteq> PAGE_TABLE \<or> pmd > main_memory_end s"

definition pte_none :: "u32 \<Rightarrow> bool" where
  "pte_none pte \<longleftrightarrow> pte = 0"

definition pgd_none :: "u32 \<Rightarrow> bool" where
  "pgd_none pgd \<longleftrightarrow> pgd = 0"

definition pgd_bad :: "u32 \<Rightarrow> bool" where
  "pgd_bad pgd \<longleftrightarrow> False"

definition pte_present :: "u32 \<Rightarrow> bool" where
  "pte_present pte \<longleftrightarrow> pte AND PAGE_PRESENT \<noteq> 0"

text \<open>The entry to clear is a copy: the functions return 0 and change nothing.\<close>

definition pte_clear :: "u32 \<Rightarrow> u32" where
  "pte_clear pte = 0"

definition pmd_clear :: "u32 \<Rightarrow> u32" where
  "pmd_clear pmd = 0"

definition pgd_clear :: "u32 \<Rightarrow> u32" where
  "pgd_clear pgd = 0"

definition pte_page :: "u32 \<Rightarrow> 'a pgt_heap_scheme \<Rightarrow> addr" where
  "pte_page pte s = mem_map_page (MAP_NR pte) s"

definition pmd_page :: "u32 \<Rightarrow> 'a pgt_heap_scheme \<Rightarrow> addr" where
  "pmd_page pmd s = mem_map_page (MAP_NR pmd) s"

definition pgd_page :: "u32 \<Rightarrow> 'a pgt_heap_scheme \<Rightarrow> addr" where
  "pgd_page pgd s = mem_map_page (MAP_NR pgd) s"

definition pte_free :: "u32 \<Rightarrow> 'a pgt_heap_scheme \<Rightarrow> 'a pgt_heap_scheme option" where
  "pte_free pte s = free_page (pte_page pte s) s"

definition pmd_free :: "u32 \<Rightarrow> 'a pgt_heap_scheme \<Rightarrow> 'a pgt_heap_scheme option" where
  "pmd_free pmd s = free_page (pmd_page pmd s) s"

definition pgd_free :: "u32 \<Rightarrow> 'a pgt_heap_scheme \<Rightarrow> 'a pgt_heap_scheme option" where
  "pgd_free pgd s = free_page (pgd_page pgd s) s"

definition pte_inuse :: "addr \<Rightarrow> 'a pgt_heap_scheme \<Rightarrow> bool" where
  "pte_inuse pte s \<longleftrightarrow> pg_flags s (mem_map_page (MAP_NR (entry pte s)) s) AND PAGE_PRESENT \<noteq> 0"

definition pmd_inuse :: "addr \<Rightarrow> 'a pgt_heap_scheme \<Rightarrow> bool" where
  "pmd_inuse pmd s \<longleftrightarrow> pg_flags s (mem_map_page (MAP_NR (entry pmd s)) s) AND PAGE_PRESENT \<noteq> 0"

definition pgd_inuse :: "addr \<Rightarrow> 'a pgt_heap_scheme \<Rightarrow> bool" where
  "pgd_inuse pgd s \<longleftrightarrow> pg_flags s (mem_map_page (MAP_NR (entry pgd s)) s) AND PAGE_PRESENT \<noteq> 0"

definition mk_pte :: "u32 \<Rightarrow> u32 \<Rightarrow> u32" where
  "mk_pte a pgprot = (a + PAGE_OFFSET) OR pgprot"

definition mk_pgd :: "u32 \<Rightarrow> u32 \<Rightarrow> u32" where
  "mk_pgd a pgprot = (a + PAGE_OFFSET) OR pgprot"

text \<open>\<^verbatim>\<open>addr> PTE_SHIFT\<close> is a comparison, not a shift.\<close>

definition pte_offset :: "addr \<Rightarrow> u32 \<Rightarrow> 'a pgt_heap_scheme \<Rightarrow> addr" where
  "pte_offset pmd a s = pg_address s (pmd_page (entry pmd s) s) + ((if a > 12 then 1 else 0) AND 1023)"

definition pmd_offset :: "addr \<Rightarrow> u32 \<Rightarrow> 'a pgt_heap_scheme \<Rightarrow> addr" where
  "pmd_offset pgd a s = pg_address s (pgd_page (entry pgd s) s) + ((if a > 22 then 1 else 0) AND 0)"

text \<open>The index is added to a number, not to a pointer, so it is not scaled by the entry size.\<close>

definition pgd_offset :: "addr \<Rightarrow> u32 \<Rightarrow> 'a pgt_heap_scheme \<Rightarrow> addr" where
  "pgd_offset tsk a s = tsk_cr3 s tsk + drop_bit 22 a"

definition pmd_alloc :: "addr \<Rightarrow> u32 \<Rightarrow> addr" where
  "pmd_alloc pgd a = pgd"

definition pte_iswrite :: "u32 \<Rightarrow> bool" where
  "pte_iswrite pte \<longleftrightarrow> pte AND PAGE_RW \<noteq> 0"

definition pte_mkwrite :: "u32 \<Rightarrow> u32" where
  "pte_mkwrite pte = pte OR PAGE_RW"

definition pte_mkyoung :: "u32 \<Rightarrow> u32" where
  "pte_mkyoung pte = pte OR PAGE_ACCESSED"

definition pte_mkdirty :: "u32 \<Rightarrow> u32" where
  "pte_mkdirty pte = pte OR PAGE_DIRTY"

text \<open>
  The result of the last line is a \<^verbatim>\<open>struct page\<close> of \<^verbatim>\<open>mem_map\<close> plus an index, so the index is
  scaled by the 56 bytes of that struct.
\<close>

definition pte_alloc :: "addr \<Rightarrow> u32 \<Rightarrow> 'a pgt_heap_scheme \<Rightarrow> (addr \<times> 'a pgt_heap_scheme) option" where
  "pte_alloc pmd a s =
     do {
       let i = drop_bit 12 a AND 1023;
       (done, s) \<leftarrow>
         (if pmd_none (entry pmd s) then do {
            (page, s) \<leftarrow> get_free_page GFP_KERNEL s;
            if pmd_none (entry pmd s) then
              (if page \<noteq> 0 then Some (Some (page + 4 * i), set_entry pmd (PAGE_TABLE OR page) s)
               else Some (Some NULL, set_entry pmd (PAGE_TABLE OR PAGE_BAD) s))
            else do { s \<leftarrow> free_page (pte_page (entry page s) s) s; Some (None, s) }
          } else Some (None, s));
       case done of
         Some r \<Rightarrow> Some (r, s)
       | None \<Rightarrow>
           if pmd_bad (entry pmd s) s then Some (NULL, set_entry pmd (PAGE_TABLE OR PAGE_BAD) s)
           else Some (pmd_page (entry pmd s) s + 56 * i, s)
     }"

subsection \<open>Swap entries\<close>

definition SWAP_TYPE :: "u32 \<Rightarrow> u32" where
  "SWAP_TYPE v = drop_bit 1 v AND 0x3f"

definition SWAP_OFFSET :: "u32 \<Rightarrow> u32" where
  "SWAP_OFFSET v = drop_bit 8 v"

definition swap_free :: "u32 \<Rightarrow> 'a pgt_heap_scheme \<Rightarrow> 'a pgt_heap_scheme option" where
  "swap_free e s =
     (let type = SWAP_TYPE e; offset = SWAP_OFFSET e in
      if e = 0 then Some s
      else if type \<ge> nr_swapfiles s then Some s
      else if unat type \<ge> length (swap_files s) then None
      else
        (let p = swap_files s ! unat type in
         if offset \<ge> swi_max p then Some s
         else if mem s (swi_map p + offset) < 16 then
           (let p = (if offset < swi_lowest p then p\<lparr>swi_lowest := offset\<rparr> else p);
                p = (if offset < swi_highest p then p\<lparr>swi_highest := offset\<rparr> else p)
            in Some (s\<lparr>swap_files := (swap_files s)[unat type := p], nr_swap_pages := nr_swap_pages s + 1\<rparr>))
         else Some s))"

subsection \<open>Freeing page tables\<close>

definition forget_pte :: "u32 \<Rightarrow> 'a pgt_heap_scheme \<Rightarrow> 'a pgt_heap_scheme option" where
  "forget_pte pte s =
     (if pte_none pte then Some s
      else if pte_present pte then do {
        s \<leftarrow> free_page (pte_page pte s) s;
        let mm = tsk_mm s (cur_task s);
        if mm_rss s mm \<le> 0 then Some s
        else Some (s\<lparr>mm_rss := (mm_rss s)(mm := mm_rss s mm - 1)\<rparr>)
      }
      else swap_free pte s)"

definition free_one_pte :: "addr \<Rightarrow> 'a pgt_heap_scheme \<Rightarrow> 'a pgt_heap_scheme option" where
  "free_one_pte pgtable s =
     (let page = entry pgtable s in
      if pte_none page then Some s
      else (let _ = pte_clear (entry pgtable s) in
            if \<not> pte_present page then Some s else free_page (pte_page page s) s))"

fun free_ptes :: "nat \<Rightarrow> addr \<Rightarrow> 'a pgt_heap_scheme \<Rightarrow> 'a pgt_heap_scheme option" where
  "free_ptes 0 pte s = Some s"
| "free_ptes (Suc n) pte s = do { s \<leftarrow> free_one_pte pte s; free_ptes n (pte + 4) s }"

definition free_one_pmd :: "addr \<Rightarrow> 'a pgt_heap_scheme \<Rightarrow> 'a pgt_heap_scheme option" where
  "free_one_pmd pmd s =
     (if pmd_none (entry pmd s) then Some s
      else (let pte = pte_offset pmd 0 s; _ = pmd_clear (entry pmd s) in
            if pte_inuse pte s then pte_free (entry pte s) s
            else free_ptes PTRS_PER_PTE pte s))"

text \<open>\<^verbatim>\<open>PTRS_PER_PMD\<close> is 1.\<close>

definition free_one_pgd :: "addr \<Rightarrow> 'a pgt_heap_scheme \<Rightarrow> 'a pgt_heap_scheme option" where
  "free_one_pgd pgd s =
     (if pgd_none (entry pgd s) then Some s
      else (let pmd = pmd_offset pgd 0 s; _ = pgd_clear (entry pgd s) in
            if pmd_inuse pmd s then pmd_free (entry pmd s) s
            else free_one_pmd pmd s))"

fun free_pgds :: "nat \<Rightarrow> addr \<Rightarrow> 'a pgt_heap_scheme \<Rightarrow> 'a pgt_heap_scheme option" where
  "free_pgds 0 pgd s = Some s"
| "free_pgds (Suc n) pgd s = do { s \<leftarrow> free_one_pgd pgd s; free_pgds n (pgd + 4) s }"

definition free_page_tables :: "addr \<Rightarrow> 'a pgt_heap_scheme \<Rightarrow> 'a pgt_heap_scheme option" where
  "free_page_tables tsk s =
     (let pgd = pgd_offset tsk 0 s in
      if pgd = NULL \<or> pgd = swapper_pg_dir s then Some s
      else do {
        s \<leftarrow> (if pgd_inuse pgd s then free_page (pgd_page (entry pgd s) s) s else Some s);
        s \<leftarrow> free_pgds PTRS_PER_PGD pgd s;
        pgd_free (entry pgd s) s
      })"

definition put_page :: "addr \<Rightarrow> u32 \<Rightarrow> 'a pgt_heap_scheme \<Rightarrow> 'a pgt_heap_scheme option" where
  "put_page page_table pte s =
     (if \<not> pte_none (entry page_table s) then free_page (pte_page pte s) s
      else Some (set_entry page_table pte s))"

text \<open>\<open>prot\<close> is the \<^verbatim>\<open>vm_page_prot\<close> of the area.\<close>

definition get_empty_page :: "u32 \<Rightarrow> addr \<Rightarrow> 'a pgt_heap_scheme \<Rightarrow> 'a pgt_heap_scheme option" where
  "get_empty_page prot page_table s =
     do {
       (tmp, s) \<leftarrow> get_free_page GFP_KERNEL s;
       if tmp = 0 then None else put_page page_table (pte_mkwrite (mk_pte tmp prot)) s
     }"

subsection \<open>Unmapping\<close>

partial_function (option) unmap_ptes :: "addr \<Rightarrow> u32 \<Rightarrow> u32 \<Rightarrow> 'a pgt_heap_scheme \<Rightarrow> 'a pgt_heap_scheme option" where
  "unmap_ptes pte a end s =
     do {
       let page = entry pte s;
       let _ = pte_clear page;
       s \<leftarrow> forget_pte page s;
       if a + PAGE_SIZE < end then unmap_ptes (pte + 4) (a + PAGE_SIZE) end s else Some s
     }"

definition unmap_pte_range :: "addr \<Rightarrow> u32 \<Rightarrow> u32 \<Rightarrow> 'a pgt_heap_scheme \<Rightarrow> 'a pgt_heap_scheme option" where
  "unmap_pte_range pmd a sz s =
     (if pmd_none (entry pmd s) then Some s
      else if pmd_bad (entry pmd s) s then (let _ = pmd_clear (entry pmd s) in Some s)
      else
        (let pte = pte_offset pmd a s;
             a = a AND NOT PGD_MASK;
             end = a + sz;
             end = (if end \<ge> PGD_SIZE then PGD_SIZE else end)
         in unmap_ptes pte a end s))"

partial_function (option) unmap_pmds :: "addr \<Rightarrow> u32 \<Rightarrow> u32 \<Rightarrow> 'a pgt_heap_scheme \<Rightarrow> 'a pgt_heap_scheme option" where
  "unmap_pmds pmd a end s =
     do {
       s \<leftarrow> unmap_pte_range pmd a (end - a) s;
       let a = (a + PGD_SIZE) AND PGD_MASK;
       if a < end then unmap_pmds (pmd + 4) a end s else Some s
     }"

definition unmap_pmd_range :: "addr \<Rightarrow> u32 \<Rightarrow> u32 \<Rightarrow> 'a pgt_heap_scheme \<Rightarrow> 'a pgt_heap_scheme option" where
  "unmap_pmd_range pgd a sz s =
     (if pgd_none (entry pgd s) then Some s
      else if pgd_bad (entry pgd s) then (let _ = pgd_clear (entry pgd s) in Some s)
      else
        (let pmd = pmd_offset pgd a s;
             a = a AND NOT PGD_MASK;
             end = a + sz;
             end = (if end > PGD_SIZE then PGD_SIZE else end)
         in unmap_pmds pmd a end s))"

partial_function (option) unmap_pgds :: "addr \<Rightarrow> u32 \<Rightarrow> u32 \<Rightarrow> 'a pgt_heap_scheme \<Rightarrow> 'a pgt_heap_scheme option" where
  "unmap_pgds pgd a end s =
     do {
       s \<leftarrow> unmap_pmd_range pgd a (end - a) s;
       let a = (a + PGD_SIZE) AND PGD_MASK;
       if a < end then unmap_pgds (pgd + 4) a end s else Some s
     }"

definition unmap_page_range :: "u32 \<Rightarrow> u32 \<Rightarrow> 'a pgt_heap_scheme \<Rightarrow> (int \<times> 'a pgt_heap_scheme) option" where
  "unmap_page_range a sz s =
     (let end = a + sz;
          pgd = pgd_offset (cur_task s) a s
      in if pgd_none (entry pgd s) then Some (-1, s)
         else do { s \<leftarrow> unmap_pgds pgd a end s; Some (0, s) })"

end
