(* ===== verification/Memory.thy ===== *)
theory Memory
  imports Pgtable
begin

section \<open>Memory initialisation, faults, swap and the page cache\<close>

text \<open>
  The model of \<^verbatim>\<open>mm/memory.c\<close>, \<^verbatim>\<open>paging_init\<close> of \<^verbatim>\<open>mm/pgtable.c\<close>, the rest of \<^verbatim>\<open>mm/swap.c\<close>,
  \<^verbatim>\<open>mm/filemap.c\<close> and \<^verbatim>\<open>mm/kmalloc.c\<close>. A \<^verbatim>\<open>struct page\<close> has 56 bytes and its \<^verbatim>\<open>lru\<close> node lies at offset
  32; an \<^verbatim>\<open>address_space\<close> has its tree at offset 4 and its list of clean pages at offset 16.
  A panic is \<open>None\<close>, and so is a read through an uninitialised pointer.
\<close>

subsection \<open>State\<close>

record mem_heap = pgt_heap +
  vm_task :: "addr \<Rightarrow> addr"
  vm_page_prot :: "addr \<Rightarrow> u32"
  pg_count :: "addr \<Rightarrow> u32"
  pg_mapping :: "addr \<Rightarrow> addr"
  pg_index :: "addr \<Rightarrow> u32"
  inactive_list :: addr
  swap_cache_add_total :: u32

abbreviation (input) SAFE_GAP :: u32 where "SAFE_GAP \<equiv> 4096"
abbreviation (input) HIGH_MEM_ENTRY :: nat where "HIGH_MEM_ENTRY \<equiv> 0x300"

subsection \<open>Boot parameters and low memory\<close>

text \<open>\<^verbatim>\<open>struct boot_params\<close>: the words 1 and 2 at the address the loader leaves them.\<close>

record boot_params =
  mem_size :: u32
  kernel_addr :: addr

definition get_boot_params :: "bytes \<Rightarrow> boot_params" where
  "get_boot_params m = \<lparr>mem_size = load32 m (0x900 + 4), kernel_addr = load32 m (0x900 + 8)\<rparr>"

definition alloc_low_mem :: "u32 \<Rightarrow> 'a pgt_heap_scheme \<Rightarrow> (u32 \<times> 'a pgt_heap_scheme) option" where
  "alloc_low_mem memsize s =
     (if low_mem_start s + memsize > low_mem_end s then None
      else Some (low_mem_start s, s\<lparr>low_mem_start := low_mem_start s + (memsize + SAFE_GAP)\<rparr>))"

subsection \<open>Page tables of the kernel\<close>

text \<open>One round of the inner loop; the flag says that all memory is mapped.\<close>

fun paging_ptes ::
  "nat \<Rightarrow> u32 \<Rightarrow> u32 \<Rightarrow> addr \<Rightarrow> 'a pgt_heap_scheme \<Rightarrow> bool \<times> u32 \<times> addr \<times> 'a pgt_heap_scheme" where
  "paging_ptes 0 memory_size a pg_table s = (False, a, pg_table, s)"
| "paging_ptes (Suc n) memory_size a pg_table s =
     (if a < memory_size
      then paging_ptes n memory_size (a + PAGE_SIZE) (pg_table + 4) (set_entry pg_table (mk_pte a PAGE_SHARED) s)
      else (True, a, pg_table, s))"

text \<open>The directory entry is the same one in every round.\<close>

fun paging_pgds :: "nat \<Rightarrow> u32 \<Rightarrow> u32 \<Rightarrow> addr \<Rightarrow> addr \<Rightarrow> 'a pgt_heap_scheme \<Rightarrow> 'a pgt_heap_scheme" where
  "paging_pgds 0 memory_size a pg_dir pg_table s = s"
| "paging_pgds (Suc n) memory_size a pg_dir pg_table s =
     (case paging_ptes PTRS_PER_PTE memory_size a pg_table (set_entry pg_dir (mk_pgd pg_table PAGE_SHARED) s) of
        (finished, a, pg_table, s) \<Rightarrow>
          if finished then s else paging_pgds n memory_size a pg_dir pg_table s)"

definition paging_init :: "'a pgt_heap_scheme \<Rightarrow> (u32 \<times> 'a pgt_heap_scheme) option" where
  "paging_init s =
     do {
       let memory_size = mem_size (get_boot_params (mem s)) AND 0xfffff000;
       (pg_dir, s) \<leftarrow> alloc_low_mem (1024 * 4) s;
       (pg_table, s) \<leftarrow> alloc_low_mem (of_nat HIGH_MEM_ENTRY * 4) s;
       if pg_dir = NULL \<or> pg_table = NULL then Some (-1, s)
       else Some (0, paging_pgds (HIGH_MEM_ENTRY + 1) memory_size 0 pg_dir pg_table s)
     }"

subsection \<open>Faults\<close>

definition do_no_page :: "addr \<Rightarrow> u32 \<Rightarrow> int \<Rightarrow> 'a mem_heap_scheme \<Rightarrow> 'a mem_heap_scheme option" where
  "do_no_page vma a access_write s = map_option snd (get_free_page GFP_KERNEL s)"

definition get_empty_pgtable :: "addr \<Rightarrow> u32 \<Rightarrow> 'a mem_heap_scheme \<Rightarrow> (addr \<times> 'a mem_heap_scheme) option" where
  "get_empty_pgtable tsk a s =
     (let pmd = pmd_alloc (pgd_offset tsk a s) a in
      if pmd = NULL then None
      else do {
        (pte, s) \<leftarrow> pte_alloc pmd a s;
        if pte = NULL then None else Some (NULL, s)
      })"

definition zeromap_page_range :: "u32 \<Rightarrow> u32 \<Rightarrow> u32 \<Rightarrow> int" where
  "zeromap_page_range a sz prot = 0"

definition do_wp_page :: "addr \<Rightarrow> u32 \<Rightarrow> int \<Rightarrow> 'a mem_heap_scheme \<Rightarrow> 'a mem_heap_scheme option" where
  "do_wp_page vma a write_access s =
     do {
       (new_page, s) \<leftarrow> get_free_page GFP_KERNEL s;
       let pgd = pgd_offset (vm_task s vma) a s;
       if pgd_none (entry pgd s) \<or> pgd_bad (entry pgd s) then Some s
       else do {
         let pmd = pmd_offset pgd a s;
         if pmd_none (entry pmd s) \<or> pmd_bad (entry pmd s) s then Some s
         else do {
           let page_table = pte_offset pmd a s;
           let pte = entry page_table s;
           if \<not> pte_present pte \<or> pte_iswrite pte then Some s
           else if pg_address s (pte_page pte s) \<ge> main_memory_end s then Some s
           else Some (set_entry page_table (pte_mkdirty (pte_mkwrite pte)) s)
         }
       }
     }"

definition handle_pte_fault :: "addr \<Rightarrow> u32 \<Rightarrow> addr \<Rightarrow> int \<Rightarrow> 'a mem_heap_scheme \<Rightarrow> 'a mem_heap_scheme option" where
  "handle_pte_fault vma a pte write_access s =
     (if \<not> pte_present (entry pte s) then do_no_page vma a write_access s
      else
        (let s = set_entry pte (pte_mkyoung (entry pte s)) s in
         if write_access = 0 then Some (set_entry pte (pte_mkdirty (entry pte s)) s)
         else do_wp_page vma a write_access s))"

text \<open>Control falls through into the out-of-memory panic after every fault.\<close>

definition handle_mm_fault :: "addr \<Rightarrow> u32 \<Rightarrow> int \<Rightarrow> 'a mem_heap_scheme \<Rightarrow> 'a mem_heap_scheme option" where
  "handle_mm_fault vma a write_access s =
     do {
       let pmd = pmd_alloc (pgd_offset (vm_task s vma) a s) a;
       s \<leftarrow> (if pmd = NULL then Some s
             else do {
               (pte, s) \<leftarrow> pte_alloc pmd a s;
               if pte = NULL then Some s else handle_pte_fault vma a pte write_access s
             });
       None
     }"

subsection \<open>Initialisation\<close>

definition free_area_init :: "'a mem_heap_scheme \<Rightarrow> 'a mem_heap_scheme" where
  "free_area_init s = INIT_LIST_HEAD (inactive_list s) s"

fun init_pages :: "nat \<Rightarrow> u32 \<Rightarrow> addr \<Rightarrow> u32 \<Rightarrow> 'a pgt_heap_scheme \<Rightarrow> 'a pgt_heap_scheme option" where
  "init_pages 0 k p a s = Some s"
| "init_pages (Suc n) k p a s =
     (if p = NULL then Some s
      else do {
        let f = (if a < low_mem_end s then SYS_RESERVED OR SYS_ROM else SYS_RAM);
        let s = s\<lparr>pg_flags := (pg_flags s)(p := pg_flags s p OR f)\<rparr>;
        let s = s\<lparr>pg_address := (pg_address s)(p := a)\<rparr>;
        let s = set_entry (mem_map s + 4 * k) p s;
        s \<leftarrow> free_page p s;
        init_pages n (k + 1) (p + 56) (a + PAGE_SIZE) s
      })"

text \<open>\<open>name\<close> and \<open>sizeof\<close> are the names and object sizes of the caches of \<^verbatim>\<open>init_kmem_cache\<close>.\<close>

definition init_mem ::
  "(nat \<Rightarrow> addr) \<Rightarrow> (nat \<Rightarrow> u32) \<Rightarrow> 'a mem_heap_scheme \<Rightarrow> (int \<times> 'a mem_heap_scheme) option" where
  "init_mem name sizeof s =
     do {
       let s = kmem_cache_init (buddy_list_init s);
       let memory_size = mem_size (get_boot_params (mem s)) AND 0xfffff000;
       let s = s\<lparr>page_fns := MAP_NR memory_size\<rparr>;
       (m, s) \<leftarrow> alloc_low_mem (page_fns s * 4) s;
       let s = s\<lparr>mem_map := m\<rparr>;
       (p, s) \<leftarrow> alloc_low_mem (page_fns s * 56) s;
       s \<leftarrow> init_pages (unat (page_fns s)) 0 p 0 s;
       (_, s) \<leftarrow> buddy_list_tidy s;
       (_, s) \<leftarrow> init_kmem_cache name sizeof s;
       Some (0, free_area_init s)
     }"

subsection \<open>Swap\<close>

definition add_to_swap_cache :: "addr \<Rightarrow> u32 \<Rightarrow> 'a mem_heap_scheme \<Rightarrow> 'a mem_heap_scheme" where
  "add_to_swap_cache page e s = s\<lparr>swap_cache_add_total := swap_cache_add_total s + 1\<rparr>"

text \<open>
  The pointer \<^verbatim>\<open>p\<close> to the swap area is never set: once the type passes the test, the code reads
  through it.
\<close>

definition rw_swap_page :: "int \<Rightarrow> u32 \<Rightarrow> addr \<Rightarrow> 'a mem_heap_scheme \<Rightarrow> 'a mem_heap_scheme option" where
  "rw_swap_page rw e buf s = (if SWAP_TYPE e \<ge> nr_swap_pages s then Some s else None)"

definition swap_in :: "addr \<Rightarrow> addr \<Rightarrow> u32 \<Rightarrow> int \<Rightarrow> 'a mem_heap_scheme \<Rightarrow> 'a mem_heap_scheme option" where
  "swap_in vma page_table e write_access s =
     (if entry page_table s \<noteq> e then Some s
      else do {
        (page, s) \<leftarrow> get_free_page GFP_KERNEL s;
        if page = 0 then do {
          s \<leftarrow> swap_free e (set_entry page_table PAGE_BAD s);
          None
        }
        else rw_swap_page 0 e page s
      })"

definition add_page_to_inactive_list :: "addr \<Rightarrow> 'a mem_heap_scheme \<Rightarrow> 'a mem_heap_scheme" where
  "add_page_to_inactive_list page s = list_add (page + 32) (inactive_list s) s"

definition lru_cache_add :: "addr \<Rightarrow> 'a mem_heap_scheme \<Rightarrow> 'a mem_heap_scheme" where
  "lru_cache_add page s = add_page_to_inactive_list page s"

subsection \<open>The page cache\<close>

definition get_page :: "addr \<Rightarrow> 'a mem_heap_scheme \<Rightarrow> 'a mem_heap_scheme" where
  "get_page page s = s\<lparr>pg_count := (pg_count s)(page := pg_count s page + 1)\<rparr>"

definition raw_add_to_page_cache :: "addr \<Rightarrow> addr \<Rightarrow> u32 \<Rightarrow> 'a mem_heap_scheme \<Rightarrow> int \<times> 'a mem_heap_scheme" where
  "raw_add_to_page_cache page mapping index s =
     (let s = list_add page (mapping + 16) s;
          s = s\<lparr>pg_mapping := (pg_mapping s)(page := mapping)\<rparr>
      in (0, s\<lparr>pg_index := (pg_index s)(page := index)\<rparr>))"

definition add_to_page_cache1 ::
  "addr \<Rightarrow> addr \<Rightarrow> u32 \<Rightarrow> 'a mem_heap_scheme \<Rightarrow> (int \<times> 'a mem_heap_scheme) option" where
  "add_to_page_cache1 page mapping offset s =
     do {
       let s = get_page page s;
       (r, s) \<leftarrow> radix_tree_insert (mapping + 4) offset page s;
       if r < 0 then Some (-1, s)
       else do { let (_, s) = raw_add_to_page_cache page mapping offset s; Some (0, s) }
     }"

definition add_to_page_cache ::
  "addr \<Rightarrow> addr \<Rightarrow> u32 \<Rightarrow> 'a mem_heap_scheme \<Rightarrow> (int \<times> 'a mem_heap_scheme) option" where
  "add_to_page_cache page mapping offset s =
     do {
       (r, s) \<leftarrow> add_to_page_cache1 page mapping offset s;
       if r < 0 then Some (-1, s) else Some (0, lru_cache_add page s)
     }"

subsection \<open>kmalloc\<close>

definition kmalloc :: "u32 \<Rightarrow> int \<Rightarrow> addr" where
  "kmalloc sz priority = NULL"

definition kfree_s :: "addr \<Rightarrow> int \<Rightarrow> addr" where
  "kfree_s obj sz = NULL"

end
