(* ===== verification/Vma_avl.thy ===== *)
theory Vma_avl
  imports Memory
begin

section \<open>The AVL tree of memory areas\<close>

text \<open>
  The model of the AVL tree of \<^verbatim>\<open>mm/mmap.c\<close>: a process' \<^verbatim>\<open>vm_area_struct\<close>s in a tree ordered by
  \<^verbatim>\<open>vm_end\<close>, with the height stored in every node. The places on the way to a node (cells that
  hold a \<^verbatim>\<open>struct vm_area_struct *\<close>) are kept on a stack of 41 entries; a deeper tree writes past
  it, which is \<open>None\<close>. Descents follow pointers and are partial functions. The height is a \<^verbatim>\<open>short\<close>
  in the code and an \<open>int\<close> here; with right heights it stays far below the limit of a \<^verbatim>\<open>short\<close> in
  every tree whose paths fit on the stack.
\<close>

subsection \<open>State\<close>

record vma_heap = mem_heap +
  vm_start :: "addr \<Rightarrow> u32"
  vm_end :: "addr \<Rightarrow> u32"
  vm_avl_height :: "addr \<Rightarrow> int"
  vm_flags :: "addr \<Rightarrow> u16"
  vm_avl_left :: "addr \<Rightarrow> addr"
  vm_avl_right :: "addr \<Rightarrow> addr"
  vm_next :: "addr \<Rightarrow> addr"
  vm_next_share :: "addr \<Rightarrow> addr"
  vm_prev_share :: "addr \<Rightarrow> addr"
  vm_ops :: "addr \<Rightarrow> addr"
  vm_offset :: "addr \<Rightarrow> u32"
  vm_inode :: "addr \<Rightarrow> addr"
  vm_pte :: "addr \<Rightarrow> u32"
  mm_mmap :: "addr \<Rightarrow> addr"
  mm_mmap_avl :: "addr \<Rightarrow> addr"
  in_mmap :: "addr \<Rightarrow> addr"
  in_count :: "addr \<Rightarrow> u16"
  fl_mode :: "addr \<Rightarrow> u16"
  fl_inode :: "addr \<Rightarrow> addr"
  fl_op :: "addr \<Rightarrow> addr"

text \<open>A cell that holds a pointer of the tree: the root in an \<^verbatim>\<open>mm_struct\<close> or a child field.\<close>

datatype vma_place = Tree addr | Avl_left addr | Avl_right addr

fun read_place :: "vma_place \<Rightarrow> 'a vma_heap_scheme \<Rightarrow> addr" where
  "read_place (Tree mm) s = mm_mmap_avl s mm"
| "read_place (Avl_left n) s = vm_avl_left s n"
| "read_place (Avl_right n) s = vm_avl_right s n"

definition set_avl_left :: "addr \<Rightarrow> addr \<Rightarrow> 'a vma_heap_scheme \<Rightarrow> 'a vma_heap_scheme" where
  "set_avl_left n v s = s\<lparr>vm_avl_left := (vm_avl_left s)(n := v)\<rparr>"

definition set_avl_right :: "addr \<Rightarrow> addr \<Rightarrow> 'a vma_heap_scheme \<Rightarrow> 'a vma_heap_scheme" where
  "set_avl_right n v s = s\<lparr>vm_avl_right := (vm_avl_right s)(n := v)\<rparr>"

definition set_avl_height :: "addr \<Rightarrow> int \<Rightarrow> 'a vma_heap_scheme \<Rightarrow> 'a vma_heap_scheme" where
  "set_avl_height n v s = s\<lparr>vm_avl_height := (vm_avl_height s)(n := v)\<rparr>"

fun write_place :: "vma_place \<Rightarrow> addr \<Rightarrow> 'a vma_heap_scheme \<Rightarrow> 'a vma_heap_scheme" where
  "write_place (Tree mm) v s = s\<lparr>mm_mmap_avl := (mm_mmap_avl s)(mm := v)\<rparr>"
| "write_place (Avl_left n) v s = set_avl_left n v s"
| "write_place (Avl_right n) v s = set_avl_right n v s"

definition heightof :: "addr \<Rightarrow> 'a vma_heap_scheme \<Rightarrow> int" where
  "heightof tree s = (if tree = NULL then 0 else vm_avl_height s tree)"

abbreviation (input) avl_maxheight :: nat where
  "avl_maxheight \<equiv> 41"

subsection \<open>Balancing\<close>

text \<open>
  One round of the loop of \<^verbatim>\<open>avl_rebalance\<close>; the flag says whether the loop goes on.
\<close>

definition avl_rebalance_step :: "vma_place \<Rightarrow> 'a vma_heap_scheme \<Rightarrow> bool \<times> 'a vma_heap_scheme" where
  "avl_rebalance_step nodeplace s =
     (let node = read_place nodeplace s;
          nodeleft = vm_avl_left s node;
          noderight = vm_avl_right s node;
          heightleft = heightof nodeleft s;
          heightright = heightof noderight s
      in if heightright + 1 < heightleft then
           (let nodeleftleft = vm_avl_left s nodeleft;
                nodeleftright = vm_avl_right s nodeleft;
                heightleftright = heightof nodeleftright s
            in if heightof nodeleftleft s \<ge> heightleftright then
                 (let s = set_avl_left node nodeleftright s;
                      s = set_avl_right nodeleft node s;
                      s = set_avl_height node (1 + heightleftright) s;
                      s = set_avl_height nodeleft (1 + (1 + heightleftright)) s
                  in (True, write_place nodeplace nodeleft s))
               else
                 (let s = set_avl_right nodeleft (vm_avl_left s nodeleftright) s;
                      s = set_avl_left node (vm_avl_right s nodeleftright) s;
                      s = set_avl_left nodeleftright nodeleft s;
                      s = set_avl_right nodeleftright node s;
                      s = set_avl_height node heightleftright s;
                      s = set_avl_height nodeleft heightleftright s;
                      s = set_avl_height nodeleftright heightleft s
                  in (True, write_place nodeplace nodeleftright s)))
         else if heightleft + 1 < heightright then
           (let noderightright = vm_avl_right s noderight;
                noderightleft = vm_avl_left s noderight;
                heightrightleft = heightof noderightleft s
            in if heightof noderightright s \<ge> heightrightleft then
                 (let s = set_avl_right node noderightleft s;
                      s = set_avl_left noderight node s;
                      s = set_avl_height node (1 + heightrightleft) s;
                      s = set_avl_height noderight (1 + (1 + heightrightleft)) s
                  in (True, write_place nodeplace noderight s))
               else
                 (let s = set_avl_left noderight (vm_avl_right s noderightleft) s;
                      s = set_avl_right node (vm_avl_left s noderightleft) s;
                      s = set_avl_right noderightleft noderight s;
                      s = set_avl_left noderightleft node s;
                      s = set_avl_height node heightrightleft s;
                      s = set_avl_height noderight heightrightleft s;
                      s = set_avl_height noderightleft heightright s
                  in (True, write_place nodeplace noderightleft s)))
         else
           (let height = (if heightleft < heightright then heightright else heightleft) + 1
            in if height = vm_avl_height s node then (False, s)
               else (True, set_avl_height node height s)))"

text \<open>The places come with the last one pushed first.\<close>

fun avl_rebalance :: "vma_place list \<Rightarrow> 'a vma_heap_scheme \<Rightarrow> 'a vma_heap_scheme" where
  "avl_rebalance [] s = s"
| "avl_rebalance (nodeplace # places) s =
     (case avl_rebalance_step nodeplace s of
        (go_on, s) \<Rightarrow> if go_on then avl_rebalance places s else s)"

subsection \<open>Insertion\<close>

text \<open>
  The descent to the place of a new key: the stack, with the last place first, the place
  itself and the neighbours met on the way.
\<close>

partial_function (option) avl_descend ::
  "u32 \<Rightarrow> vma_place \<Rightarrow> vma_place list \<Rightarrow> addr \<Rightarrow> addr \<Rightarrow> 'a vma_heap_scheme
   \<Rightarrow> (vma_place \<times> vma_place list \<times> addr \<times> addr) option" where
  "avl_descend key nodeplace stack to_the_left to_the_right s =
     (let node = read_place nodeplace s in
      if node = NULL then Some (nodeplace, stack, to_the_left, to_the_right)
      else if length stack \<ge> avl_maxheight then None
      else if key < vm_end s node
           then avl_descend key (Avl_left node) (nodeplace # stack) to_the_left node s
           else avl_descend key (Avl_right node) (nodeplace # stack) node to_the_right s)"

definition avl_link_leaf :: "addr \<Rightarrow> vma_place \<Rightarrow> 'a vma_heap_scheme \<Rightarrow> 'a vma_heap_scheme" where
  "avl_link_leaf new_node nodeplace s =
     write_place nodeplace new_node
       (set_avl_height new_node 1 (set_avl_right new_node NULL (set_avl_left new_node NULL s)))"

definition avl_insert_neighbours ::
  "addr \<Rightarrow> vma_place \<Rightarrow> 'a vma_heap_scheme \<Rightarrow> ((addr \<times> addr) \<times> 'a vma_heap_scheme) option" where
  "avl_insert_neighbours new_node ptree s =
     do {
       (nodeplace, stack, to_the_left, to_the_right) \<leftarrow> avl_descend (vm_end s new_node) ptree [] NULL NULL s;
       Some ((to_the_left, to_the_right), avl_rebalance stack (avl_link_leaf new_node nodeplace s))
     }"

definition avl_insert :: "addr \<Rightarrow> vma_place \<Rightarrow> 'a vma_heap_scheme \<Rightarrow> 'a vma_heap_scheme option" where
  "avl_insert new_node ptree s =
     do {
       (nodeplace, stack, _, _) \<leftarrow> avl_descend (vm_end s new_node) ptree [] NULL NULL s;
       Some (avl_rebalance stack (avl_link_leaf new_node nodeplace s))
     }"

subsection \<open>Deletion\<close>

text \<open>The place of a key and the stack with that place on top; \<open>Some None\<close> is a key not found.\<close>

partial_function (option) avl_find_place ::
  "u32 \<Rightarrow> vma_place \<Rightarrow> vma_place list \<Rightarrow> 'a vma_heap_scheme \<Rightarrow> (vma_place \<times> vma_place list) option option" where
  "avl_find_place key nodeplace stack s =
     (let node = read_place nodeplace s in
      if node = NULL then Some None
      else if length stack \<ge> avl_maxheight then None
      else if key = vm_end s node then Some (Some (nodeplace, nodeplace # stack))
      else if key < vm_end s node then avl_find_place key (Avl_left node) (nodeplace # stack) s
      else avl_find_place key (Avl_right node) (nodeplace # stack) s)"

text \<open>The rightmost node below a place.\<close>

partial_function (option) avl_rightmost ::
  "vma_place \<Rightarrow> vma_place list \<Rightarrow> 'a vma_heap_scheme \<Rightarrow> (vma_place \<times> vma_place list) option" where
  "avl_rightmost nodeplace stack s =
     (let node = read_place nodeplace s in
      if vm_avl_right s node = NULL then Some (nodeplace, stack)
      else if length stack \<ge> avl_maxheight then None
      else avl_rightmost (Avl_right node) (nodeplace # stack) s)"

text \<open>
  The entry of the stack above the deleted place is replaced; when the loop pushed none, the
  code writes the free entry above the top, which must exist.
\<close>

definition avl_remove :: "addr \<Rightarrow> vma_place \<Rightarrow> 'a vma_heap_scheme \<Rightarrow> 'a vma_heap_scheme option" where
  "avl_remove node_to_delete ptree s =
     do {
       found \<leftarrow> avl_find_place (vm_end s node_to_delete) ptree [] s;
       case found of
         None \<Rightarrow> Some s
       | Some (nodeplace_to_delete, stack) \<Rightarrow>
           if vm_avl_left s node_to_delete = NULL then
             Some (avl_rebalance (tl stack)
                     (write_place nodeplace_to_delete (vm_avl_right s node_to_delete) s))
           else do {
             let n0 = length stack;
             (nodeplace, stack) \<leftarrow> avl_rightmost (Avl_left node_to_delete) stack s;
             if n0 \<ge> avl_maxheight then None
             else do {
               let node = read_place nodeplace s;
               let s = write_place nodeplace (vm_avl_left s node) s;
               let s = set_avl_left node (vm_avl_left s node_to_delete) s;
               let s = set_avl_right node (vm_avl_right s node_to_delete) s;
               let s = set_avl_height node (vm_avl_height s node_to_delete) s;
               let s = write_place nodeplace_to_delete node s;
               let stack = rev ((rev stack)[n0 := Avl_left node]);
               Some (avl_rebalance stack s)
             }
           }
     }"

subsection \<open>Neighbours\<close>

partial_function (option) avl_find_neighbours ::
  "u32 \<Rightarrow> addr \<Rightarrow> addr \<Rightarrow> addr \<Rightarrow> 'a vma_heap_scheme \<Rightarrow> (addr \<times> addr \<times> addr) option" where
  "avl_find_neighbours key tree to_the_left to_the_right s =
     (if tree = NULL then Some (NULL, to_the_left, to_the_right)
      else if key = vm_end s tree then Some (tree, to_the_left, to_the_right)
      else if key < vm_end s tree then avl_find_neighbours key (vm_avl_left s tree) to_the_left tree s
      else avl_find_neighbours key (vm_avl_right s tree) tree to_the_right s)"

partial_function (option) avl_go_right :: "addr \<Rightarrow> 'a vma_heap_scheme \<Rightarrow> addr option" where
  "avl_go_right n s = (if vm_avl_right s n \<noteq> NULL then avl_go_right (vm_avl_right s n) s else Some n)"

partial_function (option) avl_go_left :: "addr \<Rightarrow> 'a vma_heap_scheme \<Rightarrow> addr option" where
  "avl_go_left n s = (if vm_avl_left s n \<noteq> NULL then avl_go_left (vm_avl_left s n) s else Some n)"

definition avl_neighbours :: "addr \<Rightarrow> addr \<Rightarrow> 'a vma_heap_scheme \<Rightarrow> (addr \<times> addr) option" where
  "avl_neighbours node tree s =
     do {
       (tree, to_the_left, to_the_right) \<leftarrow> avl_find_neighbours (vm_end s node) tree NULL NULL s;
       if tree = NULL \<or> tree \<noteq> node then Some (to_the_left, to_the_right)
       else do {
         to_the_left \<leftarrow> (if vm_avl_left s tree \<noteq> NULL then avl_go_right (vm_avl_left s tree) s else Some to_the_left);
         to_the_right \<leftarrow> (if vm_avl_right s tree \<noteq> NULL then avl_go_left (vm_avl_right s tree) s else Some to_the_right);
         Some (to_the_left, to_the_right)
       }
     }"

subsection \<open>Checks\<close>

text \<open>The functions that check a tree print a message for every fault: the number of messages.\<close>

partial_function (option) avl_checkheights :: "addr \<Rightarrow> 'a vma_heap_scheme \<Rightarrow> nat option" where
  "avl_checkheights tree s =
     (if tree = NULL then Some 0
      else do {
        l \<leftarrow> avl_checkheights (vm_avl_left s tree) s;
        r \<leftarrow> avl_checkheights (vm_avl_right s tree) s;
        let h = vm_avl_height s tree;
        let hl = heightof (vm_avl_left s tree) s;
        let hr = heightof (vm_avl_right s tree) s;
        if h = hl + 1 \<and> hr \<le> hl \<and> hl \<le> hr + 1 then Some (l + r)
        else if h = hr + 1 \<and> hl \<le> hr \<and> hr \<le> hl + 1 then Some (l + r)
        else Some (l + r + 1)
      })"

partial_function (option) avl_checkleft :: "addr \<Rightarrow> u32 \<Rightarrow> 'a vma_heap_scheme \<Rightarrow> nat option" where
  "avl_checkleft tree key s =
     (if tree = NULL then Some 0
      else do {
        l \<leftarrow> avl_checkleft (vm_avl_left s tree) key s;
        r \<leftarrow> avl_checkleft (vm_avl_right s tree) key s;
        if vm_end s tree < key then Some (l + r) else Some (l + r + 1)
      })"

partial_function (option) avl_checkright :: "addr \<Rightarrow> u32 \<Rightarrow> 'a vma_heap_scheme \<Rightarrow> nat option" where
  "avl_checkright tree key s =
     (if tree = NULL then Some 0
      else do {
        l \<leftarrow> avl_checkright (vm_avl_left s tree) key s;
        r \<leftarrow> avl_checkright (vm_avl_right s tree) key s;
        if vm_end s tree > key then Some (l + r) else Some (l + r + 1)
      })"

partial_function (option) avl_checkorder :: "addr \<Rightarrow> 'a vma_heap_scheme \<Rightarrow> nat option" where
  "avl_checkorder tree s =
     (if tree = NULL then Some 0
      else do {
        a \<leftarrow> avl_checkorder (vm_avl_left s tree) s;
        b \<leftarrow> avl_checkorder (vm_avl_right s tree) s;
        c \<leftarrow> avl_checkleft (vm_avl_left s tree) (vm_end s tree) s;
        d \<leftarrow> avl_checkright (vm_avl_right s tree) (vm_end s tree) s;
        Some (a + b + c + d)
      })"

definition avl_check :: "addr \<Rightarrow> 'a vma_heap_scheme \<Rightarrow> nat option" where
  "avl_check task s =
     do {
       a \<leftarrow> avl_checkheights (mm_mmap_avl s (tsk_mm s task)) s;
       b \<leftarrow> avl_checkorder (mm_mmap_avl s (tsk_mm s task)) s;
       Some (a + b)
     }"

end
