(* ===== verification/Mmap.thy ===== *)
theory Mmap
  imports Vma_avl
begin

section \<open>Mapping and unmapping memory areas\<close>

text \<open>
  The model of the rest of \<^verbatim>\<open>mm/mmap.c\<close>. The functions behind the pointers of \<^verbatim>\<open>vm_ops\<close> and
  \<^verbatim>\<open>f_op\<close> and the inode layer's \<^verbatim>\<open>iput\<close> are arguments, gathered in a record: an operations struct
  is given by its address, and \<open>None\<close> is a null function pointer. \<^verbatim>\<open>kmalloc\<close> is the kernel's own,
  which always returns a null pointer.
\<close>

record 'h vm_env =
  ve_open :: "addr \<Rightarrow> (addr \<Rightarrow> 'h \<Rightarrow> 'h option) option"
  ve_close :: "addr \<Rightarrow> (addr \<Rightarrow> 'h \<Rightarrow> 'h option) option"
  ve_unmap :: "addr \<Rightarrow> (addr \<Rightarrow> u32 \<Rightarrow> u32 \<Rightarrow> 'h \<Rightarrow> 'h option) option"
  ve_mmap :: "addr \<Rightarrow> (addr \<Rightarrow> addr \<Rightarrow> addr \<Rightarrow> 'h \<Rightarrow> (int \<times> 'h) option) option"
  ve_iput :: "addr \<Rightarrow> 'h \<Rightarrow> 'h option"

abbreviation (input) VM_SHM :: u16 where "VM_SHM \<equiv> 0x0400"
abbreviation (input) MAP_SHARED :: u32 where "MAP_SHARED \<equiv> 0x01"
abbreviation (input) MAP_PRIVATE :: u32 where "MAP_PRIVATE \<equiv> 0x02"
abbreviation (input) MAP_FIXED :: u32 where "MAP_FIXED \<equiv> 0x04"
abbreviation (input) MAP_DENYWRITE :: u32 where "MAP_DENYWRITE \<equiv> 0x08"
abbreviation (input) MAP_TYPE :: u32 where "MAP_TYPE \<equiv> 0x0f"
abbreviation (input) PROT_WRITE :: u32 where "PROT_WRITE \<equiv> 0x02"
abbreviation (input) FILE_READ :: u16 where "FILE_READ \<equiv> 0x01"
abbreviation (input) FILE_WRITE :: u16 where "FILE_WRITE \<equiv> 0x02"
abbreviation (input) ENOMEM :: u32 where "ENOMEM \<equiv> 12"
abbreviation (input) EACCES :: u32 where "EACCES \<equiv> 13"
abbreviation (input) ENODEV :: u32 where "ENODEV \<equiv> 19"
abbreviation (input) EINVAL :: u32 where "EINVAL \<equiv> 22"
abbreviation (input) ETXTBSY :: u32 where "ETXTBSY \<equiv> 26"

definition PAGE_ALIGN :: "u32 \<Rightarrow> u32" where
  "PAGE_ALIGN a = (a + PAGE_SIZE - 1) AND PAGE_MASK"

definition set_vm_next :: "addr \<Rightarrow> addr \<Rightarrow> 'a vma_heap_scheme \<Rightarrow> 'a vma_heap_scheme" where
  "set_vm_next n v s = s\<lparr>vm_next := (vm_next s)(n := v)\<rparr>"

definition set_vm_start :: "addr \<Rightarrow> u32 \<Rightarrow> 'a vma_heap_scheme \<Rightarrow> 'a vma_heap_scheme" where
  "set_vm_start n v s = s\<lparr>vm_start := (vm_start s)(n := v)\<rparr>"

definition set_vm_end :: "addr \<Rightarrow> u32 \<Rightarrow> 'a vma_heap_scheme \<Rightarrow> 'a vma_heap_scheme" where
  "set_vm_end n v s = s\<lparr>vm_end := (vm_end s)(n := v)\<rparr>"

definition set_vm_offset :: "addr \<Rightarrow> u32 \<Rightarrow> 'a vma_heap_scheme \<Rightarrow> 'a vma_heap_scheme" where
  "set_vm_offset n v s = s\<lparr>vm_offset := (vm_offset s)(n := v)\<rparr>"

definition set_vm_flags :: "addr \<Rightarrow> u16 \<Rightarrow> 'a vma_heap_scheme \<Rightarrow> 'a vma_heap_scheme" where
  "set_vm_flags n v s = s\<lparr>vm_flags := (vm_flags s)(n := v)\<rparr>"

definition set_next_share :: "addr \<Rightarrow> addr \<Rightarrow> 'a vma_heap_scheme \<Rightarrow> 'a vma_heap_scheme" where
  "set_next_share n v s = s\<lparr>vm_next_share := (vm_next_share s)(n := v)\<rparr>"

definition set_prev_share :: "addr \<Rightarrow> addr \<Rightarrow> 'a vma_heap_scheme \<Rightarrow> 'a vma_heap_scheme" where
  "set_prev_share n v s = s\<lparr>vm_prev_share := (vm_prev_share s)(n := v)\<rparr>"

definition set_in_mmap :: "addr \<Rightarrow> addr \<Rightarrow> 'a vma_heap_scheme \<Rightarrow> 'a vma_heap_scheme" where
  "set_in_mmap n v s = s\<lparr>in_mmap := (in_mmap s)(n := v)\<rparr>"

definition inc_count :: "addr \<Rightarrow> 'a vma_heap_scheme \<Rightarrow> 'a vma_heap_scheme" where
  "inc_count n s = s\<lparr>in_count := (in_count s)(n := in_count s n + 1)\<rparr>"

text \<open>\<^verbatim>\<open>*mpnt = *area\<close>\<close>

definition copy_vma :: "addr \<Rightarrow> addr \<Rightarrow> 'a vma_heap_scheme \<Rightarrow> 'a vma_heap_scheme" where
  "copy_vma mpnt area s =
     s\<lparr>vm_task := (vm_task s)(mpnt := vm_task s area), vm_page_prot := (vm_page_prot s)(mpnt := vm_page_prot s area),
       vm_start := (vm_start s)(mpnt := vm_start s area), vm_end := (vm_end s)(mpnt := vm_end s area),
       vm_avl_height := (vm_avl_height s)(mpnt := vm_avl_height s area), vm_flags := (vm_flags s)(mpnt := vm_flags s area),
       vm_avl_left := (vm_avl_left s)(mpnt := vm_avl_left s area), vm_avl_right := (vm_avl_right s)(mpnt := vm_avl_right s area),
       vm_next := (vm_next s)(mpnt := vm_next s area), vm_next_share := (vm_next_share s)(mpnt := vm_next_share s area),
       vm_prev_share := (vm_prev_share s)(mpnt := vm_prev_share s area), vm_ops := (vm_ops s)(mpnt := vm_ops s area),
       vm_offset := (vm_offset s)(mpnt := vm_offset s area), vm_inode := (vm_inode s)(mpnt := vm_inode s area),
       vm_pte := (vm_pte s)(mpnt := vm_pte s area)\<rparr>"

text \<open>A call through a pointer of \<^verbatim>\<open>vm_ops\<close> that is guarded by a test for null.\<close>

definition call_op :: "(addr \<Rightarrow> (addr \<Rightarrow> 'h \<Rightarrow> 'h option) option) \<Rightarrow> addr \<Rightarrow> addr \<Rightarrow> 'h \<Rightarrow> 'h option" where
  "call_op op ops vma s =
     (if ops = NULL then Some s else case op ops of None \<Rightarrow> Some s | Some f \<Rightarrow> f vma s)"

subsection \<open>Lists and rings\<close>

definition remove_shared_vm_struct :: "addr \<Rightarrow> 'a vma_heap_scheme \<Rightarrow> 'a vma_heap_scheme" where
  "remove_shared_vm_struct mpnt s =
     (let inode = vm_inode s mpnt in
      if inode = NULL then s
      else if vm_next_share s mpnt = mpnt then set_in_mmap inode NULL s
      else
        (let s = (if in_mmap s inode = mpnt then set_in_mmap inode (vm_next_share s mpnt) s else s);
             s = set_next_share (vm_prev_share s mpnt) (vm_next_share s mpnt) s
         in set_prev_share (vm_next_share s mpnt) (vm_prev_share s mpnt) s))"

partial_function (option) build_mmap_avl_loop ::
  "addr \<Rightarrow> addr \<Rightarrow> 'a vma_heap_scheme \<Rightarrow> 'a vma_heap_scheme option" where
  "build_mmap_avl_loop vma mm s =
     (if vma = NULL then Some s
      else do { s \<leftarrow> avl_insert vma (Tree mm) s; build_mmap_avl_loop (vm_next s vma) mm s })"

definition build_mmap_avl :: "addr \<Rightarrow> 'a vma_heap_scheme \<Rightarrow> 'a vma_heap_scheme option" where
  "build_mmap_avl task s =
     (let mm = tsk_mm s task; s = write_place (Tree mm) NULL s
      in build_mmap_avl_loop (mm_mmap s mm) mm s)"

partial_function (option) find_vma_loop :: "addr \<Rightarrow> addr \<Rightarrow> u32 \<Rightarrow> 'a vma_heap_scheme \<Rightarrow> addr option" where
  "find_vma_loop tree result a s =
     (if tree = NULL then Some result
      else if vm_end s tree > a then
        (if vm_start s tree < a then Some tree
         else find_vma_loop (vm_avl_left s tree) tree a s)
      else find_vma_loop (vm_avl_right s tree) result a s)"

definition find_vma :: "addr \<Rightarrow> u32 \<Rightarrow> 'a vma_heap_scheme \<Rightarrow> addr option" where
  "find_vma task a s = find_vma_loop (mm_mmap_avl s (tsk_mm s task)) NULL a s"

definition mergeable :: "addr \<Rightarrow> addr \<Rightarrow> 'a vma_heap_scheme \<Rightarrow> bool" where
  "mergeable prev mpnt s \<longleftrightarrow>
     vm_inode s mpnt = vm_inode s prev \<and> vm_pte s mpnt = vm_pte s prev \<and> vm_ops s mpnt = vm_ops s prev \<and>
     vm_flags s mpnt = vm_flags s prev \<and> vm_start s mpnt = vm_end s prev \<and>
     (vm_inode s mpnt \<noteq> NULL \<or> vm_flags s mpnt AND VM_SHM \<noteq> 0 \<longrightarrow>
        vm_offset s prev + vm_end s prev - vm_start s prev = vm_offset s mpnt)"

partial_function (option) merge_segments_loop ::
  "'a vma_heap_scheme vm_env \<Rightarrow> addr \<Rightarrow> addr \<Rightarrow> addr \<Rightarrow> u32 \<Rightarrow> 'a vma_heap_scheme \<Rightarrow> 'a vma_heap_scheme option" where
  "merge_segments_loop env mm prev mpnt end_addr s =
     (if mpnt \<noteq> NULL \<and> vm_start s prev < end_addr then
        (let next = vm_next s mpnt in
         if \<not> mergeable prev mpnt s then merge_segments_loop env mm mpnt next end_addr s
         else do {
           s \<leftarrow> avl_remove mpnt (Tree mm) s;
           let s = set_vm_end prev (vm_end s mpnt) s;
           let s = set_vm_next prev (vm_next s mpnt) s;
           s \<leftarrow> (if vm_ops s mpnt \<noteq> NULL \<and> ve_close env (vm_ops s mpnt) \<noteq> None then do {
                   let s = set_vm_offset mpnt (vm_offset s mpnt + (vm_end s mpnt - vm_start s mpnt)) s;
                   let s = set_vm_start mpnt (vm_end s mpnt) s;
                   call_op (ve_close env) (vm_ops s mpnt) mpnt s
                 } else Some s);
           let s = remove_shared_vm_struct mpnt s;
           let s = (if vm_inode s mpnt \<noteq> NULL then inc_count (vm_inode s mpnt) s else s);
           let _ = kfree_s mpnt 56;
           merge_segments_loop env mm prev next end_addr s
         })
      else Some s)"

definition merge_segments ::
  "'a vma_heap_scheme vm_env \<Rightarrow> addr \<Rightarrow> u32 \<Rightarrow> u32 \<Rightarrow> 'a vma_heap_scheme \<Rightarrow> 'a vma_heap_scheme option" where
  "merge_segments env task start_addr end_addr s =
     do {
       mpnt \<leftarrow> find_vma task start_addr s;
       if mpnt = NULL then Some s
       else do {
         (prev, next) \<leftarrow> avl_neighbours mpnt (mm_mmap_avl s (tsk_mm s task)) s;
         if prev = NULL then merge_segments_loop env (tsk_mm s task) mpnt next end_addr s
         else merge_segments_loop env (tsk_mm s task) prev mpnt end_addr s
       }
     }"

text \<open>The new area is linked behind its predecessor, but its own \<^verbatim>\<open>vm_next\<close> is not set.\<close>

definition insert_vm_struct :: "addr \<Rightarrow> addr \<Rightarrow> 'a vma_heap_scheme \<Rightarrow> 'a vma_heap_scheme option" where
  "insert_vm_struct task vma s =
     do {
       let mm = tsk_mm s task;
       ((prev, next), s) \<leftarrow> avl_insert_neighbours vma (Tree mm) s;
       let s = (if prev \<noteq> NULL then set_vm_next prev vma s else s\<lparr>mm_mmap := (mm_mmap s)(mm := vma)\<rparr>);
       let inode = vm_inode s vma;
       if inode = NULL then Some s
       else do {
         let share = in_mmap s inode;
         if share \<noteq> NULL then do {
           let s = set_next_share vma (vm_next_share s share) s;
           let s = set_prev_share (vm_next_share s vma) vma s;
           let s = set_next_share share vma s;
           Some (set_prev_share vma share s)
         }
         else Some (set_in_mmap inode vma (set_next_share vma vma (set_prev_share vma vma s)))
       }
     }"

definition anon_map :: "addr \<Rightarrow> 'a vma_heap_scheme \<Rightarrow> int" where
  "anon_map vma s =
     (if zeromap_page_range (vm_start s vma) (vm_end s vma - vm_start s vma) (vm_page_prot s vma) \<noteq> 0 then -12 else 0)"

subsection \<open>Unmapping\<close>

definition unmap_fixup ::
  "'a vma_heap_scheme vm_env \<Rightarrow> addr \<Rightarrow> u32 \<Rightarrow> u32 \<Rightarrow> 'a vma_heap_scheme \<Rightarrow> 'a vma_heap_scheme option" where
  "unmap_fixup env area a len s =
     (let end = a + len in
      if a < vm_start s area \<or> a \<ge> vm_end s area \<or> end \<le> vm_start s area \<or> end > vm_end s area \<or> end < a
      then Some s
      else if a = vm_start s area \<and> end = vm_end s area then do {
        s \<leftarrow> call_op (ve_close env) (vm_ops s area) area s;
        if vm_inode s area \<noteq> NULL then ve_iput env (vm_inode s area) s else Some s
      }
      else do {
        (stop, s) \<leftarrow>
          (if end = vm_end s area then Some (False, set_vm_end area a s)
           else if a = vm_start s area then
             (let s = set_vm_offset area (vm_offset s area + (end - vm_start s area)) s
              in Some (False, set_vm_start area end s))
           else do {
             let mpnt = kmalloc 56 GFP_KERNEL;
             if mpnt = NULL then Some (True, s)
             else do {
               let s = copy_vma mpnt area s;
               let s = set_vm_offset mpnt (vm_offset s mpnt + (end - vm_start s area)) s;
               let s = set_vm_start mpnt end s;
               let s = (if vm_inode s mpnt \<noteq> NULL then inc_count (vm_inode s mpnt) s else s);
               s \<leftarrow> call_op (ve_open env) (vm_ops s mpnt) mpnt s;
               s \<leftarrow> insert_vm_struct (cur_task s) mpnt s;
               Some (False, s)
             }
           });
        if stop then Some s
        else do {
          let mpnt = kmalloc 56 GFP_KERNEL;
          if mpnt = NULL then Some s
          else do {
            let s = set_vm_end mpnt a (copy_vma mpnt area s);
            s \<leftarrow> call_op (ve_open env) (vm_ops s mpnt) mpnt s;
            s \<leftarrow> (if vm_ops s area \<noteq> NULL \<and> ve_close env (vm_ops s area) \<noteq> None
                  then call_op (ve_close env) (vm_ops s area) area (set_vm_end area (vm_start s area) s)
                  else Some s);
            insert_vm_struct (cur_task s) mpnt s
          }
        }
      })"

text \<open>The loop has no exit.\<close>

partial_function (option) get_unmmapped_area_loop :: "addr \<Rightarrow> 'a vma_heap_scheme \<Rightarrow> u32 option" where
  "get_unmmapped_area_loop vma s = get_unmmapped_area_loop (vm_next s vma) s"

definition get_unmmapped_area :: "u32 \<Rightarrow> 'a vma_heap_scheme \<Rightarrow> u32 option" where
  "get_unmmapped_area len s = get_unmmapped_area_loop (mm_mmap s (tsk_mm s (cur_task s))) s"

text \<open>The cell \<^verbatim>\<open>npp\<close>: the link of the area before the range, or the head of the list.\<close>

datatype list_place = Mmap_head addr | Next_of addr

fun read_list_place :: "list_place \<Rightarrow> 'a vma_heap_scheme \<Rightarrow> addr" where
  "read_list_place (Mmap_head mm) s = mm_mmap s mm"
| "read_list_place (Next_of n) s = vm_next s n"

fun write_list_place :: "list_place \<Rightarrow> addr \<Rightarrow> 'a vma_heap_scheme \<Rightarrow> 'a vma_heap_scheme" where
  "write_list_place (Mmap_head mm) v s = s\<lparr>mm_mmap := (mm_mmap s)(mm := v)\<rparr>"
| "write_list_place (Next_of n) v s = set_vm_next n v s"

partial_function (option) munmap_collect ::
  "list_place \<Rightarrow> addr \<Rightarrow> addr \<Rightarrow> addr \<Rightarrow> u32 \<Rightarrow> 'a vma_heap_scheme \<Rightarrow> (addr \<times> 'a vma_heap_scheme) option" where
  "munmap_collect npp mm mpnt free end s =
     (if mpnt \<noteq> NULL \<and> vm_start s mpnt < end then do {
        let s = write_list_place npp (vm_next s mpnt) s;
        let s = set_vm_next mpnt free s;
        let free = mpnt;
        s \<leftarrow> avl_remove mpnt (Tree mm) s;
        munmap_collect npp mm (read_list_place npp s) free end s
      } else Some (free, s))"

partial_function (option) munmap_free ::
  "'a vma_heap_scheme vm_env \<Rightarrow> addr \<Rightarrow> u32 \<Rightarrow> u32 \<Rightarrow> 'a vma_heap_scheme \<Rightarrow> 'a vma_heap_scheme option" where
  "munmap_free env free a len s =
     (if free = NULL then Some s
      else do {
        let mpnt = free;
        let free = vm_next s free;
        let s = remove_shared_vm_struct mpnt s;
        let st = (if a < vm_start s mpnt then vm_start s mpnt else a);
        let end = a + len;
        let end = (if end > vm_end s mpnt then vm_end s mpnt else end);
        s \<leftarrow> (if vm_ops s mpnt = NULL then Some s
              else case ve_unmap env (vm_ops s mpnt) of None \<Rightarrow> Some s | Some f \<Rightarrow> f mpnt st (end - st) s);
        s \<leftarrow> unmap_fixup env mpnt st (end - st) s;
        let _ = kfree_s mpnt 0;
        munmap_free env free a len s
      })"

definition do_munmap ::
  "'a vma_heap_scheme vm_env \<Rightarrow> u32 \<Rightarrow> u32 \<Rightarrow> 'a vma_heap_scheme \<Rightarrow> (u32 \<times> 'a vma_heap_scheme) option" where
  "do_munmap env a len s =
     (if a AND NOT PAGE_MASK \<noteq> 0 \<or> a > PAGE_OFFSET \<or> a + len > PAGE_OFFSET then Some (- EINVAL, s)
      else
        (let len = PAGE_ALIGN len in
         if len = 0 then Some (0, s)
         else do {
           let task = cur_task s;
           let mm = tsk_mm s task;
           mpnt \<leftarrow> find_vma task a s;
           if mpnt = NULL then Some (0, s)
           else do {
             (prev, next) \<leftarrow> avl_neighbours mpnt (mm_mmap_avl s mm) s;
             let npp = (if prev \<noteq> NULL then Next_of prev else Mmap_head mm);
             (free, s) \<leftarrow> munmap_collect npp mm mpnt NULL (a + len) s;
             if free = NULL then Some (0, s)
             else do {
               s \<leftarrow> munmap_free env free a len s;
               (_, s) \<leftarrow> unmap_page_range a len s;
               Some (0, s)
             }
           }
         }))"

subsection \<open>Mapping\<close>

text \<open>
  The tests of \<^verbatim>\<open>do_mmap\<close> on the file: with a null \<^verbatim>\<open>file\<close> the code reads the fields of the file at
  address 0. \<open>Some e\<close> is an early return.
\<close>

definition do_mmap_check_file :: "addr \<Rightarrow> u32 \<Rightarrow> u32 \<Rightarrow> 'a vma_heap_scheme \<Rightarrow> u32 option" where
  "do_mmap_check_file file prot flags s =
     (if file = NULL then
        (let t = flags AND MAP_TYPE in
         if t = MAP_SHARED then
           (if prot AND PROT_WRITE \<noteq> 0 \<and> fl_mode s file AND FILE_WRITE \<noteq> 0 then Some (- EACCES)
            else if sint (in_count s (fl_inode s file)) > 0 \<and> flags AND MAP_DENYWRITE \<noteq> 0 then Some (- ETXTBSY)
            else None)
         else if t = MAP_PRIVATE then
           (if fl_mode s file AND FILE_READ = 0 then Some (- EACCES) else Some (- EINVAL))
         else Some (- EINVAL))
      else if flags AND MAP_TYPE \<noteq> MAP_PRIVATE then Some (- EINVAL)
      else None)"

definition new_vma_flags :: "addr \<Rightarrow> u32 \<Rightarrow> u32 \<Rightarrow> 'a vma_heap_scheme \<Rightarrow> u16" where
  "new_vma_flags file prot flags s =
     (let f = ucast (prot AND 0x0007);
          f = f OR ucast (flags AND 0x1900)
      in if file \<noteq> NULL then
           (let f = (if fl_mode s file AND FILE_READ \<noteq> 0 then f OR 0x0070 else f);
                f = (if flags AND MAP_SHARED \<noteq> 0 then f OR 0x0088 else f)
            in if fl_mode s file AND FILE_WRITE \<noteq> 0 then f AND NOT 0x0028 else f)
         else f OR 0x0070)"

definition do_mmap ::
  "'a vma_heap_scheme vm_env \<Rightarrow> addr \<Rightarrow> u32 \<Rightarrow> u32 \<Rightarrow> u32 \<Rightarrow> u32 \<Rightarrow> u32 \<Rightarrow> 'a vma_heap_scheme
   \<Rightarrow> (u32 \<times> 'a vma_heap_scheme) option" where
  "do_mmap env file a len prot flags off s =
     (if len \<le> 0 then Some (- EINVAL, s)
      else
        (let len = PAGE_ALIGN len in
         if len = 0 then Some (a, s)
         else if a > PAGE_OFFSET \<or> len > PAGE_OFFSET \<or> a + len > PAGE_OFFSET then Some (- EINVAL, s)
         else case do_mmap_check_file file prot flags s of
           Some e \<Rightarrow> Some (e, s)
         | None \<Rightarrow>
             if flags AND MAP_FIXED \<noteq> 0 \<and>
                (a AND NOT PAGE_MASK \<noteq> 0 \<or> len > PAGE_OFFSET \<or> a + len > PAGE_OFFSET) then Some (- EINVAL, s)
             else do {
               a \<leftarrow> (if flags AND MAP_FIXED \<noteq> 0 then Some a else get_unmmapped_area len s);
               if flags AND MAP_FIXED = 0 \<and> a = 0 then Some (- ENOMEM, s)
               else if file \<noteq> NULL \<and> (fl_op s file = NULL \<or> ve_mmap env (fl_op s file) = None) then Some (- ENODEV, s)
               else do {
                 let vma = kmalloc 56 GFP_KERNEL;
                 let s = s\<lparr>vm_task := (vm_task s)(vma := cur_task s)\<rparr>;
                 let s = set_vm_start vma a s;
                 let s = set_vm_end vma (a + len) s;
                 let s = set_vm_flags vma (new_vma_flags file prot flags s) s;
                 let s = s\<lparr>vm_ops := (vm_ops s)(vma := NULL)\<rparr>;
                 let s = set_vm_offset vma off s;
                 let s = s\<lparr>vm_inode := (vm_inode s)(vma := NULL)\<rparr>;
                 let s = s\<lparr>vm_pte := (vm_pte s)(vma := 0)\<rparr>;
                 (_, s) \<leftarrow> do_munmap env a len s;
                 (error, s) \<leftarrow>
                   (if file \<noteq> NULL then
                      (case ve_mmap env (fl_op s file) of None \<Rightarrow> None | Some f \<Rightarrow> f (fl_inode s file) file vma s)
                    else Some (anon_map vma s, s));
                 if error \<noteq> 0 then (let _ = kfree_s vma 0 in Some (word_of_int error, s))
                 else do {
                   s \<leftarrow> insert_vm_struct (cur_task s) vma s;
                   s \<leftarrow> merge_segments env (cur_task s) (vm_start s vma) (vm_end s vma) s;
                   Some (a, s)
                 }
               }
             }))"

end
