(* ===== verification/Vma_props.thy ===== *)
theory Vma_props
  imports Mmap "HOL-Library.Multiset"
begin

section \<open>Memory areas: balanced trees and lookup\<close>

text \<open>
  The AVL tree of \<^verbatim>\<open>mm/mmap.c\<close> as a tree \<open>avt\<close> in the heap, with the stack of places as the path
  \<open>actx list\<close> from a hole to the root. One round of \<^verbatim>\<open>avl_rebalance\<close> keeps the order and restores the balance at
  its node (\<open>rebalance_step\<close>), the loop restores it on the whole path (\<open>rebalance_loop\<close>), and insertion and
  deletion are this loop after a change of the height by one at a hole.
\<close>

subsection \<open>Definitions\<close>

datatype avt = Tip | Bin avt addr avt

fun inord :: "avt \<Rightarrow> addr list" where
  "inord Tip = []"
| "inord (Bin l a r) = inord l @ a # inord r"

fun aptr :: "avt \<Rightarrow> addr" where
  "aptr Tip = NULL"
| "aptr (Bin l a r) = a"

fun ah :: "avt \<Rightarrow> int" where
  "ah Tip = 0"
| "ah (Bin l a r) = 1 + max (ah l) (ah r)"

fun avl :: "avt \<Rightarrow> bool" where
  "avl Tip = True"
| "avl (Bin l a r) \<longleftrightarrow> \<bar>ah l - ah r\<bar> \<le> 1 \<and> avl l \<and> avl r"

fun avl_rep :: "avt \<Rightarrow> addr \<Rightarrow> 'a vma_heap_scheme \<Rightarrow> bool" where
  "avl_rep Tip x s \<longleftrightarrow> x = NULL"
| "avl_rep (Bin l a r) x s \<longleftrightarrow> x = a \<and> a \<noteq> NULL \<and> vm_avl_height s a = 1 + max (ah l) (ah r) \<and>
     avl_rep l (vm_avl_left s a) s \<and> avl_rep r (vm_avl_right s a) s"

datatype actx = AL addr avt | AR avt addr

fun aplug :: "actx list \<Rightarrow> avt \<Rightarrow> avt" where
  "aplug [] t = t"
| "aplug (AL a r # k) t = aplug k (Bin t a r)"
| "aplug (AR l a # k) t = aplug k (Bin l a t)"

fun aplace :: "addr \<Rightarrow> actx list \<Rightarrow> vma_place" where
  "aplace mm [] = Tree mm"
| "aplace mm (AL a r # k) = Avl_left a"
| "aplace mm (AR l a # k) = Avl_right a"

fun astack :: "addr \<Rightarrow> actx list \<Rightarrow> vma_place list" where
  "astack mm [] = []"
| "astack mm (c # k) = aplace mm k # astack mm k"

fun actx_nodes :: "actx list \<Rightarrow> addr list" where
  "actx_nodes [] = []"
| "actx_nodes (AL a r # k) = a # inord r @ actx_nodes k"
| "actx_nodes (AR l a # k) = a # inord l @ actx_nodes k"

text \<open>The path above a hole, whose subtree had height \<open>h\<close> when the heights on the path were stored.\<close>

fun actx_rep :: "addr \<Rightarrow> actx list \<Rightarrow> addr \<Rightarrow> int \<Rightarrow> 'a vma_heap_scheme \<Rightarrow> bool" where
  "actx_rep mm [] x h s \<longleftrightarrow> mm_mmap_avl s mm = x"
| "actx_rep mm (AL a r # k) x h s \<longleftrightarrow> a \<noteq> NULL \<and> vm_avl_left s a = x \<and> avl_rep r (vm_avl_right s a) s \<and>
     vm_avl_height s a = 1 + max h (ah r) \<and> actx_rep mm k a (1 + max h (ah r)) s"
| "actx_rep mm (AR l a # k) x h s \<longleftrightarrow> a \<noteq> NULL \<and> vm_avl_right s a = x \<and> avl_rep l (vm_avl_left s a) s \<and>
     vm_avl_height s a = 1 + max (ah l) h \<and> actx_rep mm k a (1 + max (ah l) h) s"

fun actx_avl :: "actx list \<Rightarrow> int \<Rightarrow> bool" where
  "actx_avl [] h = True"
| "actx_avl (AL a r # k) h \<longleftrightarrow> \<bar>h - ah r\<bar> \<le> 1 \<and> avl r \<and> actx_avl k (1 + max h (ah r))"
| "actx_avl (AR l a # k) h \<longleftrightarrow> \<bar>ah l - h\<bar> \<le> 1 \<and> avl l \<and> actx_avl k (1 + max (ah l) h)"

definition avl_tree :: "addr \<Rightarrow> avt \<Rightarrow> 'a vma_heap_scheme \<Rightarrow> bool" where
  "avl_tree mm t s \<longleftrightarrow> avl_rep t (mm_mmap_avl s mm) s \<and> distinct (inord t)"

text \<open>Two states that differ in the shape of the trees only.\<close>

definition forget_avl :: "'a vma_heap_scheme \<Rightarrow> 'a vma_heap_scheme" where
  "forget_avl s = s\<lparr>vm_avl_left := \<lambda>_. 0, vm_avl_right := \<lambda>_. 0, vm_avl_height := \<lambda>_. 0, mm_mmap_avl := \<lambda>_. 0\<rparr>"

definition avl_rest :: "'a vma_heap_scheme \<Rightarrow> 'a vma_heap_scheme \<Rightarrow> bool" where
  "avl_rest s s' \<longleftrightarrow> forget_avl s' = forget_avl s"

text \<open>What one round does to the subtree \<open>Bin l a r\<close> at the hole.\<close>

definition step_pre :: "addr \<Rightarrow> actx list \<Rightarrow> int \<Rightarrow> avt \<Rightarrow> addr \<Rightarrow> avt \<Rightarrow> 'a vma_heap_scheme \<Rightarrow> bool" where
  "step_pre mm k h l a r s \<longleftrightarrow> actx_rep mm k a h s \<and> a \<noteq> NULL \<and> avl_rep l (vm_avl_left s a) s \<and> avl_rep r (vm_avl_right s a) s \<and>
     avl l \<and> avl r \<and> distinct (inord l @ a # inord r @ actx_nodes k)"

definition step_post ::
  "addr \<Rightarrow> actx list \<Rightarrow> int \<Rightarrow> avt \<Rightarrow> addr \<Rightarrow> avt \<Rightarrow> 'a vma_heap_scheme \<Rightarrow> bool \<times> 'a vma_heap_scheme \<Rightarrow> bool" where
  "step_post mm k h l a r s res \<longleftrightarrow> (\<exists>t. avl_rep t (aptr t) (snd res) \<and> actx_rep mm k (aptr t) h (snd res) \<and> avl t \<and>
     inord t = inord l @ a # inord r \<and> max (ah l) (ah r) \<le> ah t \<and> ah t \<le> 1 + max (ah l) (ah r) \<and>
     (\<bar>ah l - ah r\<bar> \<le> 1 \<longrightarrow> ah t = 1 + max (ah l) (ah r)) \<and>
     (\<not> fst res \<longrightarrow> ah t = vm_avl_height s a) \<and> avl_rest s (snd res))"

fun apre :: "actx list \<Rightarrow> addr list" where
  "apre [] = []"
| "apre (AL a r # k) = apre k"
| "apre (AR l a # k) = apre k @ inord l @ [a]"

fun asuf :: "actx list \<Rightarrow> addr list" where
  "asuf [] = []"
| "asuf (AL a r # k) = a # inord r @ asuf k"
| "asuf (AR l a # k) = asuf k"

text \<open>A piece of a path: its nodes, its upper end and the height there.\<close>

fun aseg :: "actx list \<Rightarrow> addr \<Rightarrow> int \<Rightarrow> 'a vma_heap_scheme \<Rightarrow> bool" where
  "aseg [] x h s \<longleftrightarrow> True"
| "aseg (AL a r # k) x h s \<longleftrightarrow> a \<noteq> NULL \<and> vm_avl_left s a = x \<and> avl_rep r (vm_avl_right s a) s \<and>
     vm_avl_height s a = 1 + max h (ah r) \<and> aseg k a (1 + max h (ah r)) s"
| "aseg (AR l a # k) x h s \<longleftrightarrow> a \<noteq> NULL \<and> vm_avl_right s a = x \<and> avl_rep l (vm_avl_left s a) s \<and>
     vm_avl_height s a = 1 + max (ah l) h \<and> aseg k a (1 + max (ah l) h) s"

fun atop :: "actx list \<Rightarrow> addr \<Rightarrow> addr" where
  "atop [] x = x"
| "atop (AL a r # k) x = atop k a"
| "atop (AR l a # k) x = atop k a"

fun ahgt :: "actx list \<Rightarrow> int \<Rightarrow> int" where
  "ahgt [] h = h"
| "ahgt (AL a r # k) h = ahgt k (1 + max h (ah r))"
| "ahgt (AR l a # k) h = ahgt k (1 + max (ah l) h)"

fun all_right :: "actx list \<Rightarrow> bool" where
  "all_right [] = True"
| "all_right (AL a r # k) = False"
| "all_right (AR l a # k) = all_right k"

text \<open>The greatest node \<open>m\<close> below \<open>n\<close> on the left takes the place of \<open>n\<close>.\<close>

definition replace_by_left :: "addr \<Rightarrow> actx list \<Rightarrow> actx list \<Rightarrow> addr \<Rightarrow> avt \<Rightarrow> addr \<Rightarrow> 'a vma_heap_scheme \<Rightarrow> 'a vma_heap_scheme" where
  "replace_by_left mm kr k n r m s =
     (let s = write_place (aplace mm (kr @ AL n r # k)) (vm_avl_left s m) s;
          s = set_avl_left m (vm_avl_left s n) s;
          s = set_avl_right m (vm_avl_right s n) s;
          s = set_avl_height m (vm_avl_height s n) s
      in write_place (aplace mm k) m s)"

definition areas_ok :: "addr list \<Rightarrow> 'a vma_heap_scheme \<Rightarrow> bool" where
  "areas_ok xs s \<longleftrightarrow> (\<forall>x\<in>set xs. vm_start s x \<le> vm_end s x) \<and> sorted_wrt (\<lambda>x y. vm_end s x \<le> vm_start s y) xs"

text \<open>Three areas in a tree at \<open>0x100\<close>, and a fourth one to insert.\<close>

definition example_vma :: "vma_heap \<Rightarrow> vma_heap" where
  "example_vma s =
     s\<lparr>vm_avl_left := (\<lambda>_. 0)(0x20 := 0x10), vm_avl_right := (\<lambda>_. 0)(0x20 := 0x30),
       vm_avl_height := (\<lambda>_. 0)(0x20 := 2, 0x10 := 1, 0x30 := 1), mm_mmap_avl := (\<lambda>_. 0)(0x100 := 0x20),
       vm_start := (\<lambda>_. 0)(0x10 := 0x1000, 0x20 := 0x3000, 0x30 := 0x8000),
       vm_end := (\<lambda>_. 0)(0x10 := 0x2000, 0x20 := 0x4000, 0x30 := 0x9000, 0x40 := 0x7000), tsk_mm := \<lambda>_. 0x100\<rparr>"

subsection \<open>Lemmas\<close>

lemma aplug_rep: "avl_rep (aplug k t) (mm_mmap_avl s mm) s \<longleftrightarrow>
    (\<exists>x. actx_rep mm k x (ah t) s \<and> avl_rep t x s)"
  by (induction k t rule: aplug.induct) auto

lemma aplug_avl: "avl (aplug k t) \<longleftrightarrow> actx_avl k (ah t) \<and> avl t"
  by (induction k t rule: aplug.induct) auto

lemma aplug_mset: "mset (inord (aplug k t)) = mset (actx_nodes k) + mset (inord t)"
  by (induction k t rule: aplug.induct) auto

lemma aplug_distinct: "distinct (inord (aplug k t)) \<longleftrightarrow>
    distinct (actx_nodes k) \<and> distinct (inord t) \<and> set (actx_nodes k) \<inter> set (inord t) = {}"
proof -
  have "mset (inord (aplug k t)) = mset (actx_nodes k @ inord t)" by (simp add: aplug_mset)
  then have "distinct (inord (aplug k t)) \<longleftrightarrow> distinct (actx_nodes k @ inord t)"
    by (metis mset_eq_imp_distinct_iff)
  then show ?thesis by auto
qed

lemma aplug_inord: "inord t = inord t' \<Longrightarrow> inord (aplug k t) = inord (aplug k t')"
  by (induction k t arbitrary: t' rule: aplug.induct) auto

lemma avl_rep_ptr: "avl_rep t x s \<Longrightarrow> x = aptr t"
  by (cases t) auto

lemma avl_rep_height: "avl_rep t x s \<Longrightarrow> heightof x s = ah t"
  by (cases t) (auto simp: heightof_def)

lemma ah_nonneg [simp]: "0 \<le> ah t"
  by (induction t) auto

lemma avl_fields [simp]:
  "vm_avl_left (set_avl_left n v s) = (vm_avl_left s)(n := v)" "vm_avl_right (set_avl_left n v s) = vm_avl_right s"
  "vm_avl_height (set_avl_left n v s) = vm_avl_height s" "mm_mmap_avl (set_avl_left n v s) = mm_mmap_avl s"
  "vm_avl_right (set_avl_right n v s) = (vm_avl_right s)(n := v)" "vm_avl_left (set_avl_right n v s) = vm_avl_left s"
  "vm_avl_height (set_avl_right n v s) = vm_avl_height s" "mm_mmap_avl (set_avl_right n v s) = mm_mmap_avl s"
  "vm_avl_height (set_avl_height n h s) = (vm_avl_height s)(n := h)" "vm_avl_left (set_avl_height n h s) = vm_avl_left s"
  "vm_avl_right (set_avl_height n h s) = vm_avl_right s" "mm_mmap_avl (set_avl_height n h s) = mm_mmap_avl s"
  by (simp_all add: set_avl_left_def set_avl_right_def set_avl_height_def)

lemma avl_rep_frame [simp]:
  assumes "n \<notin> set (inord t)"
  shows "avl_rep t x (set_avl_left n v s) = avl_rep t x s" "avl_rep t x (set_avl_right n v s) = avl_rep t x s"
    "avl_rep t x (set_avl_height n h s) = avl_rep t x s"
  using assms by (induction t arbitrary: x) auto

lemma actx_rep_frame [simp]:
  assumes "n \<notin> set (actx_nodes k)"
  shows "actx_rep mm k x h (set_avl_left n v s) = actx_rep mm k x h s"
    "actx_rep mm k x h (set_avl_right n v s) = actx_rep mm k x h s"
    "actx_rep mm k x h (set_avl_height n w s) = actx_rep mm k x h s"
  using assms by (induction k arbitrary: x h rule: actx_nodes.induct) auto

lemma read_aplace: "actx_rep mm k x h s \<Longrightarrow> read_place (aplace mm k) s = x"
  by (cases k rule: actx_nodes.cases) auto

lemma avl_rep_mm [simp]: "avl_rep t x (s\<lparr>mm_mmap_avl := m\<rparr>) = avl_rep t x s"
  by (induction t arbitrary: x) auto

lemma avl_rep_write [simp]:
  "set (actx_nodes k) \<inter> set (inord t) = {} \<Longrightarrow> avl_rep t x (write_place (aplace mm k) y s) = avl_rep t x s"
  by (cases k rule: actx_nodes.cases) auto

lemma actx_rep_write:
  "actx_rep mm k x h s \<Longrightarrow> distinct (actx_nodes k) \<Longrightarrow> actx_rep mm k y h (write_place (aplace mm k) y s)"
  by (cases k rule: actx_nodes.cases) auto

lemma write_fields [simp]:
  "vm_avl_height (write_place p y s) = vm_avl_height s"
  by (cases p) auto

lemma write_children [simp]:
  "n \<notin> set (actx_nodes k) \<Longrightarrow> vm_avl_left (write_place (aplace mm k) y s) n = vm_avl_left s n"
  "n \<notin> set (actx_nodes k) \<Longrightarrow> vm_avl_right (write_place (aplace mm k) y s) n = vm_avl_right s n"
  by (cases k rule: actx_nodes.cases; auto)+

lemma avl_rest_refl [simp]: "avl_rest s s"
  by (simp add: avl_rest_def)

lemma avl_rest_trans: "avl_rest s s1 \<Longrightarrow> avl_rest s1 s2 \<Longrightarrow> avl_rest s s2"
  by (simp add: avl_rest_def)

lemma avl_rest_set [simp]:
  "avl_rest s (set_avl_left n v s') = avl_rest s s'" "avl_rest s (set_avl_right n v s') = avl_rest s s'"
  "avl_rest s (set_avl_height n h s') = avl_rest s s'"
  by (simp_all add: avl_rest_def forget_avl_def set_avl_left_def set_avl_right_def set_avl_height_def)

lemma avl_rest_write [simp]: "avl_rest s (write_place p y s') = avl_rest s s'"
  by (cases p) (simp_all add: avl_rest_def forget_avl_def set_avl_left_def set_avl_right_def)

lemma bin_reads:
  assumes "avl_rep (Bin l b r) x s"
  shows "x = b" "b \<noteq> NULL" "vm_avl_left s b = aptr l" "vm_avl_right s b = aptr r"
    "heightof (aptr l) s = ah l" "heightof (aptr r) s = ah r"
proof -
  have l: "avl_rep l (vm_avl_left s b) s" and r: "avl_rep r (vm_avl_right s b) s" and b: "x = b" "b \<noteq> NULL"
    using assms by auto
  then show "x = b" "b \<noteq> NULL" by auto
  show "vm_avl_left s b = aptr l" "vm_avl_right s b = aptr r" by (rule avl_rep_ptr [OF l], rule avl_rep_ptr [OF r])
  then show "heightof (aptr l) s = ah l" "heightof (aptr r) s = ah r"
    using avl_rep_height [OF l] avl_rep_height [OF r] by simp_all
qed

lemma step_reads:
  assumes "step_pre mm k h l a r s"
  shows "read_place (aplace mm k) s = a" "vm_avl_left s a = aptr l" "vm_avl_right s a = aptr r"
    "heightof (aptr l) s = ah l" "heightof (aptr r) s = ah r"
proof -
  show "read_place (aplace mm k) s = a" using assms read_aplace unfolding step_pre_def by blast
  show "vm_avl_left s a = aptr l" "vm_avl_right s a = aptr r" using assms avl_rep_ptr unfolding step_pre_def by blast+
  then show "heightof (aptr l) s = ah l" "heightof (aptr r) s = ah r"
    using assms avl_rep_height unfolding step_pre_def by metis+
qed

lemma step_height:
  assumes pre: "step_pre mm k h l a r s" and "\<bar>ah l - ah r\<bar> \<le> 1"
  shows "step_post mm k h l a r s (avl_rebalance_step (aplace mm k) s)"
proof -
  note rd = step_reads [OF pre]
  have m: "(if ah l < ah r then ah r else ah l) + 1 = 1 + max (ah l) (ah r)" by (simp add: max_def)
  show ?thesis
  proof (cases "1 + max (ah l) (ah r) = vm_avl_height s a")
    case True
    then have "avl_rebalance_step (aplace mm k) s = (False, s)"
      using rd assms(2) unfolding avl_rebalance_step_def Let_def rd m by auto
    then show ?thesis unfolding step_post_def using pre assms(2) True rd
      by (intro exI [of _ "Bin l a r"]) (auto simp: step_pre_def)
  next
    case False
    then have "avl_rebalance_step (aplace mm k) s = (True, set_avl_height a (1 + max (ah l) (ah r)) s)"
      using rd assms(2) unfolding avl_rebalance_step_def Let_def rd m by auto
    then show ?thesis unfolding step_post_def using pre assms(2) rd
      by (intro exI [of _ "Bin l a r"]) (auto simp: step_pre_def)
  qed
qed

lemma step_left_single:
  assumes pre: "step_pre mm k h (Bin ll b lr) a r s" and "ah (Bin ll b lr) = ah r + 2" and "ah ll \<ge> ah lr"
  shows "step_post mm k h (Bin ll b lr) a r s (avl_rebalance_step (aplace mm k) s)"
proof -
  note rd = step_reads [OF pre]
  have b: "vm_avl_left s b = aptr ll" "vm_avl_right s b = aptr lr" "heightof (aptr ll) s = ah ll" "heightof (aptr lr) s = ah lr"
    using pre bin_reads [of ll b lr "vm_avl_left s a" s] unfolding step_pre_def by blast+
  have e: "avl_rebalance_step (aplace mm k) s = (True, write_place (aplace mm k) b
      (set_avl_height b (1 + (1 + ah lr)) (set_avl_height a (1 + ah lr) (set_avl_right b a (set_avl_left a (aptr lr) s)))))"
    using rd b assms(2,3) unfolding avl_rebalance_step_def Let_def by simp
  have dj: "set (actx_nodes k) \<inter> set (inord ll) = {}" "set (actx_nodes k) \<inter> set (inord lr) = {}" "set (actx_nodes k) \<inter> set (inord r) = {}"
    "distinct (actx_nodes k)" using pre unfolding step_pre_def by auto
  show ?thesis unfolding step_post_def e
    by (intro exI [of _ "Bin ll b (Bin lr a r)"])
      (use pre assms(2,3) dj rd b in \<open>auto simp: step_pre_def intro!: actx_rep_write\<close>)
qed

lemma step_left_double:
  assumes pre: "step_pre mm k h (Bin ll b (Bin u c v)) a r s" and "ah (Bin ll b (Bin u c v)) = ah r + 2"
    and "ah ll < ah (Bin u c v)"
  shows "step_post mm k h (Bin ll b (Bin u c v)) a r s (avl_rebalance_step (aplace mm k) s)"
proof -
  note rd = step_reads [OF pre]
  have rep: "avl_rep (Bin ll b (Bin u c v)) (vm_avl_left s a) s" using pre unfolding step_pre_def by blast
  note b = bin_reads [OF rep]
  have "avl_rep (Bin u c v) (vm_avl_right s b) s" using rep by auto
  note c = bin_reads [OF this]
  have bc: "c \<noteq> b" using pre unfolding step_pre_def by auto
  let ?H = "1 + max (ah u) (ah v)"
  have e: "avl_rebalance_step (aplace mm k) s = (True, write_place (aplace mm k) c
      (set_avl_height c (ah (Bin ll b (Bin u c v))) (set_avl_height b ?H (set_avl_height a ?H
        (set_avl_right c a (set_avl_left c b (set_avl_left a (aptr v) (set_avl_right b (aptr u) s))))))))"
    using rd b c bc assms(2,3) unfolding avl_rebalance_step_def Let_def by simp
  have dj: "set (actx_nodes k) \<inter> set (inord ll) = {}" "set (actx_nodes k) \<inter> set (inord u) = {}"
    "set (actx_nodes k) \<inter> set (inord v) = {}" "set (actx_nodes k) \<inter> set (inord r) = {}" "distinct (actx_nodes k)"
    using pre unfolding step_pre_def by auto
  show ?thesis unfolding step_post_def e
    by (intro exI [of _ "Bin (Bin ll b u) c (Bin v a r)"])
      (use pre assms(2,3) dj rd b c in \<open>auto simp: step_pre_def intro!: actx_rep_write\<close>)
qed

lemma step_right_single:
  assumes pre: "step_pre mm k h l a (Bin rl b rr) s" and "ah (Bin rl b rr) = ah l + 2" and "ah rr \<ge> ah rl"
  shows "step_post mm k h l a (Bin rl b rr) s (avl_rebalance_step (aplace mm k) s)"
proof -
  note rd = step_reads [OF pre]
  have b: "vm_avl_left s b = aptr rl" "vm_avl_right s b = aptr rr" "heightof (aptr rl) s = ah rl" "heightof (aptr rr) s = ah rr"
    using pre bin_reads [of rl b rr "vm_avl_right s a" s] unfolding step_pre_def by blast+
  have e: "avl_rebalance_step (aplace mm k) s = (True, write_place (aplace mm k) b
      (set_avl_height b (1 + (1 + ah rl)) (set_avl_height a (1 + ah rl) (set_avl_left b a (set_avl_right a (aptr rl) s)))))"
    using rd b assms(2,3) unfolding avl_rebalance_step_def Let_def by simp
  have dj: "set (actx_nodes k) \<inter> set (inord rl) = {}" "set (actx_nodes k) \<inter> set (inord rr) = {}" "set (actx_nodes k) \<inter> set (inord l) = {}"
    "distinct (actx_nodes k)" using pre unfolding step_pre_def by auto
  show ?thesis unfolding step_post_def e
    by (intro exI [of _ "Bin (Bin l a rl) b rr"])
      (use pre assms(2,3) dj rd b in \<open>auto simp: step_pre_def intro!: actx_rep_write\<close>)
qed

lemma step_right_double:
  assumes pre: "step_pre mm k h l a (Bin (Bin u c v) b rr) s" and "ah (Bin (Bin u c v) b rr) = ah l + 2"
    and "ah rr < ah (Bin u c v)"
  shows "step_post mm k h l a (Bin (Bin u c v) b rr) s (avl_rebalance_step (aplace mm k) s)"
proof -
  note rd = step_reads [OF pre]
  have rep: "avl_rep (Bin (Bin u c v) b rr) (vm_avl_right s a) s" using pre unfolding step_pre_def by blast
  note b = bin_reads [OF rep]
  have "avl_rep (Bin u c v) (vm_avl_left s b) s" using rep by auto
  note c = bin_reads [OF this]
  have bc: "c \<noteq> b" using pre unfolding step_pre_def by auto
  let ?H = "1 + max (ah u) (ah v)"
  have e: "avl_rebalance_step (aplace mm k) s = (True, write_place (aplace mm k) c
      (set_avl_height c (ah (Bin (Bin u c v) b rr)) (set_avl_height b ?H (set_avl_height a ?H
        (set_avl_left c a (set_avl_right c b (set_avl_right a (aptr u) (set_avl_left b (aptr v) s))))))))"
    using rd b c bc assms(2,3) unfolding avl_rebalance_step_def Let_def by simp
  have dj: "set (actx_nodes k) \<inter> set (inord rr) = {}" "set (actx_nodes k) \<inter> set (inord u) = {}"
    "set (actx_nodes k) \<inter> set (inord v) = {}" "set (actx_nodes k) \<inter> set (inord l) = {}" "distinct (actx_nodes k)"
    using pre unfolding step_pre_def by auto
  show ?thesis unfolding step_post_def e
    by (intro exI [of _ "Bin (Bin l a u) c (Bin v b rr)"])
      (use pre assms(2,3) dj rd b c in \<open>auto simp: step_pre_def intro!: actx_rep_write\<close>)
qed

lemma ah_pos: "0 < ah t \<Longrightarrow> \<exists>l a r. t = Bin l a r"
  by (cases t) auto

lemma rebalance_step:
  assumes pre: "step_pre mm k h l a r s" and d: "\<bar>ah l - ah r\<bar> \<le> 2"
  shows "step_post mm k h l a r s (avl_rebalance_step (aplace mm k) s)"
proof -
  consider "\<bar>ah l - ah r\<bar> \<le> 1" | "ah l = ah r + 2" | "ah r = ah l + 2" using d by linarith
  then show ?thesis
  proof cases
    case 1
    then show ?thesis by (rule step_height [OF pre])
  next
    case 2
    then obtain ll b lr where l: "l = Bin ll b lr" using ah_pos [of l] ah_nonneg [of r] by force
    show ?thesis
    proof (cases "ah ll \<ge> ah lr")
      case True
      then show ?thesis using step_left_single pre 2 l by blast
    next
      case False
      then obtain u c v where "lr = Bin u c v" using ah_pos [of lr] ah_nonneg [of ll] by force
      then show ?thesis using step_left_double [of mm k h ll b u c v a r s] pre 2 l False by simp
    qed
  next
    case 3
    then obtain rl b rr where r: "r = Bin rl b rr" using ah_pos [of r] ah_nonneg [of l] by force
    show ?thesis
    proof (cases "ah rr \<ge> ah rl")
      case True
      then show ?thesis using step_right_single pre 3 r by blast
    next
      case False
      then obtain u c v where "rl = Bin u c v" using ah_pos [of rl] ah_nonneg [of rr] by force
      then show ?thesis using step_right_double [of mm k h l a u c v b rr s] pre 3 r False by simp
    qed
  qed
qed

lemma rebalance_loop:
  assumes "actx_rep mm k (aptr t) h s" "avl_rep t (aptr t) s" "distinct (inord t @ actx_nodes k)" "avl t" "actx_avl k h"
    "\<bar>ah t - h\<bar> \<le> 1"
  shows "\<exists>T. avl_tree mm T (avl_rebalance (astack mm k) s) \<and> inord T = inord (aplug k t) \<and> avl T \<and>
    avl_rest s (avl_rebalance (astack mm k) s)"
  using assms
proof (induction k arbitrary: t h s)
  case Nil
  then show ?case by (auto simp: avl_tree_def intro!: exI [of _ t])
next
  case (Cons c k)
  obtain l a r h0 where c: "aplug (c # k) t = aplug k (Bin l a r)" "step_pre mm k h0 l a r s" "\<bar>ah l - ah r\<bar> \<le> 2"
    "actx_avl k h0" "vm_avl_height s a = h0" "h0 - 1 \<le> 1 + max (ah l) (ah r)" "max (ah l) (ah r) \<le> h0"
    "\<not> \<bar>ah l - ah r\<bar> \<le> 1 \<longrightarrow> h0 - 1 \<le> max (ah l) (ah r)"
  proof (cases c)
    case (AL a r)
    then show ?thesis using Cons.prems that [of t a r "1 + max h (ah r)"] by (simp add: step_pre_def) linarith
  next
    case (AR l a)
    show ?thesis
    proof (rule that [of l a t "1 + max (ah l) h"])
      show "step_pre mm k (1 + max (ah l) h) l a t s" using Cons.prems AR by (auto simp: step_pre_def)
    qed (use Cons.prems AR in auto)
  qed
  obtain go s' where st: "avl_rebalance_step (aplace mm k) s = (go, s')" by fastforce
  then obtain t' where t': "avl_rep t' (aptr t') s'" "actx_rep mm k (aptr t') h0 s'" "avl t'" "inord t' = inord l @ a # inord r"
    "max (ah l) (ah r) \<le> ah t'" "ah t' \<le> 1 + max (ah l) (ah r)" "\<bar>ah l - ah r\<bar> \<le> 1 \<longrightarrow> ah t' = 1 + max (ah l) (ah r)"
    "\<not> go \<longrightarrow> ah t' = h0" "avl_rest s s'"
    using rebalance_step [OF c(2,3)] c(5) unfolding step_post_def by auto
  have d: "distinct (inord t' @ actx_nodes k)" using c(2) t'(4) unfolding step_pre_def by simp
  have i: "inord (aplug (c # k) t) = inord (aplug k t')" unfolding c(1) by (rule aplug_inord) (simp add: t'(4))
  show ?case
  proof (cases go)
    case True
    have "\<bar>ah t' - h0\<bar> \<le> 1" using c(6-8) t'(5-7) by linarith
    then show ?thesis
      using Cons.IH [OF t'(2,1) d t'(3) c(4)] st True i avl_rest_trans [OF t'(9)] by auto
  next
    case False
    then have "avl_rebalance (astack mm (c # k)) s = s'" "ah t' = h0" using st t'(8) by auto
    then show ?thesis using t' d c(4) i
      by (intro exI [of _ "aplug k t'"]) (auto simp: avl_tree_def aplug_rep aplug_avl aplug_distinct)
  qed
qed

lemma inord_actx: "inord (aplug k t) = apre k @ inord t @ asuf k"
  by (induction k t rule: aplug.induct) auto

lemma astack_length [simp]: "length (astack mm k) = length k"
  by (induction k) auto

lemma avl_tree_split: "avl_tree mm (aplug k t) s \<longleftrightarrow>
    actx_rep mm k (aptr t) (ah t) s \<and> avl_rep t (aptr t) s \<and> distinct (actx_nodes k) \<and> distinct (inord t) \<and>
    set (actx_nodes k) \<inter> set (inord t) = {}"
  unfolding avl_tree_def aplug_rep aplug_distinct by (auto dest: avl_rep_ptr)

lemma avl_descend_tree:
  assumes "avl_tree mm (aplug k t) s" and "sorted (map (vm_end s) (inord t))" and "int (length k) + ah t \<le> 41"
    and lo: "lo = filter (\<lambda>x. vm_end s x \<le> key) (inord t)" and hi: "hi = filter (\<lambda>x. key < vm_end s x) (inord t)"
  shows "\<exists>k'. aplug k' Tip = aplug k t \<and> apre k' = apre k @ lo \<and> asuf k' = hi @ asuf k \<and>
    avl_descend key (aplace mm k) (astack mm k) L R s =
      Some (aplace mm k', astack mm k', if lo = [] then L else last lo, if hi = [] then R else hd hi)"
  using assms
proof (induction t arbitrary: k L R lo hi)
  case Tip
  then have "read_place (aplace mm k) s = NULL" unfolding avl_tree_split by (auto dest: read_aplace)
  then show ?case using Tip by (subst avl_descend.simps) (auto intro!: exI [of _ k])
next
  case (Bin l a r)
  have rd: "read_place (aplace mm k) s = a" "a \<noteq> NULL" using Bin.prems(1) unfolding avl_tree_split by (auto dest: read_aplace)
  have "0 \<le> max (ah l) (ah r)" by (simp add: max_def)
  then have len: "length k < 41" "int (length (AL a r # k)) + ah l \<le> 41" "int (length (AR l a # k)) + ah r \<le> 41"
    using Bin.prems(3) by auto
  have srt: "sorted (map (vm_end s) (inord l))" "sorted (map (vm_end s) (inord r))"
    "\<forall>x\<in>set (inord l). vm_end s x \<le> vm_end s a" "\<forall>x\<in>set (inord r). vm_end s a \<le> vm_end s x"
    using Bin.prems(2) by (auto simp: sorted_append)
  show ?case
  proof (cases "key < vm_end s a")
    case True
    have f: "filter (\<lambda>x. vm_end s x \<le> key) (inord r) = []" "filter (\<lambda>x. key < vm_end s x) (inord r) = inord r"
      using srt(4) True by (auto simp: filter_empty_conv filter_id_conv not_le)
    have "avl_descend key (aplace mm k) (astack mm k) L R s = avl_descend key (aplace mm (AL a r # k)) (astack mm (AL a r # k)) L a s"
      by (subst avl_descend.simps) (use rd len True in simp)
    moreover have "avl_tree mm (aplug (AL a r # k) l) s" using Bin.prems(1) by simp
    ultimately show ?thesis
      using Bin.IH(1) [of "AL a r # k" _ _ L a, OF _ srt(1) len(2) refl refl] Bin.prems(4,5) True f
      by (auto simp: not_le)
  next
    case False
    then have f: "filter (\<lambda>x. key < vm_end s x) (inord l) = []" "filter (\<lambda>x. vm_end s x \<le> key) (inord l) = inord l"
      using srt(3) by (auto simp: filter_empty_conv filter_id_conv not_less intro: order_trans)
    have "avl_descend key (aplace mm k) (astack mm k) L R s = avl_descend key (aplace mm (AR l a # k)) (astack mm (AR l a # k)) a R s"
      by (subst avl_descend.simps) (use rd len False in simp)
    moreover have "avl_tree mm (aplug (AR l a # k) r) s" using Bin.prems(1) by simp
    ultimately show ?thesis
      using Bin.IH(2) [of "AR l a # k" _ _ a R, OF _ srt(2) len(3) refl refl] Bin.prems(4,5) False f
      by (auto simp: not_le)
  qed
qed

lemma avl_tree_cong: "avl_rest s s' \<Longrightarrow> vm_end s' = vm_end s \<and> vm_start s' = vm_start s \<and> vm_next s' = vm_next s"
  by (cases s; cases s') (simp add: avl_rest_def forget_avl_def)

lemma avl_link:
  assumes "avl_tree mm (aplug k Tip) s" and "n \<notin> set (inord (aplug k Tip))" and "n \<noteq> NULL"
  shows "actx_rep mm k n 0 (avl_link_leaf n (aplace mm k) s)" "avl_rep (Bin Tip n Tip) n (avl_link_leaf n (aplace mm k) s)"
    "avl_rest s (avl_link_leaf n (aplace mm k) s)" "n \<notin> set (actx_nodes k)"
proof -
  show nk: "n \<notin> set (actx_nodes k)"
    using assms(2) aplug_mset [of k Tip] by (metis add_0_right inord.simps(1) mset_zero_iff set_mset_mset)
  show "actx_rep mm k n 0 (avl_link_leaf n (aplace mm k) s)"
    unfolding avl_link_leaf_def by (rule actx_rep_write) (use assms nk in \<open>auto simp: avl_tree_split\<close>)
  show "avl_rep (Bin Tip n Tip) n (avl_link_leaf n (aplace mm k) s)" "avl_rest s (avl_link_leaf n (aplace mm k) s)"
    using assms nk by (auto simp: avl_link_leaf_def)
qed

lemma avl_insert_tree:
  assumes "avl_tree mm t s" and "avl t" and "sorted (map (vm_end s) (inord t))" and "ah t \<le> 41"
    and "n \<notin> set (inord t)" and "n \<noteq> NULL"
    and "lo = filter (\<lambda>x. vm_end s x \<le> vm_end s n) (inord t)" and "hi = filter (\<lambda>x. vm_end s n < vm_end s x) (inord t)"
  obtains s' T where "avl_insert n (Tree mm) s = Some s'"
    "avl_insert_neighbours n (Tree mm) s = Some ((if lo = [] then NULL else last lo, if hi = [] then NULL else hd hi), s')"
    "avl_tree mm T s'" "avl T" "inord T = lo @ n # hi" "avl_rest s s'"
proof -
  obtain k where k: "aplug k Tip = t" "apre k = lo" "asuf k = hi"
    "avl_descend (vm_end s n) (Tree mm) [] NULL NULL s =
      Some (aplace mm k, astack mm k, if lo = [] then NULL else last lo, if hi = [] then NULL else hd hi)"
    using avl_descend_tree [of mm "[]" t s lo "vm_end s n" hi NULL NULL] assms by auto
  let ?s = "avl_link_leaf n (aplace mm k) s"
  note l = avl_link [of mm k s n]
  have "avl_tree mm (aplug k Tip) s" "actx_avl k 0" using assms(1,2) k(1) aplug_avl [of k Tip] by auto
  then obtain T where "avl_tree mm T (avl_rebalance (astack mm k) ?s)" "inord T = inord (aplug k (Bin Tip n Tip))" "avl T"
    "avl_rest ?s (avl_rebalance (astack mm k) ?s)"
    using rebalance_loop [of mm k "Bin Tip n Tip" 0 ?s] l assms(5,6) k(1) by (auto simp: avl_tree_split)
  then show ?thesis
    using that [of "avl_rebalance (astack mm k) ?s" T] k avl_rest_trans [OF l(3)] assms(1,5,6)
    by (auto simp: avl_insert_def avl_insert_neighbours_def inord_actx)
qed

lemma aplug_append: "aplug (k @ k') t = aplug k' (aplug k t)"
  by (induction k t rule: aplug.induct) auto

lemma actx_nodes_append [simp]: "actx_nodes (k @ k') = actx_nodes k @ actx_nodes k'"
  by (induction k rule: actx_nodes.induct) auto

lemma aptr_aplug: "aptr (aplug k t) = atop k (aptr t)"
  by (induction k t rule: aplug.induct) auto

lemma actx_rep_append:
  "actx_rep mm (k @ k') x h s \<longleftrightarrow> aseg k x h s \<and> actx_rep mm k' (atop k x) (ahgt k h) s"
  by (induction k arbitrary: x h rule: actx_nodes.induct) auto

lemma ah_aplug: "ah (aplug k t) = ahgt k (ah t)"
  by (induction k t rule: aplug.induct) auto

lemma aseg_frame [simp]:
  assumes "n \<notin> set (actx_nodes k)"
  shows "aseg k x h (set_avl_left n v s) = aseg k x h s"
    "aseg k x h (set_avl_right n v s) = aseg k x h s"
    "aseg k x h (set_avl_height n w s) = aseg k x h s"
  using assms by (induction k arbitrary: x h rule: actx_nodes.induct) auto

lemma aseg_write [simp]:
  "set (actx_nodes k') \<inter> set (actx_nodes k) = {} \<Longrightarrow> aseg k x h (write_place (aplace mm k') y s) = aseg k x h s"
proof (cases k' rule: actx_nodes.cases)
  case 1
  have "aseg k x h (s\<lparr>mm_mmap_avl := m\<rparr>) = aseg k x h s" for m
    by (induction k arbitrary: x h rule: actx_nodes.induct) auto
  then show ?thesis using 1 by simp
qed auto

lemma aseg_hole:
  "aseg k x h s \<Longrightarrow> k \<noteq> [] \<Longrightarrow> distinct (actx_nodes k) \<Longrightarrow> aseg k y h (write_place (aplace mm (k @ k')) y s)"
  by (cases k rule: actx_nodes.cases) auto

lemma aplace_node: "k \<noteq> [] \<Longrightarrow> aplace mm (k @ k') = aplace mm k"
  by (cases k rule: actx_nodes.cases) auto

lemma atop_any: "k \<noteq> [] \<Longrightarrow> atop k x = atop k y"
  by (cases k rule: actx_nodes.cases) auto

lemma avl_rightmost_tree:
  assumes "avl_tree mm (aplug k (Bin l a r)) s" and "int (length k) + ah (Bin l a r) \<le> 41"
  shows "\<exists>kr ml m. all_right kr \<and> Bin l a r = aplug kr (Bin ml m Tip) \<and>
    avl_rightmost (aplace mm k) (astack mm k) s = Some (aplace mm (kr @ k), astack mm (kr @ k))"
  using assms
proof (induction r arbitrary: k l a)
  case Tip
  have "read_place (aplace mm k) s = a" "vm_avl_right s a = NULL"
    using Tip(1) unfolding avl_tree_split by (auto dest: read_aplace)
  then have "avl_rightmost (aplace mm k) (astack mm k) s = Some (aplace mm k, astack mm k)"
    by (subst avl_rightmost.simps) simp
  then show ?case by (intro exI [of _ "[]"] exI [of _ l] exI [of _ a]) simp
next
  case (Bin rl b rr)
  let ?r = "Bin rl b rr"
  have rd: "read_place (aplace mm k) s = a" "vm_avl_right s a = b" "b \<noteq> NULL"
    using Bin.prems(1) unfolding avl_tree_split by (auto dest: read_aplace)
  have "0 \<le> max (ah l) (ah ?r)" by (simp add: max_def)
  then have len: "length k < 41" "int (length (AR l a # k)) + ah ?r \<le> 41"
    using Bin.prems(2) by auto
  have "avl_tree mm (aplug (AR l a # k) ?r) s" using Bin.prems(1) by simp
  then obtain kr ml m where r: "all_right kr" "?r = aplug kr (Bin ml m Tip)"
    "avl_rightmost (aplace mm (AR l a # k)) (astack mm (AR l a # k)) s = Some (aplace mm (kr @ AR l a # k), astack mm (kr @ AR l a # k))"
    using Bin.IH(2) [OF _ len(2)] by blast
  have "avl_rightmost (aplace mm k) (astack mm k) s = avl_rightmost (aplace mm (AR l a # k)) (astack mm (AR l a # k)) s"
    by (subst avl_rightmost.simps) (use rd len in simp)
  moreover have "all_right (kr @ [AR l a])" using r(1) by (induction kr rule: all_right.induct) auto
  ultimately show ?case using r(2,3)
    by (intro exI [of _ "kr @ [AR l a]"] exI [of _ ml] exI [of _ m]) (simp add: aplug_append)
qed

lemma aplug_height: "int (length k) + ah u \<le> ah (aplug k u)"
proof (induction k u rule: aplug.induct)
  case (2 a r k t)
  then show ?case by simp
next
  case (3 l a k t)
  then show ?case by simp
qed simp

lemma stack_update:
  "rev ((rev (astack mm (kr @ AL n r # k)))[Suc (length k) := Avl_left m]) = astack mm (kr @ AL m r # k)"
proof (induction kr)
  case (Cons c kr)
  show ?case
  proof (cases "kr = []")
    case True
    then show ?thesis by (simp add: list_update_append nth_append)
  next
    case False
    then have "Suc (length k) < length (rev (astack mm (kr @ AL n r # k)))" by (cases kr) auto
    then show ?thesis using Cons False
      by (simp add: list_update_append1 aplace_node)
  qed
qed (simp add: list_update_append)

lemma avl_find_place_tree:
  assumes "avl_tree mm (aplug k0 t) s" and "sorted_wrt (<) (map (vm_end s) (inord t))" and "n \<in> set (inord t)"
    and "int (length k0) + ah t \<le> 41"
  shows "\<exists>k l r. aplug k (Bin l n r) = aplug k0 t \<and>
    avl_find_place (vm_end s n) (aplace mm k0) (astack mm k0) s = Some (Some (aplace mm k, aplace mm k # astack mm k))"
  using assms
proof (induction t arbitrary: k0)
  case (Bin l a r)
  have rd: "read_place (aplace mm k0) s = a" "a \<noteq> NULL" using Bin.prems(1) unfolding avl_tree_split by (auto dest: read_aplace)
  have "0 \<le> max (ah l) (ah r)" by (simp add: max_def)
  then have len: "length k0 < 41" "int (length (AL a r # k0)) + ah l \<le> 41" "int (length (AR l a # k0)) + ah r \<le> 41"
    using Bin.prems(4) by auto
  have srt: "sorted_wrt (<) (map (vm_end s) (inord l))" "sorted_wrt (<) (map (vm_end s) (inord r))"
    "\<forall>x\<in>set (inord l). vm_end s x < vm_end s a" "\<forall>x\<in>set (inord r). vm_end s a < vm_end s x"
    using Bin.prems(2) by (auto simp: sorted_wrt_append)
  consider "n = a" | "n \<in> set (inord l)" "vm_end s n < vm_end s a" | "n \<in> set (inord r)" "vm_end s a < vm_end s n"
    using Bin.prems(3) srt by auto
  then show ?case
  proof cases
    case 1
    then have "avl_find_place (vm_end s n) (aplace mm k0) (astack mm k0) s = Some (Some (aplace mm k0, aplace mm k0 # astack mm k0))"
      by (subst avl_find_place.simps) (use rd len in simp)
    then show ?thesis using 1 by blast
  next
    case 2
    have "avl_find_place (vm_end s n) (aplace mm k0) (astack mm k0) s =
        avl_find_place (vm_end s n) (aplace mm (AL a r # k0)) (astack mm (AL a r # k0)) s"
      by (subst avl_find_place.simps) (use rd len 2 in auto)
    moreover have "avl_tree mm (aplug (AL a r # k0) l) s" using Bin.prems(1) by simp
    ultimately show ?thesis using Bin.IH(1) [OF _ srt(1) 2(1) len(2)] by simp
  next
    case 3
    have "avl_find_place (vm_end s n) (aplace mm k0) (astack mm k0) s =
        avl_find_place (vm_end s n) (aplace mm (AR l a # k0)) (astack mm (AR l a # k0)) s"
      by (subst avl_find_place.simps) (use rd len 3 in auto)
    moreover have "avl_tree mm (aplug (AR l a # k0) r) s" using Bin.prems(1) by simp
    ultimately show ?thesis using Bin.IH(2) [OF _ srt(2) 3(1) len(3)] by simp
  qed
qed simp

lemma replace_by_left_rep:
  assumes t: "avl_tree mm (aplug (kr @ AL n r # k) (Bin ml m Tip)) s" and b: "ah ml \<le> 1"
  shows "actx_rep mm (kr @ AL m r # k) (aptr ml) (1 + ah ml) (replace_by_left mm kr k n r m s)"
    "avl_rep ml (aptr ml) (replace_by_left mm kr k n r m s)" "avl_rest s (replace_by_left mm kr k n r m s)"
proof -
  let ?P = "kr @ AL n r # k" and ?h = "1 + ah ml"
  have max0: "1 + max (ah ml) 0 = ?h" by (simp add: max_absorb1)
  have c: "aseg kr m ?h s" "n \<noteq> NULL" "vm_avl_left s n = atop kr m" "avl_rep r (vm_avl_right s n) s"
    "vm_avl_height s n = 1 + max (ahgt kr ?h) (ah r)" "actx_rep mm k n (1 + max (ahgt kr ?h) (ah r)) s"
    and bin: "avl_rep (Bin ml m Tip) m s"
    using t unfolding avl_tree_split actx_rep_append by (auto simp: max0)
  have m: "m \<noteq> NULL" "vm_avl_left s m = aptr ml" "avl_rep ml (aptr ml) s"
    using bin bin_reads(3) [OF bin] by auto
  have d: "distinct (actx_nodes kr)" "distinct (actx_nodes k)" "distinct (inord r)" "n \<notin> set (actx_nodes kr)" "n \<notin> set (actx_nodes k)"
    "n \<notin> set (inord r)" "m \<noteq> n" "m \<notin> set (actx_nodes kr)" "m \<notin> set (actx_nodes k)" "m \<notin> set (inord r)"
    "n \<notin> set (inord ml)" "m \<notin> set (inord ml)"
    "set (actx_nodes k) \<inter> set (inord r) = {}" "set (actx_nodes kr) \<inter> set (inord r) = {}"
    "set (actx_nodes k) \<inter> set (actx_nodes kr) = {}" "set (actx_nodes kr) \<inter> set (actx_nodes k) = {}"
    "set (actx_nodes k) \<inter> set (inord ml) = {}" "set (actx_nodes kr) \<inter> set (inord ml) = {}"
    using t unfolding avl_tree_split by auto
  let ?s1 = "write_place (aplace mm ?P) (aptr ml) s"
  have s1: "aseg kr (aptr ml) ?h ?s1" "vm_avl_left ?s1 n = atop kr (aptr ml)" "vm_avl_right ?s1 n = vm_avl_right s n"
    "vm_avl_height ?s1 = vm_avl_height s" "avl_rep r (vm_avl_right s n) ?s1" "actx_rep mm k n (1 + max (ahgt kr ?h) (ah r)) ?s1"
    "avl_rep ml (aptr ml) ?s1"
  proof -
    show "aseg kr (aptr ml) ?h ?s1" using aseg_hole [OF c(1) _ d(1)] by (cases "kr = []") auto
    show "vm_avl_left ?s1 n = atop kr (aptr ml)" "vm_avl_right ?s1 n = vm_avl_right s n"
      using c(3) d(4) atop_any [of kr m "aptr ml"] by (cases "kr = []"; simp add: aplace_node)+
    show "vm_avl_height ?s1 = vm_avl_height s" by simp
    show "avl_rep r (vm_avl_right s n) ?s1" "avl_rep ml (aptr ml) ?s1"
      using c(4) m(3) d by (cases "kr = []"; simp add: aplace_node)+
    show "actx_rep mm k n (1 + max (ahgt kr ?h) (ah r)) ?s1"
      using c(6) d(5,16) by (cases kr rule: actx_nodes.cases) auto
  qed
  let ?s2 = "set_avl_height m (vm_avl_height ?s1 n) (set_avl_right m (vm_avl_right ?s1 n) (set_avl_left m (vm_avl_left ?s1 n) ?s1))"
  have e: "replace_by_left mm kr k n r m s = write_place (aplace mm k) m ?s2"
    using m(2) d(7) by (simp add: replace_by_left_def Let_def)
  have "actx_rep mm k n (1 + max (ahgt kr ?h) (ah r)) ?s2" using s1(6) d(9) by simp
  then have "actx_rep mm k m (1 + max (ahgt kr ?h) (ah r)) (write_place (aplace mm k) m ?s2)"
    by (rule actx_rep_write) (rule d(2))
  then show "actx_rep mm (kr @ AL m r # k) (aptr ml) ?h (replace_by_left mm kr k n r m s)"
    unfolding e actx_rep_append using s1 d m(1) c(5) by simp
  show "avl_rep ml (aptr ml) (replace_by_left mm kr k n r m s)" unfolding e using s1(7) d by simp
  show "avl_rest s (replace_by_left mm kr k n r m s)" unfolding e by simp
qed

lemma all_right_suf: "all_right k \<Longrightarrow> asuf k = []"
  by (induction k rule: all_right.induct) auto

lemma avl_remove_tree:
  assumes t: "avl_tree mm t s" and a: "avl t" and srt: "sorted_wrt (<) (map (vm_end s) (inord t))" and h: "ah t \<le> 41"
    and n: "n \<in> set (inord t)"
  obtains s' T where "avl_remove n (Tree mm) s = Some s'" "avl_tree mm T s'" "avl T" "inord T = remove1 n (inord t)" "avl_rest s s'"
proof -
  obtain k l r where k: "aplug k (Bin l n r) = t"
    "avl_find_place (vm_end s n) (Tree mm) [] s = Some (Some (aplace mm k, aplace mm k # astack mm k))"
    using avl_find_place_tree [of mm "[]" t s n] t srt n h by auto
  have tk: "avl_tree mm (aplug k (Bin l n r)) s" using t k by simp
  have ak: "actx_avl k (1 + max (ah l) (ah r))" "\<bar>ah l - ah r\<bar> \<le> 1" "avl l" "avl r"
    using a aplug_avl [of k "Bin l n r"] k(1) by auto
  have nd: "n \<notin> set (apre k)" "n \<notin> set (inord l)" using t unfolding avl_tree_def k(1) [symmetric] inord_actx by auto
  have rem: "remove1 n (inord t) = apre k @ inord l @ inord r @ asuf k"
    unfolding k(1) [symmetric] inord_actx using nd by (simp add: remove1_append)
  have "avl_rep (Bin l n r) n s" using tk unfolding avl_tree_split by simp
  note rd = this bin_reads(3,4) [OF this]
  have sp: "actx_rep mm k n (1 + max (ah l) (ah r)) s" "vm_avl_left s n = aptr l" "vm_avl_right s n = aptr r"
    "avl_rep r (aptr r) s" "distinct (actx_nodes k)" "set (actx_nodes k) \<inter> set (inord r) = {}" "distinct (inord r)"
    using tk rd unfolding avl_tree_split by auto
  have lt: "aptr l = NULL \<longleftrightarrow> l = Tip" using rd by (cases l) auto
  show ?thesis
  proof (cases "l = Tip")
    case True
    let ?s = "write_place (aplace mm k) (aptr r) s"
    have "actx_rep mm k (aptr r) (1 + max (ah l) (ah r)) ?s" by (rule actx_rep_write [OF sp(1,5)])
    moreover have "avl_rep r (aptr r) ?s" using sp(4,6) by simp
    ultimately obtain T where "avl_tree mm T (avl_rebalance (astack mm k) ?s)" "inord T = inord (aplug k r)" "avl T"
      "avl_rest ?s (avl_rebalance (astack mm k) ?s)"
      using rebalance_loop [of mm k r "1 + max (ah l) (ah r)" ?s] sp ak True by (auto simp: max_def)
    then show ?thesis
      using that [of "avl_rebalance (astack mm k) ?s" T] k(2) sp lt True rem avl_rest_trans [of s ?s]
      by (simp add: avl_remove_def inord_actx)
  next
    case False
    obtain kr ml m where r: "l = aplug kr (Bin ml m Tip)" and ar: "all_right kr" and rm:
      "avl_rightmost (aplace mm (AL n r # k)) (astack mm (AL n r # k)) s = Some (aplace mm (kr @ AL n r # k), astack mm (kr @ AL n r # k))"
    proof -
      obtain l1 a1 l2 where l: "l = Bin l1 a1 l2" using False by (cases l) auto
      have "int (length (AL n r # k)) + ah l \<le> 41" using aplug_height [of "AL n r # k" l] k(1) h by simp
      then show ?thesis using avl_rightmost_tree [of mm "AL n r # k" l1 a1 l2 s] tk l that by auto
    qed
    have tm: "avl_tree mm (aplug (kr @ AL n r # k) (Bin ml m Tip)) s" using tk r by (simp add: aplug_append)
    have am: "avl (aplug (kr @ AL m r # k) (Bin ml m Tip))"
      using a unfolding k(1) [symmetric] r by (simp add: aplug_append) (simp add: aplug_avl)
    then have cm: "actx_avl (kr @ AL m r # k) (1 + ah ml)" "ah ml \<le> 1" "avl ml" unfolding aplug_avl by (auto simp: max_absorb1)
    let ?s = "replace_by_left mm kr k n r m s"
    note rep = replace_by_left_rep [OF tm cm(2)]
    have "distinct (inord ml @ actx_nodes (kr @ AL m r # k))" using tm unfolding avl_tree_split by auto
    then obtain T where T: "avl_tree mm T (avl_rebalance (astack mm (kr @ AL m r # k)) ?s)" "inord T = inord (aplug (kr @ AL m r # k) ml)" "avl T"
      "avl_rest ?s (avl_rebalance (astack mm (kr @ AL m r # k)) ?s)"
      using rebalance_loop [OF rep(1,2) _ cm(3,1)] by auto
    have len: "\<not> 41 \<le> Suc (length k)" 
    proof -
      have "1 \<le> ah l" using False by (cases l) (auto simp: le_max_iff_disj)
      then show ?thesis using aplug_height [of k "Bin l n r"] k(1) h by simp
    qed
    have m: "read_place (aplace mm (kr @ AL n r # k)) s = m" using tm unfolding avl_tree_split by (auto dest: read_aplace)
    have res: "avl_remove n (Tree mm) s = Some (avl_rebalance (astack mm (kr @ AL m r # k)) ?s)"
      using k(2) rm sp lt False len m stack_update [of mm kr n r k m] unfolding avl_remove_def
      by (simp add: replace_by_left_def Let_def)
    have ri: "inord (aplug (kr @ AL m r # k) ml) = remove1 n (inord t)"
      unfolding rem r by (simp add: aplug_append inord_actx all_right_suf [OF ar])
    show ?thesis using that [OF res T(1,3)] T(2,4) ri avl_rest_trans [OF rep(3)] by simp
  qed
qed

lemma find_append: "find P (xs @ ys) = (case find P xs of None \<Rightarrow> find P ys | Some x \<Rightarrow> Some x)"
  by (induction xs) auto

lemma find_vma_loop_tree:
  assumes "avl_rep t x s" and "areas_ok (inord t) s"
  shows "find_vma_loop x res a s = Some (case find (\<lambda>v. a < vm_end s v) (inord t) of None \<Rightarrow> res | Some v \<Rightarrow> v)"
  using assms
proof (induction t arbitrary: x res)
  case Tip
  then show ?case by (subst find_vma_loop.simps) simp
next
  case (Bin l b r)
  have sub: "avl_rep l (vm_avl_left s b) s" "avl_rep r (vm_avl_right s b) s" "areas_ok (inord l) s" "areas_ok (inord r) s"
    "x = b" "b \<noteq> NULL"
    using Bin.prems by (auto simp: areas_ok_def sorted_wrt_append)
  have le: "\<forall>v\<in>set (inord l). vm_end s v \<le> vm_start s b" "vm_start s b \<le> vm_end s b"
    using Bin.prems(2) by (auto simp: areas_ok_def sorted_wrt_append)
  show ?case
  proof (cases "a < vm_end s b")
    case True
    show ?thesis
    proof (cases "vm_start s b < a")
      case below: True
      then have "find (\<lambda>v. a < vm_end s v) (inord l) = None" using le(1) by (fastforce simp: find_None_iff)
      then show ?thesis by (subst find_vma_loop.simps) (use True below sub in \<open>simp add: find_append\<close>)
    next
      case False
      then show ?thesis using Bin.IH(1) [OF sub(1,3), of b]
        by (subst find_vma_loop.simps) (use True sub in \<open>simp add: find_append split: option.split\<close>)
    qed
  next
    case False
    then have "find (\<lambda>v. a < vm_end s v) (inord l) = None" using le by (fastforce simp: find_None_iff)
    then show ?thesis using Bin.IH(2) [OF sub(2,4), of res]
      by (subst find_vma_loop.simps) (use False sub in \<open>simp add: find_append\<close>)
  qed
qed

lemma example_vma_tree:
  "avl_tree 0x100 (Bin (Bin Tip 0x10 Tip) 0x20 (Bin Tip 0x30 Tip)) (example_vma s)"
  by (simp add: avl_tree_def example_vma_def)

lemma example_vma_fields [simp]:
  "vm_end (example_vma s) = (\<lambda>_. 0)(0x10 := 0x2000, 0x20 := 0x4000, 0x30 := 0x9000, 0x40 := 0x7000)"
  "vm_start (example_vma s) = (\<lambda>_. 0)(0x10 := 0x1000, 0x20 := 0x3000, 0x30 := 0x8000)"
  "tsk_mm (example_vma s) = (\<lambda>_. 0x100)"
  by (simp_all add: example_vma_def)

subsection \<open>Properties\<close>

text \<open>
  C15: \<^verbatim>\<open>avl_insert\<close> and \<^verbatim>\<open>avl_insert_neighbours\<close> put an area into the tree of a process: they end, the
  result is an AVL tree with the right heights stored in it, the area stands behind every area
  that ends before or where it ends and before the others, the neighbours are the areas next to
  it, and nothing but the shape of the tree changes. The stack of 41 places is large enough for
  a tree of height 41.
\<close>

theorem avl_insert_correct:
  assumes "avl_tree mm t s" and "avl t" and "sorted (map (vm_end s) (inord t))" and "ah t \<le> 41"
    and "n \<notin> set (inord t)" and "n \<noteq> NULL"
    and "lo = filter (\<lambda>x. vm_end s x \<le> vm_end s n) (inord t)" and "hi = filter (\<lambda>x. vm_end s n < vm_end s x) (inord t)"
  shows "\<exists>s' T. avl_insert n (Tree mm) s = Some s' \<and>
    avl_insert_neighbours n (Tree mm) s = Some ((if lo = [] then NULL else last lo, if hi = [] then NULL else hd hi), s') \<and>
    avl_tree mm T s' \<and> avl T \<and> inord T = lo @ n # hi \<and> avl_rest s s'"
proof -
  obtain s' T where "avl_insert n (Tree mm) s = Some s'"
    "avl_insert_neighbours n (Tree mm) s = Some ((if lo = [] then NULL else last lo, if hi = [] then NULL else hd hi), s')"
    "avl_tree mm T s'" "avl T" "inord T = lo @ n # hi" "avl_rest s s'"
    by (rule avl_insert_tree [OF assms])
  then show ?thesis by (intro exI conjI)
qed

theorem avl_insert_correct_witness:
  "\<forall>s. \<exists>s' T. avl_insert 0x40 (Tree 0x100) (example_vma s) = Some s' \<and> avl_tree 0x100 T s' \<and> avl T \<and>
    inord T = [0x10, 0x20, 0x40, 0x30]"
proof
  fix s
  show "\<exists>s' T. avl_insert 0x40 (Tree 0x100) (example_vma s) = Some s' \<and> avl_tree 0x100 T s' \<and> avl T \<and>
      inord T = [0x10, 0x20, 0x40, 0x30]"
  proof -
    let ?t = "Bin (Bin Tip 0x10 Tip) 0x20 (Bin Tip 0x30 Tip)"
    have h: "avl ?t" "sorted (map (vm_end (example_vma s)) (inord ?t))" "ah ?t \<le> 41" "0x40 \<notin> set (inord ?t)" "0x40 \<noteq> NULL"
      "[0x10, 0x20] = filter (\<lambda>x. vm_end (example_vma s) x \<le> vm_end (example_vma s) 0x40) (inord ?t)"
      "[0x30] = filter (\<lambda>x. vm_end (example_vma s) 0x40 < vm_end (example_vma s) x) (inord ?t)" by simp_all
    obtain s' T where "avl_insert 0x40 (Tree 0x100) (example_vma s) = Some s'" "avl_tree 0x100 T s'" "avl T"
      "inord T = [0x10, 0x20] @ 0x40 # [0x30]"
      using avl_insert_correct [OF example_vma_tree h] by blast
    then show ?thesis by (intro exI conjI) simp_all
  qed
qed

text \<open>
  C16: \<^verbatim>\<open>avl_remove\<close> of an area of the tree ends and gives an AVL tree, with the right heights stored
  in it, of the other areas in the same order.
\<close>

theorem avl_remove_correct:
  assumes "avl_tree mm t s" and "avl t" and "sorted_wrt (<) (map (vm_end s) (inord t))" and "ah t \<le> 41"
    and "n \<in> set (inord t)"
  shows "\<exists>s' T. avl_remove n (Tree mm) s = Some s' \<and> avl_tree mm T s' \<and> avl T \<and> inord T = remove1 n (inord t) \<and> avl_rest s s'"
  using avl_remove_tree [OF assms] by metis

theorem avl_remove_correct_witness:
  "\<forall>s. \<exists>s' T. avl_remove 0x20 (Tree 0x100) (example_vma s) = Some s' \<and> avl_tree 0x100 T s' \<and> avl T \<and> inord T = [0x10, 0x30]"
proof
  fix s
  show "\<exists>s' T. avl_remove 0x20 (Tree 0x100) (example_vma s) = Some s' \<and> avl_tree 0x100 T s' \<and> avl T \<and> inord T = [0x10, 0x30]"
  proof -
    let ?t = "Bin (Bin Tip 0x10 Tip) 0x20 (Bin Tip 0x30 Tip)"
    have h: "avl ?t" "sorted_wrt (<) (map (vm_end (example_vma s)) (inord ?t))" "ah ?t \<le> 41" "0x20 \<in> set (inord ?t)" by simp_all
    obtain s' T where "avl_remove 0x20 (Tree 0x100) (example_vma s) = Some s'" "avl_tree 0x100 T s'" "avl T"
      "inord T = remove1 0x20 (inord ?t)"
      using avl_remove_correct [OF example_vma_tree h] by blast
    then show ?thesis by (intro exI conjI) simp_all
  qed
qed

text \<open>
  C17: on a tree of disjoint areas \<^verbatim>\<open>find_vma\<close> is the linear search for the first area that ends
  behind the address; it returns the null pointer when there is none.
\<close>

theorem find_vma_correct:
  assumes "avl_tree (tsk_mm s task) t s" and "areas_ok (inord t) s"
  shows "find_vma task a s = Some (case find (\<lambda>v. a < vm_end s v) (inord t) of None \<Rightarrow> NULL | Some v \<Rightarrow> v)"
  using find_vma_loop_tree [OF _ assms(2)] assms(1) unfolding avl_tree_def find_vma_def by blast

theorem find_vma_correct_witness:
  "\<forall>s. find_vma 0 0x5000 (example_vma s) = Some 0x30 \<and> find_vma 0 0x9000 (example_vma s) = Some 0"
proof
  fix s
  have t: "avl_tree (tsk_mm (example_vma s) 0) (Bin (Bin Tip 0x10 Tip) 0x20 (Bin Tip 0x30 Tip)) (example_vma s)"
    using example_vma_tree [of s] by simp
  show "find_vma 0 0x5000 (example_vma s) = Some 0x30 \<and> find_vma 0 0x9000 (example_vma s) = Some 0"
    using find_vma_correct [OF t, of "0x5000"] find_vma_correct [OF t, of "0x9000"]
    by (simp add: areas_ok_def)
qed

end
