(* ===== verification/Console.thy ===== *)
theory Console
  imports Kstring
begin

section \<open>Consoles and terminals\<close>

text \<open>
  The model of \<^verbatim>\<open>kernel/console.c\<close> and \<^verbatim>\<open>kernel/tty.c\<close>. Three consoles share the video memory, and a
  terminal keeps keys in a ring buffer of 256 entries. Consoles and terminals are given by
  their index in their table; the positions in a ring buffer are indices. The two registers
  of the display controller are numbers of 16 bits. Loops that scroll until the cursor is on
  the screen are partial functions; \<open>None\<close> is a loop that does not end.
\<close>

subsection \<open>State\<close>

record console =
  current_start_addr :: u32
  original_addr :: u32
  current_end_addr :: u32
  v_mem_limit :: u32
  cursor :: u32

record tty =
  in_buf :: "u32 list"
  inbuf_head :: nat
  inbuf_tail :: nat
  inbuf_count :: int
  p_console :: nat

record terminal =
  console_table :: "console list"
  tty_table :: "tty list"
  nr_current_console :: nat
  disp_pos :: u32
  out_char_number :: int
  vmem :: bytes
  crtc_cursor :: u16
  crtc_start :: u16

abbreviation (input) TTY_IN_BYTES :: nat where "TTY_IN_BYTES \<equiv> 256"
abbreviation (input) NR_CONSOLES :: nat where "NR_CONSOLES \<equiv> 3"
abbreviation (input) SCREEN_WIDTH :: u32 where "SCREEN_WIDTH \<equiv> 80"
abbreviation (input) SCREEN_SIZE :: u32 where "SCREEN_SIZE \<equiv> 2000"
abbreviation (input) V_MEM_BASE :: addr where "V_MEM_BASE \<equiv> 0xB8000"
abbreviation (input) V_MEM_SIZE :: addr where "V_MEM_SIZE \<equiv> 0x8000"
abbreviation (input) DEFAULT_CHAR_COLOR :: u8 where "DEFAULT_CHAR_COLOR \<equiv> 0x07"
abbreviation (input) SCROLL_SCREEN_UP :: int where "SCROLL_SCREEN_UP \<equiv> 1"
abbreviation (input) SCROLL_SCREEN_DOWN :: int where "SCROLL_SCREEN_DOWN \<equiv> -1"

definition con :: "nat \<Rightarrow> 'a terminal_scheme \<Rightarrow> console" where
  "con c t = console_table t ! c"

definition set_con :: "nat \<Rightarrow> console \<Rightarrow> 'a terminal_scheme \<Rightarrow> 'a terminal_scheme" where
  "set_con c v t = t\<lparr>console_table := (console_table t)[c := v]\<rparr>"

definition set_cur :: "nat \<Rightarrow> u32 \<Rightarrow> 'a terminal_scheme \<Rightarrow> 'a terminal_scheme" where
  "set_cur c v t = set_con c ((con c t)\<lparr>cursor := v\<rparr>) t"

definition put_vmem :: "addr \<Rightarrow> u8 \<Rightarrow> 'a terminal_scheme \<Rightarrow> 'a terminal_scheme" where
  "put_vmem a v t = t\<lparr>vmem := (vmem t)(a := v)\<rparr>"

subsection \<open>The display\<close>

definition set_cursor :: "u32 \<Rightarrow> 'a terminal_scheme \<Rightarrow> 'a terminal_scheme" where
  "set_cursor position t = t\<lparr>crtc_cursor := push_bit 8 (ucast (drop_bit 8 position AND 0xFF)) OR ucast (position AND 0xFF)\<rparr>"

definition set_video_start_addr :: "u32 \<Rightarrow> 'a terminal_scheme \<Rightarrow> 'a terminal_scheme" where
  "set_video_start_addr a t = t\<lparr>crtc_start := push_bit 8 (ucast (signed_drop_bit 8 a AND 0xFF)) OR ucast (a AND 0xFF)\<rparr>"

definition flush :: "nat \<Rightarrow> 'a terminal_scheme \<Rightarrow> 'a terminal_scheme" where
  "flush c t = set_video_start_addr (current_start_addr (con c t)) (set_cursor (cursor (con c t)) t)"

definition is_current_console :: "nat \<Rightarrow> 'a terminal_scheme \<Rightarrow> bool" where
  "is_current_console c t \<longleftrightarrow> c = nr_current_console t"

definition select_console :: "int \<Rightarrow> 'a terminal_scheme \<Rightarrow> 'a terminal_scheme" where
  "select_console nr t =
     (if nr < 0 \<or> nr \<ge> int NR_CONSOLES then t
      else flush (nat nr) (t\<lparr>nr_current_console := nat nr\<rparr>))"

text \<open>\<^verbatim>\<open>rep stosw\<close> of blanks into the video segment.\<close>

fun stosw :: "nat \<Rightarrow> addr \<Rightarrow> bytes \<Rightarrow> bytes" where
  "stosw 0 a m = m"
| "stosw (Suc n) a m = stosw n (a + 2) (m(a := 0x20, a + 1 := 0x07))"

definition clean_console_screen :: "nat \<Rightarrow> 'a terminal_scheme \<Rightarrow> 'a terminal_scheme" where
  "clean_console_screen c t =
     t\<lparr>vmem := stosw (unat (v_mem_limit (con c t))) (V_MEM_BASE + push_bit 1 (original_addr (con c t))) (vmem t)\<rparr>"

definition scroll_screen :: "nat \<Rightarrow> int \<Rightarrow> 'a terminal_scheme \<Rightarrow> 'a terminal_scheme" where
  "scroll_screen c direction t =
     (let p = con c t;
          t = (if direction = SCROLL_SCREEN_UP then
                 (if current_start_addr p > original_addr p
                  then set_con c (p\<lparr>current_start_addr := current_start_addr p - SCREEN_WIDTH,
                                    current_end_addr := current_end_addr p - SCREEN_WIDTH,
                                    cursor := cursor p - SCREEN_WIDTH\<rparr>) t
                  else t)
               else if direction = SCROLL_SCREEN_DOWN then
                 (if current_start_addr p + SCREEN_SIZE < original_addr p + v_mem_limit p
                  then set_con c (p\<lparr>current_start_addr := current_start_addr p + SCREEN_WIDTH,
                                    current_end_addr :=
                                      (if current_end_addr p + SCREEN_WIDTH > original_addr p + v_mem_limit p
                                       then original_addr p + v_mem_limit p
                                       else current_end_addr p + SCREEN_WIDTH)\<rparr>) t
                  else (let t = clean_console_screen c (t\<lparr>disp_pos := 0\<rparr>)
                        in set_con c (p\<lparr>current_start_addr := original_addr p,
                                        current_end_addr := current_end_addr p + (original_addr p + SCREEN_SIZE)\<rparr>) t))
               else t)
      in flush c t)"

text \<open>\<^verbatim>\<open>while (cursor >= current_start_addr + SCREEN_SIZE) scroll_screen(p_con, SCROLL_SCREEN_DOWN)\<close>\<close>

partial_function (option) scroll_to_cursor :: "nat \<Rightarrow> 'a terminal_scheme \<Rightarrow> 'a terminal_scheme option" where
  "scroll_to_cursor c t =
     (if cursor (con c t) \<ge> current_start_addr (con c t) + SCREEN_SIZE
      then scroll_to_cursor c (scroll_screen c SCROLL_SCREEN_DOWN t) else Some t)"

text \<open>When the memory is full, the remaining rounds of the loop change nothing.\<close>

fun out_str_loop :: "u8 list \<Rightarrow> nat \<Rightarrow> addr \<Rightarrow> 'a terminal_scheme \<Rightarrow> 'a terminal_scheme" where
  "out_str_loop [] c p_vmem t = t"
| "out_str_loop (ch # str) c p_vmem t =
     (let p = con c t in
      if cursor p < original_addr p + v_mem_limit p - 1
      then out_str_loop str c (p_vmem + 2)
             (set_cur c (cursor p + 1) (put_vmem (p_vmem + 1) DEFAULT_CHAR_COLOR (put_vmem p_vmem ch t)))
      else t)"

text \<open>\<open>str\<close> are the \<^verbatim>\<open>len\<close> bytes at the string.\<close>

definition out_str :: "nat \<Rightarrow> u8 list \<Rightarrow> 'a terminal_scheme \<Rightarrow> 'a terminal_scheme option" where
  "out_str c str t =
     map_option (flush c) (scroll_to_cursor c (out_str_loop str c (V_MEM_BASE + cursor (con c t) * 2) t))"

definition out_char :: "nat \<Rightarrow> u8 \<Rightarrow> 'a terminal_scheme \<Rightarrow> 'a terminal_scheme option" where
  "out_char c ch t =
     do {
       let p = con c t;
       let p_vmem = V_MEM_BASE + cursor p * 2;
       let t =
         (if ch = 10 then
            (let t = (if cursor p < original_addr p + v_mem_limit p - SCREEN_WIDTH
                      then set_cur c (original_addr p + SCREEN_WIDTH * ((cursor p - original_addr p) div SCREEN_WIDTH + 1)) t
                      else set_cur c (original_addr p) (scroll_screen c SCROLL_SCREEN_DOWN t))
             in t\<lparr>out_char_number := 0\<rparr>)
          else if ch = 8 then
            (if cursor p > original_addr p \<and> out_char_number t > 0
             then (let t = set_cur c (cursor p - 1) t;
                       t = put_vmem (p_vmem - 1) DEFAULT_CHAR_COLOR (put_vmem (p_vmem - 2) 32 t)
                   in t\<lparr>out_char_number := out_char_number t - 1\<rparr>)
             else t)
          else if ch = 9 then set_cur c (cursor p + 8) (t\<lparr>out_char_number := out_char_number t + 8\<rparr>)
          else if cursor p < original_addr p + v_mem_limit p - 1
            then (let t = put_vmem (p_vmem + 1) DEFAULT_CHAR_COLOR (put_vmem p_vmem ch t);
                      t = set_cur c (cursor p + 1) t
                  in t\<lparr>out_char_number := out_char_number t + 1\<rparr>)
          else t);
       t \<leftarrow> scroll_to_cursor c t;
       Some (flush c t)
     }"

fun scroll_lines :: "nat \<Rightarrow> nat \<Rightarrow> 'a terminal_scheme \<Rightarrow> 'a terminal_scheme" where
  "scroll_lines 0 c t = t"
| "scroll_lines (Suc n) c t = scroll_lines n c (scroll_screen c SCROLL_SCREEN_DOWN t)"

definition init_screen :: "nat \<Rightarrow> 'a terminal_scheme \<Rightarrow> 'a terminal_scheme" where
  "init_screen nr_tty t =
     (let t = t\<lparr>tty_table := (tty_table t)[nr_tty := (tty_table t ! nr_tty)\<lparr>p_console := nr_tty\<rparr>]\<rparr>;
          con_v_mem_size = drop_bit 1 V_MEM_SIZE div of_nat NR_CONSOLES;
          orig = of_nat nr_tty * con_v_mem_size;
          t = set_con nr_tty \<lparr>current_start_addr = orig, original_addr = orig, current_end_addr = orig + SCREEN_SIZE,
                v_mem_limit = con_v_mem_size div SCREEN_WIDTH * SCREEN_WIDTH, cursor = orig\<rparr> t;
          t = (if nr_tty = 0 then
                 (let t = set_cur nr_tty SCREEN_SIZE t;
                      t = set_cursor (cursor (con nr_tty t)) t;
                      t = scroll_lines 25 nr_tty t
                  in set_cur nr_tty SCREEN_SIZE (t\<lparr>disp_pos := SCREEN_SIZE * 2\<rparr>))
               else t)
      in set_cursor (cursor (con nr_tty t)) t)"

subsection \<open>Terminals\<close>

definition set_tty :: "nat \<Rightarrow> tty \<Rightarrow> 'a terminal_scheme \<Rightarrow> 'a terminal_scheme" where
  "set_tty i v t = t\<lparr>tty_table := (tty_table t)[i := v]\<rparr>"

definition put_key :: "u32 \<Rightarrow> tty \<Rightarrow> tty" where
  "put_key key p =
     (if inbuf_count p < int TTY_IN_BYTES then
        (let p = p\<lparr>in_buf := (in_buf p)[inbuf_head p := key]\<rparr>;
             p = p\<lparr>inbuf_head := inbuf_head p + 1\<rparr>;
             p = (if inbuf_head p = TTY_IN_BYTES then p\<lparr>inbuf_head := 0\<rparr> else p)
         in p\<lparr>inbuf_count := inbuf_count p + 1\<rparr>)
      else p)"

text \<open>Takes the oldest key of a terminal: the character and the terminal without it.\<close>

definition take_key :: "tty \<Rightarrow> u8 \<times> tty" where
  "take_key p =
     (let ch = ucast (in_buf p ! inbuf_tail p);
          p = p\<lparr>inbuf_tail := inbuf_tail p + 1\<rparr>;
          p = (if inbuf_tail p = TTY_IN_BYTES then p\<lparr>inbuf_tail := 0\<rparr> else p)
      in (ch, p\<lparr>inbuf_count := inbuf_count p - 1\<rparr>))"

definition tty_do_write :: "nat \<Rightarrow> 'a terminal_scheme \<Rightarrow> 'a terminal_scheme option" where
  "tty_do_write i t =
     (let p = tty_table t ! i in
      if inbuf_count p \<noteq> 0
      then (case take_key p of (ch, p) \<Rightarrow> out_char (p_console p) ch (set_tty i p t))
      else Some t)"

definition in_process :: "nat \<Rightarrow> u32 \<Rightarrow> 'a terminal_scheme \<Rightarrow> 'a terminal_scheme" where
  "in_process i key t =
     (let p = tty_table t ! i in
      if key AND 0x100 = 0 then set_tty i (put_key key p) t
      else
        (let raw_code = key AND 0x01FF in
         if raw_code = 0x103 then set_tty i (put_key 10 p) t
         else if raw_code = 0x104 then set_tty i (put_key 8 p) t
         else if raw_code = 0x102 then set_tty i (put_key 9 p) t
         else if raw_code = 0x125 then
           (if key AND 0x0200 \<noteq> 0 \<or> key AND 0x0400 \<noteq> 0 then scroll_screen (p_console p) SCROLL_SCREEN_UP t else t)
         else if raw_code = 0x126 then
           (if key AND 0x0200 \<noteq> 0 \<or> key AND 0x0400 \<noteq> 0 then scroll_screen (p_console p) SCROLL_SCREEN_DOWN t else t)
         else if 0x111 \<le> raw_code \<and> raw_code \<le> 0x11C then
           (if key AND 0x2000 \<noteq> 0 \<or> key AND 0x4000 \<noteq> 0 then select_console (uint raw_code - 0x111) t else t)
         else t))"

fun tty_write :: "nat \<Rightarrow> u8 list \<Rightarrow> 'a terminal_scheme \<Rightarrow> 'a terminal_scheme option" where
  "tty_write c [] t = Some t"
| "tty_write c (ch # buf) t = do { t \<leftarrow> out_char c ch t; tty_write c buf t }"

text \<open>The loops of \<^verbatim>\<open>sys_printx\<close> over the string at \<open>p\<close> in the memory \<open>m\<close>.\<close>

partial_function (option) printx_loop :: "bytes \<Rightarrow> addr \<Rightarrow> nat \<Rightarrow> 'a terminal_scheme \<Rightarrow> 'a terminal_scheme option" where
  "printx_loop m p c t =
     (if m p = 0 then Some t else do { t \<leftarrow> out_char c (m p) t; printx_loop m (p + 1) c t })"

partial_function (option) printx_panic :: "bytes \<Rightarrow> addr \<Rightarrow> addr \<Rightarrow> 'a terminal_scheme \<Rightarrow> 'a terminal_scheme option" where
  "printx_panic m c v t =
     (if v < V_MEM_BASE + V_MEM_SIZE \<and> m c \<noteq> 0
      then printx_panic m (c + 1) (v + 2) (put_vmem (v + 1) 0x4 (put_vmem v (m c) t)) else Some t)"

text \<open>
  In user mode (\<open>k_reenter = 0\<close>) the pointer to the string is never set: the code reads through
  an uninitialised pointer. \<open>err\<close> is the address of the error message.
\<close>

definition sys_printx :: "int \<Rightarrow> nat \<Rightarrow> bytes \<Rightarrow> addr \<Rightarrow> addr \<Rightarrow> 'a terminal_scheme \<Rightarrow> (int \<times> 'a terminal_scheme) option" where
  "sys_printx k_reenter nr_tty m str err t =
     (if k_reenter = 0 then None
      else
        (let p = (if k_reenter > 0 then str else err);
             ch = m p
         in if ch = 6 \<or> ch = 7 then do { t \<leftarrow> printx_panic m (p + 1) V_MEM_BASE t; Some (0, t) }
            else do { t \<leftarrow> printx_loop m p (p_console (tty_table t ! nr_tty)) t; Some (0, t) }))"

end
