(* ===== verification/Keyboard.thy ===== *)
theory Keyboard
  imports Console
begin

section \<open>The keyboard\<close>

text \<open>
  The model of \<^verbatim>\<open>kernel/keyboard.c\<close> and the loop of \<^verbatim>\<open>kernel/tty.c\<close>. The interrupt handler puts
  scan codes into a ring buffer of 32 bytes; \<^verbatim>\<open>keyboard_read\<close> turns them into keys. A scan code
  is a \<^verbatim>\<open>char\<close>, which is signed: comparisons with numbers read it with its sign. Waiting for a
  byte in an empty buffer does not end without an interrupt, which is \<open>None\<close>, and so is the
  use of the uninitialised variable \<^verbatim>\<open>make\<close>.
\<close>

subsection \<open>State\<close>

record kb_input =
  kb_head :: nat
  kb_tail :: nat
  kb_count :: int
  kb_buf :: "u8 list"

record keyboard = terminal +
  kb_in :: kb_input
  code_with_E0 :: bool
  shift_l :: bool
  shift_r :: bool
  alt_l :: bool
  alt_r :: bool
  ctrl_l :: bool
  ctrl_r :: bool
  caps_lock :: bool
  num_lock :: bool
  scroll_lock :: bool
  column :: nat
  kb_leds :: u8

abbreviation (input) KB_IN_BYTES :: nat where "KB_IN_BYTES \<equiv> 32"
abbreviation (input) FLAG_BREAK :: u8 where "FLAG_BREAK \<equiv> 0x80"
abbreviation (input) PAUSEBREAK :: u32 where "PAUSEBREAK \<equiv> 0x11E"
abbreviation (input) PRINTSCREEN :: u32 where "PRINTSCREEN \<equiv> 0x11D"
abbreviation (input) PAD_SLASH :: u32 where "PAD_SLASH \<equiv> 0x12C"
abbreviation (input) PAD_ENTER :: u32 where "PAD_ENTER \<equiv> 0x130"
abbreviation (input) PAD_DOT :: u32 where "PAD_DOT \<equiv> 0x131"
abbreviation (input) PAD_0 :: u32 where "PAD_0 \<equiv> 0x132"
abbreviation (input) PAD_9 :: u32 where "PAD_9 \<equiv> 0x13B"

text \<open>Three columns for every scan code: plain, with shift, and after an E0 prefix.\<close>

definition keymap :: "u32 list" where
  "keymap =
     [
      0, 0, 0, 0x101, 0x101, 0, 49, 33, 0, 50, 64, 0,
      51, 35, 0, 52, 36, 0, 53, 37, 0, 54, 94, 0,
      55, 38, 0, 56, 42, 0, 57, 40, 0, 48, 41, 0,
      45, 95, 0, 61, 43, 0, 0x104, 0x104, 0, 0x102, 0x102, 0,
      113, 81, 0, 119, 87, 0, 101, 69, 0, 114, 82, 0,
      116, 84, 0, 121, 89, 0, 117, 85, 0, 105, 73, 0,
      111, 79, 0, 112, 80, 0, 91, 123, 0, 93, 125, 0,
      0x103, 0x103, 0x130, 0x10a, 0x10a, 0x10b, 97, 65, 0, 115, 83, 0,
      100, 68, 0, 102, 70, 0, 103, 71, 0, 104, 72, 0,
      106, 74, 0, 107, 75, 0, 108, 76, 0, 59, 58, 0,
      39, 34, 0, 96, 126, 0, 0x108, 0x108, 0, 92, 124, 0,
      122, 90, 0, 120, 88, 0, 99, 67, 0, 118, 86, 0,
      98, 66, 0, 110, 78, 0, 109, 77, 0, 44, 60, 0,
      46, 62, 0, 47, 63, 0x12c, 0x109, 0x109, 0, 42, 42, 0,
      0x10c, 0x10c, 0x10d, 32, 32, 0, 0x10e, 0x10e, 0, 0x111, 0x111, 0,
      0x112, 0x112, 0, 0x113, 0x113, 0, 0x114, 0x114, 0, 0x115, 0x115, 0,
      0x116, 0x116, 0, 0x117, 0x117, 0, 0x118, 0x118, 0, 0x119, 0x119, 0,
      0x11a, 0x11a, 0, 0x10f, 0x10f, 0, 0x110, 0x110, 0, 0x139, 55, 0x121,
      0x13a, 56, 0x125, 0x13b, 57, 0x123, 0x12e, 45, 0, 0x136, 52, 0x127,
      0x137, 53, 0, 0x138, 54, 0x128, 0x12f, 43, 0, 0x133, 49, 0x122,
      0x134, 50, 0x126, 0x135, 51, 0x124, 0x132, 48, 0x11f, 0x131, 46, 0x120,
      0, 0, 0, 0, 0, 0, 0, 0, 0, 0x11b, 0x11b, 0,
      0x11c, 0x11c, 0, 0, 0, 0, 0, 0, 0, 0, 0, 0x105,
      0, 0, 0x106, 0, 0, 0x107, 0, 0, 0, 0, 0, 0,
      0, 0, 0, 0, 0, 0, 0, 0, 0, 0, 0, 0,
      0, 0, 0, 0, 0, 0, 0, 0, 0, 0, 0, 0,
      0, 0, 0, 0, 0, 0, 0, 0, 0, 0, 0, 0,
      0, 0, 0, 0, 0, 0, 0, 0, 0, 0, 0, 0,
      0, 0, 0, 0, 0, 0, 0, 0, 0, 0, 0, 0,
      0, 0, 0, 0, 0, 0, 0, 0, 0, 0, 0, 0,
      0, 0, 0, 0, 0, 0, 0, 0, 0, 0, 0, 0,
      0, 0, 0, 0, 0, 0, 0, 0, 0, 0, 0, 0]"

subsection \<open>The buffer of scan codes\<close>

text \<open>The interrupt handler; the string it also prints with \<^verbatim>\<open>disp_str\<close> is not modelled.\<close>

definition keyboard_handler :: "u8 \<Rightarrow> 'a keyboard_scheme \<Rightarrow> 'a keyboard_scheme" where
  "keyboard_handler scan_code t =
     (let k = kb_in t in
      if kb_count k < int KB_IN_BYTES then
        (let k = k\<lparr>kb_buf := (kb_buf k)[kb_head k := scan_code]\<rparr>;
             k = k\<lparr>kb_head := kb_head k + 1\<rparr>;
             k = (if kb_head k = KB_IN_BYTES then k\<lparr>kb_head := 0\<rparr> else k)
         in t\<lparr>kb_in := k\<lparr>kb_count := kb_count k + 1\<rparr>\<rparr>)
      else t)"

definition get_byte_from_kb_buf :: "'a keyboard_scheme \<Rightarrow> (u8 \<times> 'a keyboard_scheme) option" where
  "get_byte_from_kb_buf t =
     (let k = kb_in t in
      if kb_count k \<le> 0 then None
      else
        (let scan_code = kb_buf k ! kb_tail k;
             k = k\<lparr>kb_tail := kb_tail k + 1\<rparr>;
             k = (if kb_tail k = KB_IN_BYTES then k\<lparr>kb_tail := 0\<rparr> else k)
         in Some (scan_code, t\<lparr>kb_in := k\<lparr>kb_count := kb_count k - 1\<rparr>\<rparr>)))"

text \<open>The byte sent to the keyboard; the handshake with the controller is not modelled.\<close>

definition set_leds :: "'a keyboard_scheme \<Rightarrow> 'a keyboard_scheme" where
  "set_leds t =
     t\<lparr>kb_leds := push_bit 2 (of_bool (caps_lock t)) OR push_bit 1 (of_bool (num_lock t)) OR of_bool (scroll_lock t)\<rparr>"

definition init_keyboard :: "'a keyboard_scheme \<Rightarrow> 'a keyboard_scheme" where
  "init_keyboard t =
     set_leds (t\<lparr>kb_in := (kb_in t)\<lparr>kb_count := 0, kb_head := 0, kb_tail := 0\<rparr>,
       caps_lock := False, num_lock := True, scroll_lock := False\<rparr>)"

subsection \<open>Scan codes\<close>

text \<open>A \<^verbatim>\<open>char\<close> compared with an \<^verbatim>\<open>int\<close>.\<close>

definition char_is :: "u8 \<Rightarrow> int \<Rightarrow> bool" where
  "char_is ch n \<longleftrightarrow> sint ch = n"

fun match_pausebreak :: "u8 list \<Rightarrow> 'a keyboard_scheme \<Rightarrow> (bool \<times> 'a keyboard_scheme) option" where
  "match_pausebreak [] t = Some (True, t)"
| "match_pausebreak (x # xs) t =
     do {
       (b, t) \<leftarrow> get_byte_from_kb_buf t;
       if b \<noteq> x then Some (False, t) else match_pausebreak xs t
     }"

text \<open>
  The prefixes E1 and E0: the key they give, or 0, the scan code, and the value of \<^verbatim>\<open>mk\<close> where
  it is set.
\<close>

definition read_prefix :: "u8 \<Rightarrow> 'a keyboard_scheme \<Rightarrow> ((u32 \<times> u8 \<times> bool option) \<times> 'a keyboard_scheme) option" where
  "read_prefix scan_code t =
     (if char_is scan_code 0xE1 then do {
        (is_pausebreak, t) \<leftarrow> match_pausebreak [0x1D, 0x45, 0xE1, 0x9D, 0xC5] t;
        Some ((if is_pausebreak then PAUSEBREAK else 0, scan_code, None), t)
      }
      else if char_is scan_code 0xE0 then do {
        let t = t\<lparr>code_with_E0 := True\<rparr>;
        (scan_code, t) \<leftarrow> get_byte_from_kb_buf t;
        if char_is scan_code 0x2A then do {
          let t = t\<lparr>code_with_E0 := False\<rparr>;
          (scan_code, t) \<leftarrow> get_byte_from_kb_buf t;
          if char_is scan_code 0xE0 then do {
            let t = t\<lparr>code_with_E0 := True\<rparr>;
            (scan_code, t) \<leftarrow> get_byte_from_kb_buf t;
            if char_is scan_code 0x37 then Some ((PRINTSCREEN, scan_code, Some True), t)
            else Some ((0, scan_code, None), t)
          } else Some ((0, scan_code, None), t)
        }
        else if char_is scan_code 0xB7 then do {
          let t = t\<lparr>code_with_E0 := False\<rparr>;
          (scan_code, t) \<leftarrow> get_byte_from_kb_buf t;
          if char_is scan_code 0xE0 then do {
            let t = t\<lparr>code_with_E0 := True\<rparr>;
            (scan_code, t) \<leftarrow> get_byte_from_kb_buf t;
            if char_is scan_code 0xAA then Some ((PRINTSCREEN, scan_code, Some False), t)
            else Some ((0, scan_code, None), t)
          } else Some ((0, scan_code, None), t)
        }
        else Some ((0, scan_code, None), t)
      }
      else Some ((0, scan_code, None), t))"

text \<open>The keys that change a state; \<^verbatim>\<open>ALT_R\<close> sets \<^verbatim>\<open>alt_l\<close>.\<close>

definition modifier_key :: "u32 \<Rightarrow> bool \<Rightarrow> 'a keyboard_scheme \<Rightarrow> 'a keyboard_scheme" where
  "modifier_key key mk t =
     (if key = 0x108 then t\<lparr>shift_l := mk\<rparr>
      else if key = 0x109 then t\<lparr>shift_r := mk\<rparr>
      else if key = 0x10A then t\<lparr>ctrl_l := mk\<rparr>
      else if key = 0x10B then t\<lparr>ctrl_r := mk\<rparr>
      else if key = 0x10C then t\<lparr>alt_l := mk\<rparr>
      else if key = 0x10D then t\<lparr>alt_l := mk\<rparr>
      else if key = 0x10E then (if mk then set_leds (t\<lparr>caps_lock := \<not> caps_lock t\<rparr>) else t)
      else if key = 0x10F then (if mk then set_leds (t\<lparr>num_lock := \<not> num_lock t\<rparr>) else t)
      else if key = 0x110 then (if mk then set_leds (t\<lparr>scroll_lock := \<not> scroll_lock t\<rparr>) else t)
      else t)"

definition lookup_key :: "u8 \<Rightarrow> 'a keyboard_scheme \<Rightarrow> bool \<times> u32 \<times> 'a keyboard_scheme" where
  "lookup_key scan_code t =
     (let mk = (scan_code AND FLAG_BREAK = 0);
          row = unat (scan_code AND 0x7F) * 3;
          caps = (shift_l t \<or> shift_r t);
          caps = (if caps_lock t \<and> keymap ! row \<ge> 97 \<and> keymap ! row \<le> 122 then \<not> caps else caps);
          col = (if code_with_E0 t then 2 else if caps then 1 else 0);
          t = t\<lparr>column := col\<rparr>;
          key = keymap ! (row + col)
      in (mk, key, modifier_key key mk t))"

subsection \<open>The number pad\<close>

definition pad_key :: "u32 \<Rightarrow> bool \<Rightarrow> u32" where
  "pad_key key numlock =
     (if key = 0x12C then 47
      else if key = 0x12D then 42
      else if key = 0x12E then 45
      else if key = 0x12F then 43
      else if key = PAD_ENTER then 0x103
      else if numlock then
        (if key \<ge> PAD_0 \<and> key \<le> PAD_9 then key - PAD_0 + 48
         else if key = PAD_DOT then 46 else key)
      else if key = 0x139 then 0x121
      else if key = 0x133 then 0x122
      else if key = 0x13B then 0x123
      else if key = 0x135 then 0x124
      else if key = 0x132 then 0x11F
      else if key = 0x13A then 0x125
      else if key = 0x134 then 0x126
      else if key = 0x136 then 0x127
      else if key = 0x138 then 0x128
      else if key = PAD_DOT then 0x120
      else key)"

definition key_flags :: "bool \<Rightarrow> 'a keyboard_scheme \<Rightarrow> u32" where
  "key_flags pad t =
     (if shift_l t then 0x0200 else 0) OR (if shift_r t then 0x0400 else 0) OR
     (if ctrl_l t then 0x0800 else 0) OR (if ctrl_r t then 0x1000 else 0) OR
     (if alt_l t then 0x2000 else 0) OR (if alt_r t then 0x4000 else 0) OR (if pad then 0x8000 else 0)"

definition keyboard_read :: "nat \<Rightarrow> 'a keyboard_scheme \<Rightarrow> 'a keyboard_scheme option" where
  "keyboard_read i t =
     (if kb_count (kb_in t) > 0 then do {
        let t = t\<lparr>code_with_E0 := False\<rparr>;
        (scan_code, t) \<leftarrow> get_byte_from_kb_buf t;
        ((key, scan_code, mk), t) \<leftarrow> read_prefix scan_code t;
        let (mk, key, t) =
          (if key \<noteq> PAUSEBREAK \<and> key \<noteq> PRINTSCREEN
           then (case lookup_key scan_code t of (m, key, t) \<Rightarrow> (Some m, key, t))
           else (mk, key, t));
        case mk of
          None \<Rightarrow> None
        | Some False \<Rightarrow> Some t
        | Some True \<Rightarrow>
            (let pad = (key \<ge> PAD_SLASH \<and> key \<le> PAD_9);
                 key = (if pad then pad_key key (num_lock t) else key)
             in Some (in_process i (key OR key_flags pad t) t))
      } else Some t)"

subsection \<open>The terminal task\<close>

definition tty_do_read :: "nat \<Rightarrow> 'a keyboard_scheme \<Rightarrow> 'a keyboard_scheme option" where
  "tty_do_read i t = (if is_current_console (p_console (tty_table t ! i)) t then keyboard_read i t else Some t)"

fun init_ttys :: "nat list \<Rightarrow> 'a terminal_scheme \<Rightarrow> 'a terminal_scheme" where
  "init_ttys [] t = t"
| "init_ttys (i # is) t =
     init_ttys is (init_screen i (set_tty i ((tty_table t ! i)\<lparr>inbuf_count := 0, inbuf_head := 0, inbuf_tail := 0\<rparr>) t))"

definition init_tty :: "'a keyboard_scheme \<Rightarrow> int \<times> 'a keyboard_scheme" where
  "init_tty t = (0, init_ttys [0..<NR_CONSOLES] (init_keyboard t))"

text \<open>One round of the endless loop of \<^verbatim>\<open>task_tty\<close>.\<close>

fun tty_round :: "nat list \<Rightarrow> 'a keyboard_scheme \<Rightarrow> 'a keyboard_scheme option" where
  "tty_round [] t = Some t"
| "tty_round (i # is) t =
     do { t \<leftarrow> tty_do_read i t; t \<leftarrow> tty_do_write i t; tty_round is t }"

definition task_tty_start :: "'a keyboard_scheme \<Rightarrow> 'a keyboard_scheme" where
  "task_tty_start t = select_console 0 (snd (init_tty t))"

end
