(* ===== verification/Tty_props.thy ===== *)
theory Tty_props
  imports Keyboard
begin

section \<open>Terminals: buffers and reachable states\<close>

text \<open>
  The ring buffer of scan codes and the ring buffers of keys are bounded queues: the locale
  \<open>bounded_queue\<close> is their contract, and it is interpreted on \<^verbatim>\<open>keyboard_handler\<close> and
  \<^verbatim>\<open>get_byte_from_kb_buf\<close> and on the two ends of a terminal's buffer. The states the terminal task and
  the interrupt reach together are an inductive predicate, and the invariant \<open>tty_inv\<close> holds in
  all of them.
\<close>

subsection \<open>Definitions\<close>

text \<open>The entries of a ring of \<open>n\<close> cells, from the oldest on.\<close>

definition ring_list :: "nat \<Rightarrow> 'a list \<Rightarrow> nat \<Rightarrow> int \<Rightarrow> 'a list" where
  "ring_list n buf b c = map (\<lambda>i. buf ! ((b + i) mod n)) [0..<nat c]"

definition ring_ok :: "nat \<Rightarrow> 'a list \<Rightarrow> nat \<Rightarrow> nat \<Rightarrow> int \<Rightarrow> bool" where
  "ring_ok n buf h b c \<longleftrightarrow> length buf = n \<and> b < n \<and> 0 \<le> c \<and> c \<le> int n \<and> h = (b + nat c) mod n"

text \<open>The keys of a terminal and the scan codes of the keyboard, in the order they came.\<close>

definition keys :: "tty \<Rightarrow> u32 list" where
  "keys p = ring_list TTY_IN_BYTES (in_buf p) (inbuf_tail p) (inbuf_count p)"

definition tty_ok :: "tty \<Rightarrow> bool" where
  "tty_ok p \<longleftrightarrow> ring_ok TTY_IN_BYTES (in_buf p) (inbuf_head p) (inbuf_tail p) (inbuf_count p)"

definition scan_codes :: "'a keyboard_scheme \<Rightarrow> u8 list" where
  "scan_codes t = ring_list KB_IN_BYTES (kb_buf (kb_in t)) (kb_tail (kb_in t)) (kb_count (kb_in t))"

definition kb_ok :: "'a keyboard_scheme \<Rightarrow> bool" where
  "kb_ok t \<longleftrightarrow> ring_ok KB_IN_BYTES (kb_buf (kb_in t)) (kb_head (kb_in t)) (kb_tail (kb_in t)) (kb_count (kb_in t))"

text \<open>The invariant of the terminals: every ring buffer is well formed and every index is in range. It holds after the
  start whenever the tables and the buffers have the sizes the code declares.\<close>

definition tty_inv :: "'a keyboard_scheme \<Rightarrow> bool" where
  "tty_inv t \<longleftrightarrow> kb_ok t \<and> length (console_table t) = NR_CONSOLES \<and> length (tty_table t) = NR_CONSOLES \<and>
     (\<forall>i < NR_CONSOLES. tty_ok (tty_table t ! i) \<and> p_console (tty_table t ! i) = i) \<and> nr_current_console t < NR_CONSOLES"

definition tty_start_ok :: "'a keyboard_scheme \<Rightarrow> bool" where
  "tty_start_ok t \<longleftrightarrow> length (kb_buf (kb_in t)) = KB_IN_BYTES \<and> length (console_table t) = NR_CONSOLES \<and>
     length (tty_table t) = NR_CONSOLES \<and> (\<forall>i < NR_CONSOLES. length (in_buf (tty_table t ! i)) = TTY_IN_BYTES)"

text \<open>The keyboard interrupt and the two calls of the terminal task, in any order.\<close>

inductive tty_step :: "'a keyboard_scheme \<Rightarrow> 'a keyboard_scheme \<Rightarrow> bool" where
  interrupt: "tty_step t (keyboard_handler scan_code t)"
| reading: "i < NR_CONSOLES \<Longrightarrow> tty_do_read i t = Some t' \<Longrightarrow> tty_step t t'"
| writing: "i < NR_CONSOLES \<Longrightarrow> tty_do_write i t = Some t' \<Longrightarrow> tty_step t t'"

inductive tty_reach :: "'a keyboard_scheme \<Rightarrow> bool" where
  started: "tty_start_ok t \<Longrightarrow> tty_reach (task_tty_start t)"
| stepped: "tty_reach t \<Longrightarrow> tty_step t t' \<Longrightarrow> tty_reach t'"

text \<open>Only the display changes.\<close>

definition display_only :: "'a terminal_scheme \<Rightarrow> 'a terminal_scheme \<Rightarrow> bool" where
  "display_only t t' \<longleftrightarrow> tty_table t' = tty_table t \<and> nr_current_console t' = nr_current_console t \<and>
     length (console_table t') = length (console_table t) \<and> terminal.more t' = terminal.more t"

text \<open>The cursor is behind the memory of the console.\<close>

definition past_end :: "nat \<Rightarrow> 'a terminal_scheme \<Rightarrow> bool" where
  "past_end c t \<longleftrightarrow> c < length (console_table t) \<and>
     (\<exists>b k m. b \<le> 16384 \<and> k \<le> 43 \<and> b + 5440 \<le> m \<and> m \<le> 32768 \<and> original_addr (con c t) = of_nat b \<and>
        current_start_addr (con c t) = of_nat (b + 80 * k) \<and> v_mem_limit (con c t) = 5440 \<and> cursor (con c t) = of_nat m)"

text \<open>The state before the start.\<close>

definition example_tty :: keyboard where
  "example_tty =
     \<lparr>console_table = replicate 3 \<lparr>current_start_addr = 0, original_addr = 0, current_end_addr = 0, v_mem_limit = 0, cursor = 0\<rparr>,
      tty_table = replicate 3 \<lparr>in_buf = replicate 256 0, inbuf_head = 0, inbuf_tail = 0, inbuf_count = 0, p_console = 0\<rparr>,
      nr_current_console = 0, disp_pos = 0, out_char_number = 0, vmem = \<lambda>_. 0, crtc_cursor = 0, crtc_start = 0,
      kb_in = \<lparr>kb_head = 0, kb_tail = 0, kb_count = 0, kb_buf = replicate 32 0\<rparr>,
      code_with_E0 = False, shift_l = False, shift_r = False, alt_l = False, alt_r = False, ctrl_l = False, ctrl_r = False,
      caps_lock = False, num_lock = False, scroll_lock = False, column = 0, kb_leds = 0\<rparr>"

text \<open>A console whose cursor is eight cells before the end of its memory.\<close>

definition example_full :: keyboard where
  "example_full = example_tty\<lparr>console_table := replicate 3 \<lparr>current_start_addr = 3440, original_addr = 0,
     current_end_addr = 5440, v_mem_limit = 5440, cursor = 5432\<rparr>\<rparr>"

subsection \<open>Bounded queues\<close>

locale bounded_queue =
  fixes ok :: "'q \<Rightarrow> bool"
    and entries :: "'q \<Rightarrow> 'a list"
    and capacity :: nat
    and put :: "'a \<Rightarrow> 'q \<Rightarrow> 'q"
    and take :: "'q \<Rightarrow> 'b \<times> 'q"
    and read :: "'a \<Rightarrow> 'b"
  assumes put_ok: "ok q \<Longrightarrow> ok (put x q)"
    and put_entries: "ok q \<Longrightarrow> entries (put x q) = (if length (entries q) < capacity then entries q @ [x] else entries q)"
    and take_ok: "ok q \<Longrightarrow> entries q \<noteq> [] \<Longrightarrow> ok (snd (take q))"
    and take_entries: "ok q \<Longrightarrow> entries q \<noteq> [] \<Longrightarrow> entries q = x # xs \<Longrightarrow> fst (take q) = read x \<and> entries (snd (take q)) = xs"
begin

lemma puts_ok: "ok q \<Longrightarrow> ok (fold put xs q)"
  by (induction xs arbitrary: q) (auto intro: put_ok)

lemma puts_entries:
  "ok q \<Longrightarrow> length (entries q) \<le> capacity \<Longrightarrow>
    entries (fold put xs q) = List.take capacity (entries q @ xs)"
proof (induction xs arbitrary: q)
  case (Cons x xs)
  show ?case
  proof (cases "length (entries q) < capacity")
    case True
    then show ?thesis using Cons put_ok put_entries [of q x] by (simp add: take_Cons')
  next
    case False
    then show ?thesis using Cons put_ok put_entries [of q x] by simp
  qed
qed simp

lemma first_in_first_out:
  assumes "ok q" and "entries q = []" and "xs \<noteq> []" and "length xs \<le> capacity"
  shows "fst (take (fold put xs q)) = read (hd xs)" "entries (snd (take (fold put xs q))) = tl xs"
  using take_entries [OF puts_ok [OF assms(1)], of xs "hd xs" "tl xs"] puts_entries [OF assms(1), of xs] assms
  by auto

end

subsection \<open>Lemmas\<close>

inductive_cases tty_stepE: "tty_step t t'"

lemma ring_list_length [simp]: "0 \<le> c \<Longrightarrow> length (ring_list n buf b c) = nat c"
  by (simp add: ring_list_def)

lemma ring_put_ok:
  assumes "ring_ok n buf h b c" and "c < int n" and "h' = (if h + 1 = n then 0 else h + 1)"
  shows "ring_ok n (buf[h := x]) h' b (c + 1)"
proof -
  have "h < n" "0 < n" using assms unfolding ring_ok_def by auto
  then have "h' = Suc h mod n" using assms(3) by auto
  also have "\<dots> = (b + nat (c + 1)) mod n"
  proof -
    have "h = (b + nat c) mod n" "nat (c + 1) = Suc (nat c)" using assms(1) unfolding ring_ok_def by auto
    then show ?thesis by (simp only: mod_Suc_eq add_Suc_right)
  qed
  finally show ?thesis using assms unfolding ring_ok_def by auto
qed

lemma ring_put_list:
  assumes "ring_ok n buf h b c" and "c < int n"
  shows "ring_list n (buf[h := x]) b (c + 1) = ring_list n buf b c @ [x]"
proof -
  have n: "nat c < n" "length buf = n" "h = (b + nat c) mod n" using assms unfolding ring_ok_def by auto
  have "nat (c + 1) = Suc (nat c)" using assms unfolding ring_ok_def by auto
  moreover have "(buf[h := x]) ! ((b + i) mod n) = buf ! ((b + i) mod n)" if "i < nat c" for i
  proof -
    have "(b + i) mod n \<noteq> (b + nat c) mod n"
    proof
      assume "(b + i) mod n = (b + nat c) mod n"
      then have "n dvd nat c - i" using that mod_eq_dvd_iff_nat [of "b + i" "b + nat c" n] by simp
      then show False using that n(1) nat_dvd_not_less [of "nat c - i" n] by simp
    qed
    then show ?thesis using n(3) by simp
  qed
  ultimately show ?thesis using n by (simp add: ring_list_def)
qed

lemma ring_take_ok:
  assumes "ring_ok n buf h b c" and "0 < c" and "b' = (if b + 1 = n then 0 else b + 1)"
  shows "ring_ok n buf h b' (c - 1)"
proof -
  have "b < n" using assms unfolding ring_ok_def by auto
  then have t: "b' = Suc b mod n" "b' < n" using assms(3) by auto
  have "nat c = Suc (nat (c - 1))" using assms(2) by simp
  then have "(b + nat c) mod n = (b' + nat (c - 1)) mod n" unfolding t(1) by (simp only: mod_add_left_eq add_Suc_right add_Suc)
  then show ?thesis using assms t unfolding ring_ok_def by auto
qed

lemma ring_take_list:
  assumes "ring_ok n buf h b c" and "0 < c" and "b' = (if b + 1 = n then 0 else b + 1)"
  shows "ring_list n buf b c = buf ! b # ring_list n buf b' (c - 1)"
proof -
  have "b < n" using assms unfolding ring_ok_def by auto
  then have t: "b mod n = b" "b' = Suc b mod n" using assms(3) by auto
  have "nat c = Suc (nat (c - 1))" using assms(2) by simp
  then have u: "[0..<nat c] = 0 # map Suc [0..<nat (c - 1)]" by (simp add: upt_conv_Cons map_Suc_upt del: upt_Suc)
  have m: "(b' + i) mod n = (b + Suc i) mod n" for i unfolding t(2) by (simp only: mod_add_left_eq add_Suc_right add_Suc)
  show ?thesis unfolding ring_list_def u m by (simp add: t(1) comp_def del: map_Suc_upt)
qed

interpretation ttyq: bounded_queue tty_ok keys TTY_IN_BYTES put_key take_key ucast
proof
  fix q x
  assume q: "tty_ok q"
  then have c: "0 \<le> inbuf_count q" unfolding tty_ok_def ring_ok_def by simp
  show "tty_ok (put_key x q)"
  proof (cases "inbuf_count q < 256")
    case True
    then show ?thesis
      using ring_put_ok [OF q [unfolded tty_ok_def], of "if inbuf_head q + 1 = 256 then 0 else inbuf_head q + 1" x]
      unfolding tty_ok_def put_key_def Let_def by auto
  next
    case False
    then show ?thesis using q unfolding put_key_def by simp
  qed
  show "keys (put_key x q) = (if length (keys q) < 256 then keys q @ [x] else keys q)"
  proof (cases "inbuf_count q < 256")
    case True
    then have "nat (inbuf_count q) < 256" using c by simp
    then show ?thesis using ring_put_list [OF q [unfolded tty_ok_def], of x] True c
      unfolding keys_def put_key_def Let_def by auto
  next
    case False
    then have "\<not> nat (inbuf_count q) < 256" by simp
    then show ?thesis using False c unfolding keys_def put_key_def by simp
  qed
next
  fix q :: tty
  assume q: "tty_ok q" and ne: "keys q \<noteq> []"
  then have c: "0 < inbuf_count q" unfolding tty_ok_def ring_ok_def keys_def ring_list_def by auto
  let ?b = "if inbuf_tail q + 1 = 256 then 0 else inbuf_tail q + 1"
  show "tty_ok (snd (take_key q))"
    using ring_take_ok [OF q [unfolded tty_ok_def] c, of ?b] unfolding tty_ok_def take_key_def Let_def by auto
  fix x xs
  assume "keys q = x # xs"
  then show "fst (take_key q) = ucast x \<and> keys (snd (take_key q)) = xs"
    using ring_take_list [OF q [unfolded tty_ok_def] c, of ?b] unfolding keys_def take_key_def Let_def by auto
qed

interpretation kbq: bounded_queue kb_ok scan_codes KB_IN_BYTES keyboard_handler "\<lambda>t. the (get_byte_from_kb_buf t)" id
proof
  fix q :: "'a keyboard_scheme" and x
  assume q: "kb_ok q"
  then have c: "0 \<le> kb_count (kb_in q)" unfolding kb_ok_def ring_ok_def by simp
  show "kb_ok (keyboard_handler x q)"
  proof (cases "kb_count (kb_in q) < 32")
    case True
    then show ?thesis
      using ring_put_ok [OF q [unfolded kb_ok_def], of "if kb_head (kb_in q) + 1 = 32 then 0 else kb_head (kb_in q) + 1" x]
      unfolding kb_ok_def keyboard_handler_def Let_def by auto
  next
    case False
    then show ?thesis using q unfolding keyboard_handler_def Let_def by simp
  qed
  show "scan_codes (keyboard_handler x q) = (if length (scan_codes q) < 32 then scan_codes q @ [x] else scan_codes q)"
  proof (cases "kb_count (kb_in q) < 32")
    case True
    then have "nat (kb_count (kb_in q)) < 32" using c by simp
    then show ?thesis using ring_put_list [OF q [unfolded kb_ok_def], of x] True c
      unfolding scan_codes_def keyboard_handler_def Let_def by auto
  next
    case False
    then have "\<not> nat (kb_count (kb_in q)) < 32" by simp
    then show ?thesis using False c unfolding scan_codes_def keyboard_handler_def Let_def by simp
  qed
next
  fix q :: "'a keyboard_scheme"
  assume q: "kb_ok q" and ne: "scan_codes q \<noteq> []"
  then have c: "0 < kb_count (kb_in q)" unfolding kb_ok_def ring_ok_def scan_codes_def ring_list_def by auto
  let ?b = "if kb_tail (kb_in q) + 1 = 32 then 0 else kb_tail (kb_in q) + 1"
  show "kb_ok (snd (the (get_byte_from_kb_buf q)))"
    using ring_take_ok [OF q [unfolded kb_ok_def] c, of ?b] c unfolding kb_ok_def get_byte_from_kb_buf_def Let_def by auto
  fix x xs
  assume "scan_codes q = x # xs"
  then show "fst (the (get_byte_from_kb_buf q)) = id x \<and> scan_codes (snd (the (get_byte_from_kb_buf q))) = xs"
    using ring_take_list [OF q [unfolded kb_ok_def] c, of ?b] c unfolding scan_codes_def get_byte_from_kb_buf_def Let_def by auto
qed

lemma display_only_refl [simp]: "display_only t t" by (simp add: display_only_def)

lemma display_only_trans: "display_only t t1 \<Longrightarrow> display_only t1 t2 \<Longrightarrow> display_only t t2"
  by (simp add: display_only_def)

lemma display_only_ops [simp]:
  "display_only t (set_con c v t') \<longleftrightarrow> display_only t t'"
  "display_only t (set_cur c w t') \<longleftrightarrow> display_only t t'"
  "display_only t (put_vmem a b t') \<longleftrightarrow> display_only t t'"
  "display_only t (set_cursor w t') \<longleftrightarrow> display_only t t'"
  "display_only t (set_video_start_addr w t') \<longleftrightarrow> display_only t t'"
  "display_only t (flush c t') \<longleftrightarrow> display_only t t'"
  "display_only t (clean_console_screen c t') \<longleftrightarrow> display_only t t'"
  "display_only t (t'\<lparr>disp_pos := w\<rparr>) \<longleftrightarrow> display_only t t'"
  "display_only t (t'\<lparr>out_char_number := z\<rparr>) \<longleftrightarrow> display_only t t'"
  by (simp_all add: display_only_def set_con_def set_cur_def put_vmem_def set_cursor_def set_video_start_addr_def
      flush_def clean_console_screen_def)

lemma display_only_scroll [simp]: "display_only t (scroll_screen c d t') \<longleftrightarrow> display_only t t'"
  by (simp add: scroll_screen_def Let_def)

lemma display_only_scroll_to:
  assumes "scroll_to_cursor c t = Some t'"
  shows "display_only t t'"
proof (rule scroll_to_cursor.raw_induct [OF _ assms])
  fix f c t t'
  assume IH: "\<And>c t t'. f c t = Some t' \<Longrightarrow> display_only t t'"
    and f: "(if current_start_addr (con c t) + 2000 \<le> cursor (con c t) then f c (scroll_screen c (- 1) t) else Some t) = Some t'"
  show "display_only t t'"
    using f IH [of c "scroll_screen c (- 1) t" t'] display_only_trans [of t "scroll_screen c (- 1) t" t']
    by (auto split: if_splits)
qed

lemma display_only_out_char: "out_char c ch t = Some t' \<Longrightarrow> display_only t t'"
  unfolding out_char_def Let_def
  by (auto split: Option.bind_splits if_splits dest!: display_only_scroll_to
      elim!: display_only_trans [rotated])

lemma display_only_inv: "display_only t t' \<Longrightarrow> tty_inv t' = tty_inv t"
  by (cases t; cases t') (simp add: display_only_def tty_inv_def kb_ok_def)

lemma tty_inv_flags [simp]:
  "tty_inv (t\<lparr>code_with_E0 := a\<rparr>) = tty_inv t" "tty_inv (t\<lparr>column := c\<rparr>) = tty_inv t"
  "tty_inv (t\<lparr>shift_l := a\<rparr>) = tty_inv t" "tty_inv (t\<lparr>shift_r := a\<rparr>) = tty_inv t"
  "tty_inv (t\<lparr>ctrl_l := a\<rparr>) = tty_inv t" "tty_inv (t\<lparr>ctrl_r := a\<rparr>) = tty_inv t"
  "tty_inv (t\<lparr>alt_l := a\<rparr>) = tty_inv t" "tty_inv (t\<lparr>kb_leds := l\<rparr>) = tty_inv t"
  "tty_inv (t\<lparr>caps_lock := a\<rparr>) = tty_inv t" "tty_inv (t\<lparr>num_lock := a\<rparr>) = tty_inv t"
  "tty_inv (t\<lparr>scroll_lock := a\<rparr>) = tty_inv t"
  by (simp_all add: tty_inv_def kb_ok_def)

lemma tty_inv_modifier [simp]: "tty_inv (modifier_key key mk t) = tty_inv t"
  by (simp add: modifier_key_def set_leds_def)

lemma tty_inv_lookup: "lookup_key sc t = (mk, key, t') \<Longrightarrow> tty_inv t' = tty_inv t"
  by (auto simp: lookup_key_def Let_def)

lemma tty_inv_set_tty:
  "tty_inv t \<Longrightarrow> i < 3 \<Longrightarrow> tty_ok p \<Longrightarrow> p_console p = i \<Longrightarrow> tty_inv (set_tty i p t)"
  by (auto simp: tty_inv_def set_tty_def kb_ok_def nth_list_update)

lemma p_console_ops [simp]: "p_console (put_key k p) = p_console p" "p_console (snd (take_key p)) = p_console p"
  by (simp_all add: put_key_def take_key_def Let_def)

lemma tty_inv_put_key: "tty_inv t \<Longrightarrow> i < 3 \<Longrightarrow> tty_inv (set_tty i (put_key k (tty_table t ! i)) t)"
  by (rule tty_inv_set_tty) (auto simp: tty_inv_def intro: ttyq.put_ok)

lemma tty_inv_select [simp]: "tty_inv t \<Longrightarrow> tty_inv (select_console nr t)"
proof -
  assume t: "tty_inv t"
  have "tty_inv (t\<lparr>nr_current_console := nat nr\<rparr>)" if "\<not> nr < 0" "\<not> 3 \<le> nr"
    using t that by (simp add: tty_inv_def kb_ok_def nat_less_iff)
  then show ?thesis
    using t display_only_inv [of "t\<lparr>nr_current_console := nat nr\<rparr>" "flush (nat nr) (t\<lparr>nr_current_console := nat nr\<rparr>)"]
    by (auto simp: select_console_def)
qed

lemma tty_inv_in_process: "tty_inv t \<Longrightarrow> i < 3 \<Longrightarrow> tty_inv (in_process i key t)"
  unfolding in_process_def Let_def
  using display_only_inv [of t "scroll_screen (p_console (tty_table t ! i)) 1 t"]
    display_only_inv [of t "scroll_screen (p_console (tty_table t ! i)) (-1) t"]
  by (simp add: tty_inv_put_key)

lemma tty_inv_write: "tty_inv t \<Longrightarrow> i < 3 \<Longrightarrow> tty_do_write i t = Some t' \<Longrightarrow> tty_inv t'"
proof -
  assume t: "tty_inv t" "i < 3" "tty_do_write i t = Some t'"
  let ?p = "tty_table t ! i"
  show "tty_inv t'"
  proof (cases "inbuf_count ?p = 0")
    case True
    then show ?thesis using t by (simp add: tty_do_write_def)
  next
    case False
    have p: "tty_ok ?p" "p_console ?p = i" using t unfolding tty_inv_def by auto
    then have "keys ?p \<noteq> []" using False unfolding tty_ok_def ring_ok_def keys_def ring_list_def by auto
    then have "tty_inv (set_tty i (snd (take_key ?p)) t)" using t p ttyq.take_ok by (intro tty_inv_set_tty) auto
    then show ?thesis using t(3) False
      by (auto simp: tty_do_write_def Let_def split: prod.splits dest!: display_only_out_char display_only_inv)
  qed
qed

lemma tty_inv_handler: "tty_inv t \<Longrightarrow> tty_inv (keyboard_handler sc t)"
proof -
  assume t: "tty_inv t"
  then have "kb_ok (keyboard_handler sc t)" using kbq.put_ok unfolding tty_inv_def by blast
  then show ?thesis using t by (simp add: tty_inv_def keyboard_handler_def Let_def)
qed

lemma tty_inv_get_byte: "get_byte_from_kb_buf t = Some (c, t') \<Longrightarrow> tty_inv t \<Longrightarrow> tty_inv t'"
proof -
  assume g: "get_byte_from_kb_buf t = Some (c, t')" and t: "tty_inv t"
  have "scan_codes t \<noteq> []"
    using g unfolding get_byte_from_kb_buf_def scan_codes_def ring_list_def by (auto simp: Let_def split: if_splits)
  then have "kb_ok t'" using kbq.take_ok [of t] g t unfolding tty_inv_def by simp
  then show ?thesis using g t by (auto simp: tty_inv_def get_byte_from_kb_buf_def Let_def split: if_splits)
qed

lemma tty_inv_match: "match_pausebreak xs t = Some (b, t') \<Longrightarrow> tty_inv t \<Longrightarrow> tty_inv t'"
  by (induction xs t rule: match_pausebreak.induct)
    (auto split: Option.bind_splits if_splits dest: tty_inv_get_byte)

lemma tty_inv_prefix: "read_prefix sc t = Some (r, t') \<Longrightarrow> tty_inv t \<Longrightarrow> tty_inv t'"
  unfolding read_prefix_def Let_def
  by (auto split: Option.bind_splits if_splits dest!: tty_inv_get_byte tty_inv_match)

lemma tty_inv_keyboard_read: "keyboard_read i t = Some t' \<Longrightarrow> tty_inv t \<Longrightarrow> i < 3 \<Longrightarrow> tty_inv t'"
  unfolding keyboard_read_def Let_def
  by (auto split: Option.bind_splits if_splits option.splits bool.splits prod.splits
      dest!: tty_inv_get_byte tty_inv_prefix tty_inv_lookup intro!: tty_inv_in_process)

lemma tty_inv_step: "tty_step t t' \<Longrightarrow> tty_inv t \<Longrightarrow> tty_inv t'"
  by (erule tty_stepE) (auto simp: tty_do_read_def split: if_splits intro: tty_inv_handler tty_inv_write tty_inv_keyboard_read)

lemma display_only_scroll_lines [simp]: "display_only t (scroll_lines n c t') \<longleftrightarrow> display_only t t'"
  by (induction n arbitrary: t') auto

lemma display_only_init_screen:
  "display_only (t\<lparr>tty_table := (tty_table t)[i := (tty_table t ! i)\<lparr>p_console := i\<rparr>]\<rparr>) (init_screen i t)"
  unfolding init_screen_def Let_def by simp

lemma init_screen_fields:
  "tty_table (init_screen i t) = (tty_table t)[i := (tty_table t ! i)\<lparr>p_console := i\<rparr>]"
  "length (console_table (init_screen i t)) = length (console_table t)"
  "kb_in (init_screen i t) = kb_in t" "nr_current_console (init_screen i t) = nr_current_console t"
  for t :: "'a keyboard_scheme"
proof -
  let ?t = "t\<lparr>tty_table := (tty_table t)[i := (tty_table t ! i)\<lparr>p_console := i\<rparr>]\<rparr>"
  have d: "display_only ?t (init_screen i t)" by (rule display_only_init_screen)
  show "tty_table (init_screen i t) = (tty_table t)[i := (tty_table t ! i)\<lparr>p_console := i\<rparr>]"
    "length (console_table (init_screen i t)) = length (console_table t)"
    "nr_current_console (init_screen i t) = nr_current_console t"
    using d by (simp_all add: display_only_def)
  have "terminal.more (init_screen i t) = terminal.more t" using d by (simp add: display_only_def)
  then show "kb_in (init_screen i t) = kb_in t" by (cases t; cases "init_screen i t") simp
qed

lemma init_ttys_fields:
  "tty_table (init_ttys is t) = fold (\<lambda>i ts. ts[i := (ts ! i)\<lparr>inbuf_count := 0, inbuf_head := 0, inbuf_tail := 0, p_console := i\<rparr>]) is (tty_table t)"
  "length (console_table (init_ttys is t)) = length (console_table t)"
  "kb_in (init_ttys is t) = kb_in t"
  if "\<forall>i\<in>set is. i < length (tty_table t)" for t :: "'a keyboard_scheme"
  using that by (induction "is" t rule: init_ttys.induct) (simp_all add: init_screen_fields set_tty_def)

lemma tty_inv_start:
  assumes "tty_start_ok t"
  shows "tty_inv (task_tty_start t)"
proof -
  let ?t = "snd (init_tty t)"
  have a: "length (tty_table (init_keyboard t)) = 3" "length (console_table (init_keyboard t)) = 3"
    "tty_table (init_keyboard t) = tty_table t" "length (kb_buf (kb_in t)) = 32"
    using assms by (simp_all add: tty_start_ok_def init_keyboard_def set_leds_def)
  have b: "length (in_buf (tty_table t ! 0)) = 256" "length (in_buf (tty_table t ! 1)) = 256" "length (in_buf (tty_table t ! 2)) = 256"
    using assms by (simp_all add: tty_start_ok_def)
  have u: "[0..<3] = [0, 1, 2]" by (simp add: upt_rec)
  have f: "length (console_table ?t) = 3" "kb_in ?t = kb_in (init_keyboard t)"
    "tty_table ?t = fold (\<lambda>i ts. ts[i := (ts ! i)\<lparr>inbuf_count := 0, inbuf_head := 0, inbuf_tail := 0, p_console := i\<rparr>]) [0, 1, 2] (tty_table t)"
    using a init_ttys_fields [of "[0, 1, 2]" "init_keyboard t"] unfolding init_tty_def u
    by (simp_all del: init_ttys.simps fold_simps)
  have "kb_ok ?t" using a unfolding kb_ok_def ring_ok_def f by (simp add: init_keyboard_def set_leds_def)
  moreover have "\<forall>i < 3. tty_ok (tty_table ?t ! i) \<and> p_console (tty_table ?t ! i) = i"
  proof (intro allI impI)
    fix i :: nat
    assume "i < 3"
    then consider "i = 0" | "i = 1" | "i = 2" by linarith
    then show "tty_ok (tty_table ?t ! i) \<and> p_console (tty_table ?t ! i) = i"
      using a b unfolding f(3) by cases (simp_all add: tty_ok_def ring_ok_def)
  qed
  moreover have "length (tty_table ?t) = 3" using a unfolding f(3) by simp
  ultimately have "tty_inv (?t\<lparr>nr_current_console := 0\<rparr>)" using f(1) by (simp add: tty_inv_def kb_ok_def)
  then show ?thesis
    using display_only_inv [of "?t\<lparr>nr_current_console := 0\<rparr>" "flush 0 (?t\<lparr>nr_current_console := 0\<rparr>)"]
    by (simp add: task_tty_start_def select_console_def)
qed

lemma of_nat_less32: "a < 2 ^ 32 \<Longrightarrow> b < 2 ^ 32 \<Longrightarrow> (of_nat a :: u32) < of_nat b \<longleftrightarrow> a < b"
  by (simp add: word_of_nat_less_iff take_bit_nat_eq_self)

lemma of_nat_le32: "a < 2 ^ 32 \<Longrightarrow> b < 2 ^ 32 \<Longrightarrow> (of_nat a :: u32) \<le> of_nat b \<longleftrightarrow> a \<le> b"
  using of_nat_less32 [of b a] by (simp add: not_less [symmetric] del: not_less)

lemma past_endI:
  assumes "c < length (console_table t)" "b \<le> 16384" "k \<le> 43" "b + 5440 \<le> m" "m \<le> 32768" "original_addr (con c t) = of_nat b"
    "current_start_addr (con c t) = of_nat (b + 80 * k)" "v_mem_limit (con c t) = 5440" "cursor (con c t) = of_nat m"
  shows "past_end c t"
  using assms unfolding past_end_def by blast

lemma con_ops [simp]:
  "con c (flush c t) = con c t" "con c (clean_console_screen c t) = con c t"
  "c < length (console_table t) \<Longrightarrow> con c (set_con c v t) = v" "con c (t\<lparr>disp_pos := d\<rparr>) = con c t"
  "con c (t\<lparr>out_char_number := n\<rparr>) = con c t"
  "length (console_table (flush c t)) = length (console_table t)"
  "length (console_table (clean_console_screen c t)) = length (console_table t)"
  "length (console_table (set_con c v t)) = length (console_table t)"
  "length (console_table (set_cur c w t)) = length (console_table t)"
  by (simp_all add: con_def flush_def set_video_start_addr_def set_cursor_def clean_console_screen_def set_con_def set_cur_def)

lemma past_end_scroll:
  assumes "past_end c t"
  shows "past_end c (scroll_screen c (- 1) t)" "current_start_addr (con c t) + 2000 \<le> cursor (con c t)"
proof -
  obtain b k m where b: "b \<le> 16384" "k \<le> 43" "b + 5440 \<le> m" "m \<le> 32768" "original_addr (con c t) = of_nat b"
    "current_start_addr (con c t) = of_nat (b + 80 * k)" "v_mem_limit (con c t) = 5440" "cursor (con c t) = of_nat m"
    and c: "c < length (console_table t)" using assms unfolding past_end_def by blast
  have "current_start_addr (con c t) + 2000 = of_nat (b + 80 * k + 2000)" using b(6) by simp
  then show "current_start_addr (con c t) + 2000 \<le> cursor (con c t)"
    using of_nat_le32 [of "b + 80 * k + 2000" m] b by simp
  have e: "current_start_addr (con c t) + 2000 < original_addr (con c t) + v_mem_limit (con c t) \<longleftrightarrow> k < 43"
    using of_nat_less32 [of "b + 80 * k + 2000" "b + 5440"] b by auto
  show "past_end c (scroll_screen c (- 1) t)"
  proof (cases "k < 43")
    case True
    have "current_start_addr (con c t) + 80 = of_nat (b + 80 * Suc k)" using b(6) by simp
    then show ?thesis
      by (intro past_endI [of c _ b "Suc k" m]) (use b c e True in \<open>simp_all add: scroll_screen_def Let_def\<close>)
  next
    case False
    then show ?thesis
      by (intro past_endI [of c _ b 0 m]) (use b c e in \<open>simp_all add: scroll_screen_def Let_def\<close>)
  qed
qed

lemma past_end_stuck:
  assumes "past_end c t"
  shows "scroll_to_cursor c t = None"
proof (rule ccontr)
  assume "scroll_to_cursor c t \<noteq> None"
  then obtain t' where t': "scroll_to_cursor c t = Some t'" by blast
  have "\<not> past_end c t"
  proof (rule scroll_to_cursor.raw_induct [OF _ t'])
    fix f c t t'
    assume IH: "\<And>c t t'. f c t = Some t' \<Longrightarrow> \<not> past_end c t"
      and f: "(if current_start_addr (con c t) + 2000 \<le> cursor (con c t) then f c (scroll_screen c (- 1) t) else Some t) = Some t'"
    show "\<not> past_end c t"
    proof
      assume p: "past_end c t"
      show False using f IH past_end_scroll [OF p] by auto
    qed
  qed
  then show False using assms by contradiction
qed

lemma out_char_tab:
  assumes "c < length (console_table t)" and "original_addr (con c t) \<le> 16384" and "v_mem_limit (con c t) = 5440"
    and "k \<le> 43" and "current_start_addr (con c t) = original_addr (con c t) + 80 * of_nat k"
    and "original_addr (con c t) + 5432 \<le> cursor (con c t)" and "cursor (con c t) \<le> 30000"
  shows "out_char c 9 t = None"
proof -
  let ?t = "set_cur c (cursor (con c t) + 8) (t\<lparr>out_char_number := out_char_number t + 8\<rparr>)"
  let ?b = "unat (original_addr (con c t))" and ?m = "unat (cursor (con c t))"
  have u: "?b \<le> 16384" "?m \<le> 30000" using assms(2,7) unfolding word_le_nat_alt by simp_all
  have "unat (original_addr (con c t) + 5432) = ?b + 5432" using u unat_offset [of "original_addr (con c t)" 5432] by simp
  then have "?b + 5440 \<le> ?m + 8" using assms(6) unfolding word_le_nat_alt by simp
  then have "past_end c ?t"
    by (intro past_endI [of c _ ?b k "?m + 8"]) (use assms u in \<open>simp_all add: set_cur_def con_def set_con_def\<close>)
  then show ?thesis by (simp add: out_char_def Let_def past_end_stuck)
qed

lemma example_start: "tty_start_ok example_tty"
  by (simp add: tty_start_ok_def example_tty_def)

subsection \<open>Properties\<close>

text \<open>
  C18: in every state the terminals reach, with keyboard interrupts at any moment, the buffers of
  the keyboard and of the terminals are well formed (positions inside the buffer, a count between
  0 and its size, the head as far behind the tail as the count says) and the number of the
  current console is in range.
\<close>

theorem tty_reachable_typed:
  assumes "tty_reach t"
  shows "tty_inv t"
  using assms by (induction rule: tty_reach.induct) (auto intro: tty_inv_start tty_inv_step)

theorem tty_reachable_typed_witness: "tty_inv (keyboard_handler 0x1E (task_tty_start example_tty))"
  by (rule tty_reachable_typed [OF tty_reach.stepped [OF tty_reach.started [OF example_start] tty_step.interrupt]])

text \<open>
  C29: the buffer of scan codes is a bounded queue. Interrupts append their codes as long as there
  are less than 32 and are dropped then; \<^verbatim>\<open>get_byte_from_kb_buf\<close> takes the oldest code.
\<close>

theorem scan_codes_fifo:
  assumes "kb_ok t"
  shows "kb_ok (fold keyboard_handler cs t) \<and>
    (length (scan_codes t) \<le> KB_IN_BYTES \<longrightarrow> scan_codes (fold keyboard_handler cs t) = take KB_IN_BYTES (scan_codes t @ cs)) \<and>
    (scan_codes t \<noteq> [] \<longrightarrow> (\<exists>t'. get_byte_from_kb_buf t = Some (hd (scan_codes t), t') \<and> kb_ok t' \<and> scan_codes t' = tl (scan_codes t)))"
proof (intro conjI impI)
  show "kb_ok (fold keyboard_handler cs t)" by (rule kbq.puts_ok [OF assms])
  show "scan_codes (fold keyboard_handler cs t) = take 32 (scan_codes t @ cs)" if "length (scan_codes t) \<le> 32"
    by (rule kbq.puts_entries [OF assms that])
  assume ne: "scan_codes t \<noteq> []"
  then have "get_byte_from_kb_buf t \<noteq> None"
    unfolding scan_codes_def ring_list_def get_byte_from_kb_buf_def Let_def by auto
  then obtain c t' where g: "get_byte_from_kb_buf t = Some (c, t')" by auto
  then show "\<exists>t'. get_byte_from_kb_buf t = Some (hd (scan_codes t), t') \<and> kb_ok t' \<and> scan_codes t' = tl (scan_codes t)"
    using kbq.take_ok [OF assms ne] kbq.take_entries [OF assms ne, of "hd (scan_codes t)" "tl (scan_codes t)"] ne by simp
qed

theorem scan_codes_fifo_witness:
  "scan_codes (fold keyboard_handler [0x1E, 0x9E] example_tty) = [0x1E, 0x9E]"
proof -
  have "kb_ok example_tty" "scan_codes example_tty = []"
    by (simp_all add: kb_ok_def ring_ok_def scan_codes_def ring_list_def example_tty_def)
  then show ?thesis using scan_codes_fifo [of example_tty "[0x1E, 0x9E]"] by simp
qed

text \<open>
  C30: a tab typed when less than nine cells of the console's memory are left hangs the terminal
  task: the cursor is moved behind the memory, where scrolling never reaches it, so the loop that
  scrolls until the cursor is on the screen does not end.
\<close>

theorem out_char_tab_hangs:
  assumes "c < length (console_table t)" and "original_addr (con c t) \<le> 16384" and "v_mem_limit (con c t) = 5440"
    and "k \<le> 43" and "current_start_addr (con c t) = original_addr (con c t) + 80 * of_nat k"
    and "original_addr (con c t) + 5432 \<le> cursor (con c t)" and "cursor (con c t) \<le> 30000"
  shows "out_char c 9 t = None"
  by (rule out_char_tab [OF assms])

theorem out_char_tab_hangs_witness: "out_char 0 9 example_full = None"
proof -
  have c: "con 0 example_full = \<lparr>current_start_addr = 3440, original_addr = 0, current_end_addr = 5440, v_mem_limit = 5440, cursor = 5432\<rparr>"
    "length (console_table example_full) = 3"
    unfolding example_full_def con_def by simp_all
  show ?thesis using out_char_tab_hangs [of 0 example_full 43] unfolding c by simp
qed

end
