(* ===== verification/Hd.thy ===== *)
theory Hd
  imports Slab "HOL-Library.Signed_Division"
begin

section \<open>The hard disk\<close>

text \<open>
  The model of \<^verbatim>\<open>kernel/hd.c\<close>. The drive itself is hardware: an argument \<open>D\<close> of two functions,
  what a read command delivers and what a write command with its data does to the drive's
  state; \<open>None\<close> is a drive that does not become ready in time. \<^verbatim>\<open>port_read\<close> and \<^verbatim>\<open>port_write\<close> transfer
  \<^verbatim>\<open>SECTOR_SIZE\<close> words with \<^verbatim>\<open>insw\<close> and \<^verbatim>\<open>outsw\<close>, so 1024 bytes. An index outside an array and the
  use of an uninitialised buffer are \<open>None\<close>.
\<close>

subsection \<open>State\<close>

record hd_cmd =
  features :: u8
  hc_count :: u8
  lba_low :: u8
  lba_mid :: u8
  lba_high :: u8
  hc_device :: u8
  hc_command :: u8

record 'd drive =
  drv_read :: "hd_cmd \<Rightarrow> 'd \<Rightarrow> u8 list option"
  drv_write :: "hd_cmd \<Rightarrow> u8 list \<Rightarrow> 'd \<Rightarrow> 'd option"

record partition_info =
  start_sector :: u32
  total_sectors :: u32

record hard_disk_info =
  open_cnt :: int
  primary :: "partition_info list"
  logical :: "partition_info list"

record partition_table =
  system_id :: u8
  start_sector_lba :: u32
  nr_sectors :: u32

record 'd hd_heap = slab_heap +
  dev_state :: 'd
  hd_info :: "hard_disk_info list"
  b_data :: "addr \<Rightarrow> addr"

abbreviation (input) SECTOR_SIZE :: nat where "SECTOR_SIZE \<equiv> 512"
abbreviation (input) ATA_IDENTIFY :: u8 where "ATA_IDENTIFY \<equiv> 0xec"
abbreviation (input) ATA_READ :: u32 where "ATA_READ \<equiv> 0x20"
abbreviation (input) ATA_WRITE :: u32 where "ATA_WRITE \<equiv> 0x30"
abbreviation (input) MAX_PRIMARY :: int where "MAX_PRIMARY \<equiv> 4"
abbreviation (input) NR_PRIM_PER_DRIVE :: int where "NR_PRIM_PER_DRIVE \<equiv> 5"
abbreviation (input) NR_LOG_PER_DRIVE :: int where "NR_LOG_PER_DRIVE \<equiv> 64"
abbreviation (input) MINOR_hd1a :: int where "MINOR_hd1a \<equiv> 0x10"
abbreviation (input) ROOT_DEV :: int where "ROOT_DEV \<equiv> 0x310"
abbreviation (input) UNUSED_PART :: u8 where "UNUSED_PART \<equiv> 0"
abbreviation (input) EXTENDED_PART :: u8 where "EXTENDED_PART \<equiv> 5"

definition DRV_OF_DEV :: "int \<Rightarrow> int" where
  "DRV_OF_DEV dev =
     (if dev \<le> MAX_PRIMARY then dev sdiv NR_PRIM_PER_DRIVE else (dev - MINOR_hd1a) sdiv NR_LOG_PER_DRIVE)"

definition MINOR :: "int \<Rightarrow> int" where
  "MINOR x = x AND 0xff"

definition nth_opt :: "'b list \<Rightarrow> int \<Rightarrow> 'b option" where
  "nth_opt xs i = (if 0 \<le> i \<and> nat i < length xs then Some (xs ! nat i) else None)"

definition word_at :: "u8 list \<Rightarrow> nat \<Rightarrow> u32" where
  "word_at bs i = ucast (bs ! i) OR push_bit 8 (ucast (bs ! (i + 1))) OR push_bit 16 (ucast (bs ! (i + 2)))
     OR push_bit 24 (ucast (bs ! (i + 3)))"

subsection \<open>Commands\<close>

definition MAKE_DEVICE_REG :: "u32 \<Rightarrow> u32 \<Rightarrow> u32 \<Rightarrow> u32" where
  "MAKE_DEVICE_REG lba drive lba_highest = push_bit 6 lba OR push_bit 4 drive OR (lba_highest AND 0xf) OR 0xA0"

definition make_cmd :: "u8 \<Rightarrow> u8 \<Rightarrow> u8 \<Rightarrow> u8 \<Rightarrow> u8 \<Rightarrow> u8 \<Rightarrow> u8 \<Rightarrow> hd_cmd" where
  "make_cmd f count low mid high device command =
     \<lparr>features = f, hc_count = count, lba_low = low, lba_mid = mid, lba_high = high, hc_device = device,
      hc_command = command\<rparr>"

definition make_rw_cmd :: "int \<Rightarrow> u32 \<Rightarrow> u32 \<Rightarrow> u32 \<Rightarrow> hd_cmd" where
  "make_rw_cmd drive start_sect nr_sects flag =
     make_cmd 0 (ucast nr_sects) (ucast (start_sect AND 0xff)) (ucast (signed_drop_bit 8 start_sect AND 0xff))
       (ucast (signed_drop_bit 16 start_sect AND 0xff))
       (ucast (MAKE_DEVICE_REG 1 (word_of_int drive) (signed_drop_bit 24 start_sect AND 0xF))) (ucast flag)"

definition read_intr :: "'d drive \<Rightarrow> hd_cmd \<Rightarrow> addr \<Rightarrow> ('d, 'a) hd_heap_scheme \<Rightarrow> int \<times> ('d, 'a) hd_heap_scheme" where
  "read_intr D cmd buffer s =
     (case drv_read D cmd (dev_state s) of
        None \<Rightarrow> (-1, s)
      | Some bs \<Rightarrow> (0, s\<lparr>mem := store buffer (take (2 * SECTOR_SIZE) bs) (mem s)\<rparr>))"

definition write_intr :: "'d drive \<Rightarrow> hd_cmd \<Rightarrow> addr \<Rightarrow> ('d, 'a) hd_heap_scheme \<Rightarrow> int \<times> ('d, 'a) hd_heap_scheme" where
  "write_intr D cmd buffer s =
     (case drv_write D cmd (load (mem s) buffer (2 * SECTOR_SIZE)) (dev_state s) of
        None \<Rightarrow> (-1, s)
      | Some d \<Rightarrow> (0, s\<lparr>dev_state := d\<rparr>))"

subsection \<open>Partitions\<close>

definition parse_entry :: "u8 list \<Rightarrow> nat \<Rightarrow> partition_table" where
  "parse_entry bs i =
     (let o' = 0x1BE + 16 * i
      in \<lparr>system_id = bs ! (o' + 4), start_sector_lba = word_at bs (o' + 8), nr_sectors = word_at bs (o' + 12)\<rparr>)"

text \<open>
  The four entries of the table in a sector; when the drive fails, the caller's array keeps
  what it has: \<open>None\<close> before the first success.
\<close>

definition get_partition_table ::
  "'d drive \<Rightarrow> int \<Rightarrow> u32 \<Rightarrow> partition_table list option \<Rightarrow> ('d, 'a) hd_heap_scheme \<Rightarrow> partition_table list option" where
  "get_partition_table D drive start_sect tbl s =
     (case drv_read D (make_rw_cmd drive start_sect 1 ATA_READ) (dev_state s) of
        None \<Rightarrow> tbl
      | Some bs \<Rightarrow> Some (map (parse_entry bs) [0..<4]))"

definition set_hdi :: "int \<Rightarrow> hard_disk_info \<Rightarrow> ('d, 'a) hd_heap_scheme \<Rightarrow> ('d, 'a) hd_heap_scheme" where
  "set_hdi drive v s = s\<lparr>hd_info := (hd_info s)[nat drive := v]\<rparr>"

definition set_part :: "partition_info list \<Rightarrow> int \<Rightarrow> u32 \<Rightarrow> u32 \<Rightarrow> partition_info list option" where
  "set_part ps i st cnt =
     (if 0 \<le> i \<and> nat i < length ps then Some (ps[nat i := \<lparr>start_sector = st, total_sectors = cnt\<rparr>]) else None)"

text \<open>The loop over the logical partitions of an extended one: at most 16.\<close>

fun logical_loop ::
  "nat \<Rightarrow> 'd drive \<Rightarrow> int \<Rightarrow> u32 \<Rightarrow> u32 \<Rightarrow> int \<Rightarrow> partition_table list option \<Rightarrow> ('d, 'a) hd_heap_scheme
   \<Rightarrow> ('d, 'a) hd_heap_scheme option" where
  "logical_loop 0 D drive ext_start_sect st dev_nr tbl s = Some s"
| "logical_loop (Suc n) D drive ext_start_sect st dev_nr tbl s =
     do {
       let tbl = get_partition_table D drive st tbl s;
       part_tbl \<leftarrow> tbl;
       hdi \<leftarrow> nth_opt (hd_info s) drive;
       ps \<leftarrow> set_part (logical hdi) dev_nr (st + start_sector_lba (part_tbl ! 0)) (nr_sectors (part_tbl ! 0));
       let s = set_hdi drive (hdi\<lparr>logical := ps\<rparr>) s;
       if system_id (part_tbl ! 1) = UNUSED_PART then Some s
       else logical_loop n D drive ext_start_sect (ext_start_sect + start_sector_lba (part_tbl ! 1)) (dev_nr + 1) tbl s
     }"

definition partition_extended ::
  "'d drive \<Rightarrow> int \<Rightarrow> ('d, 'a) hd_heap_scheme \<Rightarrow> ('d, 'a) hd_heap_scheme option" where
  "partition_extended D device s =
     do {
       let drive = DRV_OF_DEV device;
       let j = device smod NR_PRIM_PER_DRIVE;
       hdi \<leftarrow> nth_opt (hd_info s) drive;
       p \<leftarrow> nth_opt (primary hdi) j;
       logical_loop 16 D drive (start_sector p) (start_sector p) ((j - 1) * 16) None s
     }"

fun primary_loop ::
  "nat list \<Rightarrow> 'd drive \<Rightarrow> int \<Rightarrow> partition_table list \<Rightarrow> ('d, 'a) hd_heap_scheme \<Rightarrow> ('d, 'a) hd_heap_scheme option" where
  "primary_loop [] D device part_tbl s = Some s"
| "primary_loop (i # is) D device part_tbl s =
     (let e = part_tbl ! i; drive = DRV_OF_DEV device; dev_nr = int i + 1 in
      if system_id e = UNUSED_PART then primary_loop is D device part_tbl s
      else do {
        hdi \<leftarrow> nth_opt (hd_info s) drive;
        ps \<leftarrow> set_part (primary hdi) dev_nr (start_sector_lba e) (nr_sectors e);
        let s = set_hdi drive (hdi\<lparr>primary := ps\<rparr>) s;
        s \<leftarrow> (if system_id e = EXTENDED_PART then partition_extended D (device + dev_nr) s else Some s);
        primary_loop is D device part_tbl s
      })"

definition partition_primary ::
  "'d drive \<Rightarrow> int \<Rightarrow> ('d, 'a) hd_heap_scheme \<Rightarrow> ('d, 'a) hd_heap_scheme option" where
  "partition_primary D device s =
     do {
       let drive = DRV_OF_DEV device;
       part_tbl \<leftarrow> get_partition_table D drive (word_of_int drive) None s;
       primary_loop [0..<4] D device part_tbl s
     }"

definition partition :: "'d drive \<Rightarrow> int \<Rightarrow> int \<Rightarrow> ('d, 'a) hd_heap_scheme \<Rightarrow> ('d, 'a) hd_heap_scheme option" where
  "partition D device style s =
     (if style = 0 then partition_primary D device s
      else if style = 1 then partition_extended D device s
      else Some s)"

subsection \<open>Opening the disk\<close>

definition hd_identify :: "'d drive \<Rightarrow> int \<Rightarrow> ('d, 'a) hd_heap_scheme \<Rightarrow> ('d, 'a) hd_heap_scheme option" where
  "hd_identify D drive s =
     do {
       let cmd = make_cmd 0 0 0 0 0 (ucast (MAKE_DEVICE_REG 0 (word_of_int drive) 0)) ATA_IDENTIFY;
       bs \<leftarrow> drv_read D cmd (dev_state s);
       hdi \<leftarrow> nth_opt (hd_info s) drive;
       let hi = (ucast (bs ! 122) OR push_bit 8 (ucast (bs ! 123)) :: u32);
       let lo = (ucast (bs ! 120) OR push_bit 8 (ucast (bs ! 121)) :: u32);
       ps \<leftarrow> set_part (primary hdi) 0 0 (push_bit 16 hi + lo);
       Some (set_hdi drive (hdi\<lparr>primary := ps\<rparr>) s)
     }"

definition hd_open :: "'d drive \<Rightarrow> int \<Rightarrow> ('d, 'a) hd_heap_scheme \<Rightarrow> ('d, 'a) hd_heap_scheme option" where
  "hd_open D device s =
     (let drive = DRV_OF_DEV device in
      if drive \<noteq> 0 then None
      else do {
        s \<leftarrow> hd_identify D drive s;
        hdi \<leftarrow> nth_opt (hd_info s) drive;
        let s = set_hdi drive (hdi\<lparr>open_cnt := open_cnt hdi + 1\<rparr>) s;
        if open_cnt hdi = 0 then partition D (drive * 5) 0 s else Some s
      })"

definition hd_close :: "int \<Rightarrow> ('d, 'a) hd_heap_scheme \<Rightarrow> ('d, 'a) hd_heap_scheme option" where
  "hd_close device s =
     do {
       let drive = DRV_OF_DEV device;
       hdi \<leftarrow> nth_opt (hd_info s) drive;
       Some (set_hdi drive (hdi\<lparr>open_cnt := open_cnt hdi - 1\<rparr>) s)
     }"

subsection \<open>Reading and writing\<close>

text \<open>The start of the partition is added to the number of sectors, not to the start sector.\<close>

definition hd_rw_cmd :: "int \<Rightarrow> u32 \<Rightarrow> u32 \<Rightarrow> u32 \<Rightarrow> ('d, 'a) hd_heap_scheme \<Rightarrow> hd_cmd option" where
  "hd_rw_cmd device start_sect nr_sects flag s =
     do {
       let drive = DRV_OF_DEV (MINOR device);
       hdi \<leftarrow> nth_opt (hd_info s) drive;
       p \<leftarrow> (if device > MAX_PRIMARY then nth_opt (logical hdi) ((device - MINOR_hd1a) smod NR_LOG_PER_DRIVE)
             else nth_opt (primary hdi) device);
       Some (make_rw_cmd drive start_sect (nr_sects + start_sector p) flag)
     }"

definition hd_rw ::
  "'d drive \<Rightarrow> int \<Rightarrow> u32 \<Rightarrow> u32 \<Rightarrow> u32 \<Rightarrow> addr \<Rightarrow> ('d, 'a) hd_heap_scheme \<Rightarrow> (int \<times> ('d, 'a) hd_heap_scheme) option" where
  "hd_rw D device start_sect nr_sects flag bh s =
     (if bh = NULL then Some (-1, s)
      else do {
        cmd \<leftarrow> hd_rw_cmd device start_sect nr_sects flag s;
        if flag = ATA_READ then
          (let (_, m) = memset (b_data s bh) 0 (int SECTOR_SIZE) (mem s);
               (r, s) = read_intr D cmd (b_data s bh) (s\<lparr>mem := m\<rparr>)
           in Some (if r = 0 then 0 else -2, s))
        else if flag = ATA_WRITE then
          (let (r, s) = write_intr D cmd (b_data s bh) s in Some (if r = 0 then 0 else -3, s))
        else Some (-4, s)
      })"

end
