(* ===== verification/Buffer.thy ===== *)
theory Buffer
  imports Hd
begin

section \<open>The buffer cache\<close>

text \<open>
  The model of \<^verbatim>\<open>fs/buffer_head.c\<close>: buffer heads in a hash table by device and block and in a
  circular free list. No code of the kernel locks a buffer or wakes a task that waits for a
  free one: waiting does not return, which is \<open>None\<close>, as is a panic. A \<^verbatim>\<open>struct buffer_head\<close> has 36
  bytes. Null pointers are followed as any other: the memory at 0 is mapped.
\<close>

subsection \<open>State\<close>

record 'd buf_heap = "'d hd_heap" +
  b_blocknr :: "addr \<Rightarrow> u32"
  b_dev :: "addr \<Rightarrow> u16"
  b_uptodate :: "addr \<Rightarrow> u8"
  b_dirt :: "addr \<Rightarrow> u8"
  b_count :: "addr \<Rightarrow> u8"
  b_lock :: "addr \<Rightarrow> u8"
  b_wait :: "addr \<Rightarrow> addr"
  b_prev :: "addr \<Rightarrow> addr"
  b_next :: "addr \<Rightarrow> addr"
  b_prev_free :: "addr \<Rightarrow> addr"
  b_next_free :: "addr \<Rightarrow> addr"
  hash_buffer :: "nat \<Rightarrow> addr"
  buffer_free_list :: addr
  NR_BUFFERS :: int

definition set_b_prev :: "addr \<Rightarrow> addr \<Rightarrow> ('d, 'a) buf_heap_scheme \<Rightarrow> ('d, 'a) buf_heap_scheme" where
  "set_b_prev b v s = s\<lparr>b_prev := (b_prev s)(b := v)\<rparr>"

definition set_b_next :: "addr \<Rightarrow> addr \<Rightarrow> ('d, 'a) buf_heap_scheme \<Rightarrow> ('d, 'a) buf_heap_scheme" where
  "set_b_next b v s = s\<lparr>b_next := (b_next s)(b := v)\<rparr>"

definition set_b_prev_free :: "addr \<Rightarrow> addr \<Rightarrow> ('d, 'a) buf_heap_scheme \<Rightarrow> ('d, 'a) buf_heap_scheme" where
  "set_b_prev_free b v s = s\<lparr>b_prev_free := (b_prev_free s)(b := v)\<rparr>"

definition set_b_next_free :: "addr \<Rightarrow> addr \<Rightarrow> ('d, 'a) buf_heap_scheme \<Rightarrow> ('d, 'a) buf_heap_scheme" where
  "set_b_next_free b v s = s\<lparr>b_next_free := (b_next_free s)(b := v)\<rparr>"

definition set_b_count :: "addr \<Rightarrow> u8 \<Rightarrow> ('d, 'a) buf_heap_scheme \<Rightarrow> ('d, 'a) buf_heap_scheme" where
  "set_b_count b v s = s\<lparr>b_count := (b_count s)(b := v)\<rparr>"

definition hashfn :: "u32 \<Rightarrow> u32 \<Rightarrow> nat" where
  "hashfn dev block = unat ((dev XOR block) mod 107)"

definition set_hash :: "nat \<Rightarrow> addr \<Rightarrow> ('d, 'a) buf_heap_scheme \<Rightarrow> ('d, 'a) buf_heap_scheme" where
  "set_hash i v s = s\<lparr>hash_buffer := (hash_buffer s)(i := v)\<rparr>"

subsection \<open>Queues\<close>

definition remove_from_queues :: "addr \<Rightarrow> ('d, 'a) buf_heap_scheme \<Rightarrow> ('d, 'a) buf_heap_scheme option" where
  "remove_from_queues bh s =
     (let s = (if b_next s bh \<noteq> NULL then set_b_prev (b_next s bh) (b_prev s bh) s else s);
          s = (if b_prev s bh \<noteq> NULL then set_b_next (b_prev s bh) (b_next s bh) s else s);
          h = hashfn (ucast (b_dev s bh)) (b_blocknr s bh);
          s = (if hash_buffer s h = bh then set_hash h (b_next s bh) s else s)
      in if b_prev_free s bh = NULL \<or> b_next_free s bh = NULL then None
         else
           (let s = set_b_next_free (b_prev_free s bh) (b_next_free s bh) s;
                s = set_b_prev_free (b_next_free s bh) (b_prev_free s bh) s
            in Some (if buffer_free_list s = bh then s\<lparr>buffer_free_list := b_next_free s bh\<rparr> else s)))"

definition insert_into_queues :: "addr \<Rightarrow> ('d, 'a) buf_heap_scheme \<Rightarrow> ('d, 'a) buf_heap_scheme" where
  "insert_into_queues bh s =
     (let s = set_b_next_free bh (buffer_free_list s) s;
          s = set_b_prev_free bh (b_next_free s (buffer_free_list s)) s;
          s = set_b_next_free (b_prev_free s (buffer_free_list s)) bh s;
          s = set_b_prev bh NULL s;
          s = set_b_next bh NULL s
      in if b_dev s bh = 0 then s
         else
           (let h = hashfn (ucast (b_dev s bh)) (b_blocknr s bh);
                s = set_b_next bh (hash_buffer s h) s;
                s = set_hash h bh s
            in set_b_prev (b_next s bh) bh s))"

definition wait_on_buffer :: "addr \<Rightarrow> ('d, 'a) buf_heap_scheme \<Rightarrow> ('d, 'a) buf_heap_scheme option" where
  "wait_on_buffer bh s = (if b_lock s bh \<noteq> 0 then None else Some s)"

definition lock_buffer :: "addr \<Rightarrow> ('d, 'a) buf_heap_scheme \<Rightarrow> ('d, 'a) buf_heap_scheme option" where
  "lock_buffer bh s = (if b_lock s bh \<noteq> 0 then None else Some (s\<lparr>b_lock := (b_lock s)(bh := 1)\<rparr>))"

text \<open>Nothing waits on a buffer, so the wake-up in \<^verbatim>\<open>unlock_buffer\<close> changes no task.\<close>

definition unlock_buffer :: "addr \<Rightarrow> ('d, 'a) buf_heap_scheme \<Rightarrow> ('d, 'a) buf_heap_scheme option" where
  "unlock_buffer bh s = (if b_lock s bh = 0 then None else Some (s\<lparr>b_lock := (b_lock s)(bh := 0)\<rparr>))"

subsection \<open>Lookup\<close>

text \<open>\<^verbatim>\<open>b_dev\<close> is an \<^verbatim>\<open>unsigned short\<close> and is compared with an \<^verbatim>\<open>int\<close>, \<^verbatim>\<open>b_blocknr\<close> is unsigned.\<close>

definition buffer_is :: "addr \<Rightarrow> int \<Rightarrow> u32 \<Rightarrow> ('d, 'a) buf_heap_scheme \<Rightarrow> bool" where
  "buffer_is bh dev block s \<longleftrightarrow> uint (b_dev s bh) = dev \<and> b_blocknr s bh = block"

partial_function (option) find_buffer_loop ::
  "addr \<Rightarrow> int \<Rightarrow> u32 \<Rightarrow> ('d, 'a) buf_heap_scheme \<Rightarrow> addr option" where
  "find_buffer_loop bh dev block s =
     (if bh = NULL then Some NULL
      else if buffer_is bh dev block s then Some bh
      else find_buffer_loop (b_next s bh) dev block s)"

definition find_buffer :: "int \<Rightarrow> u32 \<Rightarrow> ('d, 'a) buf_heap_scheme \<Rightarrow> addr option" where
  "find_buffer dev block s = find_buffer_loop (hash_buffer s (hashfn (word_of_int dev) block)) dev block s"

text \<open>Nothing happens while the code waits, so the buffer found still is the one looked for.\<close>

definition get_hash_buffer ::
  "int \<Rightarrow> u32 \<Rightarrow> ('d, 'a) buf_heap_scheme \<Rightarrow> (addr \<times> ('d, 'a) buf_heap_scheme) option" where
  "get_hash_buffer dev block s =
     do {
       bh \<leftarrow> find_buffer dev block s;
       if bh = NULL then Some (NULL, s)
       else do { s \<leftarrow> wait_on_buffer bh (set_b_count bh (b_count s bh + 1) s); Some (bh, s) }
     }"

definition BADNESS :: "addr \<Rightarrow> ('d, 'a) buf_heap_scheme \<Rightarrow> u32" where
  "BADNESS bh s = push_bit 1 (ucast (b_dirt s bh)) + b_blocknr s bh"

partial_function (option) pick_buffer :: "addr \<Rightarrow> addr \<Rightarrow> ('d, 'a) buf_heap_scheme \<Rightarrow> addr option" where
  "pick_buffer item bh s =
     (let better = (b_count s item = 0 \<and> (bh = NULL \<or> BADNESS bh s > BADNESS item s));
          bh = (if better then item else bh)
      in if better \<and> BADNESS item s = 0 then Some bh
         else if b_next_free s item \<noteq> buffer_free_list s then pick_buffer (b_next_free s item) bh s
         else Some bh)"

text \<open>
  A second look finds nothing new: the buffer is taken at once. With no free buffer the code
  sleeps for good.
\<close>

definition getblk :: "int \<Rightarrow> u32 \<Rightarrow> ('d, 'a) buf_heap_scheme \<Rightarrow> (addr \<times> ('d, 'a) buf_heap_scheme) option" where
  "getblk dev block s =
     do {
       (bh, s) \<leftarrow> get_hash_buffer dev block s;
       if bh \<noteq> NULL then Some (bh, s)
       else do {
         bh \<leftarrow> pick_buffer (buffer_free_list s) NULL s;
         if bh = NULL then None
         else do {
           s \<leftarrow> wait_on_buffer bh s;
           let s = set_b_count bh 1 s;
           let s = s\<lparr>b_dirt := (b_dirt s)(bh := 0)\<rparr>;
           let s = s\<lparr>b_uptodate := (b_uptodate s)(bh := 0)\<rparr>;
           s \<leftarrow> remove_from_queues bh s;
           let s = s\<lparr>b_dev := (b_dev s)(bh := word_of_int dev)\<rparr>;
           let s = s\<lparr>b_blocknr := (b_blocknr s)(bh := block)\<rparr>;
           Some (bh, insert_into_queues bh s)
         }
       }
     }"

text \<open>The count of a free buffer is decremented before the panic.\<close>

definition brelse :: "addr \<Rightarrow> ('d, 'a) buf_heap_scheme \<Rightarrow> ('d, 'a) buf_heap_scheme option" where
  "brelse bh s =
     (if bh = NULL then Some s
      else do {
        s \<leftarrow> wait_on_buffer bh s;
        if b_count s bh = 0 then None else Some (set_b_count bh (b_count s bh - 1) s)
      })"

definition bread ::
  "'d drive \<Rightarrow> int \<Rightarrow> u32 \<Rightarrow> ('d, 'a) buf_heap_scheme \<Rightarrow> (addr \<times> ('d, 'a) buf_heap_scheme) option" where
  "bread D dev block_nr s =
     do {
       (bh, s) \<leftarrow> getblk dev block_nr s;
       if bh = NULL then None
       else if b_uptodate s bh \<noteq> 0 then Some (bh, s)
       else do {
         (_, s) \<leftarrow> hd_rw D dev block_nr 1 ATA_READ bh s;
         s \<leftarrow> wait_on_buffer bh s;
         if b_uptodate s bh \<noteq> 0 then Some (bh, s)
         else do { s \<leftarrow> brelse bh s; Some (NULL, s) }
       }
     }"

subsection \<open>Initialisation\<close>

definition init_buffer :: "addr \<Rightarrow> addr \<Rightarrow> ('d, 'a) buf_heap_scheme \<Rightarrow> ('d, 'a) buf_heap_scheme" where
  "init_buffer bh b s =
     (let s = s\<lparr>b_dev := (b_dev s)(bh := 0), b_dirt := (b_dirt s)(bh := 0), b_count := (b_count s)(bh := 0),
                b_lock := (b_lock s)(bh := 0), b_uptodate := (b_uptodate s)(bh := 0), b_wait := (b_wait s)(bh := NULL)\<rparr>;
          s = set_b_next bh NULL (set_b_prev bh NULL s);
          s = s\<lparr>b_data := (b_data s)(bh := b)\<rparr>
      in set_b_next_free bh (bh + 36) (set_b_prev_free bh (bh - 36) s))"

partial_function (option) buffer_init_loop ::
  "addr \<Rightarrow> addr \<Rightarrow> ('d, 'a) buf_heap_scheme \<Rightarrow> (addr \<times> ('d, 'a) buf_heap_scheme) option" where
  "buffer_init_loop bh b s =
     (let b = b - 512 in
      if b \<ge> bh + 36
      then buffer_init_loop (bh + 36) b ((init_buffer bh b s)\<lparr>NR_BUFFERS := NR_BUFFERS s + 1\<rparr>)
      else Some (bh, s))"

definition buffer_init :: "('d, 'a) buf_heap_scheme \<Rightarrow> ('d, 'a) buf_heap_scheme option" where
  "buffer_init s =
     do {
       (start_buffer, s) \<leftarrow> get_free_pages 8 s;
       let end_buffer = start_buffer + kpower 8 * PAGE_SIZE;
       (bh, s) \<leftarrow> buffer_init_loop start_buffer end_buffer s;
       let bh = bh - 36;
       let s = s\<lparr>buffer_free_list := start_buffer\<rparr>;
       let s = set_b_prev_free (buffer_free_list s) bh s;
       let s = set_b_next_free bh (buffer_free_list s) s;
       Some (s\<lparr>hash_buffer := (\<lambda>i. if i < 107 then NULL else hash_buffer s i)\<rparr>)
     }"

end
