(* ===== verification/Fs_inode.thy ===== *)
theory Fs_inode
  imports Buffer Bytes Kbitmap
begin

section \<open>Super blocks, bitmaps, blocks and inodes\<close>

text \<open>
  The model of \<^verbatim>\<open>fs/super.c\<close>, \<^verbatim>\<open>fs/bitmap.c\<close>, \<^verbatim>\<open>fs/block.c\<close> and \<^verbatim>\<open>fs/inode.c\<close>. The sectors of the
  disk are in the data of buffers, as bytes; an inode in memory (96 bytes, its list node at
  offset 80) has its fields as functions of its address. A super block of the table of two
  has 148 bytes, its list of inodes is at offset 116 and its list of files at 140. A panic,
  a null super block that is read, a negative shift and an index outside an array are \<open>None\<close>.
  The copy of the root inode inside a super block is never read and is left out; \<^verbatim>\<open>sync_dev\<close> is empty.
\<close>

subsection \<open>State\<close>

record super_block =
  s_magic :: u16
  s_ninodes :: u16
  s_nzones :: u16
  s_nimap_sects :: u16
  s_nzmap_sects :: u16
  s_firstzone :: u16
  s_dev :: u16
  file_max_size :: u32

record 'd fs_heap = "'d buf_heap" +
  super_blocks :: "super_block list"
  super_base :: addr
  i_mode :: "addr \<Rightarrow> u16"
  i_size :: "addr \<Rightarrow> u16"
  i_start_sect :: "addr \<Rightarrow> u16"
  i_nr_sects :: "addr \<Rightarrow> u16"
  i_flags :: "addr \<Rightarrow> u32"
  i_data :: "addr \<Rightarrow> nat \<Rightarrow> u32"
  i_dev :: "addr \<Rightarrow> u16"
  i_count :: "addr \<Rightarrow> u16"
  i_num :: "addr \<Rightarrow> u16"
  i_lock :: "addr \<Rightarrow> u16"
  i_dirty :: "addr \<Rightarrow> u16"
  i_mmap :: "addr \<Rightarrow> addr"
  i_ops :: "addr \<Rightarrow> addr"
  i_mapping :: "addr \<Rightarrow> addr"
  pfs_addr :: addr
  root_inode :: addr
  nr_inodes_count :: u16

abbreviation (input) NR_DEFAULT_SECTS :: nat where "NR_DEFAULT_SECTS \<equiv> 11"
abbreviation (input) BITS_ZONE :: int where "BITS_ZONE \<equiv> 4096"
abbreviation (input) I_ALL :: u16 where "I_ALL \<equiv> 0x1D00"

definition S_ISBLK :: "u16 \<Rightarrow> bool" where
  "S_ISBLK m \<longleftrightarrow> m AND I_ALL = 0x0600"

definition S_ISCHR :: "u16 \<Rightarrow> bool" where
  "S_ISCHR m \<longleftrightarrow> m AND I_ALL = 0x0200"

definition S_ISDIR :: "u16 \<Rightarrow> bool" where
  "S_ISDIR m \<longleftrightarrow> m AND I_ALL = 0x0400"

definition S_ISREG :: "u16 \<Rightarrow> bool" where
  "S_ISREG m \<longleftrightarrow> m AND I_ALL = 0x1000"

definition s_inodes :: "nat \<Rightarrow> ('d, 'a) fs_heap_scheme \<Rightarrow> addr" where
  "s_inodes i s = super_base s + 148 * of_nat i + 116"

definition s_files :: "nat \<Rightarrow> ('d, 'a) fs_heap_scheme \<Rightarrow> addr" where
  "s_files i s = super_base s + 148 * of_nat i + 140"

definition i_list :: "addr \<Rightarrow> addr" where
  "i_list inode = inode + 80"

definition set_i_count :: "addr \<Rightarrow> u16 \<Rightarrow> ('d, 'a) fs_heap_scheme \<Rightarrow> ('d, 'a) fs_heap_scheme" where
  "set_i_count i v s = s\<lparr>i_count := (i_count s)(i := v)\<rparr>"

definition set_i_dirty :: "addr \<Rightarrow> u16 \<Rightarrow> ('d, 'a) fs_heap_scheme \<Rightarrow> ('d, 'a) fs_heap_scheme" where
  "set_i_dirty i v s = s\<lparr>i_dirty := (i_dirty s)(i := v)\<rparr>"

definition set_i_size :: "addr \<Rightarrow> u16 \<Rightarrow> ('d, 'a) fs_heap_scheme \<Rightarrow> ('d, 'a) fs_heap_scheme" where
  "set_i_size i v s = s\<lparr>i_size := (i_size s)(i := v)\<rparr>"

definition set_mem :: "bytes \<Rightarrow> ('d, 'a) fs_heap_scheme \<Rightarrow> ('d, 'a) fs_heap_scheme" where
  "set_mem m s = s\<lparr>mem := m\<rparr>"

subsection \<open>Super blocks\<close>

definition free_super :: "super_block list \<Rightarrow> nat" where
  "free_super sbs = length (takeWhile (\<lambda>sb. s_dev sb \<noteq> 0) sbs)"

definition parse_super :: "bytes \<Rightarrow> addr \<Rightarrow> super_block" where
  "parse_super m a =
     \<lparr>s_magic = load16 m a, s_ninodes = load16 m (a + 2), s_nzones = load16 m (a + 4), s_nimap_sects = load16 m (a + 6),
      s_nzmap_sects = load16 m (a + 8), s_firstzone = load16 m (a + 10), s_dev = load16 m (a + 12),
      file_max_size = load32 m (a + 16)\<rparr>"

definition read_super_block :: "'d drive \<Rightarrow> int \<Rightarrow> ('d, 'a) fs_heap_scheme \<Rightarrow> ('d, 'a) fs_heap_scheme option" where
  "read_super_block D dev s =
     do {
       let i = free_super (super_blocks s);
       (bh, s) \<leftarrow> getblk ROOT_DEV 1 s;
       (_, s) \<leftarrow> hd_rw D ROOT_DEV 1 1 ATA_READ bh s;
       if i \<ge> length (super_blocks s) then None
       else do {
         let s = s\<lparr>super_blocks := (super_blocks s)[i := parse_super (mem s) (b_data s bh)]\<rparr>;
         let base = super_base s + 148 * of_nat i;
         let s = INIT_LIST_HEAD (base + 140) (INIT_LIST_HEAD (base + 132) (INIT_LIST_HEAD (base + 124) (INIT_LIST_HEAD (base + 116) s)));
         brelse bh s
       }
     }"

text \<open>The index of the super block of a device; the fields are \<^verbatim>\<open>unsigned short\<close>.\<close>

definition get_super_block :: "int \<Rightarrow> ('d, 'a) fs_heap_scheme \<Rightarrow> nat option" where
  "get_super_block dev s = find (\<lambda>i. uint (s_dev (super_blocks s ! i)) = dev) [0..<length (super_blocks s)]"

definition sb_of :: "int \<Rightarrow> ('d, 'a) fs_heap_scheme \<Rightarrow> super_block option" where
  "sb_of dev s = map_option (\<lambda>i. super_blocks s ! i) (get_super_block dev s)"

subsection \<open>Bitmaps\<close>

text \<open>The value of \<^verbatim>\<open>clear_bit\<close> is thrown away by its callers, so no bit is cleared.\<close>

definition clear_bit :: "nat \<Rightarrow> u8 \<Rightarrow> u32" where
  "clear_bit nr ch = unset_bit nr (ucast ch)"

definition clear_map_bit ::
  "'d drive \<Rightarrow> int \<Rightarrow> int \<Rightarrow> int \<Rightarrow> ('d, 'a) fs_heap_scheme \<Rightarrow> (int \<times> ('d, 'a) fs_heap_scheme) option" where
  "clear_map_bit D dev blk_nr nr s =
     do {
       (bh, s) \<leftarrow> getblk dev (word_of_int blk_nr) s;
       (_, s) \<leftarrow> hd_rw D ROOT_DEV (word_of_int blk_nr) 1 ATA_READ bh s;
       let _ = clear_bit (nat (nr smod 8)) (mem s (b_data s bh + word_of_int (nr sdiv 8)));
       (_, s) \<leftarrow> hd_rw D ROOT_DEV (word_of_int blk_nr) 1 ATA_WRITE bh s;
       s \<leftarrow> brelse bh s;
       Some (0, s)
     }"

text \<open>\<^verbatim>\<open>nr /INODE_SECTS\<close> expands to \<^verbatim>\<open>nr / 4096 / 8\<close>.\<close>

definition clear_imap_bit ::
  "'d drive \<Rightarrow> int \<Rightarrow> int \<Rightarrow> ('d, 'a) fs_heap_scheme \<Rightarrow> (int \<times> ('d, 'a) fs_heap_scheme) option" where
  "clear_imap_bit D dev nr s =
     do {
       sb \<leftarrow> sb_of dev s;
       let blk_nr = 2 + nr sdiv 4096 sdiv 8;
       if blk_nr > 2 + uint (s_nimap_sects sb) then Some (-1, s) else clear_map_bit D dev blk_nr nr s
     }"

definition clear_zmap_bit ::
  "'d drive \<Rightarrow> int \<Rightarrow> int \<Rightarrow> ('d, 'a) fs_heap_scheme \<Rightarrow> (int \<times> ('d, 'a) fs_heap_scheme) option" where
  "clear_zmap_bit D dev nr s =
     do {
       sb \<leftarrow> sb_of dev s;
       let blk_nr = 3 + nr sdiv 4096 sdiv 8;
       if blk_nr > 3 + uint (s_nzmap_sects sb) then Some (-1, s) else clear_map_bit D dev blk_nr nr s
     }"

definition set_imap_bit ::
  "'d drive \<Rightarrow> int \<Rightarrow> int \<Rightarrow> ('d, 'a) fs_heap_scheme \<Rightarrow> (u16 \<times> ('d, 'a) fs_heap_scheme) option" where
  "set_imap_bit D dev nr s =
     do {
       let blk_nr = 3 + nr sdiv 4096;
       (bh, s) \<leftarrow> getblk dev (word_of_int blk_nr) s;
       (_, s) \<leftarrow> hd_rw D ROOT_DEV (word_of_int blk_nr) 1 ATA_READ bh s;
       let a = b_data s bh + word_of_int (nr sdiv 8);
       if mem s a = 0xff then do { s \<leftarrow> brelse bh s; Some (0, s) }
       else if nr smod 8 < 0 then None
       else do {
         let s = set_mem ((mem s)(a := mem s a OR ucast (push_bit (nat (nr smod 8)) (1 :: u32)))) s;
         (_, s) \<leftarrow> hd_rw D ROOT_DEV (word_of_int blk_nr) 1 ATA_WRITE bh s;
         s \<leftarrow> brelse bh s;
         Some (0, s)
       }
     }"

text \<open>The first byte of a sector that is not full: its index.\<close>

definition first_free_byte :: "addr \<Rightarrow> bytes \<Rightarrow> nat option" where
  "first_free_byte p m = find (\<lambda>j. m (p + of_nat j) \<noteq> 0xff) [0..<SECTOR_SIZE]"

text \<open>
  One sector of the inode map: \<open>Inl\<close> is a return from the function. The code leaves the loop over
  the bytes at the first byte with a free bit: with a return when that bit is inode 0, and
  with a \<^verbatim>\<open>break\<close> otherwise, which goes on with the next sector.
\<close>

definition get_imap_sector ::
  "'d drive \<Rightarrow> int \<Rightarrow> nat \<Rightarrow> int \<Rightarrow> ('d, 'a) fs_heap_scheme \<Rightarrow> ((int + int) \<times> ('d, 'a) fs_heap_scheme) option" where
  "get_imap_sector D dev i inode_nr s =
     do {
       let blk = 2 + of_nat i;
       (bh, s) \<leftarrow> getblk dev blk s;
       (_, s) \<leftarrow> hd_rw D ROOT_DEV blk 1 ATA_READ bh s;
       case first_free_byte (b_data s bh) (mem s) of
         None \<Rightarrow> Some (Inr inode_nr, s)
       | Some j \<Rightarrow> do {
           let a = b_data s bh + of_nat j;
           let ret = find_first_bit (NOT (mem s a));
           if ret > 7 \<or> (i = 0 \<and> j = 0 \<and> ret = 0) then
             Some (Inl (if inode_nr < 1 then 0 else inode_nr), s)
           else do {
             let s = set_mem ((mem s)(a := mem s a OR ucast (push_bit ret (1 :: u32)))) s;
             (_, s) \<leftarrow> hd_rw D ROOT_DEV blk 1 ATA_WRITE bh s;
             s \<leftarrow> brelse bh s;
             Some (Inr ((int i * int SECTOR_SIZE + int j) * 8 + int ret), s)
           }
         }
     }"

fun get_imap_loop ::
  "nat list \<Rightarrow> 'd drive \<Rightarrow> int \<Rightarrow> int \<Rightarrow> ('d, 'a) fs_heap_scheme \<Rightarrow> (int \<times> ('d, 'a) fs_heap_scheme) option" where
  "get_imap_loop [] D dev inode_nr s = Some (inode_nr, s)"
| "get_imap_loop (i # is) D dev inode_nr s =
     do {
       (r, s) \<leftarrow> get_imap_sector D dev i inode_nr s;
       case r of Inl n \<Rightarrow> Some (n, s) | Inr n \<Rightarrow> get_imap_loop is D dev n s
     }"

definition get_imap_bit ::
  "'d drive \<Rightarrow> int \<Rightarrow> ('d, 'a) fs_heap_scheme \<Rightarrow> (u16 \<times> ('d, 'a) fs_heap_scheme) option" where
  "get_imap_bit D dev s =
     do {
       sb \<leftarrow> sb_of dev s;
       (n, s) \<leftarrow> get_imap_loop [0..<unat (s_nimap_sects sb)] D dev (-1) s;
       Some (word_of_int n, s)
     }"

definition get_zmap_sector ::
  "'d drive \<Rightarrow> int \<Rightarrow> u32 \<Rightarrow> nat \<Rightarrow> int \<Rightarrow> ('d, 'a) fs_heap_scheme \<Rightarrow> ((int + int) \<times> ('d, 'a) fs_heap_scheme) option" where
  "get_zmap_sector D dev blk_nr i block_nr s =
     do {
       let blk = blk_nr + of_nat i;
       (bh, s) \<leftarrow> getblk dev blk s;
       (_, s) \<leftarrow> hd_rw D dev blk 1 ATA_READ bh s;
       case first_free_byte (b_data s bh) (mem s) of
         None \<Rightarrow> Some (Inr block_nr, s)
       | Some j \<Rightarrow> do {
           let a = b_data s bh + of_nat j;
           let ret = find_first_bit (NOT (mem s a));
           let block_nr = (int SECTOR_SIZE * int i + int j) * 8 + int ret;
           if block_nr \<ge> BITS_ZONE then Some (Inl 0, s)
           else do {
             let s = set_mem ((mem s)(a := mem s a OR ucast (push_bit ret (1 :: u32)))) s;
             (_, s) \<leftarrow> hd_rw D ROOT_DEV blk 1 ATA_WRITE bh s;
             s \<leftarrow> brelse bh s;
             Some (Inr block_nr, s)
           }
         }
     }"

fun get_zmap_loop ::
  "nat list \<Rightarrow> 'd drive \<Rightarrow> int \<Rightarrow> u32 \<Rightarrow> int \<Rightarrow> ('d, 'a) fs_heap_scheme \<Rightarrow> (int \<times> ('d, 'a) fs_heap_scheme) option" where
  "get_zmap_loop [] D dev blk_nr block_nr s = Some (block_nr, s)"
| "get_zmap_loop (i # is) D dev blk_nr block_nr s =
     do {
       (r, s) \<leftarrow> get_zmap_sector D dev blk_nr i block_nr s;
       case r of Inl n \<Rightarrow> Some (n, s) | Inr n \<Rightarrow> get_zmap_loop is D dev blk_nr n s
     }"

definition get_zmap_bit ::
  "'d drive \<Rightarrow> int \<Rightarrow> ('d, 'a) fs_heap_scheme \<Rightarrow> (u16 \<times> ('d, 'a) fs_heap_scheme) option" where
  "get_zmap_bit D dev s =
     do {
       sb \<leftarrow> sb_of dev s;
       (n, s) \<leftarrow> get_zmap_loop [0..<unat (s_nzmap_sects sb)] D dev (2 + ucast (s_nimap_sects sb)) 0 s;
       Some (word_of_int n, s)
     }"

subsection \<open>Blocks\<close>

definition sync_block ::
  "'d drive \<Rightarrow> int \<Rightarrow> u32 \<Rightarrow> addr \<Rightarrow> ('d, 'a) fs_heap_scheme \<Rightarrow> (int \<times> ('d, 'a) fs_heap_scheme) option" where
  "sync_block D dev nr bh s =
     (if bh \<noteq> NULL then do {
        (_, s) \<leftarrow> hd_rw D dev nr 1 ATA_WRITE bh (s\<lparr>b_dirt := (b_dirt s)(bh := 0)\<rparr>);
        Some (0, s)
      } else Some (-1, s))"

definition new_block :: "'d drive \<Rightarrow> int \<Rightarrow> ('d, 'a) fs_heap_scheme \<Rightarrow> (int \<times> ('d, 'a) fs_heap_scheme) option" where
  "new_block D dev s =
     do {
       sb \<leftarrow> sb_of dev s;
       (z, s) \<leftarrow> get_zmap_bit D dev s;
       let block_nr = uint (s_firstzone sb) + uint z;
       if block_nr \<le> 0 then Some (-1, s) else Some (block_nr, s)
     }"

text \<open>A block is freed only on device 0; the test of \<^verbatim>\<open>bh\<close> is inverted as well.\<close>

definition free_block :: "'d drive \<Rightarrow> int \<Rightarrow> int \<Rightarrow> ('d, 'a) fs_heap_scheme \<Rightarrow> (int \<times> ('d, 'a) fs_heap_scheme) option" where
  "free_block D dev nr s =
     (if nr \<le> 0 then Some (-1, s)
      else do {
        sb \<leftarrow> sb_of dev s;
        if nr < 1 \<or> nr > uint (s_nzones sb) then None
        else do {
          (bh, s) \<leftarrow> getblk dev (word_of_int nr) s;
          if dev = 0 then do {
            (_, s) \<leftarrow> clear_zmap_bit D dev nr s;
            if bh = NULL \<and> b_dirt s bh \<noteq> 0
            then do { (_, s) \<leftarrow> sync_block D dev (word_of_int nr) bh s; Some (0, s) }
            else Some (0, s)
          } else Some (-1, s)
        }
      })"

text \<open>A \<^verbatim>\<open>struct d_inode *\<close> points to the first 64 bytes of an inode in memory or into a buffer.\<close>

datatype d_inode = In_inode addr | In_buffer addr

fun get_data :: "d_inode \<Rightarrow> nat \<Rightarrow> ('d, 'a) fs_heap_scheme \<Rightarrow> u32" where
  "get_data (In_inode a) i s = i_data s a i"
| "get_data (In_buffer a) i s = load32 (mem s) (a + 12 + 4 * of_nat i)"

fun set_data :: "d_inode \<Rightarrow> nat \<Rightarrow> u32 \<Rightarrow> ('d, 'a) fs_heap_scheme \<Rightarrow> ('d, 'a) fs_heap_scheme" where
  "set_data (In_inode a) i v s = s\<lparr>i_data := (i_data s)(a := (i_data s a)(i := v))\<rparr>"
| "set_data (In_buffer a) i v s = set_mem (store32 (a + 12 + 4 * of_nat i) v (mem s)) s"

definition set_frist_block_nr ::
  "'d drive \<Rightarrow> int \<Rightarrow> d_inode \<Rightarrow> ('d, 'a) fs_heap_scheme \<Rightarrow> (int \<times> ('d, 'a) fs_heap_scheme) option" where
  "set_frist_block_nr D dev inode s =
     (case find (\<lambda>i. get_data inode i s = 0) [0..<NR_DEFAULT_SECTS] of
        None \<Rightarrow> Some (-1, s)
      | Some i \<Rightarrow> do {
          (nr, s) \<leftarrow> new_block D dev s;
          if nr < 0 then Some (-1, s) else Some (0, set_data inode i (word_of_int nr) s)
        })"

text \<open>The first zero word of a block of 128 numbers.\<close>

definition first_zero_word :: "addr \<Rightarrow> bytes \<Rightarrow> nat option" where
  "first_zero_word p m = find (\<lambda>i. load32 m (p + 4 * of_nat i) = 0) [0..<128]"

definition set_second_block_nr ::
  "'d drive \<Rightarrow> int \<Rightarrow> d_inode \<Rightarrow> ('d, 'a) fs_heap_scheme \<Rightarrow> (int \<times> ('d, 'a) fs_heap_scheme) option" where
  "set_second_block_nr D dev inode s =
     do {
       let blk_nr = get_data inode 11 s;
       (bh, s) \<leftarrow> getblk dev blk_nr s;
       if bh = NULL then Some (-2, s)
       else do {
         (r, s) \<leftarrow> hd_rw D dev blk_nr 1 ATA_READ bh s;
         if r < 0 then Some (-3, s)
         else case first_zero_word (b_data s bh) (mem s) of
           None \<Rightarrow> Some (-1, s)
         | Some i \<Rightarrow> do {
             (nr, s) \<leftarrow> new_block D dev s;
             if nr < 0 then Some (-4, s)
             else do {
               let s = set_mem (store32 (b_data s bh + 4 * of_nat i) (word_of_int nr) (mem s)) s;
               (r, s) \<leftarrow> hd_rw D dev blk_nr 1 ATA_WRITE bh s;
               if r > 0 then Some (-5, s) else do { s \<leftarrow> brelse bh s; Some (0, s) }
             }
           }
       }
     }"

text \<open>The loop over the block of block numbers: zero entries are skipped.\<close>

fun third_block_loop ::
  "nat list \<Rightarrow> 'd drive \<Rightarrow> int \<Rightarrow> addr \<Rightarrow> ('d, 'a) fs_heap_scheme \<Rightarrow> (int \<times> ('d, 'a) fs_heap_scheme) option" where
  "third_block_loop [] D dev bh s = Some (-1, s)"
| "third_block_loop (i # is) D dev bh s =
     (let blk_nr = load32 (mem s) (b_data s bh + 4 * of_nat i) in
      if blk_nr = 0 then third_block_loop is D dev bh s
      else do {
        (sbh, s) \<leftarrow> getblk dev blk_nr s;
        (r, s) \<leftarrow> hd_rw D ROOT_DEV blk_nr 1 ATA_READ sbh s;
        if r < 0 then Some (-3, s)
        else case first_zero_word (b_data s sbh) (mem s) of
          None \<Rightarrow> third_block_loop is D dev bh s
        | Some k \<Rightarrow> do {
            (nr, s) \<leftarrow> new_block D dev s;
            if nr < 0 then Some (-4, s)
            else do {
              let s = set_mem (store32 (b_data s sbh + 4 * of_nat k) (word_of_int nr) (mem s)) s;
              (r, s) \<leftarrow> hd_rw D ROOT_DEV blk_nr 1 ATA_WRITE sbh s;
              if r > 0 then Some (-5, s)
              else do { s \<leftarrow> brelse sbh s; s \<leftarrow> brelse bh s; Some (0, s) }
            }
          }
      })"

definition set_third_block_nr ::
  "'d drive \<Rightarrow> int \<Rightarrow> d_inode \<Rightarrow> ('d, 'a) fs_heap_scheme \<Rightarrow> (int \<times> ('d, 'a) fs_heap_scheme) option" where
  "set_third_block_nr D dev inode s =
     do {
       let blk_nr = get_data inode 12 s;
       (bh, s) \<leftarrow> getblk dev blk_nr s;
       if bh = NULL then Some (-2, s)
       else do {
         (r, s) \<leftarrow> hd_rw D ROOT_DEV blk_nr 1 ATA_READ bh s;
         if r < 0 then Some (-3, s) else third_block_loop [0..<128] D dev bh s
       }
     }"

definition set_block_nr ::
  "'d drive \<Rightarrow> int \<Rightarrow> d_inode \<Rightarrow> ('d, 'a) fs_heap_scheme \<Rightarrow> (int \<times> ('d, 'a) fs_heap_scheme) option" where
  "set_block_nr D dev inode s =
     do {
       (r, s) \<leftarrow> set_frist_block_nr D dev inode s;
       if r = 0 then Some (0, s)
       else do {
         (r, s) \<leftarrow> set_second_block_nr D dev inode s;
         if r = 0 then Some (0, s)
         else do {
           (r, s) \<leftarrow> set_third_block_nr D dev inode s;
           if r = 0 then Some (0, s) else Some (-2, s)
         }
       }
     }"

fun set_block_nums ::
  "'d drive \<Rightarrow> int \<Rightarrow> d_inode \<Rightarrow> nat \<Rightarrow> ('d, 'a) fs_heap_scheme \<Rightarrow> (int \<times> ('d, 'a) fs_heap_scheme) option" where
  "set_block_nums D dev inode 0 s = Some (0, s)"
| "set_block_nums D dev inode (Suc num) s =
     do {
       (r, s) \<leftarrow> set_block_nr D dev inode s;
       if r < 0 then Some (-2, s) else set_block_nums D dev inode num s
     }"

definition get_first_block :: "addr \<Rightarrow> ('d, 'a) fs_heap_scheme \<Rightarrow> u32" where
  "get_first_block inode s = i_data s inode 0"

text \<open>The condition \<^verbatim>\<open>index >= 0 || index < 11\<close> always holds: an index from 13 on is out of bounds.\<close>

definition get_pos_block :: "addr \<Rightarrow> int \<Rightarrow> ('d, 'a) fs_heap_scheme \<Rightarrow> u32 option" where
  "get_pos_block inode pos s =
     (let index = pos sdiv int SECTOR_SIZE in
      if index \<ge> 0 \<or> index < int NR_DEFAULT_SECTS then
        (if 0 \<le> index \<and> index < 13 then Some (i_data s inode (nat index)) else None)
      else Some (-1))"

subsection \<open>Inodes\<close>

definition inode_block :: "super_block \<Rightarrow> u16 \<Rightarrow> int" where
  "inode_block sb num = 2 + uint (s_nimap_sects sb) + uint (s_nzmap_sects sb) + (uint num - 1) sdiv 8"

definition inode_offset :: "u16 \<Rightarrow> addr" where
  "inode_offset num = word_of_int ((uint num - 1) smod 8 * 64)"

fun store_data :: "nat list \<Rightarrow> addr \<Rightarrow> (nat \<Rightarrow> u32) \<Rightarrow> bytes \<Rightarrow> bytes" where
  "store_data [] p d m = m"
| "store_data (i # is) p d m = store_data is p d (store32 (p + 12 + 4 * of_nat i) (d i) m)"

definition store_d_inode :: "addr \<Rightarrow> addr \<Rightarrow> ('d, 'a) fs_heap_scheme \<Rightarrow> bytes \<Rightarrow> bytes" where
  "store_d_inode p inode s m =
     store_data [0..<13] p (i_data s inode)
       (store32 (p + 8) (i_flags s inode) (store16 (p + 6) (i_nr_sects s inode) (store16 (p + 4) (i_start_sect s inode)
         (store16 (p + 2) (i_size s inode) (store16 p (i_mode s inode) m)))))"

definition load_d_inode :: "addr \<Rightarrow> addr \<Rightarrow> ('d, 'a) fs_heap_scheme \<Rightarrow> ('d, 'a) fs_heap_scheme" where
  "load_d_inode p inode s =
     s\<lparr>i_mode := (i_mode s)(inode := load16 (mem s) p), i_size := (i_size s)(inode := load16 (mem s) (p + 2)),
       i_start_sect := (i_start_sect s)(inode := load16 (mem s) (p + 4)),
       i_nr_sects := (i_nr_sects s)(inode := load16 (mem s) (p + 6)),
       i_flags := (i_flags s)(inode := load32 (mem s) (p + 8)),
       i_data := (i_data s)(inode := (\<lambda>i. if i < 13 then load32 (mem s) (p + 12 + 4 * of_nat i) else i_data s inode i))\<rparr>"

definition write_inode :: "'d drive \<Rightarrow> addr \<Rightarrow> ('d, 'a) fs_heap_scheme \<Rightarrow> (int \<times> ('d, 'a) fs_heap_scheme) option" where
  "write_inode D inode s =
     (if inode = NULL \<or> i_dirty s inode = 0 \<or> i_dev s inode = 0 then Some (-1, s)
      else do {
        let dev = uint (i_dev s inode);
        let num = i_num s inode;
        sb \<leftarrow> sb_of dev s;
        let blk = word_of_int (inode_block sb num);
        (bh, s) \<leftarrow> getblk dev blk s;
        if bh = NULL then Some (-2, s)
        else do {
          (r, s) \<leftarrow> hd_rw D dev blk 1 ATA_READ bh s;
          if r < 0 then Some (-3, s)
          else do {
            let s = set_mem (store_d_inode (b_data s bh + inode_offset num) inode s (mem s)) s;
            (r, s) \<leftarrow> hd_rw D dev blk 1 ATA_WRITE bh s;
            if r > 0 then Some (-4, s)
            else do { s \<leftarrow> brelse bh s; Some (0, set_i_dirty inode 0 s) }
          }
        }
      })"

definition read_inode :: "'d drive \<Rightarrow> addr \<Rightarrow> ('d, 'a) fs_heap_scheme \<Rightarrow> (int \<times> ('d, 'a) fs_heap_scheme) option" where
  "read_inode D inode s =
     (if inode = NULL then Some (-1, s)
      else
        (let dev = uint (i_dev s inode); num = i_num s inode in
         case sb_of dev s of
           None \<Rightarrow> Some (-2, s)
         | Some sb \<Rightarrow> do {
             let blk = word_of_int (inode_block sb num);
             (bh, s) \<leftarrow> getblk dev blk s;
             if bh = NULL then Some (-3, s)
             else do {
               (r, s) \<leftarrow> hd_rw D ROOT_DEV blk 1 ATA_READ bh s;
               if r < 0 then Some (-4, s)
               else do {
                 let s = load_d_inode (b_data s bh + inode_offset num) inode s;
                 s \<leftarrow> brelse bh s;
                 Some (0, s\<lparr>i_num := (i_num s)(inode := num)\<rparr>)
               }
             }
           }))"

text \<open>\<^verbatim>\<open>memset((char *)inode,0,sizeof(struct m_inode))\<close>\<close>

definition zero_inode :: "addr \<Rightarrow> ('d, 'a) fs_heap_scheme \<Rightarrow> ('d, 'a) fs_heap_scheme" where
  "zero_inode inode s =
     set_next (i_list inode) NULL (set_prev (i_list inode) NULL
       (s\<lparr>i_mode := (i_mode s)(inode := 0), i_size := (i_size s)(inode := 0), i_start_sect := (i_start_sect s)(inode := 0),
          i_nr_sects := (i_nr_sects s)(inode := 0), i_flags := (i_flags s)(inode := 0),
          i_data := (i_data s)(inode := (\<lambda>_. 0)), i_dev := (i_dev s)(inode := 0), i_count := (i_count s)(inode := 0),
          i_num := (i_num s)(inode := 0), i_lock := (i_lock s)(inode := 0), i_dirty := (i_dirty s)(inode := 0),
          i_mmap := (i_mmap s)(inode := NULL), i_ops := (i_ops s)(inode := NULL),
          i_mapping := (i_mapping s)(inode := NULL)\<rparr>))"

definition get_empty_inode :: "int \<Rightarrow> ('d, 'a) fs_heap_scheme \<Rightarrow> (addr \<times> ('d, 'a) fs_heap_scheme) option" where
  "get_empty_inode dev s =
     do {
       i \<leftarrow> get_super_block dev s;
       let full = (nr_inodes_count s \<ge> s_ninodes (super_blocks s ! i));
       let s = s\<lparr>nr_inodes_count := nr_inodes_count s + 1\<rparr>;
       if full then Some (NULL, s)
       else do {
         (inode, s) \<leftarrow> kmem_get_obj (inode_cachep s) s;
         if inode = NULL then Some (NULL, s)
         else do {
           let s = set_i_count inode 1 (zero_inode inode s);
           let s = s\<lparr>i_dev := (i_dev s)(inode := word_of_int dev)\<rparr>;
           Some (inode, list_add (i_list inode) (s_inodes i s) s)
         }
       }
     }"

definition bmap :: "addr \<Rightarrow> int \<Rightarrow> int option" where
  "bmap inode block = (if block < 0 then None else Some 0)"

definition create_block :: "addr \<Rightarrow> int \<Rightarrow> int option" where
  "create_block inode block = (if block < 0 then None else Some 0)"

partial_function (option) iget_loop ::
  "addr \<Rightarrow> addr \<Rightarrow> addr \<Rightarrow> int \<Rightarrow> int \<Rightarrow> ('d, 'a) fs_heap_scheme \<Rightarrow> addr option option" where
  "iget_loop head pos n dev num s =
     (if pos = head then Some None
      else if uint (i_dev s (pos - 80)) = dev \<and> uint (i_num s (pos - 80)) = num then Some (Some (pos - 80))
      else iget_loop head n (l_next s n) dev num s)"

definition iget ::
  "'d drive \<Rightarrow> int \<Rightarrow> int \<Rightarrow> ('d, 'a) fs_heap_scheme \<Rightarrow> (addr \<times> ('d, 'a) fs_heap_scheme) option" where
  "iget D dev num s =
     (if dev = 0 then None
      else do {
        i \<leftarrow> get_super_block dev s;
        let head = s_inodes i s;
        found \<leftarrow> (if list_empty_careful head s then Some None
                  else iget_loop head (l_next s head) (l_next s (l_next s head)) dev num s);
        case found of
          Some inode \<Rightarrow> Some (inode, s)
        | None \<Rightarrow> do {
            (inode, s) \<leftarrow> get_empty_inode dev s;
            if inode = NULL then Some (NULL, s)
            else do {
              let s = s\<lparr>i_ops := (i_ops s)(inode := pfs_addr s), i_num := (i_num s)(inode := word_of_int num)\<rparr>;
              (r, s) \<leftarrow> read_inode D inode s;
              Some (if r < 0 then NULL else inode, s)
            }
          }
      })"

definition free_inode :: "'d drive \<Rightarrow> addr \<Rightarrow> ('d, 'a) fs_heap_scheme \<Rightarrow> (int \<times> ('d, 'a) fs_heap_scheme) option" where
  "free_inode D inode s =
     (if inode = NULL then Some (-1, s)
      else if sint (i_count s inode) > 1 then None
      else do {
        sb \<leftarrow> sb_of (uint (i_dev s inode)) s;
        if i_num s inode < 1 \<or> i_num s inode > s_ninodes sb then None
        else if i_dev s inode = 0 then do {
          let s = list_del (i_list inode) s;
          (_, s) \<leftarrow> clear_imap_bit D (uint (i_dev s inode)) (uint (i_num s inode)) s;
          Some (0, zero_inode inode s)
        }
        else Some (-1, s)
      })"

definition iput :: "'d drive \<Rightarrow> addr \<Rightarrow> ('d, 'a) fs_heap_scheme \<Rightarrow> (int \<times> ('d, 'a) fs_heap_scheme) option" where
  "iput D inode s =
     (if inode = NULL then Some (-1, s)
      else if i_count s inode = 0 then Some (-2, s)
      else if inode = root_inode s then Some (-3, s)
      else if i_dev s inode = 0 then Some (-4, s)
      else if S_ISBLK (i_mode s inode) \<or> S_ISCHR (i_mode s inode) then Some (-5, s)
      else do {
        let s = set_i_count inode (i_count s inode - 1) s;
        if sint (i_count s inode) > 0 then Some (0, s)
        else do {
          s \<leftarrow> (if i_dirty s inode \<noteq> 0 then map_option snd (write_inode D inode s) else Some s);
          let s = list_del (i_list inode) s;
          (_, s) \<leftarrow> free_inode D inode s;
          Some (0, s)
        }
      })"

end
