(* ===== verification/Namei.thy ===== *)
theory Namei
  imports Fs_inode
begin

section \<open>Directories and path names\<close>

text \<open>
  The model of \<^verbatim>\<open>fs/namei.c\<close>, with \<^verbatim>\<open>new_file\<close> of \<^verbatim>\<open>fs/open.c\<close>, which it calls. A \<^verbatim>\<open>struct dentry\<close> has
  20 bytes: the inode number at offset 0 and the name at offset 2; \<^verbatim>\<open>DENTRY_SIZE\<close> is 16. Names are
  strings in memory. An output \<^verbatim>\<open>*res_de\<close> that is not written is \<open>None\<close>, and reading it afterwards
  has no result.
\<close>

abbreviation (input) NAME_LEN :: int where "NAME_LEN \<equiv> 12"
abbreviation (input) DENTRY_SIZE :: int where "DENTRY_SIZE \<equiv> 16"
abbreviation (input) DE_MATCH :: int where "DE_MATCH \<equiv> 1"
abbreviation (input) DE_DEL :: int where "DE_DEL \<equiv> 2"
abbreviation (input) O_CREAT :: u32 where "O_CREAT \<equiv> 0x100"

definition de_inode_num :: "addr \<Rightarrow> ('d, 'a) fs_heap_scheme \<Rightarrow> u16" where
  "de_inode_num de s = load16 (mem s) de"

definition compare :: "addr \<Rightarrow> addr \<Rightarrow> int \<Rightarrow> ('d, 'a) fs_heap_scheme \<Rightarrow> int option" where
  "compare de name namelen s =
     (if de = NULL \<or> de_inode_num de s = 0 \<or> namelen > NAME_LEN then Some (-1)
      else do {
        differs \<leftarrow> (if namelen < NAME_LEN then map_option (\<lambda>l. namelen \<noteq> l) (strlen (de + 2) (mem s)) else Some False);
        if differs then Some (-1) else strncmp (de + 2) name namelen (mem s)
      })"

text \<open>The loop over the 32 entries of a sector; the counter \<^verbatim>\<open>m\<close> is compared with the number of entries.\<close>

fun do_entry_loop ::
  "nat list \<Rightarrow> 'd drive \<Rightarrow> addr \<Rightarrow> addr \<Rightarrow> int \<Rightarrow> int \<Rightarrow> u32 \<Rightarrow> addr \<Rightarrow> int \<Rightarrow> int \<Rightarrow> ('d, 'a) fs_heap_scheme
    \<Rightarrow> (int \<times> addr option \<times> ('d, 'a) fs_heap_scheme) option" where
  "do_entry_loop [] D dir name namelen flag blk bh m nr_dentry s = do { s \<leftarrow> brelse bh s; Some (0, None, s) }"
| "do_entry_loop (j # js) D dir name namelen flag blk bh m nr_dentry s =
     (let de = b_data s bh + 20 * of_nat j; m = m + 1 in
      if m > nr_dentry then Some (-1, None, s)
      else if de_inode_num de s = 0 then do_entry_loop js D dir name namelen flag blk bh m nr_dentry s
      else do {
        ret \<leftarrow> compare de name namelen s;
        if ret \<noteq> 0 then do_entry_loop js D dir name namelen flag blk bh m nr_dentry s
        else if flag = DE_MATCH then do { s \<leftarrow> brelse bh s; Some (0, Some de, s) }
        else if flag = DE_DEL then do {
          let s = set_mem (snd (memset de 0 DENTRY_SIZE (mem s))) s;
          (_, s) \<leftarrow> hd_rw D (uint (i_dev s dir)) blk 1 ATA_WRITE bh s;
          s \<leftarrow> brelse bh s;
          Some (0, Some de, s)
        }
        else do_entry_loop js D dir name namelen flag blk bh m nr_dentry s
      })"

text \<open>The body of the loop over the sectors always returns, so only the first sector is read.\<close>

definition do_entry ::
  "'d drive \<Rightarrow> addr \<Rightarrow> addr \<Rightarrow> int \<Rightarrow> int \<Rightarrow> ('d, 'a) fs_heap_scheme
    \<Rightarrow> (int \<times> addr option \<times> ('d, 'a) fs_heap_scheme) option" where
  "do_entry D dir name namelen flag s =
     do {
       let dir_start_sect = get_first_block dir s;
       let nr_dir_sects = (uint (i_size s dir) + int SECTOR_SIZE - 1) sdiv int SECTOR_SIZE;
       let nr_dentry = uint (i_size s dir) sdiv DENTRY_SIZE;
       if nr_dir_sects \<le> 0 then Some (-2, None, s)
       else do {
         (bh, s) \<leftarrow> getblk (uint (i_dev s dir)) dir_start_sect s;
         (_, s) \<leftarrow> hd_rw D (uint (i_dev s dir)) dir_start_sect 1 ATA_READ bh s;
         do_entry_loop [0..<32] D dir name namelen flag dir_start_sect bh 0 nr_dentry s
       }
     }"

definition find_entry ::
  "'d drive \<Rightarrow> addr \<Rightarrow> addr \<Rightarrow> int \<Rightarrow> ('d, 'a) fs_heap_scheme
    \<Rightarrow> (int \<times> addr option \<times> ('d, 'a) fs_heap_scheme) option" where
  "find_entry D dir name namelen s = do_entry D dir name namelen DE_MATCH s"

definition del_entry ::
  "'d drive \<Rightarrow> addr \<Rightarrow> addr \<Rightarrow> int \<Rightarrow> ('d, 'a) fs_heap_scheme
    \<Rightarrow> (int \<times> addr option \<times> ('d, 'a) fs_heap_scheme) option" where
  "del_entry D dir name namelen s = do_entry D dir name namelen DE_DEL s"

text \<open>
  The search for a free entry in the sectors of a directory: \<open>Inl\<close> is the error \<open>-2\<close>, and \<open>Inr\<close> the buffer,
  the entry and the sector that the loop stops at.
\<close>

fun add_entry_loop ::
  "nat list \<Rightarrow> 'd drive \<Rightarrow> addr \<Rightarrow> u32 \<Rightarrow> ('d, 'a) fs_heap_scheme
    \<Rightarrow> ((int + (addr \<times> addr \<times> u32) option) \<times> ('d, 'a) fs_heap_scheme) option" where
  "add_entry_loop [] D dir start s = Some (Inr None, s)"
| "add_entry_loop (i # is) D dir start s =
     do {
       let blk = start + of_nat i;
       (bh, s) \<leftarrow> getblk (uint (i_dev s dir)) blk s;
       (r, s) \<leftarrow> hd_rw D (uint (i_dev s dir)) blk 1 ATA_READ bh s;
       if r < 0 then Some (Inl (-2), s)
       else case find (\<lambda>j. de_inode_num (b_data s bh + 20 * of_nat j) s = 0) [0..<32] of
         Some j \<Rightarrow> Some (Inr (Some (bh, b_data s bh + 20 * of_nat j, blk)), s)
       | None \<Rightarrow> do { s \<leftarrow> brelse bh s; add_entry_loop is D dir start s }
     }"

definition write_entry ::
  "'d drive \<Rightarrow> addr \<Rightarrow> int \<Rightarrow> addr \<Rightarrow> addr \<Rightarrow> addr \<Rightarrow> u32 \<Rightarrow> ('d, 'a) fs_heap_scheme
    \<Rightarrow> (int \<times> ('d, 'a) fs_heap_scheme) option" where
  "write_entry D dir inode_num name bh new_de blk s =
     do {
       let s = set_mem (store16 new_de (word_of_int inode_num) (mem s)) s;
       let s = set_i_size dir (i_size s dir + 16) s;
       let s = set_i_dirty dir 1 s;
       len \<leftarrow> strlen name (mem s);
       let s = set_mem (snd (strncpy (new_de + 2) name len (mem s))) s;
       (r, s) \<leftarrow> hd_rw D (uint (i_dev s dir)) blk 1 ATA_WRITE bh s;
       if r < 0 then Some (-3, s) else do { s \<leftarrow> brelse bh s; Some (0, s) }
     }"

definition add_entry ::
  "'d drive \<Rightarrow> addr \<Rightarrow> int \<Rightarrow> addr \<Rightarrow> ('d, 'a) fs_heap_scheme \<Rightarrow> (int \<times> ('d, 'a) fs_heap_scheme) option" where
  "add_entry D dir inode_num name s =
     (if dir = NULL \<or> name = NULL then Some (-1, s)
      else do {
        s \<leftarrow> (if get_first_block dir s = 0
              then map_option snd (set_block_nums D (uint (i_dev s dir)) (In_inode dir) NR_DEFAULT_SECTS s)
              else Some s);
        if get_first_block dir s = 0 then Some (-3, s)
        else do {
          (r, s) \<leftarrow> add_entry_loop [0..<NR_DEFAULT_SECTS] D dir (get_first_block dir s) s;
          case r of
            Inl e \<Rightarrow> Some (e, s)
          | Inr None \<Rightarrow> None
          | Inr (Some (bh, new_de, blk)) \<Rightarrow> write_entry D dir inode_num name bh new_de blk s
        }
      })"

definition lookup_inode ::
  "'d drive \<Rightarrow> addr \<Rightarrow> addr \<Rightarrow> int \<Rightarrow> ('d, 'a) fs_heap_scheme \<Rightarrow> ((int + addr) \<times> ('d, 'a) fs_heap_scheme) option" where
  "lookup_inode D base name namelen s =
     (if base = NULL \<or> name = NULL \<or> namelen \<le> 0 then Some (Inl (-1), s)
      else do {
        (ret, de, s) \<leftarrow> do_entry D base name namelen DE_MATCH s;
        if ret < 0 then Some (Inl (-2), s)
        else do {
          de \<leftarrow> de;
          (inode, s) \<leftarrow> iget D (uint (i_dev s base)) (uint (de_inode_num de s)) s;
          Some (if inode = NULL then Inl (-3) else Inr inode, s)
        }
      })"

partial_function (option) scan_name :: "bytes \<Rightarrow> addr \<Rightarrow> int \<Rightarrow> (u8 \<times> addr \<times> int) option" where
  "scan_name m p len = (if m p = 0 \<or> m p = 0x2f then Some (m p, p + 1, len) else scan_name m (p + 1) (len + 1))"

text \<open>\<open>Inl\<close> is the error, \<open>Inr\<close> the last component of the path, its length and the inode of its directory.\<close>

partial_function (option) dir_namei_loop ::
  "'d drive \<Rightarrow> addr \<Rightarrow> addr \<Rightarrow> ('d, 'a) fs_heap_scheme
    \<Rightarrow> ((int + addr \<times> int \<times> addr) \<times> ('d, 'a) fs_heap_scheme) option" where
  "dir_namei_loop D baseinode thisname s =
     do {
       (ch, pathname, len) \<leftarrow> scan_name (mem s) thisname 0;
       if ch = 0 then Some (Inr (thisname, sint (pathname - thisname) - 1, baseinode), s)
       else do {
         (r, s) \<leftarrow> lookup_inode D baseinode thisname len s;
         case r of Inl _ \<Rightarrow> Some (Inl (-3), s) | Inr inode \<Rightarrow> dir_namei_loop D inode pathname s
       }
     }"

definition dir_namei ::
  "'d drive \<Rightarrow> addr \<Rightarrow> ('d, 'a) fs_heap_scheme
    \<Rightarrow> ((int + addr \<times> int \<times> addr) \<times> ('d, 'a) fs_heap_scheme) option" where
  "dir_namei D pathname s =
     (if mem s pathname = 0x2f then dir_namei_loop D (root_inode s) (pathname + 1) s
      else dir_namei_loop D NULL pathname s)"

definition new_file ::
  "'d drive \<Rightarrow> addr \<Rightarrow> addr \<Rightarrow> int \<Rightarrow> int \<Rightarrow> int \<Rightarrow> ('d, 'a) fs_heap_scheme \<Rightarrow> (addr \<times> ('d, 'a) fs_heap_scheme) option" where
  "new_file D dir basename namelen mode flags s =
     do {
       (nr, s) \<leftarrow> get_imap_bit D (uint (i_dev s dir)) s;
       if uint nr \<le> 0 then Some (NULL, s)
       else do {
         (inode, s) \<leftarrow> iget D (uint (i_dev s dir)) (uint nr) s;
         if inode = NULL then Some (NULL, s)
         else do {
           (ret, s) \<leftarrow> add_entry D dir (uint (i_num s inode)) basename s;
           if ret < 0 then Some (NULL, s)
           else do {
             let s = s\<lparr>i_mode := (i_mode s)(inode := word_of_int mode), i_flags := (i_flags s)(inode := word_of_int flags)\<rparr>;
             let s = set_i_dirty inode 1 s;
             (ret, s) \<leftarrow> write_inode D dir s;
             Some (if ret < 0 then NULL else inode, s)
           }
         }
       }
     }"

definition open_entry ::
  "'d drive \<Rightarrow> addr \<Rightarrow> addr \<Rightarrow> int \<Rightarrow> int \<Rightarrow> int \<Rightarrow> ('d, 'a) fs_heap_scheme
    \<Rightarrow> ((int + addr) \<times> ('d, 'a) fs_heap_scheme) option" where
  "open_entry D dir name namelen mode flags s =
     do {
       (r, de, s) \<leftarrow> find_entry D dir name namelen s;
       if r \<noteq> 0 then
         (if word_of_int flags AND O_CREAT \<noteq> 0 then do {
            (inode, s) \<leftarrow> new_file D dir name namelen mode flags s;
            Some (if inode \<noteq> NULL then Inr inode else Inl (-3), s)
          }
          else do { (_, s) \<leftarrow> iput D dir s; Some (Inl (-4), s) })
       else do {
         de \<leftarrow> de;
         (inode, s) \<leftarrow> iget D (uint (i_dev s dir)) (uint (de_inode_num de s)) s;
         if inode = NULL then Some (Inl (-5), s)
         else do { (_, s) \<leftarrow> iput D dir s; Some (Inr inode, s) }
       }
     }"

definition open_namei ::
  "'d drive \<Rightarrow> addr \<Rightarrow> int \<Rightarrow> int \<Rightarrow> ('d, 'a) fs_heap_scheme \<Rightarrow> ((int + addr) \<times> ('d, 'a) fs_heap_scheme) option" where
  "open_namei D pathname mode flags s =
     do {
       (r, s) \<leftarrow> dir_namei D pathname s;
       case r of
         Inl _ \<Rightarrow> Some (Inl (-1), s)
       | Inr (name, namelen, dir) \<Rightarrow>
           if namelen = 0 \<or> dir = NULL then
             (if dir \<noteq> NULL then Some (Inr dir, s)
              else do { (_, s) \<leftarrow> iput D dir s; Some (Inl (-2), s) })
           else open_entry D dir name namelen mode flags s
     }"

text \<open>\<^verbatim>\<open>namei\<close> does not look at the result of the search: an entry that is not found is not initialised.\<close>

definition namei :: "'d drive \<Rightarrow> addr \<Rightarrow> ('d, 'a) fs_heap_scheme \<Rightarrow> (addr \<times> ('d, 'a) fs_heap_scheme) option" where
  "namei D pathname s =
     do {
       (r, s) \<leftarrow> dir_namei D pathname s;
       case r of
         Inl _ \<Rightarrow> Some (NULL, s)
       | Inr (basename, namelen, dir) \<Rightarrow>
           if namelen = 0 then Some (dir, s)
           else do {
             (_, de, s) \<leftarrow> find_entry D dir basename namelen s;
             de \<leftarrow> de;
             if de = NULL then Some (NULL, s)
             else iget D (uint (i_dev s dir)) (uint (de_inode_num de s)) s
           }
     }"

end
