(* ===== verification/Fs_file.thy ===== *)
theory Fs_file
  imports Namei
begin

section \<open>Files and the making of a file system\<close>

text \<open>
  The model of \<^verbatim>\<open>fs/open.c\<close>, \<^verbatim>\<open>fs/file.c\<close>, \<^verbatim>\<open>fs/read_write.c\<close>, \<^verbatim>\<open>fs/fcntl.c\<close>, \<^verbatim>\<open>fs/link.c\<close>, \<^verbatim>\<open>fs/stat.c\<close> and
  \<^verbatim>\<open>fs/fs.c\<close>. The 32 file pointers are those of the current task; a \<^verbatim>\<open>struct file\<close> has its list node at
  offset 20. A variable that the code reads before it writes it is an argument of the
  model where the code goes on to use it, and \<open>None\<close> where it is an index.
\<close>

record 'd file_heap = "'d fs_heap" +
  f_mode :: "addr \<Rightarrow> u16"
  f_flag :: "addr \<Rightarrow> u16"
  f_count :: "addr \<Rightarrow> u16"
  f_pos :: "addr \<Rightarrow> int"
  f_inode :: "addr \<Rightarrow> addr"
  f_op :: "addr \<Rightarrow> addr"
  filp :: "addr list"
  nr_file_count :: u16
  general_fop :: addr

abbreviation (input) NR_OPEN :: int where "NR_OPEN \<equiv> 32"
abbreviation (input) EPERM :: int where "EPERM \<equiv> 1"
abbreviation (input) ENOENT :: int where "ENOENT \<equiv> 2"
abbreviation (input) EBADF :: int where "EBADF \<equiv> 9"
abbreviation (input) EINVAL :: int where "EINVAL \<equiv> 22"
abbreviation (input) EMLINK :: int where "EMLINK \<equiv> 31"
abbreviation (input) O_APPEND :: u16 where "O_APPEND \<equiv> 0x400"

definition f_list :: "addr \<Rightarrow> addr" where
  "f_list fp = fp + 20"

definition set_f_count :: "addr \<Rightarrow> u16 \<Rightarrow> ('d, 'a) file_heap_scheme \<Rightarrow> ('d, 'a) file_heap_scheme" where
  "set_f_count fp v s = s\<lparr>f_count := (f_count s)(fp := v)\<rparr>"

definition set_f_pos :: "addr \<Rightarrow> int \<Rightarrow> ('d, 'a) file_heap_scheme \<Rightarrow> ('d, 'a) file_heap_scheme" where
  "set_f_pos fp v s = s\<lparr>f_pos := (f_pos s)(fp := v)\<rparr>"

definition set_filp :: "nat \<Rightarrow> addr \<Rightarrow> ('d, 'a) file_heap_scheme \<Rightarrow> ('d, 'a) file_heap_scheme option" where
  "set_filp fd v s = (if fd < length (filp s) then Some (s\<lparr>filp := (filp s)[fd := v]\<rparr>) else None)"

subsection \<open>Opening and closing\<close>

text \<open>When every descriptor is in use the index is \<^verbatim>\<open>NR_OPEN\<close>, which the test lets through: \<^verbatim>\<open>*fd\<close> is not written.\<close>

definition get_empty_fd :: "('d, 'a) file_heap_scheme \<Rightarrow> (int \<times> nat option) option" where
  "get_empty_fd s =
     (if length (filp s) < 32 then None
      else Some (0, find (\<lambda>i. filp s ! i = NULL) [1..<32]))"

definition get_empty_filp :: "('d, 'a) file_heap_scheme \<Rightarrow> (addr \<times> ('d, 'a) file_heap_scheme) option" where
  "get_empty_filp s =
     (let full = (uint (nr_file_count s) \<ge> NR_OPEN); s = s\<lparr>nr_file_count := nr_file_count s + 1\<rparr> in
      if full then Some (NULL, s) else kmem_get_obj (file_cachep s) s)"

definition set_file :: "addr \<Rightarrow> addr \<Rightarrow> int \<Rightarrow> int \<Rightarrow> ('d, 'a) file_heap_scheme \<Rightarrow> ('d, 'a) file_heap_scheme" where
  "set_file fp inode mode flag s =
     s\<lparr>f_inode := (f_inode s)(fp := inode), f_count := (f_count s)(fp := 1), f_flag := (f_flag s)(fp := word_of_int flag),
       f_mode := (f_mode s)(fp := word_of_int mode), f_pos := (f_pos s)(fp := 0), f_op := (f_op s)(fp := general_fop s)\<rparr>"

definition open_file ::
  "'d drive \<Rightarrow> addr \<Rightarrow> int \<Rightarrow> int \<Rightarrow> ('d, 'a) file_heap_scheme \<Rightarrow> (int \<times> ('d, 'a) file_heap_scheme) option" where
  "open_file D filename mode flag s =
     (if filename = NULL then Some (-1, s)
      else do {
        (r, fd) \<leftarrow> get_empty_fd s;
        if r < 0 then Some (-2, s)
        else do {
          (fp, s) \<leftarrow> get_empty_filp s;
          if fp = NULL then Some (-3, s)
          else do {
            (r, s) \<leftarrow> open_namei D filename mode flag s;
            fd \<leftarrow> fd;
            case r of
              Inl _ \<Rightarrow> do { s \<leftarrow> set_filp fd NULL s; Some (-4, set_f_count fp 0 s) }
            | Inr inode \<Rightarrow> do {
                sb \<leftarrow> get_super_block (uint (i_dev s inode)) s;
                let s = set_file fp inode mode flag s;
                let s = set_f_count fp (f_count s fp + 1) s;
                s \<leftarrow> set_filp fd fp s;
                Some (int fd, list_add (f_list fp) (s_files sb s) s)
              }
          }
        }
      })"

definition mkdir ::
  "'d drive \<Rightarrow> addr \<Rightarrow> int \<Rightarrow> int \<Rightarrow> ('d, 'a) file_heap_scheme \<Rightarrow> (int \<times> ('d, 'a) file_heap_scheme) option" where
  "mkdir D filename mode flag s =
     (if filename = NULL then Some (-1, s)
      else do {
        (r, fd) \<leftarrow> get_empty_fd s;
        if r < 0 then Some (-2, s)
        else do {
          (fp, s) \<leftarrow> get_empty_filp s;
          if fp = NULL then Some (-3, s)
          else do {
            fd \<leftarrow> fd;
            s \<leftarrow> set_filp fd fp s;
            let s = set_f_count fp (f_count s fp + 1) s;
            (r, s) \<leftarrow> open_namei D filename mode flag s;
            case r of
              Inl ret \<Rightarrow> do { s \<leftarrow> set_filp fd NULL s; Some (ret, set_f_count fp 0 s) }
            | Inr inode \<Rightarrow> Some (int fd, set_file fp inode mode flag s)
          }
        }
      })"

definition close_file :: "'d drive \<Rightarrow> int \<Rightarrow> ('d, 'a) file_heap_scheme \<Rightarrow> (int \<times> ('d, 'a) file_heap_scheme) option" where
  "close_file D fd s =
     (if fd \<le> 0 \<or> fd \<ge> NR_OPEN then Some (-1, s)
      else do {
        fp \<leftarrow> nth_opt (filp s) fd;
        if fp = NULL then Some (-2, s)
        else if f_count s fp = 0 then None
        else do {
          (_, s) \<leftarrow> iput D (f_inode s fp) s;
          let s = set_f_count fp (f_count s fp - 1) s;
          if f_count s fp \<noteq> 0 then Some (0, s)
          else do { s \<leftarrow> set_filp (nat fd) NULL s; Some (0, s) }
        }
      })"

definition sys_close :: "'d drive \<Rightarrow> int \<Rightarrow> ('d, 'a) file_heap_scheme \<Rightarrow> (int \<times> ('d, 'a) file_heap_scheme) option" where
  "sys_close D fd s = close_file D fd s"

subsection \<open>Reading, writing and seeking\<close>

text \<open>The copy loop of a read: bytes that are zero are dropped.\<close>

fun copy_nonzero :: "nat \<Rightarrow> addr \<Rightarrow> addr \<Rightarrow> bytes \<Rightarrow> addr \<times> bytes" where
  "copy_nonzero 0 p buf m = (buf, m)"
| "copy_nonzero (Suc c) p buf m =
     (if m p = 0 then copy_nonzero c (p + 1) buf m else copy_nonzero c (p + 1) (buf + 1) (m(buf := m p)))"

text \<open>The counter \<^verbatim>\<open>i\<close> is not initialised by the code: its first value is an argument.\<close>

partial_function (option) file_read_loop ::
  "'d drive \<Rightarrow> addr \<Rightarrow> addr \<Rightarrow> int \<Rightarrow> int \<Rightarrow> int \<Rightarrow> addr \<Rightarrow> ('d, 'a) file_heap_scheme \<Rightarrow> ('d, 'a) file_heap_scheme option" where
  "file_read_loop D inode fp count i pos buf s =
     (if \<not> i < count then Some s
      else do {
        block_nr \<leftarrow> get_pos_block inode pos s;
        let c = int SECTOR_SIZE - pos smod int SECTOR_SIZE;
        let c = (if c > count then count - i else c);
        (bh, s) \<leftarrow> getblk (uint (i_dev s inode)) block_nr s;
        (_, s) \<leftarrow> hd_rw D (uint (i_dev s inode)) block_nr 1 ATA_READ bh s;
        let p = b_data s bh + word_of_int pos;
        let s = set_f_pos fp (f_pos s fp + c) s;
        let (buf, m) = copy_nonzero (nat c) p buf (mem s);
        s \<leftarrow> brelse bh (set_mem m s);
        file_read_loop D inode fp count (i + c) (pos + c) buf s
      })"

definition general_file_read ::
  "'d drive \<Rightarrow> int \<Rightarrow> addr \<Rightarrow> addr \<Rightarrow> addr \<Rightarrow> int \<Rightarrow> ('d, 'a) file_heap_scheme \<Rightarrow> (int \<times> ('d, 'a) file_heap_scheme) option" where
  "general_file_read D i inode fp buf count s =
     (if inode = NULL \<or> fp = NULL then Some (- EINVAL, s)
      else if buf = NULL \<or> count \<le> 0 then Some (0, s)
      else do {
        s \<leftarrow> file_read_loop D inode fp count i (sint (word_of_int (f_pos s fp) :: 32 word)) buf s;
        Some (0, s)
      })"

text \<open>The copy loop of a write, forwards byte by byte.\<close>

fun copy_bytes :: "nat \<Rightarrow> addr \<Rightarrow> addr \<Rightarrow> bytes \<Rightarrow> bytes" where
  "copy_bytes 0 p buf m = m"
| "copy_bytes (Suc c) p buf m = copy_bytes c (p + 1) (buf + 1) (m(p := m buf))"

partial_function (option) file_write_loop ::
  "'d drive \<Rightarrow> addr \<Rightarrow> int \<Rightarrow> int \<Rightarrow> int \<Rightarrow> addr \<Rightarrow> ('d, 'a) file_heap_scheme \<Rightarrow> ('d, 'a) file_heap_scheme option" where
  "file_write_loop D inode count i pos buf s =
     (if \<not> i < count then Some s
      else do {
        block_nr \<leftarrow> get_pos_block inode pos s;
        (bh, s) \<leftarrow> getblk (uint (i_dev s inode)) block_nr s;
        let c = pos smod int SECTOR_SIZE;
        let p = b_data s bh + word_of_int c;
        let c = int SECTOR_SIZE - c;
        let c = (if c > count then count - i else c);
        let s = (if pos + c > uint (i_size s inode) then set_i_size inode (word_of_int (pos + c)) s else s);
        let s = set_mem (copy_bytes (nat c) p buf (mem s)) s;
        (_, s) \<leftarrow> hd_rw D (uint (i_dev s inode)) block_nr 1 ATA_WRITE bh s;
        s \<leftarrow> brelse bh s;
        file_write_loop D inode count (i + c) (pos + c) (buf + word_of_int c) s
      })"

definition general_file_write ::
  "'d drive \<Rightarrow> addr \<Rightarrow> addr \<Rightarrow> addr \<Rightarrow> int \<Rightarrow> ('d, 'a) file_heap_scheme \<Rightarrow> (int \<times> ('d, 'a) file_heap_scheme) option" where
  "general_file_write D inode fp buf count s =
     (if inode = NULL \<or> fp = NULL \<or> buf = NULL \<or> count < 0 then Some (- EINVAL, s)
      else do {
        s \<leftarrow> (if get_first_block inode s = 0
              then map_option snd (set_block_nums D (uint (i_dev s inode)) (In_inode inode) NR_DEFAULT_SECTS s)
              else Some s);
        if get_first_block inode s = 0 then Some (-3, s)
        else do {
          let pos = (if f_flag s fp AND O_APPEND \<noteq> 0 then uint (i_size s inode)
                     else sint (word_of_int (f_pos s fp) :: 32 word));
          s \<leftarrow> file_write_loop D inode count 0 pos buf s;
          Some (0, set_i_dirty inode 1 s)
        }
      })"

definition general_file_lseek :: "int \<Rightarrow> int \<Rightarrow> int \<Rightarrow> ('d, 'a) file_heap_scheme \<Rightarrow> (int \<times> ('d, 'a) file_heap_scheme) option" where
  "general_file_lseek fd off origin s =
     (if fd \<le> 0 \<or> fd \<ge> NR_OPEN then Some (- EBADF, s)
      else do {
        fp \<leftarrow> nth_opt (filp s) fd;
        if fp = NULL \<or> f_inode s fp = NULL then Some (- EBADF, s)
        else
          (let pos = (if origin = 0 then Some off
                      else if origin = 1 then Some (f_pos s fp + off)
                      else if origin = 2 then Some (uint (i_size s (f_inode s fp)) + off)
                      else None)
           in case pos of
                None \<Rightarrow> Some (- EINVAL, s)
              | Some p \<Rightarrow> if p < 0 then Some (- EINVAL, s) else Some (sint (word_of_int p :: 32 word), set_f_pos fp p s))
      })"

definition sys_read ::
  "'d drive \<Rightarrow> int \<Rightarrow> int \<Rightarrow> addr \<Rightarrow> int \<Rightarrow> ('d, 'a) file_heap_scheme \<Rightarrow> (int \<times> ('d, 'a) file_heap_scheme) option" where
  "sys_read D i fd buf count s =
     (if fd \<ge> NR_OPEN \<or> count < 0 then Some (- EINVAL, s)
      else do {
        fp \<leftarrow> nth_opt (filp s) fd;
        if fp = NULL then Some (- EINVAL, s)
        else
          (let inode = f_inode s fp; mode = i_mode s inode in
           if S_ISDIR mode \<or> S_ISREG mode then do {
             (r, s) \<leftarrow> general_file_read D i inode fp buf count s;
             Some (if r < 0 then -3 else 0, s)
           } else Some (-4, s))
      })"

definition sys_write ::
  "'d drive \<Rightarrow> int \<Rightarrow> addr \<Rightarrow> int \<Rightarrow> ('d, 'a) file_heap_scheme \<Rightarrow> (int \<times> ('d, 'a) file_heap_scheme) option" where
  "sys_write D fd buf count s =
     (if fd \<le> 0 \<or> fd \<ge> NR_OPEN \<or> count < 0 then Some (- EINVAL, s)
      else do {
        fp \<leftarrow> nth_opt (filp s) fd;
        if fp = NULL then Some (- EINVAL, s)
        else
          (let inode = f_inode s fp; mode = i_mode s inode in
           if S_ISDIR mode \<or> S_ISREG mode then do {
             (r, s) \<leftarrow> general_file_write D inode fp buf count s;
             Some (if r < 0 then -3 else 0, s)
           } else Some (-4, s))
      })"

definition sys_lseek :: "int \<Rightarrow> int \<Rightarrow> int \<Rightarrow> ('d, 'a) file_heap_scheme \<Rightarrow> (int \<times> ('d, 'a) file_heap_scheme) option" where
  "sys_lseek fd off origin s = general_file_lseek fd off origin s"

subsection \<open>Descriptors\<close>

definition dupfd :: "u32 \<Rightarrow> u32 \<Rightarrow> ('d, 'a) file_heap_scheme \<Rightarrow> (int \<times> ('d, 'a) file_heap_scheme) option" where
  "dupfd oldfd newfd s =
     (if length (filp s) < 32 then None
      else if oldfd \<ge> 32 \<or> filp s ! unat oldfd = NULL then Some (-1, s)
      else if newfd \<ge> 32 then Some (-1, s)
      else case find (\<lambda>i. filp s ! i = NULL) [unat newfd..<32] of
        None \<Rightarrow> Some (-1, s)
      | Some i \<Rightarrow> do {
          let fp = filp s ! unat oldfd;
          s \<leftarrow> set_filp i fp s;
          Some (int i, set_f_count fp (f_count s fp + 1) s)
        })"

definition sys_dup2 :: "'d drive \<Rightarrow> u32 \<Rightarrow> u32 \<Rightarrow> ('d, 'a) file_heap_scheme \<Rightarrow> (int \<times> ('d, 'a) file_heap_scheme) option" where
  "sys_dup2 D oldfd newfd s =
     do {
       (_, s) \<leftarrow> sys_close D (sint newfd) s;
       dupfd oldfd newfd s
     }"

definition sys_fcntl :: "u32 \<Rightarrow> int \<Rightarrow> u32 \<Rightarrow> ('d, 'a) file_heap_scheme \<Rightarrow> (int \<times> ('d, 'a) file_heap_scheme) option" where
  "sys_fcntl fd cmd arg s =
     (if fd \<ge> 32 then Some (-1, s)
      else do {
        fp \<leftarrow> nth_opt (filp s) (uint fd);
        if fp = NULL then Some (-1, s)
        else if cmd = 1 then dupfd fd arg s
        else if cmd = 2 \<or> cmd = 4 \<or> cmd = 8 then Some (uint (f_flag s fp), s)
        else if cmd = 0x10 then
          (let v = f_flag s fp OR ucast arg in Some (uint v, s\<lparr>f_flag := (f_flag s)(fp := v)\<rparr>))
        else Some (-1, s)
      })"

subsection \<open>Unlinking and status\<close>

definition do_unlink :: "'d drive \<Rightarrow> addr \<Rightarrow> ('d, 'a) file_heap_scheme \<Rightarrow> (int \<times> ('d, 'a) file_heap_scheme) option" where
  "do_unlink D name s =
     do {
       (r, s) \<leftarrow> dir_namei D name s;
       case r of
         Inl _ \<Rightarrow> Some (- ENOENT, s)
       | Inr (basename, namelen, dir) \<Rightarrow>
           if namelen = 0 then do { (_, s) \<leftarrow> iput D dir s; Some (- ENOENT, s) }
           else do {
             (r, de, s) \<leftarrow> del_entry D dir basename namelen s;
             if r \<noteq> 0 then do { (_, s) \<leftarrow> iput D dir s; Some (- ENOENT, s) }
             else do {
               de \<leftarrow> de;
               (inode, s) \<leftarrow> iget D (uint (i_dev s dir)) (uint (de_inode_num de s)) s;
               if inode = NULL then do { (_, s) \<leftarrow> iput D dir s; Some (- ENOENT, s) }
               else if S_ISDIR (i_mode s inode) then do {
                 (_, s) \<leftarrow> iput D inode s;
                 (_, s) \<leftarrow> iput D dir s;
                 Some (- EPERM, s)
               }
               else do {
                 let s = set_i_count inode (i_count s inode - 1) s;
                 if i_count s inode \<noteq> 0 then Some (- EMLINK, s)
                 else do {
                   let s = set_mem (store16 de 0 (mem s)) s;
                   let s = set_i_dirty inode 1 s;
                   (_, s) \<leftarrow> iput D inode s;
                   (_, s) \<leftarrow> iput D dir s;
                   Some (0, s)
                 }
               }
             }
           }
     }"

text \<open>\<^verbatim>\<open>cp_stat\<close> fills a local variable and leaves the caller's buffer as it is.\<close>

definition cp_stat :: "addr \<Rightarrow> addr \<Rightarrow> ('d, 'a) file_heap_scheme \<Rightarrow> ('d, 'a) file_heap_scheme" where
  "cp_stat inode statbuf s = s"

definition sys_stat :: "'d drive \<Rightarrow> addr \<Rightarrow> addr \<Rightarrow> ('d, 'a) file_heap_scheme \<Rightarrow> (int \<times> ('d, 'a) file_heap_scheme) option" where
  "sys_stat D filename statbuf s =
     do {
       (inode, s) \<leftarrow> namei D filename s;
       if inode = NULL then Some (-1, s)
       else do {
         (_, s) \<leftarrow> iput D inode (cp_stat inode statbuf s);
         Some (0, s)
       }
     }"

subsection \<open>Making a file system\<close>

text \<open>
  The local \<^verbatim>\<open>struct super_block\<close> has 148 bytes, of which the code sets eight fields; \<open>junk\<close> is what
  the stack holds in the others.
\<close>

definition store_super :: "u8 list \<Rightarrow> addr \<Rightarrow> bytes \<Rightarrow> bytes" where
  "store_super junk p m =
     store32 (p + 16) 1024 (store16 (p + 12) (word_of_int ROOT_DEV) (store16 (p + 10) 516 (store16 (p + 8) 1 (store16 (p + 6) 1
       (store16 (p + 4) 4096 (store16 (p + 2) 4096 (store16 p 1 (store p (take 148 junk) m))))))))"

definition clear_sector :: "addr \<Rightarrow> ('d, 'a) file_heap_scheme \<Rightarrow> ('d, 'a) file_heap_scheme" where
  "clear_sector bh s = set_mem (snd (memset (b_data s bh) 0 (int SECTOR_SIZE) (mem s))) s"

fun set_first_bits :: "nat list \<Rightarrow> addr \<Rightarrow> bytes \<Rightarrow> bytes" where
  "set_first_bits [] p m = m"
| "set_first_bits (i # is) p m = set_first_bits is p (m(p := m p OR ucast (push_bit i (1 :: u32))))"

definition mk_super :: "'d drive \<Rightarrow> u8 list \<Rightarrow> ('d, 'a) file_heap_scheme \<Rightarrow> ('d, 'a) file_heap_scheme option" where
  "mk_super D junk s =
     do {
       (bh, s) \<leftarrow> getblk ROOT_DEV 1 s;
       let s = clear_sector bh s;
       let s = set_mem (store_super junk (b_data s bh) (mem s)) s;
       (_, s) \<leftarrow> hd_rw D ROOT_DEV 1 1 ATA_WRITE bh s;
       s \<leftarrow> brelse bh s;
       read_super_block D ROOT_DEV s
     }"

text \<open>The loops over further map sectors run from 1 to the number of sectors, which is 1.\<close>

definition mk_maps :: "'d drive \<Rightarrow> ('d, 'a) file_heap_scheme \<Rightarrow> ('d, 'a) file_heap_scheme option" where
  "mk_maps D s =
     do {
       (bh, s) \<leftarrow> getblk ROOT_DEV 2 s;
       let s = clear_sector bh s;
       let s = set_mem (set_first_bits [0..<5] (b_data s bh) (mem s)) s;
       if mem s (b_data s bh) \<noteq> 0x1f then None
       else do {
         (_, s) \<leftarrow> hd_rw D ROOT_DEV 2 1 ATA_WRITE bh s;
         s \<leftarrow> brelse bh (clear_sector bh s);
         (bh, s) \<leftarrow> getblk ROOT_DEV 3 s;
         let s = set_mem ((mem s)(b_data s bh := 1)) s;
         (_, s) \<leftarrow> hd_rw D ROOT_DEV 3 1 ATA_WRITE bh s;
         brelse bh (clear_sector bh s)
       }
     }"

definition mk_root :: "'d drive \<Rightarrow> ('d, 'a) file_heap_scheme \<Rightarrow> ('d, 'a) file_heap_scheme option" where
  "mk_root D s =
     do {
       (bh, s) \<leftarrow> getblk ROOT_DEV 4 s;
       let s = clear_sector bh s;
       let s = set_mem (store16 (b_data s bh + 2) 16 (store16 (b_data s bh) 0x400 (mem s))) s;
       (_, s) \<leftarrow> set_block_nums D ROOT_DEV (In_buffer (b_data s bh)) NR_DEFAULT_SECTS s;
       (_, s) \<leftarrow> hd_rw D ROOT_DEV 4 1 ATA_WRITE bh s;
       s \<leftarrow> brelse bh s;
       (bh, s) \<leftarrow> getblk ROOT_DEV 516 s;
       let s = clear_sector bh s;
       let de = b_data s bh;
       let s = set_mem ((store16 de 1 (mem s))(de + 2 := 0x2e, de + 3 := 0)) s;
       (_, s) \<leftarrow> hd_rw D ROOT_DEV 516 1 ATA_WRITE bh s;
       brelse bh s
     }"

definition mk_fs :: "'d drive \<Rightarrow> u8 list \<Rightarrow> ('d, 'a) file_heap_scheme \<Rightarrow> ('d, 'a) file_heap_scheme option" where
  "mk_fs D junk s = do { s \<leftarrow> mk_super D junk s; s \<leftarrow> mk_maps D s; mk_root D s }"

text \<open>A super block that is not found is read through the null pointer: the memory at 0 is mapped.\<close>

definition init_fs :: "'d drive \<Rightarrow> u8 list \<Rightarrow> ('d, 'a) file_heap_scheme \<Rightarrow> (int \<times> ('d, 'a) file_heap_scheme) option" where
  "init_fs D junk s =
     do {
       let s = s\<lparr>super_blocks := map (\<lambda>sb. sb\<lparr>s_dev := 0\<rparr>) (super_blocks s)\<rparr>;
       s \<leftarrow> read_super_block D ROOT_DEV s;
       let magic = (case sb_of ROOT_DEV s of Some sb \<Rightarrow> s_magic sb | None \<Rightarrow> load16 (mem s) 0);
       s \<leftarrow> (if magic \<noteq> 1 then mk_fs D junk s else Some s);
       (inode, s) \<leftarrow> iget D ROOT_DEV 1 s;
       Some (0, s\<lparr>root_inode := inode\<rparr>)
     }"

end
