(* ===== verification/Vsprintf.thy ===== *)
theory Vsprintf
  imports Bytes
begin

section \<open>Formatting and ELF sections\<close>

text \<open>
  The model of \<^verbatim>\<open>lib/vsprintf.c\<close> and \<^verbatim>\<open>fs/binfmt_elf.c\<close>. The format, the arguments (a pointer to
  words on the stack) and the output are in memory; \<open>tmp\<close> is the address of the local array of 32
  bytes. The negation of the least \<^verbatim>\<open>int\<close> overflows and has no result. A \<^verbatim>\<open>%\<close> at the end of the format
  skips the final zero: the loop goes on after the string.
\<close>

definition put_string :: "addr \<Rightarrow> addr \<Rightarrow> bytes \<Rightarrow> (addr \<times> bytes) option" where
  "put_string p src m =
     do {
       (_, m) \<leftarrow> strcpy p src m;
       n \<leftarrow> strlen src m;
       Some (p + word_of_int n, m)
     }"

definition put_decimal :: "addr \<Rightarrow> addr \<Rightarrow> int \<Rightarrow> bytes \<Rightarrow> (addr \<times> bytes) option" where
  "put_decimal tmp p value m =
     (if value = - (2 ^ 31) then None
      else if value < 0 then do { m \<leftarrow> itoa tmp (- value) (m(p := 0x2d)); put_string (p + 1) tmp m }
      else do { m \<leftarrow> itoa tmp value m; put_string p tmp m })"

text \<open>One conversion: the character after the percent sign.\<close>

definition convert :: "addr \<Rightarrow> u8 \<Rightarrow> addr \<Rightarrow> addr \<Rightarrow> bytes \<Rightarrow> (addr \<times> addr \<times> bytes) option" where
  "convert tmp ch p next_arg m =
     (if ch = 0x73 then do { (p, m) \<leftarrow> put_string p (load32 m next_arg) m; Some (p, next_arg + 4, m) }
      else if ch = 0x63 then Some (p + 1, next_arg + 4, m(p := m next_arg))
      else if ch = 0x64 then do { (p, m) \<leftarrow> put_decimal tmp p (sint (load32 m next_arg)) m; Some (p, next_arg + 4, m) }
      else if ch = 0x70 \<or> ch = 0x78 then do {
        (p, m) \<leftarrow> put_string p tmp (htoa tmp (load32 m next_arg) m);
        Some (p, next_arg + 4, m)
      }
      else Some (p, next_arg, m))"

partial_function (option) vsprintf_loop :: "addr \<Rightarrow> addr \<Rightarrow> addr \<Rightarrow> addr \<Rightarrow> bytes \<Rightarrow> (addr \<times> bytes) option" where
  "vsprintf_loop tmp fmt p next_arg m =
     (if m fmt = 0 then Some (p, m)
      else if m fmt \<noteq> 0x25 then vsprintf_loop tmp (fmt + 1) (p + 1) next_arg (m(p := m fmt))
      else do {
        (p, next_arg, m) \<leftarrow> convert tmp (m (fmt + 1)) p next_arg m;
        vsprintf_loop tmp (fmt + 2) p next_arg m
      })"

definition vsprintf :: "addr \<Rightarrow> addr \<Rightarrow> addr \<Rightarrow> addr \<Rightarrow> bytes \<Rightarrow> (int \<times> bytes) option" where
  "vsprintf tmp buf fmt args m =
     do {
       (p, m) \<leftarrow> vsprintf_loop tmp fmt buf args (store tmp (replicate 32 0) m);
       Some (sint (p - buf), m)
     }"

text \<open>\<^verbatim>\<open>fmt_cell\<close> is the address of the parameter \<^verbatim>\<open>fmt\<close> on the stack; the further arguments follow it.\<close>

definition sprintf :: "addr \<Rightarrow> addr \<Rightarrow> addr \<Rightarrow> bytes \<Rightarrow> (int \<times> bytes) option" where
  "sprintf tmp buf fmt_cell m = vsprintf tmp buf (load32 m fmt_cell) (fmt_cell + 4) m"

text \<open>
  The sections of an ELF image: the header has the table's offset at 32, the size of an entry at
  46 and their number at 48; a section header has its flags at 8, its address at 12 and its size at 20.
  The comparisons mix \<^verbatim>\<open>unsigned int\<close> with \<^verbatim>\<open>int\<close> and are unsigned.
\<close>

definition section_header :: "addr \<Rightarrow> addr \<Rightarrow> nat \<Rightarrow> bytes \<Rightarrow> addr" where
  "section_header address hdr i m = address + load32 m (hdr + 32) + of_nat i * ucast (load16 m (hdr + 46))"

fun elf_map_loop :: "nat list \<Rightarrow> addr \<Rightarrow> addr \<Rightarrow> u32 \<Rightarrow> u32 \<Rightarrow> bytes \<Rightarrow> u32 \<times> u32" where
  "elf_map_loop [] address hdr base t m = (base, t)"
| "elf_map_loop (i # is) address hdr base t m =
     (let sh = section_header address hdr i m in
      if load32 m (sh + 8) AND 2 \<noteq> 0 then
        (let bottom = load32 m (sh + 12); top = load32 m (sh + 12) + load32 m (sh + 20)
         in elf_map_loop is address hdr (if base > bottom then bottom else base) (if t < top then top else t) m)
      else elf_map_loop is address hdr base t m)"

definition get_elf_map :: "addr \<Rightarrow> addr \<Rightarrow> bytes \<Rightarrow> int \<times> u32 \<times> u32" where
  "get_elf_map address hdr m =
     (let (base, t) = elf_map_loop [0..<unat (load16 m (hdr + 48))] address hdr (NOT 0) 0 m
      in (0, base, t - base - 1))"

end
