(* ===== verification/Rbtree_rep.thy ===== *)
theory Rbtree_rep
  imports Rbtree "HOL-Library.Multiset"
begin

section \<open>Red-black trees in the heap\<close>

text \<open>
  The abstraction of the pointer structure of \<^verbatim>\<open>lib/rbtree.c\<close>: a tree \<open>rbt\<close> is
  represented in the heap (\<open>rb_rep\<close>) when the child pointers, the parent pointers and the colour
  bits agree with it, and a path from a hole in the tree up to the root is a list of contexts
  \<open>ctx\<close>. A loop of the code that walks up the tree is a recursion on the context, and the two
  rotations and the colour changes are shown to act on the tree at the hole
  (\<open>rb_tree_rotate_left\<close>, \<open>rb_tree_rotate_right\<close>, \<open>rb_tree_recolour\<close>).
\<close>

subsection \<open>Definitions\<close>

datatype colour = R | B

datatype rbt = Lf | Nd rbt colour addr rbt

fun inorder :: "rbt \<Rightarrow> addr list" where
  "inorder Lf = []"
| "inorder (Nd l c a r) = inorder l @ a # inorder r"

fun rptr :: "rbt \<Rightarrow> addr" where
  "rptr Lf = NULL"
| "rptr (Nd l c a r) = a"

fun cbit :: "colour \<Rightarrow> u32" where
  "cbit R = 0"
| "cbit B = 1"

definition aligned :: "addr \<Rightarrow> bool" where
  "aligned a \<longleftrightarrow> a AND 3 = 0"

definition node_ok :: "addr \<Rightarrow> colour \<Rightarrow> addr \<Rightarrow> 'a rb_heap_scheme \<Rightarrow> bool" where
  "node_ok p c a s \<longleftrightarrow> a \<noteq> NULL \<and> aligned a \<and> aligned p \<and> rb_parent_color s a = p OR cbit c"

fun rb_rep :: "addr \<Rightarrow> rbt \<Rightarrow> addr \<Rightarrow> 'a rb_heap_scheme \<Rightarrow> bool" where
  "rb_rep p Lf x s \<longleftrightarrow> x = NULL"
| "rb_rep p (Nd l c a r) x s \<longleftrightarrow>
     x = a \<and> node_ok p c a s \<and> rb_rep a l (rb_left s a) s \<and> rb_rep a r (rb_right s a) s"

datatype ctx = CL colour addr rbt | CR rbt colour addr

fun plug :: "ctx list \<Rightarrow> rbt \<Rightarrow> rbt" where
  "plug [] t = t"
| "plug (CL c a r # k) t = plug k (Nd t c a r)"
| "plug (CR l c a # k) t = plug k (Nd l c a t)"

fun cptr :: "ctx list \<Rightarrow> addr" where
  "cptr [] = NULL"
| "cptr (CL c a r # k) = a"
| "cptr (CR l c a # k) = a"

fun ctx_nodes :: "ctx list \<Rightarrow> addr list" where
  "ctx_nodes [] = []"
| "ctx_nodes (CL c a r # k) = a # inorder r @ ctx_nodes k"
| "ctx_nodes (CR l c a # k) = a # inorder l @ ctx_nodes k"

fun ctx_rep :: "addr \<Rightarrow> ctx list \<Rightarrow> addr \<Rightarrow> 'a rb_heap_scheme \<Rightarrow> bool" where
  "ctx_rep root [] x s \<longleftrightarrow> rb_root s root = x"
| "ctx_rep root (CL c a r # k) x s \<longleftrightarrow>
     node_ok (cptr k) c a s \<and> rb_left s a = x \<and> rb_rep a r (rb_right s a) s \<and> ctx_rep root k a s"
| "ctx_rep root (CR l c a # k) x s \<longleftrightarrow>
     node_ok (cptr k) c a s \<and> rb_right s a = x \<and> rb_rep a l (rb_left s a) s \<and> ctx_rep root k a s"

definition rb_tree :: "addr \<Rightarrow> rbt \<Rightarrow> 'a rb_heap_scheme \<Rightarrow> bool" where
  "rb_tree root t s \<longleftrightarrow> rb_rep NULL t (rb_root s root) s \<and> distinct (inorder t)"

definition set_hole :: "ctx list \<Rightarrow> addr \<Rightarrow> addr \<Rightarrow> 'a rb_heap_scheme \<Rightarrow> 'a rb_heap_scheme" where
  "set_hole k root y s =
     (case k of [] \<Rightarrow> set_root root y s | CL c a r # _ \<Rightarrow> set_left a y s | CR l c a # _ \<Rightarrow> set_right a y s)"

subsection \<open>Lemmas\<close>

lemma plug_rep: "rb_rep NULL (plug k t) (rb_root s root) s \<longleftrightarrow>
    (\<exists>x. ctx_rep root k x s \<and> rb_rep (cptr k) t x s)"
  by (induction k t rule: plug.induct) auto

lemma plug_mset: "mset (inorder (plug k t)) = mset (ctx_nodes k) + mset (inorder t)"
  by (induction k t rule: plug.induct) auto

lemma plug_distinct: "distinct (inorder (plug k t)) \<longleftrightarrow>
    distinct (ctx_nodes k) \<and> distinct (inorder t) \<and> set (ctx_nodes k) \<inter> set (inorder t) = {}"
proof -
  have "mset (inorder (plug k t)) = mset (ctx_nodes k @ inorder t)" by (simp add: plug_mset)
  then have "distinct (inorder (plug k t)) \<longleftrightarrow> distinct (ctx_nodes k @ inorder t)"
    by (metis mset_eq_imp_distinct_iff)
  then show ?thesis by auto
qed

lemma rb_rep_ptr: "rb_rep p t x s \<Longrightarrow> x = rptr t"
  by (cases t) auto

lemma bit_three: "bit (3 :: u32) n \<longleftrightarrow> n < 2"
proof -
  have e: "(3 :: u32) = mask 2" by (simp add: mask_eq_exp_minus_1)
  have "bit (mask 2 :: u32) n \<longleftrightarrow> n < 2"
    unfolding bit_mask_iff possible_bit_word by (auto simp: less_trans)
  then show ?thesis unfolding e .
qed

lemma bit_cbit: "bit (cbit c) n \<longleftrightarrow> c = B \<and> n = 0"
  by (cases c) (simp_all add: bit_1_iff)

lemma aligned_bits: "aligned a \<longleftrightarrow> (\<forall>n < 2. \<not> bit a n)"
proof -
  have "a AND 3 = 0 \<longleftrightarrow> (\<forall>n. bit (a AND 3) n \<longleftrightarrow> bit (0 :: u32) n)" by (metis bit_eqI)
  then show ?thesis unfolding aligned_def bit_and_iff bit_three by auto
qed

lemmas word_bits = bit_and_iff bit_or_iff bit_not_iff possible_bit_word bit_three bit_cbit

lemma pc_parent: "aligned p \<Longrightarrow> (p OR cbit c) AND NOT 3 = p"
  by (rule bit_word_eqI) (auto simp only: word_bits aligned_bits; auto)

lemma pc_colour: "aligned p \<Longrightarrow> (p OR cbit c) AND cbit B = cbit c"
  by (rule bit_word_eqI) (auto simp only: word_bits aligned_bits; auto)

lemma pc_set_parent: "aligned p \<Longrightarrow> ((p OR cbit c) AND 3) OR q = q OR cbit c"
  by (rule bit_word_eqI) (auto simp only: word_bits aligned_bits; auto)

lemma pc_set_black: "(p OR cbit c) OR cbit B = p OR cbit B"
  by (rule bit_word_eqI) (auto simp only: word_bits)

lemma pc_set_red: "aligned p \<Longrightarrow> (p OR cbit c) AND NOT (cbit B) = p OR cbit R"
  by (rule bit_word_eqI) (auto simp only: word_bits aligned_bits; auto)

lemma pc_set_color: "aligned p \<Longrightarrow> ((p OR cbit c) AND NOT (cbit B)) OR cbit d = p OR cbit d"
  by (simp only: pc_set_red) simp

lemma rb_fields [simp]:
  "rb_left (set_left r v s) = (rb_left s)(r := v)" "rb_right (set_left r v s) = rb_right s"
  "rb_parent_color (set_left r v s) = rb_parent_color s" "rb_root (set_left r v s) = rb_root s"
  "rb_left (set_right r v s) = rb_left s" "rb_right (set_right r v s) = (rb_right s)(r := v)"
  "rb_parent_color (set_right r v s) = rb_parent_color s" "rb_root (set_right r v s) = rb_root s"
  "rb_left (set_root r v s) = rb_left s" "rb_right (set_root r v s) = rb_right s"
  "rb_parent_color (set_root r v s) = rb_parent_color s" "rb_root (set_root r v s) = (rb_root s)(r := v)"
  "rb_left (set_parent_color r v s) = rb_left s" "rb_right (set_parent_color r v s) = rb_right s"
  "rb_parent_color (set_parent_color r v s) = (rb_parent_color s)(r := v)" "rb_root (set_parent_color r v s) = rb_root s"
  by (simp_all add: set_left_def set_right_def set_root_def set_parent_color_def)

lemma node_ok_fields [simp]:
  "node_ok p c a (set_left r v s) = node_ok p c a s"
  "node_ok p c a (set_right r v s) = node_ok p c a s"
  "node_ok p c a (set_root r v s) = node_ok p c a s"
  "a \<noteq> r \<Longrightarrow> node_ok p c a (set_parent_color r v s) = node_ok p c a s"
  by (simp_all add: node_ok_def)

lemma rb_rep_fields [simp]:
  "r \<notin> set (inorder t) \<Longrightarrow> rb_rep p t x (set_left r v s) = rb_rep p t x s"
  "r \<notin> set (inorder t) \<Longrightarrow> rb_rep p t x (set_right r v s) = rb_rep p t x s"
  "r \<notin> set (inorder t) \<Longrightarrow> rb_rep p t x (set_parent_color r v s) = rb_rep p t x s"
  "rb_rep p t x (set_root r v s) = rb_rep p t x s"
  by (induction t arbitrary: p x) auto

lemma ctx_rep_fields [simp]:
  "r \<notin> set (ctx_nodes k) \<Longrightarrow> ctx_rep root k x (set_left r v s) = ctx_rep root k x s"
  "r \<notin> set (ctx_nodes k) \<Longrightarrow> ctx_rep root k x (set_right r v s) = ctx_rep root k x s"
  "r \<notin> set (ctx_nodes k) \<Longrightarrow> ctx_rep root k x (set_parent_color r v s) = ctx_rep root k x s"
  by (induction k arbitrary: x rule: ctx_nodes.induct) auto

lemma node_ok_reads:
  assumes "node_ok p c a s"
  shows "rb_parent a s = p" "rb_color a s = cbit c" "rb_is_red a s \<longleftrightarrow> c = R" "rb_is_black a s \<longleftrightarrow> c = B"
    "a \<noteq> NULL" "aligned a"
proof -
  show col: "rb_color a s = cbit c" using assms pc_colour [of p c] by (simp add: node_ok_def rb_color_def)
  show "rb_parent a s = p" using assms pc_parent [of p c] by (simp add: node_ok_def rb_parent_def)
  show "rb_is_red a s \<longleftrightarrow> c = R" "rb_is_black a s \<longleftrightarrow> c = B"
    by (cases c; simp add: rb_is_red_def rb_is_black_def col)+
  show "a \<noteq> NULL" "aligned a" using assms by (simp_all add: node_ok_def)
qed

lemma node_ok_set_parent: "node_ok p c a s \<Longrightarrow> aligned q \<Longrightarrow> node_ok q c a (rb_set_parent a q s)"
  by (simp add: node_ok_def rb_set_parent_def pc_set_parent)

lemma node_ok_set_black: "node_ok p c a s \<Longrightarrow> node_ok p B a (rb_set_black a s)"
  using pc_set_black [of p c] by (simp add: node_ok_def rb_set_black_def)

lemma node_ok_set_red: "node_ok p c a s \<Longrightarrow> node_ok p R a (rb_set_red a s)"
  using pc_set_red [of p c] by (simp add: node_ok_def rb_set_red_def)

lemma node_ok_set_color: "node_ok p c a s \<Longrightarrow> node_ok p d a (rb_set_color a (cbit d) s)"
  using pc_set_color [of p c d] by (simp add: node_ok_def rb_set_color_def)

lemma aligned_null [simp]: "aligned NULL" by (simp add: aligned_def)

text \<open>The writes of the parent word, each as an update of one node.\<close>

lemma rb_set_parent_frames [simp]:
  "rb_left (rb_set_parent r v s) = rb_left s" "rb_right (rb_set_parent r v s) = rb_right s"
  "rb_root (rb_set_parent r v s) = rb_root s"
  "a \<noteq> r \<Longrightarrow> node_ok p c a (rb_set_parent r v s) = node_ok p c a s"
  "r \<notin> set (inorder t) \<Longrightarrow> rb_rep p t x (rb_set_parent r v s) = rb_rep p t x s"
  "r \<notin> set (ctx_nodes k) \<Longrightarrow> ctx_rep root k x (rb_set_parent r v s) = ctx_rep root k x s"
  by (simp_all add: rb_set_parent_def)

lemma rb_rep_set_parent:
  "rb_rep p t x s \<Longrightarrow> distinct (inorder t) \<Longrightarrow> aligned q \<Longrightarrow>
   rb_rep q t x (if x \<noteq> NULL then rb_set_parent x q s else s)"
  by (cases t) (auto simp: node_ok_set_parent dest: node_ok_reads(5))

lemma rptr_mem: "rptr t \<notin> set (inorder t) \<Longrightarrow> rptr t = NULL"
  by (cases t) auto

lemma ctx_rep_set_hole:
  "ctx_rep root k x s \<Longrightarrow> distinct (ctx_nodes k) \<Longrightarrow> ctx_rep root k y (set_hole k root y s)"
  by (cases k rule: ctx_nodes.cases) (auto simp: set_hole_def)

lemma set_hole_frames [simp]:
  "set (ctx_nodes k) \<inter> set (inorder t) = {} \<Longrightarrow> rb_rep p t x (set_hole k root y s) = rb_rep p t x s"
  "node_ok p c a (set_hole k root y s) = node_ok p c a s"
  "a \<notin> set (ctx_nodes k) \<Longrightarrow> rb_left (set_hole k root y s) a = rb_left s a"
  "a \<notin> set (ctx_nodes k) \<Longrightarrow> rb_right (set_hole k root y s) a = rb_right s a"
  by (cases k rule: ctx_nodes.cases; simp add: set_hole_def; auto)+

lemma ctx_reads: "ctx_rep root k x s \<Longrightarrow> aligned (cptr k) \<and> (cptr k = NULL \<longleftrightarrow> k = [])"
  by (cases k rule: ctx_nodes.cases) (auto simp: node_ok_def)

lemma hole_left:
  assumes "ctx_rep root k x s" "distinct (ctx_nodes k)" "x \<notin> set (ctx_nodes k)" "x \<noteq> NULL"
  shows "(if cptr k \<noteq> NULL then (if x = rb_left s (cptr k) then set_left (cptr k) y s else set_right (cptr k) y s)
          else set_root root y s) = set_hole k root y s"
  using assms
  by (cases k rule: ctx_nodes.cases) (auto simp: set_hole_def node_ok_def dest!: rb_rep_ptr rptr_mem)

lemma hole_right:
  assumes "ctx_rep root k x s" "distinct (ctx_nodes k)" "x \<notin> set (ctx_nodes k)" "x \<noteq> NULL"
  shows "(if cptr k \<noteq> NULL then (if x = rb_right s (cptr k) then set_right (cptr k) y s else set_left (cptr k) y s)
          else set_root root y s) = set_hole k root y s"
  using assms
  by (cases k rule: ctx_nodes.cases) (auto simp: set_hole_def node_ok_def dest!: rb_rep_ptr rptr_mem)

lemma rotate_left_rep:
  assumes c: "ctx_rep root k n s" and t: "rb_rep (cptr k) (Nd a c n (Nd b c' m d)) n s"
    and d: "distinct (ctx_nodes k)" "distinct (inorder (Nd a c n (Nd b c' m d)))"
      "set (ctx_nodes k) \<inter> set (inorder (Nd a c n (Nd b c' m d))) = {}"
  shows "ctx_rep root k m (rb_rotate_left n root s) \<and>
         rb_rep (cptr k) (Nd (Nd a c n b) c' m d) m (rb_rotate_left n root s)"
proof -
  define s1 where "s1 = set_right n (rptr b) s"
  define s2 where "s2 = (if rptr b \<noteq> NULL then rb_set_parent (rptr b) n s1 else s1)"
  define s3 where "s3 = set_left m n s2"
  define s4 where "s4 = rb_set_parent m (cptr k) s3"
  define s5 where "s5 = set_hole k root m s4"
  define s6 where "s6 = rb_set_parent n m s5"
  note ok = t [simplified]
  have n: "node_ok (cptr k) c n s" "node_ok n c' m s" using t by auto
  have rd: "rb_parent n s = cptr k" "rb_right s n = m" "rb_left s m = rptr b"
    using n t by (auto simp: node_ok_reads dest: rb_rep_ptr)
  have al: "aligned (cptr k)" using c ctx_reads by blast
  have dk: "set (ctx_nodes k) \<inter> set (inorder a) = {}" "set (ctx_nodes k) \<inter> set (inorder b) = {}"
    "set (ctx_nodes k) \<inter> set (inorder d) = {}" using d(3) by auto
  have bm: "rptr b \<noteq> NULL \<Longrightarrow> rptr b \<in> set (inorder b)" using rptr_mem by blast
  have bn: "rptr b \<noteq> NULL \<Longrightarrow> rptr b \<notin> set (ctx_nodes k) \<and> rptr b \<notin> set (inorder a) \<and> rptr b \<notin> set (inorder d) \<and>
      rptr b \<noteq> n \<and> rptr b \<noteq> m"
    using bm d by auto
  have ctx4: "ctx_rep root k n s4"
    using c d bn by (auto simp: s4_def s3_def s2_def s1_def)
  have hole: "(if cptr k \<noteq> NULL then (if n = rb_left s4 (cptr k) then set_left (cptr k) m s4 else set_right (cptr k) m s4)
          else set_root root m s4) = s5"
    unfolding s5_def by (rule hole_left [OF ctx4]) (use d n in \<open>auto dest: node_ok_reads(5)\<close>)
  have r1: "rb_right s1 n = rptr b" "rb_left s1 m = rptr b" by (simp_all add: s1_def rd)
  have eq: "rb_rotate_left n root s = s6"
    unfolding rb_rotate_left_def Let_def rd s1_def [symmetric] r1 s2_def [symmetric] s3_def [symmetric]
      s4_def [symmetric] hole s6_def [symmetric] ..
  have ctx6: "ctx_rep root k m s6"
    using ctx_rep_set_hole [OF ctx4 d(1), of m] d by (auto simp: s6_def s5_def)
  have b2: "rb_rep n b (rptr b) s2"
    unfolding s2_def by (rule rb_rep_set_parent [of m]) (use t d n rd in \<open>auto simp: s1_def dest: node_ok_reads\<close>)
  have b6: "rb_rep n b (rptr b) s6"
    using b2 d dk by (auto simp: s6_def s5_def s4_def s3_def)
  have a6: "rb_rep n a (rb_left s n) s6" and d6: "rb_rep m d (rb_right s m) s6"
    using t d dk bn by (auto simp: s6_def s5_def s4_def s3_def s2_def s1_def)
  have n5: "node_ok (cptr k) c n s5" using n(1) d bn by (auto simp: s5_def s4_def s3_def s2_def s1_def)
  have n6: "node_ok m c n s6" unfolding s6_def by (rule node_ok_set_parent [OF n5]) (rule node_ok_reads(6) [OF n(2)])
  have m3: "node_ok n c' m s3" using n(2) d bn by (auto simp: s3_def s2_def s1_def)
  have m6: "node_ok (cptr k) c' m s6" using node_ok_set_parent [OF m3 al] d by (auto simp: s6_def s5_def s4_def)
  have l6: "rb_left s6 m = n" "rb_right s6 m = rb_right s m" "rb_left s6 n = rb_left s n" "rb_right s6 n = rptr b"
    using d bn by (auto simp: s6_def s5_def s4_def s3_def s2_def s1_def)
  show ?thesis unfolding eq using ctx6 b6 a6 d6 n6 m6 l6 by simp
qed

lemma rotate_right_rep:
  assumes c: "ctx_rep root k n s" and t: "rb_rep (cptr k) (Nd (Nd d c' m b) c n a) n s"
    and d: "distinct (ctx_nodes k)" "distinct (inorder (Nd (Nd d c' m b) c n a))"
      "set (ctx_nodes k) \<inter> set (inorder (Nd (Nd d c' m b) c n a)) = {}"
  shows "ctx_rep root k m (rb_rotate_right n root s) \<and>
         rb_rep (cptr k) (Nd d c' m (Nd b c n a)) m (rb_rotate_right n root s)"
proof -
  define s1 where "s1 = set_left n (rptr b) s"
  define s2 where "s2 = (if rptr b \<noteq> NULL then rb_set_parent (rptr b) n s1 else s1)"
  define s3 where "s3 = set_right m n s2"
  define s4 where "s4 = rb_set_parent m (cptr k) s3"
  define s5 where "s5 = set_hole k root m s4"
  define s6 where "s6 = rb_set_parent n m s5"
  note ok = t [simplified]
  have n: "node_ok (cptr k) c n s" "node_ok n c' m s" using t by auto
  have rd: "rb_parent n s = cptr k" "rb_left s n = m" "rb_right s m = rptr b"
    using n t by (auto simp: node_ok_reads dest: rb_rep_ptr)
  have al: "aligned (cptr k)" using c ctx_reads by blast
  have dk: "set (ctx_nodes k) \<inter> set (inorder a) = {}" "set (ctx_nodes k) \<inter> set (inorder b) = {}"
    "set (ctx_nodes k) \<inter> set (inorder d) = {}" using d(3) by auto
  have bm: "rptr b \<noteq> NULL \<Longrightarrow> rptr b \<in> set (inorder b)" using rptr_mem by blast
  have bn: "rptr b \<noteq> NULL \<Longrightarrow> rptr b \<notin> set (ctx_nodes k) \<and> rptr b \<notin> set (inorder a) \<and> rptr b \<notin> set (inorder d) \<and>
      rptr b \<noteq> n \<and> rptr b \<noteq> m"
    using bm d by auto
  have ctx4: "ctx_rep root k n s4"
    using c d bn by (auto simp: s4_def s3_def s2_def s1_def)
  have hole: "(if cptr k \<noteq> NULL then (if n = rb_right s4 (cptr k) then set_right (cptr k) m s4 else set_left (cptr k) m s4)
          else set_root root m s4) = s5"
    unfolding s5_def by (rule hole_right [OF ctx4]) (use d n in \<open>auto dest: node_ok_reads(5)\<close>)
  have r1: "rb_left s1 n = rptr b" "rb_right s1 m = rptr b" by (simp_all add: s1_def rd)
  have eq: "rb_rotate_right n root s = s6"
    unfolding rb_rotate_right_def Let_def rd s1_def [symmetric] r1 s2_def [symmetric] s3_def [symmetric]
      s4_def [symmetric] hole s6_def [symmetric] ..
  have ctx6: "ctx_rep root k m s6"
    using ctx_rep_set_hole [OF ctx4 d(1), of m] d by (auto simp: s6_def s5_def)
  have b2: "rb_rep n b (rptr b) s2"
    unfolding s2_def by (rule rb_rep_set_parent [of m]) (use t d n rd in \<open>auto simp: s1_def dest: node_ok_reads\<close>)
  have b6: "rb_rep n b (rptr b) s6"
    using b2 d dk by (auto simp: s6_def s5_def s4_def s3_def)
  have a6: "rb_rep n a (rb_right s n) s6" and d6: "rb_rep m d (rb_left s m) s6"
    using t d dk bn by (auto simp: s6_def s5_def s4_def s3_def s2_def s1_def)
  have n5: "node_ok (cptr k) c n s5" using n(1) d bn by (auto simp: s5_def s4_def s3_def s2_def s1_def)
  have n6: "node_ok m c n s6" unfolding s6_def by (rule node_ok_set_parent [OF n5]) (rule node_ok_reads(6) [OF n(2)])
  have m3: "node_ok n c' m s3" using n(2) d bn by (auto simp: s3_def s2_def s1_def)
  have m6: "node_ok (cptr k) c' m s6" using node_ok_set_parent [OF m3 al] d by (auto simp: s6_def s5_def s4_def)
  have l6: "rb_right s6 m = n" "rb_left s6 m = rb_left s m" "rb_right s6 n = rb_right s n" "rb_left s6 n = rptr b"
    using d bn by (auto simp: s6_def s5_def s4_def s3_def s2_def s1_def)
  show ?thesis unfolding eq using ctx6 b6 a6 d6 n6 m6 l6 by simp
qed

lemma rb_tree_split:
  "rb_tree root (plug k t) s \<longleftrightarrow>
     ctx_rep root k (rptr t) s \<and> rb_rep (cptr k) t (rptr t) s \<and> distinct (ctx_nodes k) \<and> distinct (inorder t) \<and>
     set (ctx_nodes k) \<inter> set (inorder t) = {}"
  unfolding rb_tree_def plug_rep plug_distinct by (metis rb_rep_ptr)

lemma rb_tree_rotate_left:
  "rb_tree root (plug k (Nd a c n (Nd b c' m d))) s \<Longrightarrow>
   rb_tree root (plug k (Nd (Nd a c n b) c' m d)) (rb_rotate_left n root s)"
  unfolding rb_tree_split using rotate_left_rep [of root k n s a c b c' m d] by auto

lemma rb_tree_rotate_right:
  "rb_tree root (plug k (Nd (Nd d c' m b) c n a)) s \<Longrightarrow>
   rb_tree root (plug k (Nd d c' m (Nd b c n a))) (rb_rotate_right n root s)"
  unfolding rb_tree_split using rotate_right_rep [of root k n s d c' m b c a] by auto

lemma recolour_rep:
  assumes "\<And>x p c. x \<noteq> n \<Longrightarrow> node_ok p c x s' = node_ok p c x s" "rb_left s' = rb_left s" "rb_right s' = rb_right s"
  shows "n \<notin> set (inorder t) \<Longrightarrow> rb_rep p t x s' = rb_rep p t x s"
  using assms by (induction t arbitrary: p x) auto

lemma recolour_ctx:
  assumes "\<And>x p c. x \<noteq> n \<Longrightarrow> node_ok p c x s' = node_ok p c x s" "rb_left s' = rb_left s" "rb_right s' = rb_right s"
    "rb_root s' = rb_root s"
  shows "n \<notin> set (ctx_nodes k) \<Longrightarrow> ctx_rep root k x s' = ctx_rep root k x s"
  using assms by (induction k arbitrary: x rule: ctx_nodes.induct) (auto simp: recolour_rep [OF assms(1-3)])

lemma rb_tree_recolour:
  assumes t: "rb_tree root (plug k (Nd l c n r)) s"
    and f: "\<And>x p c. x \<noteq> n \<Longrightarrow> node_ok p c x s' = node_ok p c x s" "rb_left s' = rb_left s" "rb_right s' = rb_right s"
      "rb_root s' = rb_root s"
    and n: "\<And>p. node_ok p c n s \<Longrightarrow> node_ok p c' n s'"
  shows "rb_tree root (plug k (Nd l c' n r)) s'"
  using t n unfolding rb_tree_split by (auto simp: recolour_rep [OF f(1-3)] recolour_ctx [OF f] f)

lemma rb_tree_set_black: "rb_tree root (plug k (Nd l c n r)) s \<Longrightarrow> rb_tree root (plug k (Nd l B n r)) (rb_set_black n s)"
  by (erule rb_tree_recolour) (simp_all add: node_ok_set_black, simp_all add: rb_set_black_def)

lemma rb_tree_set_red: "rb_tree root (plug k (Nd l c n r)) s \<Longrightarrow> rb_tree root (plug k (Nd l R n r)) (rb_set_red n s)"
  by (erule rb_tree_recolour) (simp_all add: node_ok_set_red, simp_all add: rb_set_red_def)

lemma rb_tree_set_color:
  "rb_tree root (plug k (Nd l c n r)) s \<Longrightarrow> rb_tree root (plug k (Nd l d n r)) (rb_set_color n (cbit d) s)"
  by (erule rb_tree_recolour) (simp_all add: node_ok_set_color, simp_all add: rb_set_color_def)

lemma rb_tree_reads:
  assumes "rb_tree root (plug k (Nd l c n r)) s"
  shows "rb_parent n s = cptr k" "rb_left s n = rptr l" "rb_right s n = rptr r" "rb_color n s = cbit c"
    "rb_is_red n s \<longleftrightarrow> c = R" "rb_is_black n s \<longleftrightarrow> c = B" "n \<noteq> NULL" "aligned n"
  using assms unfolding rb_tree_split
  by (auto dest: rb_rep_ptr simp: node_ok_reads intro: node_ok_reads(6) dest: node_ok_reads(5))

lemma rb_tree_reads_root:
  "rb_tree root t s \<Longrightarrow> rb_root s root = rptr t"
  by (auto simp: rb_tree_def dest: rb_rep_ptr)

end
