(* ===== verification/Rbtree_insert.thy ===== *)
theory Rbtree_insert
  imports Rbtree_rep
begin

section \<open>Insertion keeps red-black trees\<close>

text \<open>
  The colour invariant \<open>invc\<close> and the height invariant \<open>invh\<close>, and the proof that
  \<^verbatim>\<open>rb_insert_color\<close> ends and restores both (\<open>rb_insert_color_tree\<close>). The code has each case twice,
  mirrored; the lemmas have it once, with a side \<open>d\<close> (\<open>mk\<close>, \<open>ctx1\<close>, \<open>child\<close>).
\<close>

subsection \<open>Definitions\<close>

fun colour_of :: "rbt \<Rightarrow> colour" where
  "colour_of Lf = B"
| "colour_of (Nd l c a r) = c"

fun blacks :: "rbt \<Rightarrow> nat" where
  "blacks Lf = 0"
| "blacks (Nd l c a r) = blacks l + (if c = B then 1 else 0)"

fun invh :: "rbt \<Rightarrow> bool" where
  "invh Lf = True"
| "invh (Nd l c a r) \<longleftrightarrow> invh l \<and> invh r \<and> blacks l = blacks r"

fun invc :: "rbt \<Rightarrow> bool" where
  "invc Lf = True"
| "invc (Nd l c a r) \<longleftrightarrow> invc l \<and> invc r \<and> (c = R \<longrightarrow> colour_of l = B \<and> colour_of r = B)"

fun blacken :: "rbt \<Rightarrow> rbt" where
  "blacken Lf = Lf"
| "blacken (Nd l c a r) = Nd l B a r"

fun ccol :: "ctx list \<Rightarrow> colour" where
  "ccol [] = B"
| "ccol (CL c a r # k) = c"
| "ccol (CR l c a # k) = c"

definition same_rest :: "'a rb_heap_scheme \<Rightarrow> 'a rb_heap_scheme \<Rightarrow> bool" where
  "same_rest s s' \<longleftrightarrow> l_next s' = l_next s \<and> l_prev s' = l_prev s \<and> rb_heap.more s' = rb_heap.more s"

definition insert_pre :: "addr \<Rightarrow> ctx list \<Rightarrow> rbt \<Rightarrow> addr \<Rightarrow> rbt \<Rightarrow> 'a rb_heap_scheme \<Rightarrow> bool" where
  "insert_pre root k a n b s \<longleftrightarrow>
     rb_tree root (plug k (Nd a R n b)) s \<and> invh (plug k (Nd a R n b)) \<and> invc (plug k (Nd a B n b)) \<and>
     colour_of a = B \<and> colour_of b = B \<and> colour_of (plug k (Nd a B n b)) = B"

definition insert_post :: "addr \<Rightarrow> addr list \<Rightarrow> 'a rb_heap_scheme \<Rightarrow> 'a rb_heap_scheme \<Rightarrow> bool" where
  "insert_post root xs s s' \<longleftrightarrow>
     (\<exists>T. rb_tree root T s' \<and> inorder T = xs \<and> invh T \<and> invc (blacken T)) \<and> same_rest s s'"

definition mk :: "bool \<Rightarrow> rbt \<Rightarrow> colour \<Rightarrow> addr \<Rightarrow> rbt \<Rightarrow> rbt" where
  "mk d x c a y = (if d then Nd x c a y else Nd y c a x)"

definition ctx1 :: "bool \<Rightarrow> colour \<Rightarrow> addr \<Rightarrow> rbt \<Rightarrow> ctx" where
  "ctx1 d c a y = (if d then CL c a y else CR y c a)"

definition child :: "bool \<Rightarrow> 'a rb_heap_scheme \<Rightarrow> addr \<Rightarrow> addr" where
  "child d s a = (if d then rb_left s a else rb_right s a)"

subsection \<open>Lemmas\<close>

lemma not_R [simp]: "c \<noteq> R \<longleftrightarrow> c = B" "c \<noteq> B \<longleftrightarrow> c = R"
  by (cases c; simp)+

lemma invc_sub: "invc (plug k t) \<Longrightarrow> invc t"
  by (induction k t rule: plug.induct) auto

lemma invc_plug:
  "invc (plug k t) \<Longrightarrow> invc t' \<Longrightarrow> colour_of t' = B \<or> colour_of t' = colour_of t \<Longrightarrow> invc (plug k t')"
proof (induction k t arbitrary: t' rule: plug.induct)
  case (2 c a r k t)
  have "invc (Nd t c a r)" using invc_sub [of k "Nd t c a r"] "2.prems"(1) by simp
  then have "invc (plug k (Nd t' c a r))" using "2.prems" by - (rule "2.IH", auto)
  then show ?case by simp
next
  case (3 l c a k t)
  have "invc (Nd l c a t)" using invc_sub [of k "Nd l c a t"] "3.prems"(1) by simp
  then have "invc (plug k (Nd l c a t'))" using "3.prems" by - (rule "3.IH", auto)
  then show ?case by simp
qed simp

lemma invh_sub: "invh (plug k t) \<Longrightarrow> invh t"
  by (induction k t rule: plug.induct) auto

lemma invh_plug: "invh (plug k t) \<Longrightarrow> invh t' \<Longrightarrow> blacks t' = blacks t \<Longrightarrow> invh (plug k t')"
proof (induction k t arbitrary: t' rule: plug.induct)
  case (2 c a r k t)
  have "invh (Nd t c a r)" using invh_sub [of k "Nd t c a r"] "2.prems"(1) by simp
  then have "invh (plug k (Nd t' c a r))" using "2.prems" by - (rule "2.IH", auto)
  then show ?case by simp
next
  case (3 l c a k t)
  have "invh (Nd l c a t)" using invh_sub [of k "Nd l c a t"] "3.prems"(1) by simp
  then have "invh (plug k (Nd l c a t'))" using "3.prems" by - (rule "3.IH", auto)
  then show ?case by simp
qed simp

lemma inorder_plug: "inorder t = inorder t' \<Longrightarrow> inorder (plug k t) = inorder (plug k t')"
  by (induction k t arbitrary: t' rule: plug.induct) auto

lemma colour_plug: "k \<noteq> [] \<Longrightarrow> colour_of (plug k t) = colour_of (plug k t')"
proof (induction k t arbitrary: t' rule: plug.induct)
  case (2 c a r k t)
  then show ?case by (cases "k = []") auto
next
  case (3 l c a k t)
  then show ?case by (cases "k = []") auto
qed simp

lemma plug_parent_read:
  "rb_tree root (plug k t) s \<Longrightarrow> k \<noteq> [] \<Longrightarrow> cptr k \<noteq> NULL \<and> (rb_is_red (cptr k) s \<longleftrightarrow> ccol k = R)"
  by (cases k rule: ctx_nodes.cases) (auto dest: rb_tree_reads)

lemma insert_loop_exit:
  assumes "rb_tree root (plug k (Nd a c n b)) s" "ccol k = B"
  shows "rb_insert_color_loop n root s = Some s"
  using rb_tree_reads(1) [OF assms(1)] plug_parent_read [OF assms(1)] assms(2)
  by (subst rb_insert_color_loop.simps) (cases k; auto)

lemma same_rest_refl [simp]: "same_rest s s" by (simp add: same_rest_def)

lemma same_rest_fields:
  "same_rest s (set_left r v s')  \<longleftrightarrow> same_rest s s'"
  "same_rest s (set_right r v s')  \<longleftrightarrow> same_rest s s'"
  "same_rest s (set_root r v s')  \<longleftrightarrow> same_rest s s'"
  "same_rest s (set_parent_color r v s')  \<longleftrightarrow> same_rest s s'"
  by (simp_all add: same_rest_def set_left_def set_right_def set_root_def set_parent_color_def)

lemma same_rest_ops [simp]:
  "same_rest s (rb_set_parent r v s') \<longleftrightarrow> same_rest s s'"
  "same_rest s (rb_set_black r s') \<longleftrightarrow> same_rest s s'"
  "same_rest s (rb_set_red r s') \<longleftrightarrow> same_rest s s'"
  "same_rest s (rb_set_color r v s') \<longleftrightarrow> same_rest s s'"
  "same_rest s (rb_rotate_left r v s') \<longleftrightarrow> same_rest s s'"
  "same_rest s (rb_rotate_right r v s') \<longleftrightarrow> same_rest s s'"
  by (simp_all add: rb_set_parent_def rb_set_black_def rb_set_red_def rb_set_color_def rb_rotate_left_def
      rb_rotate_right_def same_rest_fields Let_def)

lemma same_rest_trans: "same_rest s s1 \<Longrightarrow> same_rest s1 s2 \<Longrightarrow> same_rest s s2"
  by (simp add: same_rest_def)

lemma insert_pre_blacken:
  assumes "insert_pre root k a n b s" "ccol k = B"
  shows "invc (blacken (plug k (Nd a R n b)))"
proof (cases "k = []")
  case True
  then show ?thesis using assms by (simp add: insert_pre_def)
next
  case False
  have "invc (plug k (Nd a R n b))"
  proof (cases k rule: ctx_nodes.cases)
    case (2 c p r k')
    have i: "invc (plug k' (Nd (Nd a B n b) B p r))" using assms 2 by (simp add: insert_pre_def)
    show ?thesis using 2 assms invc_sub [OF i] by (auto simp: insert_pre_def intro: invc_plug [OF i])
  next
    case (3 l c p k')
    have i: "invc (plug k' (Nd l B p (Nd a B n b)))" using assms 3 by (simp add: insert_pre_def)
    show ?thesis using 3 assms invc_sub [OF i] by (auto simp: insert_pre_def intro: invc_plug [OF i])
  qed (use False in simp)
  moreover have "blacken t = t" if "colour_of t = B" for t using that by (cases t) auto
  ultimately show ?thesis
    using assms(1) colour_plug [OF False, of "Nd a R n b" "Nd a B n b"] by (simp add: insert_pre_def)
qed

lemma insert_loop_stop:
  assumes "insert_pre root k a n b s" "ccol k = B"
  shows "\<exists>s'. rb_insert_color_loop n root s = Some s' \<and> insert_post root (inorder (plug k (Nd a R n b))) s s'"
proof -
  have t: "rb_tree root (plug k (Nd a R n b)) s" "invh (plug k (Nd a R n b))" using assms(1) by (auto simp: insert_pre_def)
  show ?thesis
    using insert_loop_exit [OF t(1) assms(2)] insert_pre_blacken [OF assms] t by (auto simp: insert_post_def)
qed

lemma plug_ctx1 [simp]: "plug (ctx1 d c a y # k) x = plug k (mk d x c a y)"
  by (simp add: ctx1_def mk_def)

lemma cptr_ctx1 [simp]: "cptr (ctx1 d c a y # k) = a" by (simp add: ctx1_def)

lemma ccol_ctx1 [simp]: "ccol (ctx1 d c a y # k) = c" by (simp add: ctx1_def)

lemma mk_simps [simp]:
  "colour_of (mk d x c a y) = c" "invc (mk d x c a y) \<longleftrightarrow> invc x \<and> invc y \<and> (c = R \<longrightarrow> colour_of x = B \<and> colour_of y = B)"
  "invh (mk d x c a y) \<longleftrightarrow> invh x \<and> invh y \<and> blacks x = blacks y"
  "rptr (mk d x c a y) = a"
  by (auto simp: mk_def)

lemma blacks_mk: "blacks x = blacks y \<Longrightarrow> blacks (mk d x c a y) = blacks x + (if c = B then 1 else 0)"
  by (auto simp: mk_def)

lemma inorder_mk: "inorder x = inorder x' \<Longrightarrow> inorder y = inorder y' \<Longrightarrow> inorder (mk d x c a y) = inorder (mk d x' c' a y')"
  by (auto simp: mk_def)

lemma mk_reads:
  assumes "rb_tree root (plug k (mk d x c a y)) s"
  shows "rb_parent a s = cptr k" "child d s a = rptr x" "child (\<not> d) s a = rptr y"
    "rb_is_red a s \<longleftrightarrow> c = R" "a \<noteq> NULL"
  using assms rb_tree_reads [of root k _ c a _ s] by (cases d; force simp: mk_def child_def)+

lemma mk_set_black: "rb_tree root (plug k (mk d x c a y)) s \<Longrightarrow> rb_tree root (plug k (mk d x B a y)) (rb_set_black a s)"
  by (cases d) (auto simp: mk_def intro: rb_tree_set_black)

lemma mk_set_red: "rb_tree root (plug k (mk d x c a y)) s \<Longrightarrow> rb_tree root (plug k (mk d x R a y)) (rb_set_red a s)"
  by (cases d) (auto simp: mk_def intro: rb_tree_set_red)

lemma mk_flip: "mk d x c a y = mk (\<not> d) y c a x" by (simp add: mk_def)

lemma mk_child_differs:
  assumes "rb_tree root (plug k (mk d x c a y)) s" "x \<noteq> Lf"
  shows "rptr x \<noteq> rptr y"
proof
  assume e: "rptr x = rptr y"
  obtain l c2 m r where x: "x = Nd l c2 m r" using assms(2) by (cases x) auto
  have "rb_tree root (plug (ctx1 d c a y # k) (Nd l c2 m r)) s" using assms(1) x by simp
  then have "m \<noteq> NULL" and "set (ctx_nodes (ctx1 d c a y # k)) \<inter> set (inorder x) = {}"
    using rb_tree_reads(7) x unfolding rb_tree_split by blast+
  then show False using e x rptr_mem [of y] by (auto simp: ctx1_def split: if_splits)
qed

lemma mk_uncle:
  assumes "rb_tree root (plug k (mk d x c a y)) s"
  shows "rptr y \<noteq> NULL \<and> rb_is_red (rptr y) s \<longleftrightarrow> colour_of y = R"
proof (cases y)
  case (Nd l c2 m r)
  then have t: "rb_tree root (plug (ctx1 (\<not> d) c a x # k) (Nd l c2 m r)) s" using assms by (simp add: mk_flip [of "\<not> d"])
  show ?thesis using Nd rb_tree_reads [OF t] by auto
qed simp

lemma mk_rotate:
  assumes "rb_tree root (plug k (mk d (mk d x c2 m y) c a z)) s"
  shows "rb_tree root (plug k (mk d x c2 m (mk d y c a z))) ((if d then rb_rotate_right else rb_rotate_left) a root s)"
  using assms by (cases d) (auto simp: mk_def intro: rb_tree_rotate_left rb_tree_rotate_right)

lemma insert_loop_step:
  assumes "rb_tree root (plug k2 (mk d2 (mk d1 (Nd a R n b) R p d) B g u)) s"
  shows "rb_insert_color_loop n root s =
    (if colour_of u = R then rb_insert_color_loop g root (rb_set_red g (rb_set_black p (rb_set_black (rptr u) s)))
     else
       (let (p', n', s1) = (if d1 = d2 then (p, n, s)
                            else (n, p, (if d2 then rb_rotate_left else rb_rotate_right) p root s))
        in rb_insert_color_loop n' root ((if d2 then rb_rotate_right else rb_rotate_left) g root (rb_set_red g (rb_set_black p' s1)))))"
proof -
  note rg = mk_reads [OF assms]
  have tp: "rb_tree root (plug (ctx1 d2 B g u # k2) (mk d1 (Nd a R n b) R p d)) s" using assms by simp
  note rp = mk_reads [OF tp]
  have tn: "rb_tree root (plug (ctx1 d1 R p d # ctx1 d2 B g u # k2) (Nd a R n b)) s" using assms by simp
  note rn = rb_tree_reads [OF tn]
  have pu: "p \<noteq> rptr u" using mk_child_differs [OF assms] by (cases d1) (auto simp: mk_def)
  have nd: "n \<noteq> rptr d" using mk_child_differs [OF tp] by simp
  note un = mk_uncle [OF assms]
  show ?thesis
    using rg rp rn pu nd un
    by (subst rb_insert_color_loop.simps, cases d2; cases d1) (simp_all add: child_def Let_def)
qed

text \<open>One round of the loop, for the red uncle and for the black one.\<close>

lemma insert_pre_mk:
  "insert_pre root (ctx1 d1 R p d # ctx1 d2 B g u # k2) a n b s \<longleftrightarrow>
     rb_tree root (plug k2 (mk d2 (mk d1 (Nd a R n b) R p d) B g u)) s \<and>
     invh (plug k2 (mk d2 (mk d1 (Nd a R n b) R p d) B g u)) \<and>
     invc (plug k2 (mk d2 (mk d1 (Nd a B n b) R p d) B g u)) \<and>
     colour_of a = B \<and> colour_of b = B \<and> colour_of (plug k2 (mk d2 (mk d1 (Nd a B n b) R p d) B g u)) = B"
  by (simp add: insert_pre_def)

lemma colour_plug_black: "colour_of (plug k t) = B \<Longrightarrow> colour_of t' = B \<Longrightarrow> colour_of (plug k t') = B"
  by (cases "k = []") (auto, metis colour_plug)

lemma insert_push:
  assumes pre: "insert_pre root (ctx1 d1 R p d # ctx1 d2 B g u # k2) a n b s" and u: "colour_of u = R"
  shows "\<exists>A U s1. insert_pre root k2 A g U s1 \<and> same_rest s s1 \<and>
    rb_insert_color_loop n root s = rb_insert_color_loop g root s1 \<and>
    inorder (plug k2 (Nd A R g U)) = inorder (plug (ctx1 d1 R p d # ctx1 d2 B g u # k2) (Nd a R n b))"
proof -
  obtain u1 uu u2 where u: "u = Nd u1 R uu u2" using u by (cases u) auto
  let ?N = "Nd a R n b" and ?U = "Nd u1 B uu u2"
  note pre = pre [unfolded insert_pre_mk]
  have t: "rb_tree root (plug k2 (mk d2 (mk d1 ?N R p d) B g u)) s" using pre by simp
  define s1 where "s1 = rb_set_red g (rb_set_black p (rb_set_black uu s))"
  have "rb_tree root (plug (ctx1 (\<not> d2) B g (mk d1 ?N R p d) # k2) u) s" using t by (simp add: mk_flip [of d2])
  then have "rb_tree root (plug (ctx1 (\<not> d2) B g (mk d1 ?N R p d) # k2) ?U) (rb_set_black uu s)"
    unfolding u by (rule rb_tree_set_black)
  then have "rb_tree root (plug (ctx1 d2 B g ?U # k2) (mk d1 ?N R p d)) (rb_set_black uu s)"
    by (simp add: mk_flip [of d2])
  then have "rb_tree root (plug (ctx1 d2 B g ?U # k2) (mk d1 ?N B p d)) (rb_set_black p (rb_set_black uu s))"
    by (rule mk_set_black)
  then have t1: "rb_tree root (plug k2 (mk d2 (mk d1 ?N B p d) R g ?U)) s1"
    unfolding s1_def plug_ctx1 by (rule mk_set_red)
  obtain A V where AV: "mk d2 (mk d1 ?N B p d) c g ?U = Nd A c g V" "colour_of A = B" "colour_of V = B" for c
    by (cases d2) (auto simp: mk_def)
  have "insert_pre root k2 A g V s1"
    unfolding insert_pre_def AV(1) [symmetric]
  proof (intro conjI)
    show "invh (plug k2 (mk d2 (mk d1 ?N B p d) R g ?U))"
      by (rule invh_plug [OF conjunct1 [OF conjunct2 [OF pre]]])
        (use invh_sub [OF conjunct1 [OF conjunct2 [OF pre]]] u in \<open>auto simp: blacks_mk\<close>)
    show "invc (plug k2 (mk d2 (mk d1 ?N B p d) B g ?U))"
      by (rule invc_plug [of _ "mk d2 (mk d1 (Nd a B n b) R p d) B g u"]) (use pre invc_sub [of k2] u in fastforce)+
    show "colour_of (plug k2 (mk d2 (mk d1 ?N B p d) B g ?U)) = B"
      by (rule colour_plug_black) (use pre in auto)
  qed (use t1 AV in auto)
  moreover have "inorder (plug k2 (Nd A R g V)) = inorder (plug k2 (mk d2 (mk d1 ?N R p d) B g u))"
    unfolding AV(1) [symmetric] by (rule inorder_plug) (auto simp: u intro!: inorder_mk)
  moreover have "rb_insert_color_loop n root s = rb_insert_color_loop g root s1"
    using insert_loop_step [OF t] u by (simp add: s1_def)
  moreover have "same_rest s s1" by (simp add: s1_def)
  ultimately show ?thesis by auto
qed

lemma inorder_mk_rotate: "inorder (mk d x c2 m (mk d y c a z)) = inorder (mk d (mk d x c2' m y) c' a z)"
  by (simp add: mk_def)

lemma insert_post_trans: "insert_post root xs s1 s' \<Longrightarrow> same_rest s s1 \<Longrightarrow> xs = ys \<Longrightarrow> insert_post root ys s s'"
  by (auto simp: insert_post_def intro: same_rest_trans)

text \<open>After the last rotation the loop stops at a red node below a black parent.\<close>

lemma insert_rotated:
  assumes t: "rb_tree root (plug k2 (mk d2 (mk d2 N B p y) R g u)) s1" "N = Nd a R n b"
    and h: "invh (plug k2 t0)" "blacks t0 = blacks N + 1" and c: "invc (plug k2 t0')" "colour_of t0' = B"
    and cr: "colour_of (plug k2 t0') = B"
    and sub: "invc a" "invc b" "invc y" "invc u" "colour_of a = B" "colour_of b = B" "colour_of y = B" "colour_of u = B"
    and hs: "invh N" "invh y" "invh u" "blacks y = blacks N" "blacks u = blacks N"
  shows "\<exists>s'. rb_insert_color_loop n root ((if d2 then rb_rotate_right else rb_rotate_left) g root s1) = Some s' \<and>
    insert_post root (inorder (plug k2 (mk d2 (mk d2 N B p y) R g u))) s1 s'"
proof -
  let ?k = "ctx1 d2 B p (mk d2 y R g u) # k2"
  let ?s = "(if d2 then rb_rotate_right else rb_rotate_left) g root s1"
  have r: "rb_tree root (plug k2 (mk d2 N B p (mk d2 y R g u))) ?s" using mk_rotate [OF t(1)] .
  have "insert_pre root ?k a n b ?s"
    unfolding insert_pre_def
  proof (intro conjI)
    show "rb_tree root (plug ?k (Nd a R n b)) ?s" using r t(2) by simp
    have "invh (plug k2 (mk d2 N B p (mk d2 y R g u)))"
      by (rule invh_plug [OF h(1)]) (use hs h(2) in \<open>auto simp: blacks_mk\<close>)
    then show "invh (plug ?k (Nd a R n b))" using t(2) by simp
    have "invc (plug k2 (mk d2 (Nd a B n b) B p (mk d2 y R g u)))"
      by (rule invc_plug [OF c(1)]) (use sub in auto)
    then show "invc (plug ?k (Nd a B n b))" by simp
    show "colour_of (plug ?k (Nd a B n b)) = B"
      unfolding plug_ctx1 by (rule colour_plug_black [OF cr]) simp
  qed (use sub in auto)
  then obtain s' where s': "rb_insert_color_loop n root ?s = Some s'" "insert_post root (inorder (plug ?k (Nd a R n b))) ?s s'"
    using insert_loop_stop [of root ?k a n b ?s] by auto
  have "inorder (plug ?k (Nd a R n b)) = inorder (plug k2 (mk d2 (mk d2 N B p y) R g u))"
    unfolding plug_ctx1 t(2) [symmetric] by (rule inorder_plug) (rule inorder_mk_rotate)
  moreover have "same_rest s1 ?s" by simp
  ultimately show ?thesis using s'(1) insert_post_trans [OF s'(2)] by blast
qed

lemma insert_rotate:
  assumes pre: "insert_pre root (ctx1 d1 R p d # ctx1 d2 B g u # k2) a n b s" and u: "colour_of u = B"
  shows "\<exists>s'. rb_insert_color_loop n root s = Some s' \<and>
    insert_post root (inorder (plug (ctx1 d1 R p d # ctx1 d2 B g u # k2) (Nd a R n b))) s s'"
proof -
  let ?N = "Nd a R n b"
  note pre = pre [unfolded insert_pre_mk]
  have t: "rb_tree root (plug k2 (mk d2 (mk d1 ?N R p d) B g u)) s" and h: "invh (plug k2 (mk d2 (mk d1 ?N R p d) B g u))"
    and c: "invc (plug k2 (mk d2 (mk d1 (Nd a B n b) R p d) B g u))"
    and cr: "colour_of (plug k2 (mk d2 (mk d1 (Nd a B n b) R p d) B g u)) = B" and ab: "colour_of a = B" "colour_of b = B"
    using pre by auto
  have sub: "invc a" "invc b" "invc d" "invc u" "colour_of d = B" using invc_sub [OF c] by auto
  have hs: "invh a" "invh b" "blacks a = blacks b" "invh d" "blacks d = blacks a" "invh u" "blacks u = blacks a"
    using invh_sub [OF h] by (auto simp: blacks_mk)
  have bl: "blacks (mk d2 (mk d1 ?N R p d) B g u) = blacks a + 1"
    using hs by (simp add: blacks_mk)
  note step = insert_loop_step [OF t]
  show ?thesis
  proof (cases "d1 = d2")
    case True
    define s1 where "s1 = rb_set_red g (rb_set_black p s)"
    have "rb_tree root (plug (ctx1 d2 B g u # k2) (mk d2 ?N R p d)) s" using t True by simp
    then have "rb_tree root (plug (ctx1 d2 B g u # k2) (mk d2 ?N B p d)) (rb_set_black p s)" by (rule mk_set_black)
    then have t1: "rb_tree root (plug k2 (mk d2 (mk d2 ?N B p d) R g u)) s1"
      unfolding s1_def plug_ctx1 by (rule mk_set_red)
    have "\<exists>s'. rb_insert_color_loop n root ((if d2 then rb_rotate_right else rb_rotate_left) g root s1) = Some s' \<and>
        insert_post root (inorder (plug k2 (mk d2 (mk d2 ?N B p d) R g u))) s1 s'"
      by (rule insert_rotated [OF t1 refl h _ c _ cr]) (use bl sub hs ab u in auto)
    then obtain s' where s': "rb_insert_color_loop n root s = Some s'"
        "insert_post root (inorder (plug k2 (mk d2 (mk d2 ?N B p d) R g u))) s1 s'"
      using step True u by (auto simp: s1_def)
    have "inorder (plug k2 (mk d2 (mk d2 ?N B p d) R g u)) = inorder (plug k2 (mk d2 (mk d2 ?N R p d) B g u))"
      by (rule inorder_plug) (auto intro!: inorder_mk)
    moreover have "same_rest s s1" by (simp add: s1_def)
    ultimately show ?thesis using s'(1) insert_post_trans [OF s'(2)] True by simp
  next
    case False
    then have d1: "d1 = (\<not> d2)" by auto
    define x y where "x = (if d2 then b else a)" and "y = (if d2 then a else b)"
    have N: "?N = mk (\<not> d2) x R n y" by (simp add: mk_def x_def y_def)
    obtain a' b' where N': "mk d2 d R p y = Nd a' R p b'" by (cases d2) (auto simp: mk_def)
    have xy: "invc x" "invc y" "colour_of x = B" "colour_of y = B" "invh x" "invh y" "blacks x = blacks a" "blacks y = blacks a"
      using sub ab hs by (auto simp: x_def y_def)
    have ab': "invc a'" "invc b'" "colour_of a' = B" "colour_of b' = B" "invh (Nd a' R p b')" "blacks (Nd a' R p b') = blacks a"
      using N' sub xy hs by (cases d2; auto simp: mk_def)+
    define s0 where "s0 = (if d2 then rb_rotate_left else rb_rotate_right) p root s"
    define s1 where "s1 = rb_set_red g (rb_set_black n s0)"
    have "rb_tree root (plug (ctx1 d2 B g u # k2) (mk (\<not> d2) (mk (\<not> d2) x R n y) R p d)) s" using t d1 N by simp
    from mk_rotate [OF this]
    have "rb_tree root (plug (ctx1 d2 B g u # k2) (mk d2 (mk d2 d R p y) R n x)) s0"
      by (cases d2) (simp_all add: s0_def mk_def del: plug_ctx1)
    then have "rb_tree root (plug (ctx1 d2 B g u # k2) (mk d2 (mk d2 d R p y) B n x)) (rb_set_black n s0)" by (rule mk_set_black)
    then have t1: "rb_tree root (plug k2 (mk d2 (mk d2 (mk d2 d R p y) B n x) R g u)) s1"
      unfolding s1_def plug_ctx1 by (rule mk_set_red)
    have "\<exists>s'. rb_insert_color_loop p root ((if d2 then rb_rotate_right else rb_rotate_left) g root s1) = Some s' \<and>
        insert_post root (inorder (plug k2 (mk d2 (mk d2 (mk d2 d R p y) B n x) R g u))) s1 s'"
      by (rule insert_rotated [OF t1 N' h _ c _ cr]) (use bl sub hs ab u xy ab' N' in auto)
    then obtain s' where s': "rb_insert_color_loop n root s = Some s'"
        "insert_post root (inorder (plug k2 (mk d2 (mk d2 (mk d2 d R p y) B n x) R g u))) s1 s'"
      using step d1 u by (auto simp: s1_def s0_def)
    have "inorder (plug k2 (mk d2 (mk d2 (mk d2 d R p y) B n x) R g u)) = inorder (plug k2 (mk d2 (mk (\<not> d2) ?N R p d) B g u))"
      unfolding N by (rule inorder_plug) (auto simp: mk_def)
    moreover have "same_rest s s1" by (simp add: s1_def s0_def)
    ultimately show ?thesis using s'(1) insert_post_trans [OF s'(2)] d1 by simp
  qed
qed

lemma ctx1_exhaust: obtains d c a y where "e = ctx1 d c a y"
proof (cases e)
  case (CL c a y)
  then show thesis using that [of True c a y] by (simp add: ctx1_def)
next
  case (CR y c a)
  then show thesis using that [of False c a y] by (simp add: ctx1_def)
qed

lemma insert_ctx_cases:
  assumes "insert_pre root k a n b s" "ccol k = R"
  obtains d1 d2 p d g u k2 where "k = ctx1 d1 R p d # ctx1 d2 B g u # k2"
proof -
  obtain e k1 where k: "k = e # k1" using assms(2) by (cases k) auto
  obtain d1 c p d where e: "e = ctx1 d1 c p d" by (rule ctx1_exhaust)
  have c: "c = R" using assms(2) k e by simp
  have "k1 \<noteq> []" using assms(1) k e c by (auto simp: insert_pre_def)
  then obtain e2 k2 where k1: "k1 = e2 # k2" by (cases k1) auto
  obtain d2 c2 g u where e2: "e2 = ctx1 d2 c2 g u" by (rule ctx1_exhaust)
  have "invc (plug k2 (mk d2 (mk d1 (Nd a B n b) R p d) c2 g u))" using assms(1) k e c k1 e2 by (simp add: insert_pre_def)
  then have "c2 = B" by (auto dest!: invc_sub)
  then show thesis using that k e c k1 e2 by blast
qed

lemma insert_loop_correct:
  "insert_pre root k a n b s \<Longrightarrow>
   \<exists>s'. rb_insert_color_loop n root s = Some s' \<and> insert_post root (inorder (plug k (Nd a R n b))) s s'"
proof (induction "length k" arbitrary: k a n b s rule: less_induct)
  case less
  show ?case
  proof (cases "ccol k")
    case B
    then show ?thesis using insert_loop_stop [OF less.prems] by simp
  next
    case R
    obtain d1 d2 p d g u k2 where k: "k = ctx1 d1 R p d # ctx1 d2 B g u # k2"
      using insert_ctx_cases [OF less.prems R] .
    show ?thesis
    proof (cases "colour_of u")
      case B
      then show ?thesis using insert_rotate less.prems unfolding k by blast
    next
      case R
      obtain A U s1 where "insert_pre root k2 A g U s1" "same_rest s s1"
        "rb_insert_color_loop n root s = rb_insert_color_loop g root s1"
        "inorder (plug k2 (Nd A R g U)) = inorder (plug k (Nd a R n b))"
        using insert_push [OF less.prems [unfolded k] R] unfolding k by blast
      moreover have "length k2 < length k" by (simp add: k)
      ultimately show ?thesis using less.hyps [of k2 A g U s1] insert_post_trans by metis
    qed
  qed
qed

lemma rb_insert_color_tree:
  assumes "insert_pre root k a n b s"
  obtains s' T where "rb_insert_color n root s = Some s'" "rb_tree root T s'" "inorder T = inorder (plug k (Nd a R n b))"
    "invh T" "invc T" "colour_of T = B" "same_rest s s'"
proof -
  obtain s1 T1 where s1: "rb_insert_color_loop n root s = Some s1" "rb_tree root T1 s1" "inorder T1 = inorder (plug k (Nd a R n b))"
    "invh T1" "invc (blacken T1)" "same_rest s s1"
    using insert_loop_correct [OF assms] unfolding insert_post_def by blast
  have "inorder (plug k (Nd a R n b)) \<noteq> []"
    by (metis plug_mset mset_zero_iff inorder.simps(2) append_is_Nil_conv list.distinct(1) union_eq_empty)
  then obtain l c m r where T1: "T1 = Nd l c m r" using s1(3) by (cases T1) auto
  have "rb_root s1 root = m" using rb_tree_reads_root [OF s1(2)] T1 by simp
  moreover have "rb_tree root (Nd l B m r) (rb_set_black m s1)"
    using rb_tree_set_black [of root "[]" l c m r s1] s1(2) T1 by simp
  ultimately show thesis
    using that [of "rb_set_black m s1" "Nd l B m r"] s1 T1 by (simp add: rb_insert_color_def)
qed

end
