(* ===== verification/Rbtree_erase.thy ===== *)
theory Rbtree_erase
  imports Rbtree_insert
begin

section \<open>Deletion keeps red-black trees\<close>

text \<open>
  The loop of \<^verbatim>\<open>__rb_erase_color\<close> starts at a subtree that is one black node short
  (\<open>erase_pre\<close>) and ends in a red-black tree (\<open>erase_loop_correct\<close>). The first half of
  \<^verbatim>\<open>rb_erase\<close> unlinks the node or puts its successor in its place (\<open>erase_unlinks\<close>). Both
  together give \<open>rb_erase_tree\<close>.
\<close>

subsection \<open>Definitions\<close>

fun ctx_h :: "ctx list \<Rightarrow> nat \<Rightarrow> bool" where
  "ctx_h [] h = True"
| "ctx_h (CL c a r # k) h \<longleftrightarrow> invh r \<and> blacks r = h \<and> ctx_h k (h + (if c = B then 1 else 0))"
| "ctx_h (CR l c a # k) h \<longleftrightarrow> invh l \<and> blacks l = h \<and> ctx_h k (h + (if c = B then 1 else 0))"

fun ctx_c :: "ctx list \<Rightarrow> colour \<Rightarrow> bool" where
  "ctx_c [] col = True"
| "ctx_c (CL c a r # k) col \<longleftrightarrow> invc r \<and> (c = R \<longrightarrow> col = B \<and> colour_of r = B) \<and> ctx_c k c"
| "ctx_c (CR l c a # k) col \<longleftrightarrow> invc l \<and> (c = R \<longrightarrow> col = B \<and> colour_of l = B) \<and> ctx_c k c"

definition rot :: "bool \<Rightarrow> addr \<Rightarrow> addr \<Rightarrow> 'a rb_heap_scheme \<Rightarrow> 'a rb_heap_scheme" where
  "rot d = (if d then rb_rotate_left else rb_rotate_right)"

definition erase_rest :: "bool \<Rightarrow> addr \<Rightarrow> addr \<Rightarrow> addr \<Rightarrow> 'a rb_heap_scheme \<Rightarrow> (addr \<times> 'a rb_heap_scheme) option" where
  "erase_rest d p root other s =
     (if null_or_black (rb_left s other) s \<and> null_or_black (rb_right s other) s
      then (let s = rb_set_red other s in rb_erase_color_loop p (rb_parent p s) root s)
      else (let (other, s) =
              (if null_or_black (child (\<not> d) s other) s
               then (let s = rot (\<not> d) other root (rb_set_red other (rb_set_black (child d s other) s)) in (child (\<not> d) s p, s))
               else (other, s));
             s = rb_set_color other (rb_color p s) s;
             s = rb_set_black p s;
             s = rb_set_black (child (\<not> d) s other) s;
             s = rot d p root s
           in Some (rb_root s root, s)))"

definition erase_pre :: "addr \<Rightarrow> ctx list \<Rightarrow> rbt \<Rightarrow> 'a rb_heap_scheme \<Rightarrow> bool" where
  "erase_pre root k t s \<longleftrightarrow>
     rb_tree root (plug k t) s \<and> invh t \<and> invc (blacken t) \<and> ctx_h k (blacks t + 1) \<and> ctx_c k B \<and>
     (k \<noteq> [] \<longrightarrow> colour_of (plug k Lf) = B)"

definition rb_ok :: "addr \<Rightarrow> addr list \<Rightarrow> 'a rb_heap_scheme \<Rightarrow> bool" where
  "rb_ok root xs s \<longleftrightarrow> (\<exists>T. rb_tree root T s \<and> inorder T = xs \<and> invh T \<and> invc T \<and> colour_of T = B)"

definition erase_post :: "addr \<Rightarrow> addr list \<Rightarrow> 'a rb_heap_scheme \<Rightarrow> (addr \<times> 'a rb_heap_scheme) option \<Rightarrow> bool" where
  "erase_post root xs s res \<longleftrightarrow>
     (\<exists>x s1. res = Some (x, s1) \<and> same_rest s s1 \<and> rb_ok root xs (if x \<noteq> NULL then rb_set_black x s1 else s1))"

text \<open>The last rotation: the far nephew is red.\<close>

definition erase_finish :: "bool \<Rightarrow> addr \<Rightarrow> addr \<Rightarrow> addr \<Rightarrow> 'a rb_heap_scheme \<Rightarrow> (addr \<times> 'a rb_heap_scheme) option" where
  "erase_finish d p root other s =
     (let s = rb_set_color other (rb_color p s) s;
          s = rb_set_black p s;
          s = rb_set_black (child (\<not> d) s other) s;
          s = rot d p root s
      in Some (rb_root s root, s))"

fun cpre :: "ctx list \<Rightarrow> addr list" where
  "cpre [] = []"
| "cpre (CL c a r # k) = cpre k"
| "cpre (CR l c a # k) = cpre k @ inorder l @ [a]"

fun csuf :: "ctx list \<Rightarrow> addr list" where
  "csuf [] = []"
| "csuf (CL c a r # k) = a # inorder r @ csuf k"
| "csuf (CR l c a # k) = csuf k"

fun lefts :: "ctx list \<Rightarrow> bool" where
  "lefts [] = True"
| "lefts (CL c a r # k) = lefts k"
| "lefts (CR l c a # k) = False"

text \<open>What is left when a node is unlinked: a tree \<open>t'\<close> in a context, and the colour that is missing.\<close>

definition unlinked :: "addr \<Rightarrow> rbt \<Rightarrow> addr list \<Rightarrow> ctx list \<Rightarrow> rbt \<Rightarrow> colour \<Rightarrow> 'a rb_heap_scheme \<Rightarrow> 'a rb_heap_scheme \<Rightarrow> bool" where
  "unlinked root T xs k' t' c0 s s1 \<longleftrightarrow>
     rb_tree root (plug k' t') s1 \<and> inorder (plug k' t') = xs \<and> same_rest s s1 \<and>
     (invh T \<longrightarrow> invh t' \<and> ctx_h k' (blacks t' + (if c0 = B then 1 else 0))) \<and>
     (invc T \<longrightarrow> invc t' \<and> ctx_c k' c0 \<and> (c0 = R \<longrightarrow> colour_of t' = B)) \<and>
     (colour_of T = B \<longrightarrow> (if k' = [] then c0 = B else colour_of (plug k' Lf) = B))"

subsection \<open>Lemmas\<close>

lemma invh_plug_iff: "invh (plug k t) \<longleftrightarrow> invh t \<and> ctx_h k (blacks t)"
  by (induction k t rule: plug.induct) (auto split: if_splits)

lemma invc_plug_iff: "invc (plug k t) \<longleftrightarrow> invc t \<and> ctx_c k (colour_of t)"
  by (induction k t rule: plug.induct) auto

lemma ctx_ctx1 [simp]:
  "ctx_h (ctx1 d c a y # k) h \<longleftrightarrow> invh y \<and> blacks y = h \<and> ctx_h k (h + (if c = B then 1 else 0))"
  "ctx_c (ctx1 d c a y # k) col \<longleftrightarrow> invc y \<and> (c = R \<longrightarrow> col = B \<and> colour_of y = B) \<and> ctx_c k c"
  by (auto simp: ctx1_def)

lemma ctx_c_black: "ctx_c k c \<Longrightarrow> ctx_c k B"
  by (cases k rule: ctx_nodes.cases) auto

lemma same_rest_rot [simp]: "same_rest s (rot d a root s') \<longleftrightarrow> same_rest s s'"
  by (simp add: rot_def)

lemma mk_rot:
  "rb_tree root (plug k (mk d x c a (mk d y c2 m z))) s \<Longrightarrow> rb_tree root (plug k (mk d (mk d x c a y) c2 m z)) (rot d a root s)"
  using mk_rotate [of root k "\<not> d" z c2 m y c a x s] by (cases d) (simp_all add: rot_def mk_def)

lemma mk_set_color:
  "rb_tree root (plug k (mk d x c a y)) s \<Longrightarrow> rb_tree root (plug k (mk d x c' a y)) (rb_set_color a (cbit c') s)"
  by (cases d) (auto simp: mk_def intro: rb_tree_set_color)

lemma mk_colour: "rb_tree root (plug k (mk d x c a y)) s \<Longrightarrow> rb_color a s = cbit c"
  by (cases d) (auto simp: mk_def dest: rb_tree_reads(4))

lemma mk_subtree_black:
  "rb_tree root (plug k (mk d x c a y)) s \<Longrightarrow> null_or_black (rptr x) s \<longleftrightarrow> colour_of x = B"
  "rb_tree root (plug k (mk d x c a y)) s \<Longrightarrow> null_or_black (rptr y) s \<longleftrightarrow> colour_of y = B"
  using mk_uncle [of root k d x c a y s] mk_uncle [of root k "\<not> d" y c a x s]
  by (auto simp: mk_flip [of "\<not> d"] null_or_black_def rb_is_black_def rb_is_red_def)

lemma rptr_plug: "k \<noteq> [] \<Longrightarrow> rptr (plug k t) \<in> set (ctx_nodes k)"
proof (induction k t rule: plug.induct)
  case (2 c a r k t)
  then show ?case by (cases "k = []") auto
next
  case (3 l c a k t)
  then show ?case by (cases "k = []") auto
qed simp

lemma rb_rep_null: "rb_rep p t x s \<Longrightarrow> NULL \<notin> set (inorder t)"
  by (induction t arbitrary: p x) (auto dest: node_ok_reads(5))

lemma rb_tree_root_differs:
  assumes t: "rb_tree root (plug k t) s" and "k \<noteq> []"
  shows "rptr t \<noteq> rb_root s root"
proof -
  have r: "rb_root s root = rptr (plug k t)" by (rule rb_tree_reads_root [OF t])
  have m: "rptr (plug k t) \<in> set (ctx_nodes k)" using rptr_plug assms(2) .
  then have "rptr (plug k t) \<in> set (inorder (plug k t))" using plug_mset [of k t] by (metis mset_eq_setD set_append mset_append UnI1)
  then have "rptr (plug k t) \<noteq> NULL" using t rb_rep_null unfolding rb_tree_def by metis
  moreover have "set (ctx_nodes k) \<inter> set (inorder t) = {}" using t unfolding rb_tree_split by simp
  ultimately show ?thesis using r m rptr_mem [of t] by (metis disjoint_iff)
qed

lemma erase_loop_step:
  assumes t: "rb_tree root (plug k (mk d t c p w)) s" and b: "colour_of t = B" and w: "w \<noteq> Lf"
  shows "rb_erase_color_loop (rptr t) p root s =
    (if colour_of w = R
     then (let s = rot d p root (rb_set_red p (rb_set_black (rptr w) s)) in erase_rest d p root (child (\<not> d) s p) s)
     else erase_rest d p root (rptr w) s)"
proof -
  note r = mk_reads [OF t]
  have flip: "rb_tree root (plug k (mk (\<not> d) w c p t)) s" using t by (simp add: mk_flip [of "\<not> d"])
  have wt: "rptr w \<noteq> rptr t" by (rule mk_child_differs [OF flip w])
  have wn: "rptr w \<noteq> NULL" "rb_is_red (rptr w) s \<longleftrightarrow> colour_of w = R"
    using mk_uncle [OF t] w flip rb_tree_reads(7) [of root "ctx1 (\<not> d) c p t # k" _ _ "rptr w" _ s] by (cases w; auto)+
  have root: "rptr t \<noteq> rb_root s root"
    using rb_tree_root_differs [of root "ctx1 d c p w # k" t s] t by simp
  have nb: "null_or_black (rptr t) s" using mk_subtree_black(1) [OF t] b by simp
  show ?thesis
    using r wt wn root nb
    by (subst rb_erase_color_loop.simps, cases d) (simp_all add: child_def Let_def erase_rest_def rot_def)
qed

lemma blacken_simps [simp]: "inorder (blacken t) = inorder t" "invh (blacken t) \<longleftrightarrow> invh t" "colour_of (blacken t) = B" "rptr (blacken t) = rptr t"
  by (cases t; simp)+

lemma blacks_blacken: "blacks (blacken t) = blacks t + (if colour_of t = R then 1 else 0)"
  by (cases t) auto

lemma invc_blacken: "invc t \<Longrightarrow> invc (blacken t)"
  by (cases t) auto

lemma blacken_id: "colour_of t = B \<Longrightarrow> blacken t = t"
  by (cases t) auto

lemma rb_tree_blacken: "rb_tree root (plug k t) s \<Longrightarrow> t \<noteq> Lf \<Longrightarrow> rb_tree root (plug k (blacken t)) (rb_set_black (rptr t) s)"
  by (cases t) (auto intro: rb_tree_set_black)

lemma rptr_null: "rb_tree root (plug k t) s \<Longrightarrow> rptr t = NULL \<longleftrightarrow> t = Lf"
  by (cases t) (auto dest: rb_tree_reads(7))

lemma erase_exit:
  assumes pre: "erase_pre root k t s" and e: "k = [] \<or> colour_of t = R"
  shows "erase_post root (inorder (plug k t)) s (rb_erase_color_loop (rptr t) (cptr k) root s)"
proof -
  have t: "rb_tree root (plug k t) s" using pre by (simp add: erase_pre_def)
  have "\<not> null_or_black (rptr t) s \<or> rptr t = rb_root s root"
  proof (cases "k = []")
    case True
    then show ?thesis using rb_tree_reads_root [of root t s] t by simp
  next
    case False
    then obtain l n r where "t = Nd l R n r" using e by (cases t) auto
    then show ?thesis using rb_tree_reads [of root k l R n r s] t by (auto simp: null_or_black_def)
  qed
  then have eq: "rb_erase_color_loop (rptr t) (cptr k) root s = Some (rptr t, s)"
    by (subst rb_erase_color_loop.simps) auto
  have "colour_of (plug k (blacken t)) = B"
    using pre colour_plug [of k "blacken t" Lf] by (cases "k = []") (auto simp: erase_pre_def)
  moreover have "invh (plug k (blacken t))"
    using pre e by (auto simp: erase_pre_def invh_plug_iff blacks_blacken)
  moreover have "invc (plug k (blacken t))" using pre by (simp add: erase_pre_def invc_plug_iff)
  moreover have "rb_tree root (plug k (blacken t)) (if rptr t \<noteq> NULL then rb_set_black (rptr t) s else s)"
    using rb_tree_blacken [OF t] t rptr_null [OF t] by (cases "t = Lf") auto
  moreover have "inorder (plug k (blacken t)) = inorder (plug k t)" by (rule inorder_plug) simp
  ultimately show ?thesis unfolding eq erase_post_def rb_ok_def by auto
qed

lemma erase_finish_correct:
  assumes t: "rb_tree root (plug k (mk d t c p (mk d x cm m y))) s" and y: "colour_of y = R"
    and h: "invh t" "invh x" "invh y" "blacks x = blacks t" "blacks y = blacks t" "ctx_h k (blacks t + 1 + (if c = B then 1 else 0))"
    and c: "invc t" "invc x" "invc y" "ctx_c k c" "c = R \<longrightarrow> colour_of t = B"
  shows "erase_post root (inorder (plug k (mk d t c p (mk d x cm m y)))) s (erase_finish d p root m s)"
proof -
  obtain l q r where yq: "y = Nd l R q r" using y by (cases y) auto
  define s1 where "s1 = rb_set_color m (cbit c) s"
  define s2 where "s2 = rb_set_black p s1"
  define s3 where "s3 = rb_set_black q s2"
  define s4 where "s4 = rot d p root s3"
  have "rb_tree root (plug (ctx1 (\<not> d) c p t # k) (mk d x cm m y)) s" using t by (simp add: mk_flip [of "\<not> d"])
  then have "rb_tree root (plug (ctx1 (\<not> d) c p t # k) (mk d x c m y)) s1" unfolding s1_def by (rule mk_set_color)
  then have "rb_tree root (plug k (mk d t c p (mk d x c m y))) s1" by (simp add: mk_flip [of "\<not> d"])
  then have t2: "rb_tree root (plug k (mk d t B p (mk d x c m y))) s2" unfolding s2_def by (rule mk_set_black)
  then have "rb_tree root (plug (ctx1 (\<not> d) c m x # ctx1 (\<not> d) B p t # k) y) s2" by (simp add: mk_flip [of "\<not> d"])
  note t2y = this
  then have "rb_tree root (plug (ctx1 (\<not> d) c m x # ctx1 (\<not> d) B p t # k) (Nd l B q r)) s3"
    unfolding s3_def yq by (rule rb_tree_set_black)
  then have "rb_tree root (plug k (mk d t B p (mk d x c m (blacken y)))) s3" by (simp add: mk_flip [of "\<not> d"] yq)
  then have t4: "rb_tree root (plug k (mk d (mk d t B p x) c m (blacken y))) s4" unfolding s4_def by (rule mk_rot)
  let ?T = "plug k (mk d (mk d t B p x) c m (blacken y))"
  have cp: "rb_color p s = cbit c" by (rule mk_colour [OF t])
  have ch: "child (\<not> d) s2 m = q"
    using mk_reads(3) [of root "ctx1 (\<not> d) B p t # k" d x c m y s2] t2 yq by (simp add: mk_flip [of "\<not> d"])
  have eq: "erase_finish d p root m s = Some (rptr ?T, s4)"
    using rb_tree_reads_root [OF t4] by (simp add: erase_finish_def cp Let_def s1_def [symmetric] s2_def [symmetric] ch
        s3_def [symmetric] s4_def [symmetric])
  have ne: "?T \<noteq> Lf" using rb_tree_reads_root [OF t4] rptr_plug [of k] by (metis inorder.simps(1) mk_def plug_mset
      inorder.simps(2) mset.simps(1) append_is_Nil_conv list.distinct(1) mset_zero_iff union_eq_empty)
  have "rb_tree root (blacken ?T) (rb_set_black (rptr ?T) s4)" using rb_tree_blacken [of root "[]" ?T s4] t4 ne by simp
  moreover have "rptr ?T \<noteq> NULL" using rptr_null [of root "[]" ?T s4] t4 ne by simp
  moreover have "invh ?T" using h y by (simp add: invh_plug_iff blacks_mk blacks_blacken)
  moreover have "invc (blacken ?T)" using c y yq invc_blacken [OF c(3)] by (intro invc_blacken) (simp add: invc_plug_iff)
  moreover have "inorder ?T = inorder (plug k (mk d t c p (mk d x cm m y)))" by (rule inorder_plug) (auto simp: mk_def)
  moreover have "same_rest s s4" by (simp add: s4_def s3_def s2_def s1_def)
  ultimately show ?thesis unfolding eq erase_post_def rb_ok_def by fastforce
qed

lemma erase_post_trans: "erase_post root xs s1 res \<Longrightarrow> same_rest s s1 \<Longrightarrow> xs = ys \<Longrightarrow> erase_post root ys s res"
  unfolding erase_post_def by (metis same_rest_trans)

lemma null_or_black_children:
  assumes "rb_tree root (plug k (mk d x c a y)) s"
  shows "null_or_black (rb_left s a) s \<and> null_or_black (rb_right s a) s \<longleftrightarrow> colour_of x = B \<and> colour_of y = B"
    "null_or_black (child (\<not> d) s a) s \<longleftrightarrow> colour_of y = B"
  using mk_reads [OF assms] mk_subtree_black [OF assms] by (cases d; auto simp: child_def)+

lemma mk_exhaust: "t \<noteq> Lf \<Longrightarrow> \<exists>x y. t = mk d x (colour_of t) (rptr t) y"
  by (cases t; cases d; auto simp: mk_def)

text \<open>A black sibling: either the tree is repaired, or the deficit moves up.\<close>

lemma erase_black_sibling:
  assumes pre: "erase_pre root (ctx1 d c p w # k) t s" and b: "colour_of t = B" and w: "colour_of w = B"
  shows "erase_post root (inorder (plug (ctx1 d c p w # k) t)) s (erase_rest d p root (rptr w) s) \<or>
    (\<exists>t' s1. erase_rest d p root (rptr w) s = rb_erase_color_loop (rptr t') (cptr k) root s1 \<and> erase_pre root k t' s1 \<and>
      same_rest s s1 \<and> inorder (plug k t') = inorder (plug (ctx1 d c p w # k) t) \<and> colour_of t' = c)"
proof -
  have t: "rb_tree root (plug k (mk d t c p w)) s" and h: "invh t" "invh w" "blacks w = blacks t + 1"
      "ctx_h k (blacks t + 1 + (if c = B then 1 else 0))"
    and c: "invc t" "invc w" "ctx_c k c" and cr: "colour_of (plug k (mk d Lf c p w)) = B"
    using pre b blacken_id [OF b] by (auto simp: erase_pre_def)
  have "w \<noteq> Lf" using h(3) by auto
  then obtain x m y where wm: "w = mk d x B m y" using mk_exhaust [of w d] w by auto
  have rw: "rptr w = m" by (simp add: wm)
  have hx: "invh x" "invh y" "blacks x = blacks t" "blacks y = blacks t" using h(2,3) by (auto simp: wm blacks_mk)
  have cx: "invc x" "invc y" using c(2) by (auto simp: wm)
  have tw: "rb_tree root (plug (ctx1 (\<not> d) c p t # k) (mk d x B m y)) s" using t by (simp add: mk_flip [of "\<not> d"] wm)
  note nb = null_or_black_children [OF tw]
  consider (both) "colour_of x = B" "colour_of y = B" | (far) "colour_of y = R" | (near) "colour_of x = R" "colour_of y = B"
    by (cases "colour_of x"; cases "colour_of y"; auto)
  then show ?thesis
  proof cases
    case both
    define s1 where "s1 = rb_set_red m s"
    let ?t = "mk d t c p (mk d x R m y)"
    have "rb_tree root (plug (ctx1 (\<not> d) c p t # k) (mk d x R m y)) s1" unfolding s1_def by (rule mk_set_red [OF tw])
    then have t1: "rb_tree root (plug k ?t) s1" by (simp add: mk_flip [of "\<not> d"])
    have bl: "blacks ?t = blacks t + (if c = B then 1 else 0)" using hx h(1) by (simp add: blacks_mk)
    have "erase_pre root k ?t s1"
      unfolding erase_pre_def
    proof (intro conjI impI)
      show "invh ?t" using h hx by (simp add: blacks_mk)
      show "invc (blacken ?t)" using c cx both by (cases d) (auto simp: mk_def)
      show "ctx_h k (blacks ?t + 1)" using h(4) bl by (simp add: add.commute add.left_commute split: if_splits)
      show "ctx_c k B" using c(3) ctx_c_black by blast
      assume "k \<noteq> []"
      then show "colour_of (plug k Lf) = B" using cr colour_plug by metis
    qed (rule t1)
    moreover have "erase_rest d p root (rptr w) s = rb_erase_color_loop (rptr ?t) (cptr k) root s1"
      using nb both mk_reads(1) [OF t1] by (simp add: erase_rest_def rw s1_def Let_def)
    moreover have "inorder (plug k ?t) = inorder (plug (ctx1 d c p w # k) t)"
      unfolding plug_ctx1 by (rule inorder_plug) (auto simp: mk_def wm)
    ultimately show ?thesis by (intro disjI2 exI [of _ ?t] exI [of _ s1]) (auto simp: s1_def)
  next
    case far
    have "erase_rest d p root (rptr w) s = erase_finish d p root m s"
      using nb far by (auto simp: erase_rest_def erase_finish_def rw)
    moreover have "erase_post root (inorder (plug k (mk d t c p (mk d x B m y)))) s (erase_finish d p root m s)"
      by (rule erase_finish_correct) (use t wm far h hx c cx b in auto)
    ultimately show ?thesis by (simp add: wm)
  next
    case near
    then obtain x1 q x2 where xq: "x = mk d x1 R q x2" using mk_exhaust [of x d] by (cases "x = Lf") auto
    have hq: "invh x1" "invh x2" "blacks x1 = blacks t" "blacks x2 = blacks t" using hx by (auto simp: xq blacks_mk)
    have cq: "invc x1" "invc x2" "colour_of x1 = B" "colour_of x2 = B" using cx by (auto simp: xq)
    define s1 where "s1 = rb_set_red m (rb_set_black q s)"
    define s2 where "s2 = rot (\<not> d) m root s1"
    have q: "child d s m = q" using mk_reads(2) [OF tw] by (simp add: xq)
    have "rb_tree root (plug (ctx1 d B m y # ctx1 (\<not> d) c p t # k) (mk d x1 R q x2)) s" using tw by (simp add: xq)
    then have "rb_tree root (plug (ctx1 d B m y # ctx1 (\<not> d) c p t # k) (mk d x1 B q x2)) (rb_set_black q s)"
      by (rule mk_set_black)
    then have "rb_tree root (plug (ctx1 (\<not> d) c p t # k) (mk d (mk d x1 B q x2) B m y)) (rb_set_black q s)" by simp
    then have "rb_tree root (plug (ctx1 (\<not> d) c p t # k) (mk d (mk d x1 B q x2) R m y)) s1"
      unfolding s1_def by (rule mk_set_red)
    then have "rb_tree root (plug (ctx1 (\<not> d) c p t # k) (mk (\<not> d) y R m (mk (\<not> d) x2 B q x1))) s1"
      by (cases d) (simp_all add: mk_def ctx1_def)
    then have "rb_tree root (plug (ctx1 (\<not> d) c p t # k) (mk (\<not> d) (mk (\<not> d) y R m x2) B q x1)) s2"
      unfolding s2_def by (rule mk_rot)
    then have t2: "rb_tree root (plug k (mk d t c p (mk d x1 B q (mk d x2 R m y)))) s2"
      by (cases d) (simp_all add: mk_def ctx1_def)
    have o: "child (\<not> d) s2 p = q" using mk_reads(3) [OF t2] by simp
    have "erase_rest d p root (rptr w) s = erase_finish d p root q s2"
      using nb near q o by (auto simp: erase_rest_def erase_finish_def rw s1_def [symmetric] s2_def [symmetric] Let_def)
    moreover have "erase_post root (inorder (plug k (mk d t c p (mk d x1 B q (mk d x2 R m y))))) s2 (erase_finish d p root q s2)"
      by (rule erase_finish_correct [OF t2]) (use h hx hq c cx cq near b in \<open>auto simp: blacks_mk\<close>)
    moreover have "inorder (plug k (mk d t c p (mk d x1 B q (mk d x2 R m y)))) = inorder (plug (ctx1 d c p w # k) t)"
      unfolding plug_ctx1 wm xq by (rule inorder_plug) (auto simp: mk_def)
    moreover have "same_rest s s2" by (simp add: s2_def s1_def)
    ultimately show ?thesis using erase_post_trans by metis
  qed
qed

lemma erase_red_sibling:
  assumes pre: "erase_pre root (ctx1 d c p w # k) t s" and b: "colour_of t = B" and w: "colour_of w = R"
  defines "s1 \<equiv> rot d p root (rb_set_red p (rb_set_black (rptr w) s))"
  shows "erase_post root (inorder (plug (ctx1 d c p w # k) t)) s (erase_rest d p root (child (\<not> d) s1 p) s1)"
proof -
  have t: "rb_tree root (plug k (mk d t c p w)) s" and h: "invh t" "invh w" "blacks w = blacks t + 1"
      "ctx_h k (blacks t + 1 + (if c = B then 1 else 0))"
    and c: "invc t" "invc w" "ctx_c k c" and cb: "c = B" and cr: "colour_of (plug k (mk d Lf c p w)) = B"
    using pre b w blacken_id [OF b] by (auto simp: erase_pre_def)
  obtain x m y where wm: "w = mk d x R m y" using mk_exhaust [of w d] w by (cases "w = Lf") auto
  have hx: "invh x" "invh y" "blacks x = blacks t + 1" "blacks y = blacks t + 1" using h(2,3) by (auto simp: wm blacks_mk)
  have cx: "invc x" "invc y" "colour_of x = B" "colour_of y = B" using c(2) by (auto simp: wm)
  have "rb_tree root (plug (ctx1 (\<not> d) c p t # k) (mk d x R m y)) s" using t by (simp add: mk_flip [of "\<not> d"] wm)
  then have "rb_tree root (plug (ctx1 (\<not> d) c p t # k) (mk d x B m y)) (rb_set_black m s)" by (rule mk_set_black)
  then have "rb_tree root (plug k (mk d t c p (mk d x B m y))) (rb_set_black m s)" by (simp add: mk_flip [of "\<not> d"])
  then have "rb_tree root (plug k (mk d t R p (mk d x B m y))) (rb_set_red p (rb_set_black m s))" by (rule mk_set_red)
  then have t1: "rb_tree root (plug (ctx1 d B m y # k) (mk d t R p x)) s1"
    unfolding s1_def plug_ctx1 by (simp add: wm) (rule mk_rot)
  let ?k = "ctx1 d B m y # k"
  have ch: "child (\<not> d) s1 p = rptr x" by (rule mk_reads(3) [OF t1])
  have pre1: "erase_pre root (ctx1 d R p x # ?k) t s1"
    unfolding erase_pre_def
  proof (intro conjI impI)
    show "rb_tree root (plug (ctx1 d R p x # ?k) t) s1" using t1 by simp
    show "ctx_h (ctx1 d R p x # ?k) (blacks t + 1)" using hx h cb by simp
    show "ctx_c (ctx1 d R p x # ?k) B" using cx c cb by simp
    show "colour_of (plug (ctx1 d R p x # ?k) Lf) = B"
      unfolding plug_ctx1 by (rule colour_plug_black [OF cr]) simp
  qed (use h c b blacken_id [OF b] in auto)
  have io: "inorder (plug (ctx1 d R p x # ?k) t) = inorder (plug (ctx1 d c p w # k) t)"
    unfolding plug_ctx1 wm by (rule inorder_plug) (auto simp: mk_def)
  have sr: "same_rest s s1" by (simp add: s1_def)
  have "erase_post root (inorder (plug (ctx1 d R p x # ?k) t)) s1 (erase_rest d p root (rptr x) s1)"
    using erase_black_sibling [OF pre1 b cx(3)]
  proof
    assume "\<exists>t' s2. erase_rest d p root (rptr x) s1 = rb_erase_color_loop (rptr t') (cptr ?k) root s2 \<and>
        erase_pre root ?k t' s2 \<and> same_rest s1 s2 \<and>
        inorder (plug ?k t') = inorder (plug (ctx1 d R p x # ?k) t) \<and> colour_of t' = R"
    then obtain t' s2 where "erase_rest d p root (rptr x) s1 = rb_erase_color_loop (rptr t') (cptr ?k) root s2"
      "erase_pre root ?k t' s2" "same_rest s1 s2" "inorder (plug ?k t') = inorder (plug (ctx1 d R p x # ?k) t)" "colour_of t' = R"
      by blast
    then show ?thesis using erase_exit [of root ?k t' s2] erase_post_trans by metis
  qed
  then show ?thesis unfolding ch by (rule erase_post_trans [OF _ sr io])
qed

lemma erase_loop_correct:
  "erase_pre root k t s \<Longrightarrow> erase_post root (inorder (plug k t)) s (rb_erase_color_loop (rptr t) (cptr k) root s)"
proof (induction "length k" arbitrary: k t s rule: less_induct)
  case less
  show ?case
  proof (cases "k = [] \<or> colour_of t = R")
    case True
    then show ?thesis using erase_exit [OF less.prems] by simp
  next
    case False
    then obtain e k2 where "k = e # k2" by (cases k) auto
    moreover obtain d c p w where "e = ctx1 d c p w" by (rule ctx1_exhaust)
    ultimately have k: "k = ctx1 d c p w # k2" by simp
    note pre = less.prems [unfolded k]
    have b: "colour_of t = B" using False by simp
    have t: "rb_tree root (plug k2 (mk d t c p w)) s" and w: "w \<noteq> Lf" using pre by (auto simp: erase_pre_def)
    have step: "rb_erase_color_loop (rptr t) (cptr k) root s =
      (if colour_of w = R
       then (let s = rot d p root (rb_set_red p (rb_set_black (rptr w) s)) in erase_rest d p root (child (\<not> d) s p) s)
       else erase_rest d p root (rptr w) s)"
      using erase_loop_step [OF t b w] by (simp add: k)
    show ?thesis
    proof (cases "colour_of w")
      case R
      then show ?thesis using erase_red_sibling [OF pre b R] step by (simp add: k Let_def)
    next
      case B
      have "length k2 < length k" by (simp add: k)
      then show ?thesis
        using erase_black_sibling [OF pre b B] less.hyps [of k2] step B erase_post_trans unfolding k by fastforce
    qed
  qed
qed

lemma rb_rep_rptr: "rb_rep p t x s \<Longrightarrow> rb_rep p t (rptr t) s"
  using rb_rep_ptr by metis

lemma replace_child_hole:
  assumes "ctx_rep root k x s" "distinct (ctx_nodes k)" "x \<notin> set (ctx_nodes k)" "x \<noteq> NULL"
  shows "replace_child (cptr k) x y root s = set_hole k root y s"
  using hole_left [OF assms] by (auto simp: replace_child_def)

text \<open>Removing a node with at most one child.\<close>

lemma unlink_rep:
  assumes t: "rb_tree root (plug k (Nd l c n r)) s" and e: "l = Lf \<and> x = r \<or> r = Lf \<and> x = l"
  defines "s1 \<equiv> (if rptr x \<noteq> NULL then rb_set_parent (rptr x) (cptr k) s else s)"
  shows "replace_child (cptr k) n (rptr x) root s1 = set_hole k root (rptr x) s1"
    and "rb_tree root (plug k x) (set_hole k root (rptr x) s1)"
proof -
  have c: "ctx_rep root k n s" and nd: "rb_rep n x (rptr x) s"
    and d: "distinct (ctx_nodes k)" "distinct (inorder x)" "n \<notin> set (ctx_nodes k)" "n \<notin> set (inorder x)"
      "set (ctx_nodes k) \<inter> set (inorder x) = {}" and nn: "n \<noteq> NULL"
    using t e unfolding rb_tree_split by (auto intro: rb_rep_rptr dest: node_ok_reads(5))
  have xm: "rptr x \<noteq> NULL \<Longrightarrow> rptr x \<notin> set (ctx_nodes k)" using d(5) rptr_mem [of x] by blast
  have c1: "ctx_rep root k n s1" using c xm by (auto simp: s1_def)
  show "replace_child (cptr k) n (rptr x) root s1 = set_hole k root (rptr x) s1"
    by (rule replace_child_hole [OF c1 d(1,3) nn])
  have "rb_rep (cptr k) x (rptr x) s1"
    unfolding s1_def by (rule rb_rep_set_parent [OF nd d(2)]) (use c ctx_reads in blast)
  then show "rb_tree root (plug k x) (set_hole k root (rptr x) s1)"
    unfolding rb_tree_split using ctx_rep_set_hole [OF c1 d(1)] d by simp
qed

text \<open>Putting a node \<open>m\<close> that is not in the tree in the place of \<open>n\<close>, which has two children.\<close>

lemma rb_rep_reparent:
  assumes "rb_rep n t x s" "t \<noteq> Lf" "distinct (inorder t)" "aligned q"
  shows "rb_rep q t x (rb_set_parent x q s)"
  using rb_rep_set_parent [OF assms(1,3,4)] assms(1,2) by (cases t) (auto dest: node_ok_reads(5))

lemma transplant_rep:
  assumes t: "rb_tree root (plug k (Nd l c n r)) s" and m: "m \<notin> set (inorder (plug k (Nd l c n r)))" "m \<noteq> NULL" "aligned m"
    and ch: "l \<noteq> Lf" "r \<noteq> Lf"
  defines "s1 \<equiv> rb_set_parent (rptr r) m (set_right m (rptr r) (set_hole k root m s))"
  defines "s2 \<equiv> rb_set_parent (rptr l) m (set_left m (rptr l) (set_parent_color m (rb_parent_color s n) s1))"
  shows "rb_tree root (plug k (Nd l c m r)) s2"
proof -
  have cx: "ctx_rep root k n s" and n: "node_ok (cptr k) c n s" and lr: "rb_rep n l (rptr l) s" "rb_rep n r (rptr r) s"
    and d: "distinct (ctx_nodes k)" "distinct (inorder l)" "distinct (inorder r)" "n \<notin> set (inorder l)" "n \<notin> set (inorder r)"
      "n \<notin> set (ctx_nodes k)" "set (ctx_nodes k) \<inter> set (inorder l) = {}" "set (ctx_nodes k) \<inter> set (inorder r) = {}"
      "set (inorder l) \<inter> set (inorder r) = {}"
    using t unfolding rb_tree_split by (auto intro: rb_rep_rptr dest: rb_rep_ptr)
  have mm: "m \<notin> set (ctx_nodes k)" "m \<notin> set (inorder l)" "m \<notin> set (inorder r)" "m \<noteq> n"
    using m(1) plug_mset [of k "Nd l c n r"] by (metis set_mset_mset UnCI inorder.simps(2) set_append list.set_intros set_mset_union)+
  have lm: "rptr l \<in> set (inorder l)" "rptr r \<in> set (inorder r)" using ch by (cases l; cases r; auto)+
  have lf: "rptr l \<notin> set (ctx_nodes k)" "rptr r \<notin> set (ctx_nodes k)" "rptr l \<notin> set (inorder r)" "rptr r \<notin> set (inorder l)"
    "rptr l \<noteq> m" "rptr r \<noteq> m" "m \<noteq> rptr l" "m \<noteq> rptr r"
    using lm d mm by auto
  have c2: "ctx_rep root k m s2"
    using ctx_rep_set_hole [OF cx d(1), of m] mm lf by (simp add: s2_def s1_def)
  have "rb_rep m r (rptr r) s1"
    unfolding s1_def by (rule rb_rep_reparent [of n]) (use lr ch d m mm in auto)
  then have r2: "rb_rep m r (rptr r) s2" using mm lf by (simp add: s2_def)
  have l2: "rb_rep m l (rptr l) s2"
    unfolding s2_def by (rule rb_rep_reparent [of n]) (use lr ch d m mm lf in \<open>auto simp: s1_def\<close>)
  have "node_ok (cptr k) c m s2"
    using n m lf by (simp add: s2_def s1_def) (simp add: node_ok_def)
  moreover have "rb_left s2 m = rptr l" "rb_right s2 m = rptr r" by (simp_all add: s2_def s1_def)
  ultimately show ?thesis unfolding rb_tree_split using c2 r2 l2 d mm by auto
qed

text \<open>The case in which the successor is the right child itself.\<close>

lemma transplant_child_rep:
  assumes t: "rb_tree root (plug k (Nd l c n (Nd Lf c' m r))) s" and ch: "l \<noteq> Lf"
  defines "s2 \<equiv> rb_set_parent (rptr l) m (set_left m (rptr l) (set_parent_color m (rb_parent_color s n) (set_hole k root m s)))"
  shows "rb_tree root (plug k (Nd l c m r)) s2"
proof -
  have cx: "ctx_rep root k n s" and n: "node_ok (cptr k) c n s" "node_ok n c' m s" and lr: "rb_rep n l (rptr l) s" "rb_rep m r (rptr r) s"
    "rb_right s m = rptr r"
    and d: "distinct (ctx_nodes k)" "distinct (inorder l)" "distinct (inorder r)" "n \<notin> set (inorder l)" "n \<notin> set (inorder r)"
      "n \<notin> set (ctx_nodes k)" "set (ctx_nodes k) \<inter> set (inorder l) = {}" "set (ctx_nodes k) \<inter> set (inorder r) = {}"
      "set (inorder l) \<inter> set (inorder r) = {}"
    and mm: "m \<notin> set (ctx_nodes k)" "m \<notin> set (inorder l)" "m \<notin> set (inorder r)" "m \<noteq> n"
    using t unfolding rb_tree_split by (auto intro: rb_rep_rptr dest: rb_rep_ptr)
  have m: "m \<noteq> NULL" "aligned m" using node_ok_reads(5,6) [OF n(2)] by auto
  have lm: "rptr l \<in> set (inorder l)" using ch by (cases l) auto
  have lf: "rptr l \<notin> set (ctx_nodes k)" "rptr l \<notin> set (inorder r)" "rptr l \<noteq> m" "m \<noteq> rptr l"
    using lm d mm by auto
  have c2: "ctx_rep root k m s2"
    using ctx_rep_set_hole [OF cx d(1), of m] mm lf by (simp add: s2_def)
  have r2: "rb_rep m r (rptr r) s2" using lr mm lf d by (simp add: s2_def)
  have l2: "rb_rep m l (rptr l) s2"
    unfolding s2_def by (rule rb_rep_reparent [of n]) (use lr ch d m mm lf in auto)
  have "node_ok (cptr k) c m s2"
    using n(1) m lf by (simp add: s2_def) (simp add: node_ok_def)
  moreover have "rb_left s2 m = rptr l" "rb_right s2 m = rptr r" using lr mm by (simp_all add: s2_def)
  ultimately show ?thesis unfolding rb_tree_split using c2 r2 l2 d mm by auto
qed

lemma set_hole_commute:
  assumes "a \<notin> set (ctx_nodes k)"
  shows "set_left a y (set_hole k root m s) = set_hole k root m (set_left a y s)"
    "rb_set_parent b v (set_hole k root m s) = set_hole k root m (rb_set_parent b v s)"
  using assms
  by (cases k rule: ctx_nodes.cases; simp add: set_hole_def set_left_def set_right_def set_root_def rb_set_parent_def set_parent_color_def fun_upd_twist)+

lemma plug_append: "plug (k @ k') t = plug k' (plug k t)"
  by (induction k t rule: plug.induct) auto

lemma inorder_ctx: "inorder (plug k t) = cpre k @ inorder t @ csuf k"
  by (induction k t rule: plug.induct) auto

lemma zipper: "n \<in> set (inorder T) \<Longrightarrow> \<exists>k l c r. T = plug k (Nd l c n r)"
proof (induction T)
  case (Nd l c a r)
  consider "n = a" | "n \<in> set (inorder l)" | "n \<in> set (inorder r)" using Nd.prems by auto
  then show ?case
  proof cases
    case 1
    then show ?thesis by (intro exI [of _ "[]"]) auto
  next
    case 2
    then obtain k l' c' r' where "l = plug k (Nd l' c' n r')" using Nd.IH(1) by blast
    then have "Nd l c a r = plug (k @ [CL c a r]) (Nd l' c' n r')" by (simp add: plug_append)
    then show ?thesis by blast
  next
    case 3
    then obtain k l' c' r' where "r = plug k (Nd l' c' n r')" using Nd.IH(2) by blast
    then have "Nd l c a r = plug (k @ [CR l c a]) (Nd l' c' n r')" by (simp add: plug_append)
    then show ?thesis by blast
  qed
qed simp

lemma lefts_append: "lefts (k @ k') \<longleftrightarrow> lefts k \<and> lefts k'"
  by (induction k rule: lefts.induct) auto

lemma leftmost_zipper: "r \<noteq> Lf \<Longrightarrow> \<exists>kr c m r'. r = plug kr (Nd Lf c m r') \<and> lefts kr"
proof (induction r)
  case (Nd l c a r)
  show ?case
  proof (cases "l = Lf")
    case True
    then show ?thesis by (intro exI [of _ "[]"]) auto
  next
    case False
    then obtain kr c' m r' where "l = plug kr (Nd Lf c' m r')" "lefts kr" using Nd.IH(1) by blast
    then have "Nd l c a r = plug (kr @ [CL c a r]) (Nd Lf c' m r') \<and> lefts (kr @ [CL c a r])" by (simp add: plug_append lefts_append)
    then show ?thesis by blast
  qed
qed simp

lemma lefts_cpre: "lefts k \<Longrightarrow> cpre k = []"
  by (induction k rule: lefts.induct) auto

lemma go_left_tree:
  assumes "rb_tree root (plug k (Nd l c a r)) s"
  shows "go_left a s = Some (hd (inorder (Nd l c a r)))"
  using assms
proof (induction l arbitrary: k c a r)
  case Lf
  then show ?case using rb_tree_reads(2) [OF Lf] by (subst go_left.simps) simp
next
  case (Nd l1 c1 a1 r1)
  have t1: "rb_tree root (plug (CL c a r # k) (Nd l1 c1 a1 r1)) s" using Nd.prems by simp
  have "rb_left s a = a1" "a1 \<noteq> NULL" using rb_tree_reads [OF Nd.prems] rb_tree_reads(7) [OF t1] by auto
  then show ?case using Nd.IH(1) [OF t1] by (subst go_left.simps) (cases "inorder l1"; auto)
qed

lemma same_rest_hole [simp]: "same_rest s (set_hole k root x s') \<longleftrightarrow> same_rest s s'"
  by (cases k rule: ctx_nodes.cases) (auto simp: set_hole_def same_rest_fields)

lemma erase_one_child:
  assumes t: "rb_tree root (plug k (Nd l c n r)) s" and e: "l = Lf \<or> r = Lf"
  shows "\<exists>k' t' c0 s1. unlinked root (plug k (Nd l c n r)) (cpre k @ inorder l @ inorder r @ csuf k) k' t' c0 s s1 \<and>
    rb_erase n root s = (if c0 = B then rb_erase_color (rptr t') (cptr k') root s1 else Some s1)"
proof -
  define x where "x = (if l = Lf then r else l)"
  define s1 where "s1 = (if rptr x \<noteq> NULL then rb_set_parent (rptr x) (cptr k) s else s)"
  have x: "l = Lf \<and> x = r \<or> r = Lf \<and> x = l" using e by (auto simp: x_def)
  note ul = unlink_rep [OF t x, folded s1_def]
  note rd = rb_tree_reads [OF t]
  have nl: "rptr l = NULL \<longleftrightarrow> l = Lf" "rptr r = NULL \<longleftrightarrow> r = Lf"
    using rptr_null [of root "CL c n r # k" l s] rptr_null [of root "CR l c n # k" r s] t by auto
  have ch: "(if rb_left s n = NULL then rb_right s n else rb_left s n) = rptr x" using rd nl by (auto simp: x_def)
  have cond: "rb_left s n = NULL \<or> rb_right s n = NULL" using rd nl e by auto
  have "rb_erase n root s =
      (if rb_color n s = 1 then rb_erase_color (rptr x) (cptr k) root (set_hole k root (rptr x) s1) else Some (set_hole k root (rptr x) s1))"
    unfolding rb_erase_def using cond by (simp add: ch rd(1) s1_def [symmetric] ul(1) Let_def)
  then have eq: "rb_erase n root s =
      (if c = B then rb_erase_color (rptr x) (cptr k) root (set_hole k root (rptr x) s1) else Some (set_hole k root (rptr x) s1))"
    using rd(4) by (cases c) simp_all
  have "unlinked root (plug k (Nd l c n r)) (cpre k @ inorder l @ inorder r @ csuf k) k x c s (set_hole k root (rptr x) s1)"
    unfolding unlinked_def
  proof (intro conjI impI)
    show "inorder (plug k x) = cpre k @ inorder l @ inorder r @ csuf k" using x by (auto simp: inorder_ctx)
    show "same_rest s (set_hole k root (rptr x) s1)" by (simp add: s1_def)
    show "if k = [] then c = B else colour_of (plug k Lf) = B" if "colour_of (plug k (Nd l c n r)) = B"
      using that colour_plug [of k Lf "Nd l c n r"] by auto
  qed (use ul(2) x in \<open>auto simp: invh_plug_iff invc_plug_iff\<close>)
  then show ?thesis using eq by blast
qed

lemma ctx_h_rename: "ctx_h (k @ CR l c n # k2) h \<Longrightarrow> ctx_h (k @ CR l c m # k2) h"
  by (induction k arbitrary: h rule: ctx_nodes.induct) auto

lemma ctx_c_rename: "ctx_c (k @ CR l c n # k2) col \<Longrightarrow> ctx_c (k @ CR l c m # k2) col"
  by (induction k arbitrary: col rule: ctx_nodes.induct) auto

lemma cptr_append: "k \<noteq> [] \<Longrightarrow> cptr (k @ k') = cptr k"
  by (cases k rule: lefts.cases) auto

lemma unlinked_successor:
  assumes t1: "rb_tree root (plug k (Nd l c m (plug kr r'))) s1" and sr: "same_rest s s1" and kr: "lefts kr"
  shows "unlinked root (plug k (Nd l c n (plug kr (Nd Lf c' m r'))))
    (cpre k @ inorder l @ inorder (plug kr (Nd Lf c' m r')) @ csuf k) (kr @ CR l c m # k) r' c' s s1"
  unfolding unlinked_def
proof (intro conjI impI)
  let ?T = "plug (kr @ CR l c n # k) (Nd Lf c' m r')"
  have T: "plug k (Nd l c n (plug kr (Nd Lf c' m r'))) = ?T" by (simp add: plug_append)
  show "rb_tree root (plug (kr @ CR l c m # k) r') s1" using t1 by (simp add: plug_append)
  show "inorder (plug (kr @ CR l c m # k) r') = cpre k @ inorder l @ inorder (plug kr (Nd Lf c' m r')) @ csuf k"
    by (simp add: plug_append inorder_ctx lefts_cpre [OF kr])
  show "same_rest s s1" by (rule sr)
  show "invh r'" "ctx_h (kr @ CR l c m # k) (blacks r' + (if c' = B then 1 else 0))" if "invh (plug k (Nd l c n (plug kr (Nd Lf c' m r'))))"
    using that unfolding T invh_plug_iff by (auto intro: ctx_h_rename)
  show "invc r'" "ctx_c (kr @ CR l c m # k) c'" if "invc (plug k (Nd l c n (plug kr (Nd Lf c' m r'))))"
    using that unfolding T invc_plug_iff by (auto intro: ctx_c_rename)
  show "colour_of r' = B" if "invc (plug k (Nd l c n (plug kr (Nd Lf c' m r'))))" "c' = R"
    using that unfolding T invc_plug_iff by auto
  show "if kr @ CR l c m # k = [] then c' = B else colour_of (plug (kr @ CR l c m # k) Lf) = B"
    if "colour_of (plug k (Nd l c n (plug kr (Nd Lf c' m r')))) = B"
    using that colour_plug_black [of k "Nd l c n (plug kr (Nd Lf c' m r'))" "Nd l c m (plug kr Lf)"]
      colour_plug [of k "Nd l c n (plug kr (Nd Lf c' m r'))" "Nd l c m (plug kr Lf)"]
    by (cases "k = []") (auto simp: plug_append)
qed

lemma plug_not_leaf: "k \<noteq> [] \<or> t \<noteq> Lf \<Longrightarrow> plug k t \<noteq> Lf"
  using plug_mset [of k t] rptr_plug [of k t]
  by (cases "plug k t"; cases t; cases k rule: ctx_nodes.cases) auto

lemma erase_successor_child:
  assumes t: "rb_tree root (plug k (Nd l c n (Nd Lf c' m r))) s" and l: "l \<noteq> Lf"
  shows "\<exists>s1. rb_tree root (plug k (Nd l c m r)) s1 \<and> same_rest s s1 \<and>
    rb_erase n root s = (if c' = B then rb_erase_color (rptr r) m root s1 else Some s1)"
proof -
  note rd = rb_tree_reads [OF t]
  have tm: "rb_tree root (plug (CR l c n # k) (Nd Lf c' m r)) s" using t by simp
  note rm = rb_tree_reads [OF tm]
  have nm: "n \<noteq> m" "n \<notin> set (ctx_nodes k)" "m \<notin> set (ctx_nodes k)" and c: "ctx_rep root k n s" "distinct (ctx_nodes k)"
    using t unfolding rb_tree_split by auto
  have ln: "rptr l \<noteq> NULL" using rptr_null [of root "CL c n (Nd Lf c' m r) # k" l s] t l by simp
  have go: "go_left m s = Some m" using go_left_tree [OF tm] by simp
  have hole: "replace_child (cptr k) n m root s = set_hole k root m s" by (rule replace_child_hole [OF c nm(2) rd(7)])
  let ?s0 = "set_hole k root m s"
  have f: "rb_left ?s0 n = rptr l" "rb_right ?s0 m = rptr r" "rb_parent m ?s0 = n" "rb_color m ?s0 = cbit c'"
      "rb_parent_color ?s0 n = rb_parent_color s n"
    using rd rm nm by (auto simp: rb_parent_def rb_color_def set_hole_def split: list.splits ctx.splits)
  define s1 where "s1 = rb_set_parent (rptr l) m (set_left m (rptr l) (set_parent_color m (rb_parent_color s n) ?s0))"
  have "rb_erase n root s = (if cbit c' = 1 then rb_erase_color (rptr r) m root s1 else Some s1)"
    unfolding rb_erase_def using rd rm ln go nm by (simp add: hole f Let_def s1_def)
  then have "rb_erase n root s = (if c' = B then rb_erase_color (rptr r) m root s1 else Some s1)" by (cases c') auto
  moreover have "rb_tree root (plug k (Nd l c m r)) s1" unfolding s1_def by (rule transplant_child_rep [OF t l])
  moreover have "same_rest s s1" by (simp add: s1_def same_rest_fields)
  ultimately show ?thesis by blast
qed

lemma rptr_plug_indep: "k \<noteq> [] \<Longrightarrow> rptr (plug k t) = rptr (plug k t')"
proof (induction k t arbitrary: t' rule: plug.induct)
  case (2 c a r k t)
  then show ?case by (cases "k = []") auto
next
  case (3 l c a k t)
  then show ?case by (cases "k = []") auto
qed simp

lemma ctx_nodes_append: "ctx_nodes (k @ k') = ctx_nodes k @ ctx_nodes k'"
  by (induction k rule: ctx_nodes.induct) auto

lemma cptr_mem: "k \<noteq> [] \<Longrightarrow> cptr k \<in> set (ctx_nodes k)"
  by (cases k rule: ctx_nodes.cases) auto

lemma set_hole_pc [simp]: "rb_parent_color (set_hole k root x s) = rb_parent_color s"
  by (cases k rule: ctx_nodes.cases) (auto simp: set_hole_def)

lemma erase_successor_deep:
  assumes t: "rb_tree root (plug k (Nd l c n (plug kr (Nd Lf c' m r)))) s" and l: "l \<noteq> Lf" and kr: "lefts kr" "kr \<noteq> []"
  shows "\<exists>s1. rb_tree root (plug k (Nd l c m (plug kr r))) s1 \<and> same_rest s s1 \<and>
    rb_erase n root s = (if c' = B then rb_erase_color (rptr r) (cptr kr) root s1 else Some s1)"
proof -
  let ?R = "plug kr (Nd Lf c' m r)" and ?kk = "kr @ CR l c n # k" and ?R' = "plug kr r"
  note rd = rb_tree_reads [OF t]
  have tm: "rb_tree root (plug ?kk (Nd Lf c' m r)) s" using t by (simp add: plug_append)
  note rm = rb_tree_reads [OF tm]
  have RR: "?R \<noteq> Lf" "?R' \<noteq> Lf" using plug_not_leaf kr(2) by auto
  obtain R1 cR a R2 where R: "?R = Nd R1 cR a R2" using RR by (cases ?R) auto
  have tR: "rb_tree root (plug (CR l c n # k) (Nd R1 cR a R2)) s" using t R by simp
  have rR: "rptr ?R = a" "rptr ?R' = a" using R rptr_plug_indep [OF kr(2)] by (metis rptr.simps(2))+
  have ln: "rptr l \<noteq> NULL" using rptr_null [of root "CL c n ?R # k" l s] t l by simp
  have go: "go_left a s = Some m" using go_left_tree [OF tR] by (simp add: R [symmetric] inorder_ctx lefts_cpre [OF kr(1)])
  have d: "distinct (ctx_nodes k)" "distinct (ctx_nodes ?kk)" "n \<notin> set (ctx_nodes k)" "m \<notin> set (ctx_nodes k)" "m \<noteq> n"
      "cptr kr \<notin> set (ctx_nodes k)" "cptr kr \<noteq> n"
    using tm cptr_mem [OF kr(2)] unfolding rb_tree_split ctx_nodes_append by auto
  have c: "ctx_rep root k n s" using t unfolding rb_tree_split by auto
  have hole: "replace_child (cptr k) n m root s = set_hole k root m s" by (rule replace_child_hole [OF c d(1,3) rd(7)])
  have pk: "cptr ?kk = cptr kr" by (rule cptr_append [OF kr(2)])
  define sA where "sA = set_left (cptr kr) (rptr r) (if rptr r \<noteq> NULL then rb_set_parent (rptr r) (cptr kr) s else s)"
  have "set_hole ?kk root (rptr r) (if rptr r \<noteq> NULL then rb_set_parent (rptr r) (cptr ?kk) s else s) = sA"
    using kr by (cases kr rule: lefts.cases) (auto simp: set_hole_def sA_def)
  then have tA: "rb_tree root (plug k (Nd l c n ?R')) sA"
    using unlink_rep(2) [OF tm, of r] by (simp add: plug_append)
  note rA = rb_tree_reads [OF tA]
  have an: "a \<noteq> n" using tA rR(2) rptr_mem [of ?R'] rA(7) unfolding rb_tree_split by (metis inorder.simps(2)
        distinct.simps(2) distinct_append RR(1) rR(1) rb_tree_reads(7) tR)
  have mA: "m \<notin> set (inorder (plug k (Nd l c n ?R')))"
    using tm plug_distinct [of ?kk "Nd Lf c' m r"] plug_mset [of ?kk r] unfolding rb_tree_def
    by (metis (no_types, lifting) disjoint_iff inorder.simps append.simps(1) distinct.simps(2) list.set_intros(1) plug.simps(3)
        plug_append set_mset_mset set_mset_union Un_iff)
  define s0 where "s0 = set_hole k root m s"
  have f0: "rb_right s0 m = rptr r" "rb_parent m s0 = cptr kr" "rb_color m s0 = cbit c'" "rb_right s0 n = a" "rb_left s0 n = rptr l"
    using rm rd rR d pk by (auto simp: s0_def rb_parent_def rb_color_def)
  define s3 where "s3 = set_hole k root m sA"
  have s3: "rptr r = NULL \<Longrightarrow> set_left (cptr kr) NULL s0 = s3"
      "rptr r \<noteq> NULL \<Longrightarrow> set_left (cptr kr) (rptr r) (rb_set_parent (rptr r) (cptr kr) s0) = s3"
    by (simp_all add: s0_def s3_def sA_def set_hole_commute [OF d(6)])
  have f3: "rb_right s3 n = a" "rb_left s3 n = rptr l" "rb_parent_color s3 n = rb_parent_color sA n"
    using rA d rR by (auto simp: s3_def)
  define s4 where "s4 = rb_set_parent a m (set_right m a s3)"
  have f4: "rb_parent_color s4 n = rb_parent_color sA n" "rb_left s4 n = rptr l"
    using f3 an by (auto simp: s4_def rb_set_parent_def)
  define s5 where "s5 = rb_set_parent (rptr l) m (set_left m (rptr l) (set_parent_color m (rb_parent_color sA n) s4))"
  have "rb_erase n root s = (if cbit c' = 1 then rb_erase_color (rptr r) (cptr kr) root s5 else Some s5)"
    unfolding rb_erase_def
    using rd ln go d f3 f4 rR rb_tree_reads(7) [OF tR]
    by (cases "rptr r = NULL") (simp_all add: hole s0_def [symmetric] f0 s3 Let_def s4_def [symmetric] s5_def)
  then have eq: "rb_erase n root s = (if c' = B then rb_erase_color (rptr r) (cptr kr) root s5 else Some s5)" by (cases c') auto
  have "rb_tree root (plug k (Nd l c m ?R')) s5"
    using transplant_rep [OF tA mA rm(7,8) l RR(2)] by (simp add: s5_def s4_def s3_def rR)
  moreover have "same_rest s s5" by (simp add: s5_def s4_def s3_def sA_def same_rest_fields)
  ultimately show ?thesis using eq by blast
qed

lemma erase_unlinks:
  assumes t: "rb_tree root (plug k (Nd l c n r)) s"
  shows "\<exists>k' t' c0 s1. unlinked root (plug k (Nd l c n r)) (cpre k @ inorder l @ inorder r @ csuf k) k' t' c0 s s1 \<and>
    rb_erase n root s = (if c0 = B then rb_erase_color (rptr t') (cptr k') root s1 else Some s1)"
proof (cases "l = Lf \<or> r = Lf")
  case True
  then show ?thesis by (rule erase_one_child [OF t])
next
  case False
  then obtain kr c' m r' where r: "r = plug kr (Nd Lf c' m r')" and kr: "lefts kr" using leftmost_zipper [of r] by blast
  have l: "l \<noteq> Lf" using False by simp
  have "\<exists>s1. rb_tree root (plug k (Nd l c m (plug kr r'))) s1 \<and> same_rest s s1 \<and>
      rb_erase n root s = (if c' = B then rb_erase_color (rptr r') (cptr (kr @ CR l c m # k)) root s1 else Some s1)"
  proof (cases "kr = []")
    case True
    then have cp: "cptr (kr @ CR l c m # k) = m" by simp
    show ?thesis using erase_successor_child [of root k l c n c' m r' s] t l r unfolding cp by (simp add: True split del: if_split)
  next
    case False
    show ?thesis using erase_successor_deep [of root k l c n kr c' m r' s] t l kr False unfolding r cptr_append [OF False] by blast
  qed
  then show ?thesis using unlinked_successor [OF _ _ kr] unfolding r by blast
qed

lemma rb_erase_tree:
  assumes "rb_ok root (xs @ n # ys) s"
  shows "\<exists>s'. rb_erase n root s = Some s' \<and> rb_ok root (xs @ ys) s' \<and> same_rest s s'"
proof -
  obtain T where T: "rb_tree root T s" "inorder T = xs @ n # ys" "invh T" "invc T" "colour_of T = B"
    using assms unfolding rb_ok_def by blast
  have dist: "distinct (xs @ n # ys)" using T(1,2) by (simp add: rb_tree_def)
  obtain k l c r where k: "T = plug k (Nd l c n r)" using zipper [of n T] T(2) by auto
  have "(cpre k @ inorder l) @ n # (inorder r @ csuf k) = xs @ n # ys" using T(2) by (simp add: k inorder_ctx)
  then have io: "cpre k @ inorder l @ inorder r @ csuf k = xs @ ys"
    using dist append_Cons_eq_iff [of n xs ys "cpre k @ inorder l" "inorder r @ csuf k"] by auto
  obtain k' t' c0 s1 where u: "unlinked root T (xs @ ys) k' t' c0 s s1"
    and eq: "rb_erase n root s = (if c0 = B then rb_erase_color (rptr t') (cptr k') root s1 else Some s1)"
    using erase_unlinks [of root k l c n r s] T(1) unfolding k io by blast
  show ?thesis
  proof (cases c0)
    case R
    have "k' \<noteq> []" using u R T(5) by (auto simp: unlinked_def)
    then have "colour_of (plug k' t') = B" using u T(5) colour_plug [of k' t' Lf] by (auto simp: unlinked_def)
    moreover have "invc (plug k' t')" using u T R ctx_c_black [of k' R] by (simp add: unlinked_def invc_plug_iff)
    moreover have "invh (plug k' t')" using u T R by (simp add: unlinked_def invh_plug_iff)
    ultimately have "rb_ok root (xs @ ys) s1" using u unfolding rb_ok_def unlinked_def by blast
    then show ?thesis using eq R u by (auto simp: unlinked_def)
  next
    case B
    have "erase_pre root k' t' s1"
      using u T B invc_blacken [of t'] by (auto simp: erase_pre_def unlinked_def)
    from erase_loop_correct [OF this] obtain x s2 where "rb_erase_color_loop (rptr t') (cptr k') root s1 = Some (x, s2)"
      "same_rest s1 s2" "rb_ok root (inorder (plug k' t')) (if x \<noteq> NULL then rb_set_black x s2 else s2)"
      unfolding erase_post_def by blast
    moreover have "inorder (plug k' t') = xs @ ys" "same_rest s s1" using u by (auto simp: unlinked_def)
    ultimately show ?thesis using eq B by (auto simp: rb_erase_color_def intro: same_rest_trans)
  qed
qed

end
