(* ===== verification/Rbtree_props.thy ===== *)
theory Rbtree_props
  imports Rbtree_erase
begin

section \<open>Red-black trees: the interface and the properties\<close>

text \<open>
  What a client of \<^verbatim>\<open>lib/rbtree.c\<close> relies on, stated over \<open>rb_ok root xs\<close>: the tree at \<open>root\<close> is a
  red-black tree whose nodes are \<open>xs\<close> in order. The locale \<open>ordered_nodes\<close> is the part of the
  contract that needs no keys (the first node, the neighbours, deletion); it is interpreted on the
  code's \<^verbatim>\<open>rb_first\<close>, \<^verbatim>\<open>rb_next\<close> and \<^verbatim>\<open>rb_erase\<close>, and the scheduler's proofs rest on its facts.
\<close>

subsection \<open>Definitions\<close>

text \<open>The cell that holds the pointer at the end of a path.\<close>

fun clink :: "addr \<Rightarrow> ctx list \<Rightarrow> rb_link" where
  "clink root [] = Root root"
| "clink root (CL c a r # k) = Left a"
| "clink root (CR l c a # k) = Right a"

text \<open>A tree of three nodes below the root at \<open>0x100\<close>.\<close>

definition example_tree :: rb_heap where
  "example_tree =
     \<lparr>l_next = \<lambda>_. 0, l_prev = \<lambda>_. 0,
      rb_parent_color = (\<lambda>_. 0)(0x20 := 1, 0x10 := 0x20, 0x30 := 0x20),
      rb_right = (\<lambda>_. 0)(0x20 := 0x30), rb_left = (\<lambda>_. 0)(0x20 := 0x10),
      rb_root = (\<lambda>_. 0)(0x100 := 0x20)\<rparr>"

subsection \<open>The interface\<close>

locale ordered_nodes =
  fixes holds :: "addr \<Rightarrow> addr list \<Rightarrow> 's \<Rightarrow> bool"
    and first :: "addr \<Rightarrow> 's \<Rightarrow> addr option"
    and following :: "addr \<Rightarrow> 's \<Rightarrow> addr option"
    and remove :: "addr \<Rightarrow> addr \<Rightarrow> 's \<Rightarrow> 's option"
    and kept :: "'s \<Rightarrow> 's \<Rightarrow> bool"
  assumes holds_distinct: "holds root xs s \<Longrightarrow> distinct xs"
    and holds_first: "holds root xs s \<Longrightarrow> first root s = Some (if xs = [] then NULL else hd xs)"
    and holds_following: "holds root (xs @ a # ys) s \<Longrightarrow> following a s = Some (if ys = [] then NULL else hd ys)"
    and holds_remove: "holds root (xs @ n # ys) s \<Longrightarrow> \<exists>s'. remove n root s = Some s' \<and> holds root (xs @ ys) s' \<and> kept s s'"
begin

lemma remove_node:
  assumes "holds root xs s" and "n \<in> set xs"
  obtains s' where "remove n root s = Some s'" "holds root (remove1 n xs) s'" "kept s s'"
proof -
  obtain us vs where x: "xs = us @ n # vs" using split_list [OF assms(2)] by blast
  then have "remove1 n xs = us @ vs"
    using holds_distinct [OF assms(1)] by (simp add: remove1_append)
  then show ?thesis using holds_remove assms(1) x that by metis
qed

lemma remove_then_first:
  assumes "holds root xs s" and "n \<in> set xs"
  obtains s' where "remove n root s = Some s'" "holds root (remove1 n xs) s'" "kept s s'"
    "first root s' = Some (if remove1 n xs = [] then NULL else hd (remove1 n xs))"
  using remove_node [OF assms] holds_first by metis

lemma visits_all:
  assumes "holds root xs s" and "i < length xs"
  shows "following (xs ! i) s = Some (if Suc i < length xs then xs ! Suc i else NULL)"
  using holds_following [of root "take i xs" "xs ! i" "drop (Suc i) xs" s] assms
  by (simp add: Cons_nth_drop_Suc hd_drop_conv_nth)

end

subsection \<open>Linking, neighbours and ends\<close>

lemma write_clink: "write_link (clink root k) x s = set_hole k root x s"
  by (cases k rule: ctx_nodes.cases) (auto simp: set_hole_def)

lemma link_rep:
  assumes t: "rb_tree root (plug k Lf) s" and n: "n \<notin> set (inorder (plug k Lf))" "n \<noteq> NULL" "aligned n"
  shows "rb_tree root (plug k (Nd Lf R n Lf)) (rb_link_node n (cptr k) (clink root k) s)"
proof -
  have c: "ctx_rep root k NULL s" "distinct (ctx_nodes k)" using t unfolding rb_tree_split by auto
  have nk: "n \<notin> set (ctx_nodes k)" using n(1) plug_mset [of k Lf] by (metis inorder.simps(1) mset.simps(1) add_0_right set_mset_mset)
  let ?s = "set_left n NULL (set_right n NULL (set_parent_color n (cptr k) s))"
  have "ctx_rep root k NULL ?s" using c nk by simp
  then have "ctx_rep root k n (set_hole k root n ?s)" by (rule ctx_rep_set_hole [OF _ c(2)])
  moreover have "node_ok (cptr k) R n ?s" using n c ctx_reads [OF c(1)] by (simp add: node_ok_def)
  ultimately show ?thesis
    unfolding rb_tree_split rb_link_node_def Let_def write_clink using c nk by simp
qed

lemma rb_link_same: "same_rest s (rb_link_node n p l s)"
  by (cases l) (simp_all add: rb_link_node_def same_rest_fields Let_def)

lemma rb_insert_tree:
  assumes t: "rb_tree root (plug k Lf) s" "invh (plug k Lf)" "invc (plug k Lf)" "colour_of (plug k Lf) = B"
    and n: "n \<notin> set (inorder (plug k Lf))" "n \<noteq> NULL" "aligned n"
  shows "\<exists>s'. rb_insert_color n root (rb_link_node n (cptr k) (clink root k) s) = Some s' \<and>
    rb_ok root (cpre k @ n # csuf k) s' \<and> same_rest s s'"
proof -
  let ?s = "rb_link_node n (cptr k) (clink root k) s"
  have "insert_pre root k Lf n Lf ?s"
    unfolding insert_pre_def using link_rep [OF t(1) n] t
    by (auto simp: invh_plug_iff invc_plug_iff intro: colour_plug_black)
  then obtain s' T where "rb_insert_color n root ?s = Some s'" "rb_tree root T s'" "inorder T = inorder (plug k (Nd Lf R n Lf))"
    "invh T" "invc T" "colour_of T = B" "same_rest ?s s'" by (rule rb_insert_color_tree)
  then show ?thesis unfolding rb_ok_def using same_rest_trans [OF rb_link_same] by (auto simp: inorder_ctx)
qed

lemma rb_ok_zipper:
  assumes "rb_ok root (xs @ a # ys) s"
  obtains k l c r where "rb_tree root (plug k (Nd l c a r)) s" "xs = cpre k @ inorder l" "ys = inorder r @ csuf k"
    "rb_parent a s \<noteq> a"
proof -
  obtain T where T: "rb_tree root T s" "inorder T = xs @ a # ys" using assms unfolding rb_ok_def by blast
  have dist: "distinct (xs @ a # ys)" using T(1,2) by (simp add: rb_tree_def)
  obtain k l c r where k: "T = plug k (Nd l c a r)" using zipper [of a T] T(2) by auto
  have "(cpre k @ inorder l) @ a # (inorder r @ csuf k) = xs @ a # ys" using T(2) by (simp add: k inorder_ctx)
  then have e: "xs = cpre k @ inorder l" "ys = inorder r @ csuf k"
    using dist append_Cons_eq_iff [of a xs ys "cpre k @ inorder l" "inorder r @ csuf k"] by auto
  have t: "rb_tree root (plug k (Nd l c a r)) s" using T k by simp
  have "rb_parent a s \<noteq> a"
    using rb_tree_reads [OF t] cptr_mem [of k] t unfolding rb_tree_split by (cases "k = []") auto
  with that t e show ?thesis by blast
qed

lemma rb_next_up_ctx:
  "rb_tree root (plug k t) s \<Longrightarrow> t \<noteq> Lf \<Longrightarrow> rb_next_up (rptr t) s = Some (if csuf k = [] then NULL else hd (csuf k))"
proof (induction k t rule: plug.induct)
  case (1 t)
  then obtain l c a r where "t = Nd l c a r" by (cases t) auto
  then show ?case using rb_tree_reads(1) [of root "[]" l c a r s] 1 by (subst rb_next_up.simps) (simp add: Let_def)
next
  case (2 c a r k t)
  then have t: "rb_tree root (plug k (mk True t c a r)) s" by (simp add: mk_def)
  obtain l' c' a' r' where x: "t = Nd l' c' a' r'" using 2 by (cases t) auto
  have "rb_parent a' s = a" using rb_tree_reads(1) [of root "CL c a r # k" l' c' a' r' s] 2 x by simp
  moreover have "a' \<noteq> rb_right s a" "a \<noteq> NULL" using mk_child_differs [OF t] mk_reads [OF t] x by (auto simp: child_def)
  ultimately show ?case using x by (subst rb_next_up.simps) (simp add: Let_def)
next
  case (3 l c a k t)
  then have t: "rb_tree root (plug k (Nd l c a t)) s" by simp
  obtain l' c' a' r' where x: "t = Nd l' c' a' r'" using 3 by (cases t) auto
  have "rb_parent a' s = a" using rb_tree_reads(1) [of root "CR l c a # k" l' c' a' r' s] 3 x by simp
  moreover have "a' = rb_right s a" "a \<noteq> NULL" using rb_tree_reads [OF t] x by auto
  ultimately show ?case using x 3 by (subst rb_next_up.simps) (simp add: Let_def)
qed

lemma rb_next_tree:
  assumes "rb_ok root (xs @ a # ys) s"
  shows "rb_next a s = Some (if ys = [] then NULL else hd ys)"
proof -
  obtain k l c r where k: "rb_tree root (plug k (Nd l c a r)) s" "ys = inorder r @ csuf k" "rb_parent a s \<noteq> a"
    using rb_ok_zipper [OF assms] by metis
  note rd = rb_tree_reads [OF k(1)]
  show ?thesis
  proof (cases r)
    case Lf
    then show ?thesis using rb_next_up_ctx [OF k(1)] k(2,3) rd by (simp add: rb_next_def)
  next
    case (Nd l' c' a' r')
    have t': "rb_tree root (plug (CR l c a # k) (Nd l' c' a' r')) s" using k(1) Nd by simp
    have "rb_right s a = a'" "a' \<noteq> NULL" using rd(3) Nd rb_tree_reads(7) [OF t'] by auto
    then show ?thesis using k(2,3) go_left_tree [OF t'] Nd by (simp add: rb_next_def hd_append)
  qed
qed

lemma rb_first_tree:
  assumes "rb_ok root xs s"
  shows "rb_first root s = Some (if xs = [] then NULL else hd xs)"
proof -
  obtain T where T: "rb_tree root T s" "inorder T = xs" using assms unfolding rb_ok_def by blast
  show ?thesis
  proof (cases T)
    case Lf
    then show ?thesis using T rb_tree_reads_root [of root T s] by (auto simp: rb_first_def)
  next
    case (Nd l c a r)
    then have t: "rb_tree root (plug [] (Nd l c a r)) s" using T by simp
    have "rb_root s root = a" "a \<noteq> NULL" using rb_tree_reads_root [OF T(1)] Nd rb_tree_reads(7) [OF t] by auto
    then show ?thesis using go_left_tree [OF t] Nd T(2) by (auto simp: rb_first_def)
  qed
qed

lemma go_right_tree:
  "rb_tree root (plug k (Nd l c a r)) s \<Longrightarrow> go_right a s = Some (last (inorder (Nd l c a r)))"
proof (induction r arbitrary: k l c a)
  case Lf
  then show ?case using rb_tree_reads(3) [OF Lf] by (subst go_right.simps) simp
next
  case (Nd l' c' a' r')
  have t: "rb_tree root (plug (CR l c a # k) (Nd l' c' a' r')) s" using Nd.prems by simp
  have "rb_right s a = a'" "a' \<noteq> NULL" using rb_tree_reads(3) [OF Nd.prems] rb_tree_reads(7) [OF t] by auto
  then show ?case using Nd.IH(2) [OF t] by (subst go_right.simps) simp
qed

lemma rb_prev_up_ctx:
  "rb_tree root (plug k t) s \<Longrightarrow> t \<noteq> Lf \<Longrightarrow> rb_prev_up (rptr t) s = Some (if cpre k = [] then NULL else last (cpre k))"
proof (induction k t rule: plug.induct)
  case (1 t)
  then obtain l c a r where "t = Nd l c a r" by (cases t) auto
  then show ?case using rb_tree_reads(1) [of root "[]" l c a r s] 1 by (subst rb_prev_up.simps) (simp add: Let_def)
next
  case (3 l c a k t)
  then have t: "rb_tree root (plug k (mk False t c a l)) s" by (simp add: mk_def)
  obtain l' c' a' r' where x: "t = Nd l' c' a' r'" using 3 by (cases t) auto
  have "rb_parent a' s = a" using rb_tree_reads(1) [of root "CR l c a # k" l' c' a' r' s] 3 x by simp
  moreover have "a' \<noteq> rb_left s a" "a \<noteq> NULL" using mk_child_differs [OF t] mk_reads [OF t] x by (auto simp: child_def)
  ultimately show ?case using x by (subst rb_prev_up.simps) (simp add: Let_def)
next
  case (2 c a r k t)
  then have t: "rb_tree root (plug k (Nd t c a r)) s" by simp
  obtain l' c' a' r' where x: "t = Nd l' c' a' r'" using 2 by (cases t) auto
  have "rb_parent a' s = a" using rb_tree_reads(1) [of root "CL c a r # k" l' c' a' r' s] 2 x by simp
  moreover have "a' = rb_left s a" "a \<noteq> NULL" using rb_tree_reads [OF t] x by auto
  ultimately show ?case using x 2 by (subst rb_prev_up.simps) (simp add: Let_def)
qed

lemma rb_prev_tree:
  assumes "rb_ok root (xs @ a # ys) s"
  shows "rb_prev a s = Some (if xs = [] then NULL else last xs)"
proof -
  obtain k l c r where k: "rb_tree root (plug k (Nd l c a r)) s" "xs = cpre k @ inorder l" "rb_parent a s \<noteq> a"
    using rb_ok_zipper [OF assms] by metis
  note rd = rb_tree_reads [OF k(1)]
  show ?thesis
  proof (cases l)
    case Lf
    then show ?thesis using rb_prev_up_ctx [OF k(1)] k(2,3) rd by (simp add: rb_prev_def)
  next
    case (Nd l' c' a' r')
    have t': "rb_tree root (plug (CL c a r # k) (Nd l' c' a' r')) s" using k(1) Nd by simp
    have "rb_left s a = a'" "a' \<noteq> NULL" using rd(2) Nd rb_tree_reads(7) [OF t'] by auto
    then show ?thesis using k(2,3) go_right_tree [OF t'] Nd by (simp add: rb_prev_def)
  qed
qed

lemma rb_last_tree:
  assumes "rb_ok root xs s"
  shows "rb_last root s = Some (if xs = [] then NULL else last xs)"
proof -
  obtain T where T: "rb_tree root T s" "inorder T = xs" using assms unfolding rb_ok_def by blast
  show ?thesis
  proof (cases T)
    case Lf
    then show ?thesis using T rb_tree_reads_root [of root T s] by (auto simp: rb_last_def)
  next
    case (Nd l c a r)
    then have t: "rb_tree root (plug [] (Nd l c a r)) s" using T by simp
    have "rb_root s root = a" "a \<noteq> NULL" using rb_tree_reads_root [OF T(1)] Nd rb_tree_reads(7) [OF t] by auto
    then show ?thesis using go_right_tree [OF t] Nd T(2) by (auto simp: rb_last_def)
  qed
qed

lemma rb_ok_distinct: "rb_ok root xs s \<Longrightarrow> distinct xs"
  by (auto simp: rb_ok_def rb_tree_def)

interpretation rbt: ordered_nodes rb_ok rb_first rb_next rb_erase same_rest
  by unfold_locales (fact rb_ok_distinct rb_first_tree rb_next_tree rb_erase_tree)+

subsection \<open>The example\<close>

lemma example_rep: "rb_tree 0x100 (Nd (Nd Lf R 0x10 Lf) B 0x20 (Nd Lf R 0x30 Lf)) example_tree"
  by (simp add: rb_tree_def example_tree_def node_ok_def aligned_def)

lemma example_ok: "rb_ok 0x100 [0x10, 0x20, 0x30] example_tree"
  unfolding rb_ok_def by (rule exI, rule conjI [OF example_rep]) simp

subsection \<open>Properties\<close>

text \<open>
  C5: linking a new node at a hole of a red-black tree with \<^verbatim>\<open>rb_link_node\<close> and calling
  \<^verbatim>\<open>rb_insert_color\<close> ends, and gives a red-black tree with the node at exactly that place of
  the order; nothing outside the tree changes. \<open>k\<close> is the path from the hole to the root.
\<close>

theorem rb_insert_color_correct:
  assumes "rb_tree root (plug k Lf) s" and "invh (plug k Lf)" and "invc (plug k Lf)" and "colour_of (plug k Lf) = B"
    and "n \<notin> set (inorder (plug k Lf))" and "n \<noteq> NULL" and "aligned n"
  shows "\<exists>s'. rb_insert_color n root (rb_link_node n (cptr k) (clink root k) s) = Some s' \<and>
    rb_ok root (cpre k @ n # csuf k) s' \<and> same_rest s s'"
  by (rule rb_insert_tree [OF assms])

theorem rb_insert_color_correct_witness:
  "\<exists>s'. rb_insert_color 0x40 0x100 (rb_link_node 0x40 0x30 (Right 0x30) example_tree) = Some s' \<and>
    rb_ok 0x100 [0x10, 0x20, 0x30, 0x40] s' \<and> same_rest example_tree s'"
  using rb_insert_color_correct [of "0x100" "[CR Lf R 0x30, CR (Nd Lf R 0x10 Lf) B 0x20]" example_tree "0x40"] example_rep
  by (simp add: aligned_def)

text \<open>
  C6: \<^verbatim>\<open>rb_erase\<close> of any node of a red-black tree ends and gives a red-black tree with the
  other nodes in the same order; nothing outside the tree changes.
\<close>

theorem rb_erase_correct:
  assumes "rb_ok root xs s" and "n \<in> set xs"
  shows "\<exists>s'. rb_erase n root s = Some s' \<and> rb_ok root (remove1 n xs) s' \<and> same_rest s s'"
  using rbt.remove_node [OF assms] by blast

theorem rb_erase_correct_witness:
  "\<exists>s'. rb_erase 0x20 0x100 example_tree = Some s' \<and> rb_ok 0x100 [0x10, 0x30] s' \<and> same_rest example_tree s'"
  using rb_erase_correct [OF example_ok, of "0x20"] by simp

text \<open>
  C25: \<^verbatim>\<open>rb_first\<close> and \<^verbatim>\<open>rb_next\<close> visit the nodes of a red-black tree in order, and \<^verbatim>\<open>rb_last\<close> and
  \<^verbatim>\<open>rb_prev\<close> visit them backwards; each ends with the null pointer.
\<close>

theorem rb_traversal_correct:
  assumes "rb_ok root xs s"
  shows "rb_first root s = Some (if xs = [] then NULL else hd xs) \<and>
    rb_last root s = Some (if xs = [] then NULL else last xs) \<and>
    (\<forall>i < length xs. rb_next (xs ! i) s = Some (if Suc i < length xs then xs ! Suc i else NULL) \<and>
       rb_prev (xs ! i) s = Some (if i = 0 then NULL else xs ! (i - 1)))"
proof (intro conjI allI impI)
  fix i
  assume i: "i < length xs"
  show "rb_next (xs ! i) s = Some (if Suc i < length xs then xs ! Suc i else NULL)"
    by (rule rbt.visits_all [OF assms i])
  show "rb_prev (xs ! i) s = Some (if i = 0 then NULL else xs ! (i - 1))"
    using rb_prev_tree [of root "take i xs" "xs ! i" "drop (Suc i) xs" s] assms i
    by (cases i) (simp_all add: Cons_nth_drop_Suc take_Suc_conv_app_nth)
qed (use rbt.holds_first [OF assms] rb_last_tree [OF assms] in auto)

theorem rb_traversal_correct_witness:
  "rb_first 0x100 example_tree = Some 0x10 \<and> rb_next 0x10 example_tree = Some 0x20 \<and>
    rb_next 0x30 example_tree = Some 0 \<and> rb_prev 0x30 example_tree = Some 0x20 \<and> rb_prev 0x10 example_tree = Some 0"
  using rb_traversal_correct [OF example_ok]
  by (auto dest: spec [of _ 0] spec [of _ 2])

end
