(* ===== verification/Timeline.thy ===== *)
theory Timeline
  imports Rbtree_props Sched
begin

section \<open>The timeline of runnable tasks\<close>

text \<open>
  \<^verbatim>\<open>kernel/sched_fair.c\<close> keeps the runnable tasks in a red-black tree ordered by their virtual run
  time. The keys are 32-bit counters that wrap, compared by the sign of their difference. The
  theory shows that the tree is a sorted list inside a window of \<open>2 ^ 31\<close> (\<open>timeline\<close>) and that
  \<^verbatim>\<open>ts_insert\<close> inserts into this list.
\<close>

subsection \<open>Definitions\<close>

text \<open>The distance of a virtual run time from \<open>w\<close>, and the timeline as the list of its entities: a
  red-black tree whose keys increase, all less than \<open>2 ^ 31\<close> after \<open>w\<close>. Inside such a window the
  code's signed comparison of differences is the comparison of the distances.\<close>

definition vkey :: "u32 \<Rightarrow> 'a sched_heap_scheme \<Rightarrow> addr \<Rightarrow> nat" where
  "vkey w s x = unat (se_vruntime s x - w)"

definition timeline :: "u32 \<Rightarrow> addr \<Rightarrow> addr list \<Rightarrow> 'a sched_heap_scheme \<Rightarrow> bool" where
  "timeline w root xs s \<longleftrightarrow> rb_ok root xs s \<and> sorted_wrt (\<lambda>x y. vkey w s x < vkey w s y) xs \<and>
     (\<forall>x\<in>set xs. vkey w s x < 2 ^ 31)"

text \<open>Three tasks, at \<open>0x1000\<close> (the current one), \<open>0x2000\<close> and \<open>0x3000\<close>, and a run queue at \<open>0x400\<close>.\<close>

definition example_sched :: sched_heap where
  "example_sched =
     \<lparr>l_next = \<lambda>_. 0, l_prev = \<lambda>_. 0,
      rb_parent_color = (\<lambda>_. 0)(0x2290 := 1, 0x1290 := 0x2290, 0x3290 := 0x2290),
      rb_right = (\<lambda>_. 0)(0x2290 := 0x3290), rb_left = (\<lambda>_. 0)(0x2290 := 0x1290),
      rb_root = (\<lambda>_. 0)(0x404 := 0x2290),
      se_vruntime = (\<lambda>_. 0)(0x1290 := 100, 0x2290 := 110, 0x3290 := 120, 0x4290 := 115),
      tsk_regs = (\<lambda>_. \<lparr>r_gs = 0, r_fs = 0, r_es = 0, r_ds = 0, r_edi = 0, r_esi = 0, r_ebp = 0,
        r_kernel_esp = 0, r_ebx = 0, r_edx = 0, r_ecx = 0, r_eax = 0, r_retaddr = 0, r_eip = 0, r_cs = 0,
        r_eflags = 0, r_esp = 0, r_ss = 0\<rparr>),
      tsk_ldt_sel = \<lambda>_. 0,
      tsk_ldts = (let d = \<lparr>limit_low = 0, base_low = 0, base_mid = 0, attr1 = 0, limit_high_attr2 = 0, base_high = 0\<rparr>
        in (\<lambda>_. (d, d))),
      tsk_sa_flags = \<lambda>_ _. 0, tsk_sa_handler = \<lambda>_ _. 0, tsk_state = \<lambda>_. TASK_RUNNING, tsk_signal = \<lambda>_. 0,
      tsk_ticks = \<lambda>_. 10, tsk_priority = \<lambda>_. 10, tsk_pid = \<lambda>_. 1, tsk_parent = \<lambda>_. 0, tsk_next = \<lambda>_. 0,
      tsk_sibling = \<lambda>_. 0, tsk_class = \<lambda>_. Some Rr_sched, nr_running = \<lambda>_. 3,
      min_vruntime = \<lambda>_. 100, current = 0x1000, sched_rq = 0x400, pidmap = [], jiffies = 0, ticks = 0, k_reenter = 0\<rparr>"

subsection \<open>Lemmas\<close>

lemma vdiff_key:
  assumes "unat (a - w) < 2 ^ 31" and "unat (b - w) < 2 ^ 31"
  shows "vdiff a b = int (unat (a - w)) - int (unat (b - w))"
proof -
  let ?n = "int (unat (a - w)) - int (unat (b - w))"
  have "a - b = (a - w) - (b - w)" by simp
  also have "\<dots> = word_of_int ?n" by simp
  finally have "vdiff a b = sint (word_of_int ?n :: u32)" by (simp only: vdiff_def)
  also have "\<dots> = signed_take_bit 31 ?n" unfolding signed_of_int by simp
  also have "\<dots> = ?n"
  proof (rule signed_take_bit_int_eq_self)
    have "int (unat (a - w)) < 2 ^ 31" "int (unat (b - w)) < 2 ^ 31"
      using assms by (simp_all only: of_nat_less_numeral_power_cancel_iff)
    then show "- (2 ^ 31) \<le> ?n" "?n < 2 ^ 31" by linarith+
  qed
  finally show ?thesis .
qed

lemma vkey_eq_iff: "vkey w s x = unat (v - w) \<longleftrightarrow> se_vruntime s x = v"
  unfolding vkey_def by (metis diff_add_cancel unsigned_word_eqI)

lemma read_clink: "ctx_rep root k x s \<Longrightarrow> read_link (clink root k) s = x"
  by (cases k rule: ctx_nodes.cases) auto

lemma ts_insert_loop_tree:
  assumes "rb_tree root (plug k t) s" and "sorted_wrt (\<lambda>x y. vkey w s x < vkey w s y) (inorder t)"
    and "\<forall>x\<in>set (inorder t). vkey w s x < 2 ^ 31" and "unat (v - w) < 2 ^ 31"
  shows "if v \<in> se_vruntime s ` set (inorder t) then ts_insert_loop (clink root k) (cptr k) v s = Some None
    else \<exists>k'. plug k' Lf = plug k t \<and> ts_insert_loop (clink root k) (cptr k) v s = Some (Some (cptr k', clink root k')) \<and>
      cpre k' = cpre k @ filter (\<lambda>x. vkey w s x < unat (v - w)) (inorder t) \<and>
      csuf k' = filter (\<lambda>x. \<not> vkey w s x < unat (v - w)) (inorder t) @ csuf k"
  using assms
proof (induction t arbitrary: k)
  case Lf
  have "read_link (clink root k) s = NULL" using Lf(1) unfolding rb_tree_split by (auto dest: read_clink)
  then show ?case by (subst ts_insert_loop.simps) (auto intro: exI [of _ k])
next
  case (Nd l c a r)
  have rd: "read_link (clink root k) s = a" using Nd.prems(1) unfolding rb_tree_split by (auto dest: read_clink)
  have a: "a \<noteq> NULL" using rb_tree_reads(7) [OF Nd.prems(1)] .
  have d: "vdiff v (se_vruntime s a) = int (unat (v - w)) - int (vkey w s a)"
    unfolding vkey_def by (rule vdiff_key) (use Nd.prems in \<open>auto simp: vkey_def\<close>)
  have sub: "sorted_wrt (\<lambda>x y. vkey w s x < vkey w s y) (inorder l)" "sorted_wrt (\<lambda>x y. vkey w s x < vkey w s y) (inorder r)"
    "\<forall>x\<in>set (inorder l). vkey w s x < 2 ^ 31" "\<forall>x\<in>set (inorder r). vkey w s x < 2 ^ 31"
    using Nd.prems(2,3) by (simp_all only: sorted_wrt_append inorder.simps set_append Un_iff list.set insert_iff sorted_wrt.simps simp_thms) blast+
  have srt: "\<forall>x\<in>set (inorder l). vkey w s x < vkey w s a" "\<forall>x\<in>set (inorder r). vkey w s a < vkey w s x"
    using Nd.prems(2) by (auto simp: sorted_wrt_append)
  consider "unat (v - w) < vkey w s a" | "unat (v - w) = vkey w s a" | "unat (v - w) > vkey w s a" by linarith
  then show ?case
  proof cases
    case 1
    have v1: "vdiff v (se_vruntime s a) < 0" using d 1 by linarith
    have t: "rb_tree root (plug (CL c a r # k) l) s" using Nd.prems(1) by simp
    have n: "v \<notin> se_vruntime s ` set (a # inorder r)" using 1 srt(2) by (force simp: vkey_def)
    have f: "filter (\<lambda>x. vkey w s x < unat (v - w)) (inorder r) = []"
      "filter (\<lambda>x. \<not> vkey w s x < unat (v - w)) (inorder r) = inorder r" using srt(2) 1 by (auto simp: filter_empty_conv filter_id_conv)
    have "ts_insert_loop (clink root k) (cptr k) v s = ts_insert_loop (Left a) a v s"
      by (subst ts_insert_loop.simps) (use rd a v1 in simp)
    then show ?thesis using Nd.IH(1) [OF t sub(1,3) Nd.prems(4)] n f 1 by (cases "v \<in> se_vruntime s ` set (inorder l)") auto
  next
    case 2
    have v2: "vdiff v (se_vruntime s a) = 0" using d 2 by linarith
    have "se_vruntime s a = v" using vkey_eq_iff [of w s a v] 2 by simp
    moreover have "ts_insert_loop (clink root k) (cptr k) v s = Some None"
      by (subst ts_insert_loop.simps) (use rd a v2 in simp)
    ultimately show ?thesis by auto
  next
    case 3
    have v3: "vdiff v (se_vruntime s a) > 0" using d 3 by linarith
    have t: "rb_tree root (plug (CR l c a # k) r) s" using Nd.prems(1) by simp
    have n: "v \<notin> se_vruntime s ` set (a # inorder l)" using 3 srt(1) by (force simp: vkey_def)
    have f: "filter (\<lambda>x. \<not> vkey w s x < unat (v - w)) (inorder l) = []"
      "filter (\<lambda>x. vkey w s x < unat (v - w)) (inorder l) = inorder l" using srt(1) 3 by (auto simp: filter_empty_conv filter_id_conv)
    have "ts_insert_loop (clink root k) (cptr k) v s = ts_insert_loop (Right a) a v s"
      by (subst ts_insert_loop.simps) (use rd a v3 in simp)
    then show ?thesis using Nd.IH(2) [OF t sub(2,4) Nd.prems(4)] n f 3 by (cases "v \<in> se_vruntime s ` set (inorder r)") auto
  qed
qed

lemma insort_filter:
  "sorted_wrt (\<lambda>x y. f x < f y) xs \<Longrightarrow>
    filter (\<lambda>y. f y < f x) xs @ x # filter (\<lambda>y. \<not> f y < f x) xs = insort_key f x xs" for f :: "'b \<Rightarrow> nat"
proof (induction xs)
  case (Cons a xs)
  show ?case
  proof (cases "f a < f x")
    case True
    then show ?thesis using Cons by simp
  next
    case False
    then have n: "\<forall>y\<in>set xs. \<not> f y < f x" using Cons.prems by fastforce
    then have "filter (\<lambda>y. f y < f x) xs = []" "filter (\<lambda>y. \<not> f y < f x) xs = xs"
      by (auto simp: filter_empty_conv filter_id_conv)
    then show ?thesis using False by simp
  qed
qed simp

lemma sorted_insort_strict:
  "sorted_wrt (\<lambda>x y. f x < f y) xs \<Longrightarrow> f x \<notin> f ` set xs \<Longrightarrow>
    sorted_wrt (\<lambda>x y. f x < f y) (insort_key f x xs)" for f :: "'b \<Rightarrow> nat"
  by (induction xs) (auto simp: set_insort_key not_le)

lemma rb_rep_cong:
  "rb_parent_color s' = rb_parent_color s \<Longrightarrow> rb_left s' = rb_left s \<Longrightarrow> rb_right s' = rb_right s \<Longrightarrow>
    rb_rep p t x s' = rb_rep p t x s"
  by (induction t arbitrary: p x) (simp_all add: node_ok_def)

lemma rb_ok_cong:
  assumes "rb_parent_color s' = rb_parent_color s" "rb_left s' = rb_left s" "rb_right s' = rb_right s" "rb_root s' = rb_root s"
  shows "rb_ok root xs s' = rb_ok root xs s"
  unfolding rb_ok_def rb_tree_def rb_rep_cong [OF assms(1-3)] assms(4) ..

lemma rb_ok_sched [simp]:
  "rb_ok root xs (set_vruntime se v s) = rb_ok root xs s"
  "rb_ok root xs (set_min_vruntime rq v s) = rb_ok root xs s"
  "rb_ok root xs (set_ticks p v s) = rb_ok root xs s"
  "rb_ok root xs (set_state p st s) = rb_ok root xs s"
  "rb_ok root xs (s\<lparr>jiffies := j\<rparr>) = rb_ok root xs s"
  "rb_ok root xs (s\<lparr>ticks := j\<rparr>) = rb_ok root xs s"
  "rb_ok root xs (s\<lparr>current := j'\<rparr>) = rb_ok root xs s"
  by (rule rb_ok_cong; simp add: set_vruntime_def set_min_vruntime_def set_ticks_def set_state_def)+

lemma same_rest_sched:
  assumes "same_rest s s'"
  shows "se_vruntime s' = se_vruntime s" "tsk_state s' = tsk_state s" "tsk_class s' = tsk_class s"
    "min_vruntime s' = min_vruntime s" "current s' = current s" "sched_rq s' = sched_rq s"
    "jiffies s' = jiffies s" "k_reenter s' = k_reenter s" "tsk_ticks s' = tsk_ticks s"
  using assms by (cases s; cases s'; simp add: same_rest_def)+

lemma rb_ok_not_null: "rb_ok root xs s \<Longrightarrow> x \<in> set xs \<Longrightarrow> x \<noteq> NULL \<and> aligned x"
  unfolding rb_ok_def by (metis rb_tree_reads(7,8) zipper)

lemma vkey_image: "unat (v - w) \<in> vkey w s ` A \<longleftrightarrow> v \<in> se_vruntime s ` A"
  unfolding image_iff eq_commute [of "unat (v - w)"] eq_commute [of v] vkey_eq_iff ..

lemma ts_insert_taken:
  assumes "timeline w root xs s" and "unat (se_vruntime s se - w) < 2 ^ 31" and "se_vruntime s se \<in> se_vruntime s ` set xs"
  shows "ts_insert root se s = Some (0, s)"
proof -
  obtain T where T: "rb_tree root T s" "inorder T = xs" using assms(1) unfolding timeline_def rb_ok_def by blast
  have "ts_insert_loop (Root root) NULL (se_vruntime s se) s = Some None"
    using ts_insert_loop_tree [of root "[]" T s w "se_vruntime s se"] T assms unfolding timeline_def by simp
  then show ?thesis by (simp add: ts_insert_def)
qed

lemma ts_insert_free:
  assumes "timeline w root xs s" and "unat (se_vruntime s se - w) < 2 ^ 31" and "se_vruntime s se \<notin> se_vruntime s ` set xs"
    and "se \<notin> set xs" and "se \<noteq> NULL" and "aligned se"
  shows "\<exists>s'. ts_insert root se s = Some (1, s') \<and> timeline w root (insort_key (vkey w s) se xs) s' \<and> same_rest s s'"
proof -
  obtain T where T: "rb_tree root T s" "inorder T = xs" "invh T" "invc T" "colour_of T = B"
    using assms(1) unfolding timeline_def rb_ok_def by blast
  have tl: "rb_ok root xs s" "sorted_wrt (\<lambda>x y. vkey w s x < vkey w s y) xs" "\<forall>x\<in>set xs. vkey w s x < 2 ^ 31"
    using assms(1) unfolding timeline_def by blast+
  let ?lt = "\<lambda>x. vkey w s x < vkey w s se"
  obtain k' where k': "plug k' Lf = T" "ts_insert_loop (Root root) NULL (se_vruntime s se) s = Some (Some (cptr k', clink root k'))"
    "cpre k' = filter ?lt xs" "csuf k' = filter (\<lambda>x. \<not> ?lt x) xs"
    using ts_insert_loop_tree [of root "[]" T s w "se_vruntime s se"] T(1,2) tl(2,3) assms(2,3)
    unfolding vkey_def [of w s se] by auto
  have "cpre k' @ se # csuf k' = insort_key (vkey w s) se xs" unfolding k'(3,4) by (rule insort_filter [OF tl(2)])
  then obtain s' where s': "rb_insert_color se root (rb_link_node se (cptr k') (clink root k') s) = Some s'"
    "rb_ok root (insort_key (vkey w s) se xs) s'" "same_rest s s'"
    using rb_insert_tree [of root k' s se] T k'(1) assms(4-6) by auto
  have ek: "vkey w s' = vkey w s" by (rule ext) (simp add: vkey_def same_rest_sched [OF s'(3)])
  have "vkey w s se \<notin> vkey w s ` set xs"
    unfolding vkey_def [of w s se] vkey_image by (rule assms(3))
  then have "sorted_wrt (\<lambda>x y. vkey w s x < vkey w s y) (insort_key (vkey w s) se xs)"
    by (rule sorted_insort_strict [OF tl(2)])
  moreover have "\<forall>x\<in>set (insort_key (vkey w s) se xs). vkey w s x < 2 ^ 31"
    using tl(3) assms(2) unfolding set_insort_key vkey_def by blast
  ultimately have "timeline w root (insort_key (vkey w s) se xs) s'" unfolding timeline_def ek using s'(2) by blast
  then show ?thesis using s'(1,3) k'(2) by (simp add: ts_insert_def)
qed

lemma example_sched_rep:
  "rb_tree 0x404 (Nd (Nd Lf R 0x1290 Lf) B 0x2290 (Nd Lf R 0x3290 Lf)) example_sched"
  by (simp add: rb_tree_def example_sched_def node_ok_def aligned_def)

lemma example_sched_ok: "rb_ok 0x404 [0x1290, 0x2290, 0x3290] example_sched"
  unfolding rb_ok_def by (rule exI, rule conjI [OF example_sched_rep]) simp

lemma example_sched_fields [simp]:
  "current example_sched = 0x1000" "sched_rq example_sched = 0x400" "min_vruntime example_sched = (\<lambda>_. 100)"
  "tsk_state example_sched = (\<lambda>_. 0)" "tsk_class example_sched = (\<lambda>_. Some Rr_sched)"
  "jiffies example_sched = 0" "k_reenter example_sched = 0"
  "se_vruntime example_sched = (\<lambda>_. 0)(0x1290 := 100, 0x2290 := 110, 0x3290 := 120, 0x4290 := 115)"
  by (simp_all add: example_sched_def)

lemma example_timeline: "timeline 100 0x404 [0x1290, 0x2290, 0x3290] example_sched"
  unfolding timeline_def using example_sched_ok by (simp add: vkey_def)

subsection \<open>Properties\<close>

text \<open>
  C24: on a timeline \<^verbatim>\<open>ts_insert\<close> ends. When no entity has the key of the new one, the new entity
  is linked at its place in the order and 1 is returned, and the tree stays a red-black tree.
  When the key is taken, 0 is returned and nothing changes: the entity is in no tree.
\<close>

theorem ts_insert_correct:
  assumes "timeline w root xs s" and "unat (se_vruntime s se - w) < 2 ^ 31"
    and "se \<notin> set xs" and "se \<noteq> NULL" and "aligned se"
  shows "if se_vruntime s se \<in> se_vruntime s ` set xs then ts_insert root se s = Some (0, s)
    else \<exists>s'. ts_insert root se s = Some (1, s') \<and> timeline w root (insort_key (vkey w s) se xs) s' \<and> same_rest s s'"
  using ts_insert_taken [OF assms(1,2)] ts_insert_free [OF assms(1,2) _ assms(3-5)] by simp

theorem ts_insert_correct_witness:
  "\<exists>s'. ts_insert 0x404 0x4290 example_sched = Some (1, s') \<and> timeline 100 0x404 [0x1290, 0x2290, 0x4290, 0x3290] s'"
  using ts_insert_correct [OF example_timeline, of "0x4290"] by (auto simp: vkey_def aligned_def)

end
