(* ===== verification/Cfs.thy ===== *)
theory Cfs
  imports Timeline
begin

section \<open>The fair scheduler\<close>

text \<open>
  The properties of \<^verbatim>\<open>schedule\<close> and of the clock interrupt over many calls: the next task is the
  waiting one with the least virtual run time, the invariant \<open>cfs_inv\<close> is kept, and every task
  in the tree runs after a bounded number of clock interrupts. They rest on the facts of the
  interpretation \<open>rbt\<close> of \<open>ordered_nodes\<close> and on \<open>ts_insert_taken\<close> and \<open>ts_insert_free\<close>.
\<close>

subsection \<open>Definitions\<close>

text \<open>The entity of the current task, the entities of the other tasks in the tree, and how far a task
  is ahead of the virtual time of the run queue.\<close>

definition cur_se :: "'a sched_heap_scheme \<Rightarrow> addr" where
  "cur_se s = sched_entity (current s)"

definition waiting :: "addr list \<Rightarrow> 'a sched_heap_scheme \<Rightarrow> addr list" where
  "waiting xs s = remove1 (cur_se s) xs"

definition lead :: "'a sched_heap_scheme \<Rightarrow> addr \<Rightarrow> nat" where
  "lead s x = vkey (min_vruntime s (sched_rq s)) s x"

text \<open>
  The invariant of the run queue between two calls: the tree is a red-black tree that holds the current task;
  the keys of the others increase; the key of the current task may be out of order, since the
  clock interrupt increments it while the task is in the tree.
\<close>

definition cfs_inv :: "addr list \<Rightarrow> 'a sched_heap_scheme \<Rightarrow> bool" where
  "cfs_inv xs s \<longleftrightarrow> rb_ok (task_timeline (sched_rq s)) xs s \<and> cur_se s \<in> set xs \<and>
     sorted_wrt (\<lambda>x y. lead s x < lead s y) (waiting xs s) \<and> (\<forall>x\<in>set xs. lead s x < 2 ^ 31) \<and>
     (\<forall>x\<in>set xs. tsk_class s (se_entry x) \<noteq> None \<and> se_entry x \<noteq> NULL)"

text \<open>The key the current task is queued with again is taken.\<close>

definition clash :: "addr list \<Rightarrow> 'a sched_heap_scheme \<Rightarrow> bool" where
  "clash xs s \<longleftrightarrow> (\<exists>y\<in>set (waiting xs s). lead s y = lead s (hd (waiting xs s)) + lead s (cur_se s))"

text \<open>What happens to the run queue's time when the first of the waiting tasks is picked.\<close>

definition rebased :: "addr list \<Rightarrow> 'a sched_heap_scheme \<Rightarrow> 'a sched_heap_scheme \<Rightarrow> bool" where
  "rebased xs s s' \<longleftrightarrow> current s' = current s \<and> sched_rq s' = sched_rq s \<and> jiffies s' = jiffies s \<and>
     k_reenter s' = k_reenter s \<and> tsk_state s' = tsk_state s \<and> tsk_class s' = tsk_class s \<and>
     min_vruntime s' (sched_rq s) = se_vruntime s (hd (waiting xs s)) \<and>
     (\<forall>y\<in>set (waiting xs s). se_vruntime s' y = se_vruntime s y)"

text \<open>\<open>n\<close> clock interrupts in a row, the part of one before the call of \<^verbatim>\<open>schedule\<close>, and the virtual time the
  others have to run before \<open>x\<close> is the first.\<close>

fun clocks :: "nat \<Rightarrow> 'a sched_heap_scheme \<Rightarrow> 'a sched_heap_scheme option" where
  "clocks 0 s = Some s"
| "clocks (Suc n) s = Option.bind (clock_handler s) (clocks n)"

definition ticked :: "'a sched_heap_scheme \<Rightarrow> 'a sched_heap_scheme" where
  "ticked s = (let s = set_ticks (current s) (tsk_ticks s (current s) - 1) (s\<lparr>jiffies := jiffies s + 1, ticks := ticks s + 1\<rparr>)
     in set_vruntime (cur_se s) (se_vruntime s (cur_se s) + 1) s)"

definition behind :: "addr \<Rightarrow> addr list \<Rightarrow> 'a sched_heap_scheme \<Rightarrow> nat" where
  "behind x xs s = (\<Sum>y\<in>set xs - {x}. lead s x - lead s y)"

text \<open>The current task alone in the tree.\<close>

definition example_alone :: sched_heap where
  "example_alone = example_sched\<lparr>rb_parent_color := (\<lambda>_. 0)(0x1290 := 1), rb_right := \<lambda>_. 0, rb_left := \<lambda>_. 0,
     rb_root := (\<lambda>_. 0)(0x404 := 0x1290)\<rparr>"

subsection \<open>Lemmas\<close>

lemma entity_entry [simp]: "sched_entity (se_entry x) = x" "se_entry (sched_entity p) = p"
  by (simp_all add: sched_entity_def se_entry_def)

lemma sched_fields [simp]:
  "se_vruntime (set_vruntime se v s) = (se_vruntime s)(se := v)" "se_vruntime (set_min_vruntime rq v s) = se_vruntime s"
  "min_vruntime (set_vruntime se v s) = min_vruntime s" "min_vruntime (set_min_vruntime rq v s) = (min_vruntime s)(rq := v)"
  "current (set_vruntime se v s) = current s" "current (set_min_vruntime rq v s) = current s"
  "sched_rq (set_vruntime se v s) = sched_rq s" "sched_rq (set_min_vruntime rq v s) = sched_rq s"
  "tsk_state (set_vruntime se v s) = tsk_state s" "tsk_state (set_min_vruntime rq v s) = tsk_state s"
  "tsk_class (set_vruntime se v s) = tsk_class s" "tsk_class (set_min_vruntime rq v s) = tsk_class s"
  "jiffies (set_vruntime se v s) = jiffies s" "jiffies (set_min_vruntime rq v s) = jiffies s"
  "k_reenter (set_vruntime se v s) = k_reenter s" "k_reenter (set_min_vruntime rq v s) = k_reenter s"
  by (simp_all add: set_vruntime_def set_min_vruntime_def)

lemma sorted_wrt_remove1: "sorted_wrt P xs \<Longrightarrow> sorted_wrt P (remove1 x xs)"
  by (induction xs) (auto dest: notin_set_remove1)

lemma timeline_cfs_inv:
  assumes "timeline (min_vruntime s (sched_rq s)) (task_timeline (sched_rq s)) xs s" and "cur_se s \<in> set xs"
    and "\<forall>x\<in>set xs. tsk_class s (se_entry x) \<noteq> None \<and> se_entry x \<noteq> NULL"
  shows "cfs_inv xs s"
  using assms unfolding timeline_def cfs_inv_def lead_def waiting_def by (blast intro: sorted_wrt_remove1)

lemma vkey_shift:
  assumes "unat (a - m) \<le> unat (b - m)"
  shows "unat (b - a :: u32) = unat (b - m) - unat (a - m)"
proof -
  have "b - a = (b - m) - (a - m)" by simp
  also have "unat \<dots> = unat (b - m) - unat (a - m)"
    by (rule unat_sub) (use assms in \<open>simp add: word_le_nat_alt\<close>)
  finally show ?thesis .
qed

lemma hd_least:
  "sorted_wrt (\<lambda>x y. f x < f y) xs \<Longrightarrow> x \<in> set xs \<Longrightarrow> f (hd xs) \<le> (f x :: nat)"
  by (cases xs) auto

lemma cfs_inv_hd:
  assumes "cfs_inv xs s" and "waiting xs s \<noteq> []"
  shows "hd (waiting xs s) \<in> set xs" "hd (waiting xs s) \<noteq> cur_se s" "cur_se s \<notin> set (waiting xs s)"
    "set (waiting xs s) = set xs - {cur_se s}"
proof -
  have d: "distinct xs" using assms(1) unfolding cfs_inv_def by (blast dest: rb_ok_distinct)
  then show e: "set (waiting xs s) = set xs - {cur_se s}" unfolding waiting_def by (rule set_remove1_eq)
  show "hd (waiting xs s) \<in> set xs" "hd (waiting xs s) \<noteq> cur_se s" "cur_se s \<notin> set (waiting xs s)"
    using e hd_in_set [OF assms(2)] by auto
qed

lemma rebased_timeline:
  assumes inv: "cfs_inv xs s" and ne: "waiting xs s \<noteq> []" and rb: "rebased xs s s'"
    and ok: "rb_ok (task_timeline (sched_rq s)) (waiting xs s) s'"
  shows "timeline (min_vruntime s' (sched_rq s')) (task_timeline (sched_rq s')) (waiting xs s) s'"
    and "\<forall>y\<in>set (waiting xs s). lead s' y = lead s y - lead s (hd (waiting xs s))"
proof -
  let ?W = "waiting xs s" and ?p = "hd (waiting xs s)"
  have srt: "sorted_wrt (\<lambda>x y. lead s x < lead s y) ?W" and bd: "\<forall>x\<in>set xs. lead s x < 2 ^ 31"
    using inv unfolding cfs_inv_def by blast+
  show l: "\<forall>y\<in>set ?W. lead s' y = lead s y - lead s ?p"
  proof
    fix y
    assume y: "y \<in> set ?W"
    have "lead s ?p \<le> lead s y" by (rule hd_least [OF srt y])
    then show "lead s' y = lead s y - lead s ?p"
      using rb y vkey_shift unfolding lead_def vkey_def rebased_def by metis
  qed
  have "sorted_wrt (\<lambda>x y. lead s' x < lead s' y) ?W"
    by (rule sorted_wrt_mono_rel [OF _ srt]) (use l hd_least [OF srt] in \<open>metis diff_less_mono\<close>)
  moreover have "\<forall>y\<in>set ?W. lead s' y < 2 ^ 31"
    using l bd cfs_inv_hd(4) [OF inv ne] by (metis DiffD1 less_imp_diff_less)
  ultimately show "timeline (min_vruntime s' (sched_rq s')) (task_timeline (sched_rq s')) ?W s'"
    using ok rb unfolding timeline_def lead_def rebased_def by metis
qed

lemma cfs_picks:
  assumes inv: "cfs_inv xs s" and ne: "waiting xs s \<noteq> []"
  obtains s1 where "rebased xs s s1" "rb_ok (task_timeline (sched_rq s)) (waiting xs s) s1"
    "se_vruntime s1 (cur_se s) = se_vruntime s (cur_se s) - min_vruntime s (sched_rq s)"
    "cfs_next_task (sched_rq s) s =
       map_option (Pair (se_entry (hd (waiting xs s))))
         (if tsk_state s (current s) = 0 then cfs_enqueue (sched_rq s) (current s) 0 s1 else Some s1)"
proof -
  let ?root = "task_timeline (sched_rq s)" and ?p = "hd (waiting xs s)" and ?c = "cur_se s"
  let ?s = "set_vruntime ?c (se_vruntime s ?c - min_vruntime s (sched_rq s)) s"
  have "rb_ok ?root xs ?s" "?c \<in> set xs" using inv unfolding cfs_inv_def by simp_all
  then obtain s2 where s2: "rb_erase ?c ?root ?s = Some s2" "rb_ok ?root (waiting xs s) s2" "same_rest ?s s2"
    "rb_first ?root s2 = Some ?p"
    using rbt.remove_then_first [of ?root xs ?s ?c] ne unfolding waiting_def by (auto split: if_splits)
  note f = same_rest_sched [OF s2(3)]
  let ?s1 = "set_min_vruntime (sched_rq s) (se_vruntime s2 ?p) s2"
  have pc: "?p \<noteq> ?c" "?c \<notin> set (waiting xs s)" using cfs_inv_hd [OF inv ne] by blast+
  have "rebased xs s ?s1" unfolding rebased_def using pc by (auto simp: f)
  moreover have "rb_ok ?root (waiting xs s) ?s1" using s2(2) by simp
  moreover have "se_vruntime ?s1 ?c = se_vruntime s ?c - min_vruntime s (sched_rq s)" by (simp add: f)
  moreover have "cfs_next_task (sched_rq s) s =
       map_option (Pair (se_entry ?p))
         (if tsk_state s (current s) = 0 then cfs_enqueue (sched_rq s) (current s) 0 ?s1 else Some ?s1)"
    using s2(1,4) unfolding cfs_next_task_def cfs_dequeue_def ts_earse_def ts_leftmost_def cur_se_def Let_def
    by (auto simp: f cur_se_def split: Option.bind_split)
  ultimately show ?thesis using that by blast
qed

lemma cfs_requeue:
  assumes inv: "cfs_inv xs s" and ne: "waiting xs s \<noteq> []" and s1: "rebased xs s s1"
    "rb_ok (task_timeline (sched_rq s)) (waiting xs s) s1"
    "se_vruntime s1 (cur_se s) = se_vruntime s (cur_se s) - min_vruntime s (sched_rq s)"
  obtains s2 ys where "cfs_enqueue (sched_rq s) (current s) 0 s1 = Some s2" "rebased xs s s2"
    "timeline (min_vruntime s2 (sched_rq s2)) (task_timeline (sched_rq s2)) ys s2"
    "set ys = (if clash xs s then set (waiting xs s) else set xs)" "lead s2 (cur_se s) = lead s (cur_se s)"
proof -
  let ?root = "task_timeline (sched_rq s)" and ?W = "waiting xs s" and ?c = "cur_se s" and ?m = "se_vruntime s (hd (waiting xs s))"
  let ?s = "set_vruntime ?c (se_vruntime s1 ?c + min_vruntime s1 (sched_rq s)) s1"
  have W: "set ?W = set xs - {?c}" "?c \<notin> set ?W" using cfs_inv_hd [OF inv ne] by blast+
  have rb: "rebased xs s ?s" using s1(1) W(2) unfolding rebased_def by auto
  have tl: "timeline (min_vruntime ?s (sched_rq ?s)) (task_timeline (sched_rq ?s)) ?W ?s"
    and ld: "\<forall>y\<in>set ?W. lead ?s y = lead s y - lead s (hd ?W)"
    using rebased_timeline [OF inv ne rb] s1(2) by simp_all
  have eq: "sched_rq ?s = sched_rq s" "min_vruntime ?s (sched_rq s) = ?m" using rb unfolding rebased_def by simp_all
  have lc: "lead ?s ?c = lead s ?c"
    using s1(1,3) unfolding lead_def vkey_def rebased_def by simp
  have c: "?c \<in> set xs" "lead s ?c < 2 ^ 31" "?c \<noteq> NULL" "aligned ?c"
    using inv rb_ok_not_null unfolding cfs_inv_def by blast+
  have srt: "sorted_wrt (\<lambda>x y. lead s x < lead s y) ?W" using inv unfolding cfs_inv_def by blast
  have bound: "unat (se_vruntime ?s ?c - ?m) < 2 ^ 31"
    using lc c(2) unfolding lead_def vkey_def eq by simp
  have taken: "se_vruntime ?s ?c \<in> se_vruntime ?s ` set ?W \<longleftrightarrow> clash xs s"
  proof -
    have "se_vruntime ?s ?c \<in> se_vruntime ?s ` set ?W \<longleftrightarrow> lead ?s ?c \<in> lead ?s ` set ?W"
      unfolding lead_def using vkey_image [of "se_vruntime ?s ?c"] unfolding vkey_def by metis
    also have "\<dots> \<longleftrightarrow> (\<exists>y\<in>set ?W. lead s ?c = lead s y - lead s (hd ?W))" unfolding lc using ld by auto
    also have "\<dots> \<longleftrightarrow> clash xs s" unfolding clash_def
      by (intro bex_cong refl) (use hd_least [OF srt] in \<open>metis le_add_diff_inverse add_diff_cancel_left'\<close>)
    finally show ?thesis .
  qed
  have enq: "cfs_enqueue (sched_rq s) (current s) 0 s1 = map_option snd (ts_insert ?root ?c ?s)"
    unfolding cfs_enqueue_def Let_def cur_se_def by simp
  show ?thesis
  proof (cases "clash xs s")
    case True
    then have "ts_insert ?root ?c ?s = Some (0, ?s)"
      using ts_insert_taken [OF tl] bound taken unfolding eq by simp
    then show ?thesis using that [of ?s ?W] enq rb tl lc True by simp
  next
    case False
    then obtain s2 where s2: "ts_insert ?root ?c ?s = Some (1, s2)" "same_rest ?s s2"
      "timeline ?m ?root (insort_key (vkey ?m ?s) ?c ?W) s2"
      using ts_insert_free [OF tl, of ?c] bound taken W(2) c unfolding eq by auto
    note f = same_rest_sched [OF s2(2)]
    have rb2: "rebased xs s s2" using rb W(2) unfolding rebased_def f by auto
    have l2: "lead s2 ?c = lead s ?c" using lc unfolding lead_def vkey_def f by simp
    have "set (insort_key (vkey ?m ?s) ?c ?W) = set xs" unfolding set_insort_key W(1) using c(1) by auto
    then show ?thesis
      using that [of s2 "insort_key (vkey ?m ?s) ?c ?W"] enq s2(1,3) rb2 l2 False eq unfolding f by simp
  qed
qed

lemma rebased_current:
  assumes inv: "cfs_inv xs s" and ne: "waiting xs s \<noteq> []" and rb: "rebased xs s s2"
    and tl: "timeline (min_vruntime s2 (sched_rq s2)) (task_timeline (sched_rq s2)) ys s2"
    and sub: "set (waiting xs s) \<subseteq> set ys" "set ys \<subseteq> set xs"
  shows "cfs_inv ys (s2\<lparr>current := se_entry (hd (waiting xs s))\<rparr>)"
proof (rule timeline_cfs_inv)
  let ?s = "s2\<lparr>current := se_entry (hd (waiting xs s))\<rparr>"
  show "timeline (min_vruntime ?s (sched_rq ?s)) (task_timeline (sched_rq ?s)) ys ?s"
    using tl unfolding timeline_def vkey_def by simp
  show "cur_se ?s \<in> set ys" using sub(1) hd_in_set [OF ne] by (auto simp: cur_se_def)
  show "\<forall>x\<in>set ys. tsk_class ?s (se_entry x) \<noteq> None \<and> se_entry x \<noteq> NULL"
    using inv sub(2) rb unfolding cfs_inv_def rebased_def by auto
qed

lemma schedule_step:
  assumes inv: "cfs_inv xs s" and ne: "waiting xs s \<noteq> []"
  obtains s' ys where "schedule s = Some s'" "current s' = se_entry (hd (waiting xs s))" "cfs_inv ys s'"
    "set ys = (if tsk_state s (current s) = 0 \<and> \<not> clash xs s then set xs else set (waiting xs s))"
    "\<forall>y\<in>set (waiting xs s). lead s' y = lead s y - lead s (hd (waiting xs s))"
    "tsk_state s (current s) = 0 \<longrightarrow> lead s' (cur_se s) = lead s (cur_se s)"
    "jiffies s' = jiffies s" "k_reenter s' = k_reenter s" "tsk_state s' = tsk_state s" "sched_rq s' = sched_rq s"
proof -
  let ?p = "hd (waiting xs s)" and ?W = "waiting xs s"
  obtain s1 where s1: "rebased xs s s1" "rb_ok (task_timeline (sched_rq s)) ?W s1"
    "se_vruntime s1 (cur_se s) = se_vruntime s (cur_se s) - min_vruntime s (sched_rq s)"
    "cfs_next_task (sched_rq s) s =
       map_option (Pair (se_entry ?p)) (if tsk_state s (current s) = 0 then cfs_enqueue (sched_rq s) (current s) 0 s1 else Some s1)"
    using cfs_picks [OF inv ne] by blast
  have W: "set ?W = set xs - {cur_se s}" "?p \<in> set xs" "?p \<noteq> cur_se s" using cfs_inv_hd [OF inv ne] by blast+
  obtain s2 ys where s2: "(if tsk_state s (current s) = 0 then cfs_enqueue (sched_rq s) (current s) 0 s1 else Some s1) = Some s2"
    "rebased xs s s2" "timeline (min_vruntime s2 (sched_rq s2)) (task_timeline (sched_rq s2)) ys s2"
    "set ys = (if tsk_state s (current s) = 0 \<and> \<not> clash xs s then set xs else set ?W)"
    "tsk_state s (current s) = 0 \<longrightarrow> lead s2 (cur_se s) = lead s (cur_se s)"
    "\<forall>y\<in>set ?W. lead s2 y = lead s y - lead s ?p"
  proof (cases "tsk_state s (current s) = 0")
    case True
    obtain s2 ys where a: "cfs_enqueue (sched_rq s) (current s) 0 s1 = Some s2" "rebased xs s s2"
      "timeline (min_vruntime s2 (sched_rq s2)) (task_timeline (sched_rq s2)) ys s2"
      "set ys = (if clash xs s then set ?W else set xs)" "lead s2 (cur_se s) = lead s (cur_se s)"
      using cfs_requeue [OF inv ne s1(1-3)] by blast
    have "\<forall>y\<in>set ?W. lead s2 y = lead s1 y"
      using a(2) s1(1) unfolding rebased_def lead_def vkey_def by simp
    then show ?thesis using that [of s2 ys] a True rebased_timeline(2) [OF inv ne s1(1,2)] by auto
  next
    case False
    then show ?thesis using that [of s1 ?W] s1 rebased_timeline [OF inv ne s1(1,2)] by auto
  qed
  let ?s' = "s2\<lparr>current := se_entry ?p\<rparr>"
  have cls: "tsk_class s (current s) \<noteq> None" "se_entry ?p \<noteq> NULL"
    using inv W(2) unfolding cfs_inv_def cur_se_def by (metis entity_entry(2))+
  then have cl: "tsk_class s (current s) = Some Rr_sched" using sched_class.exhaust by (metis option.exhaust)
  have "se_entry ?p \<noteq> current s2" using W(3) s2(2) unfolding rebased_def cur_se_def by (metis entity_entry(1))
  then have "schedule s = Some ?s'"
    using cls(2) cl s1(4) s2(1) by (simp add: schedule_def)
  moreover have "cfs_inv ys ?s'" by (rule rebased_current [OF inv ne s2(2,3)]) (use s2(4) W in auto)
  ultimately show ?thesis
    using that [of ?s' ys] s2 unfolding rebased_def lead_def vkey_def by auto
qed

lemma smod4: "sint (j :: u32) smod 4 = 0 \<longleftrightarrow> unat j mod 4 = 0"
proof -
  have "sint j smod 4 = 0 \<longleftrightarrow> (4 :: int) dvd sint j"
    by (auto simp: signed_modulo_int_def sgn_eq_0_iff dvd_eq_mod_eq_0 [symmetric])
  also have "\<dots> \<longleftrightarrow> take_bit 2 (sint j) = 0" by (simp add: take_bit_eq_mod dvd_eq_mod_eq_0)
  also have "take_bit 2 (sint j) = take_bit 2 (uint j)"
    unfolding sint_uint by (rule take_bit_signed_take_bit) simp
  also have "take_bit 2 (uint j) = 0 \<longleftrightarrow> uint j mod 4 = 0" by (simp add: take_bit_eq_mod)
  also have "uint j mod 4 = int (unat j mod 4)" by (simp add: zmod_int)
  also have "int (unat j mod 4) = 0 \<longleftrightarrow> unat j mod 4 = 0" by (rule of_nat_eq_0_iff)
  finally show ?thesis .
qed

lemma clock_handler_ticked:
  assumes "k_reenter s = 0"
  shows "clock_handler s = (if unat (jiffies s + 1) mod 4 = 0 then schedule (ticked s) else Some (ticked s))"
  using assms unfolding clock_handler_def ticked_def Let_def cur_se_def smod4 [symmetric]
  by (simp add: set_ticks_def)

lemma unat_succ_mod4: "unat (j + 1 :: u32) mod 4 = Suc (unat j) mod 4"
  by (simp add: unat_word_ariths take_bit_eq_mod mod_mod_cancel)

lemma ticked_fields [simp]:
  "current (ticked s) = current s" "cur_se (ticked s) = cur_se s" "waiting xs (ticked s) = waiting xs s"
  "jiffies (ticked s) = jiffies s + 1" "k_reenter (ticked s) = k_reenter s" "tsk_state (ticked s) = tsk_state s"
  "tsk_class (ticked s) = tsk_class s" "sched_rq (ticked s) = sched_rq s" "min_vruntime (ticked s) = min_vruntime s"
  "se_vruntime (ticked s) = (se_vruntime s)(cur_se s := se_vruntime s (cur_se s) + 1)"
  by (simp_all add: ticked_def Let_def set_ticks_def set_vruntime_def cur_se_def waiting_def)

lemma rb_ok_ticked [simp]: "rb_ok root xs (ticked s) = rb_ok root xs s"
  by (rule rb_ok_cong; simp add: ticked_def Let_def set_ticks_def set_vruntime_def)

lemma unat_succ: "unat (x :: u32) < 2 ^ 31 \<Longrightarrow> unat (x + 1) = Suc (unat x)"
  by (simp add: unat_word_ariths)

lemma lead_ticked:
  assumes "lead s (cur_se s) < 2 ^ 31"
  shows "lead (ticked s) x = (if x = cur_se s then Suc (lead s x) else lead s x)"
proof -
  let ?v = "se_vruntime s (cur_se s)" and ?m = "min_vruntime s (sched_rq s)"
  have "unat (?v + 1 - ?m) = Suc (unat (?v - ?m))"
    using unat_succ [of "?v - ?m"] assms unfolding lead_def vkey_def by (simp add: algebra_simps)
  then show ?thesis by (simp add: lead_def vkey_def)
qed

lemma cfs_inv_ticked:
  assumes "cfs_inv xs s" and "lead s (cur_se s) + 1 < 2 ^ 31"
  shows "cfs_inv xs (ticked s)"
proof -
  have l: "lead (ticked s) x = (if x = cur_se s then Suc (lead s x) else lead s x)" for x
    by (rule lead_ticked) (use assms(2) in linarith)
  have n: "cur_se s \<notin> set (waiting xs s)"
    using assms(1) rb_ok_distinct unfolding cfs_inv_def waiting_def by (metis remove1.simps(1) set_remove1_eq Diff_iff singletonI)
  have "sorted_wrt (\<lambda>x y. lead (ticked s) x < lead (ticked s) y) (waiting xs s)"
    by (rule sorted_wrt_mono_rel [of _ "\<lambda>x y. lead s x < lead s y"]) (use n l assms(1) in \<open>auto simp: cfs_inv_def\<close>)
  then show ?thesis using assms l unfolding cfs_inv_def by auto
qed

lemma behind_ticked:
  assumes "cur_se s \<in> set xs" "x \<noteq> cur_se s" "lead s (cur_se s) < 2 ^ 31"
  shows "behind x xs (ticked s) \<le> behind x xs s"
    and "lead s (cur_se s) < lead s x \<Longrightarrow> behind x xs (ticked s) < behind x xs s"
proof -
  note l = lead_ticked [OF assms(3)]
  show "behind x xs (ticked s) \<le> behind x xs s"
    unfolding behind_def by (rule sum_mono) (use assms(2) in \<open>auto simp: l\<close>)
  assume "lead s (cur_se s) < lead s x"
  then show "behind x xs (ticked s) < behind x xs s"
    unfolding behind_def
    by (intro sum_strict_mono_ex1) (use assms in \<open>auto simp: l intro!: bexI [of _ "cur_se s"]\<close>)
qed

lemma behind_schedule:
  assumes inv: "cfs_inv xs s" and x: "x \<in> set (waiting xs s)"
    and ys: "set ys = (if tsk_state s (current s) = 0 \<and> \<not> clash xs s then set xs else set (waiting xs s))"
    and ld: "\<forall>y\<in>set (waiting xs s). lead s' y = lead s y - lead s (hd (waiting xs s))"
    and lc: "tsk_state s (current s) = 0 \<longrightarrow> lead s' (cur_se s) = lead s (cur_se s)"
  shows "behind x ys s' \<le> behind x xs s"
proof -
  let ?W = "waiting xs s"
  have ne: "?W \<noteq> []" using x by auto
  have W: "set ?W = set xs - {cur_se s}" using cfs_inv_hd [OF inv ne] by blast
  have le: "lead s (hd ?W) \<le> lead s y" if "y \<in> set ?W" for y
    using inv that hd_least [of "lead s" ?W y] unfolding cfs_inv_def by blast
  have "lead s' x - lead s' y \<le> lead s x - lead s y" if "y \<in> set ys - {x}" for y
  proof (cases "y \<in> set ?W")
    case True
    then show ?thesis using ld x le [OF True] le [OF x] by simp
  next
    case False
    then have "y = cur_se s" "tsk_state s (current s) = 0" using that ys W by (auto split: if_splits)
    then show ?thesis using lc ld x by simp
  qed
  then have "behind x ys s' \<le> (\<Sum>y\<in>set ys - {x}. lead s x - lead s y)"
    unfolding behind_def by (rule sum_mono)
  also have "\<dots> \<le> behind x xs s"
    unfolding behind_def by (rule sum_mono2) (use ys W in \<open>auto split: if_splits\<close>)
  finally show ?thesis .
qed

lemma schedule_waiting:
  assumes inv: "cfs_inv xs s" and x: "x \<in> set xs" "x \<noteq> cur_se s"
  obtains s' ys where "schedule s = Some s'" "cfs_inv ys s'" "x \<in> set ys" "jiffies s' = jiffies s"
    "k_reenter s' = k_reenter s" "lead s' (cur_se s') = 0" "cur_se s' = x \<or> 0 < lead s' x" "behind x ys s' \<le> behind x xs s"
proof -
  let ?W = "waiting xs s"
  have xW: "x \<in> set ?W" using x unfolding waiting_def by simp
  then have ne: "?W \<noteq> []" by auto
  obtain s' ys where s': "schedule s = Some s'" "current s' = se_entry (hd ?W)" "cfs_inv ys s'"
    "set ys = (if tsk_state s (current s) = 0 \<and> \<not> clash xs s then set xs else set ?W)"
    "\<forall>y\<in>set ?W. lead s' y = lead s y - lead s (hd ?W)"
    "tsk_state s (current s) = 0 \<longrightarrow> lead s' (cur_se s) = lead s (cur_se s)"
    "jiffies s' = jiffies s" "k_reenter s' = k_reenter s"
    using schedule_step [OF inv ne] by metis
  have cur: "cur_se s' = hd ?W" using s'(2) by (simp add: cur_se_def)
  have srt: "sorted_wrt (\<lambda>x y. lead s x < lead s y) ?W" using inv unfolding cfs_inv_def by blast
  have "0 < lead s' x" if "x \<noteq> hd ?W"
  proof -
    have "lead s (hd ?W) < lead s x" using srt xW that by (cases ?W) auto
    then show ?thesis using s'(5) xW by simp
  qed
  moreover have "lead s' (cur_se s') = 0" using s'(5) hd_in_set [OF ne] cur by simp
  moreover have "x \<in> set ys" using s'(4) x(1) xW by simp
  ultimately show ?thesis
    using that s'(1,3,7,8) cur behind_schedule [OF inv xW s'(4-6)] by metis
qed

lemma run_to_schedule:
  assumes "cfs_inv xs s" and "x \<in> set xs" and "x \<noteq> cur_se s" and "k_reenter s = 0"
    and "unat (jiffies s) mod 4 + Suc k = 4" and "lead s (cur_se s) + Suc k < 2 ^ 31"
  shows "\<exists>s' ys. clocks (Suc k) s = Some s' \<and> cfs_inv ys s' \<and> x \<in> set ys \<and> k_reenter s' = 0 \<and>
    unat (jiffies s') mod 4 = 0 \<and> lead s' (cur_se s') = 0 \<and> (cur_se s' = x \<or> 0 < lead s' x) \<and>
    behind x ys s' \<le> behind x xs s \<and> (lead s (cur_se s) < lead s x \<longrightarrow> behind x ys s' < behind x xs s)"
  using assms
proof (induction k arbitrary: s)
  case 0
  let ?t = "ticked s"
  have c: "cur_se s \<in> set xs" "lead s (cur_se s) < 2 ^ 31" using 0 unfolding cfs_inv_def by blast+
  have inv: "cfs_inv xs ?t" using cfs_inv_ticked [OF 0(1)] 0(6) by simp
  obtain s' ys where s': "schedule ?t = Some s'" "cfs_inv ys s'" "x \<in> set ys" "jiffies s' = jiffies ?t"
    "k_reenter s' = k_reenter ?t" "lead s' (cur_se s') = 0" "cur_se s' = x \<or> 0 < lead s' x" "behind x ys s' \<le> behind x xs ?t"
    by (rule schedule_waiting [OF inv 0(2)]) (use 0(3) in auto)
  have j: "unat (jiffies s + 1) mod 4 = 0" using 0(5) by (simp add: unat_succ_mod4 mod_Suc)
  have "clocks 1 s = Some s'" using clock_handler_ticked [OF 0(4)] j s'(1) by simp
  moreover have "behind x ys s' \<le> behind x xs s" "lead s (cur_se s) < lead s x \<longrightarrow> behind x ys s' < behind x xs s"
    using behind_ticked [OF c(1) 0(3) c(2)] s'(8) by auto
  ultimately show ?case using s' j 0(4) by auto
next
  case (Suc k)
  let ?t = "ticked s"
  have c: "cur_se s \<in> set xs" "lead s (cur_se s) < 2 ^ 31" using Suc.prems unfolding cfs_inv_def by blast+
  have inv: "cfs_inv xs ?t" using cfs_inv_ticked [OF Suc.prems(1)] Suc.prems(6) by simp
  have j: "unat (jiffies ?t) mod 4 + Suc k = 4" using Suc.prems(5) by (simp add: unat_succ_mod4 mod_Suc)
  have "lead ?t (cur_se ?t) + Suc k < 2 ^ 31" using Suc.prems(6) lead_ticked [OF c(2)] by simp
  then obtain s' ys where s': "clocks (Suc k) ?t = Some s'" "cfs_inv ys s'" "x \<in> set ys" "k_reenter s' = 0"
    "unat (jiffies s') mod 4 = 0" "lead s' (cur_se s') = 0" "cur_se s' = x \<or> 0 < lead s' x"
    "behind x ys s' \<le> behind x xs ?t"
    using Suc.IH [OF inv Suc.prems(2)] Suc.prems(3,4) j by auto
  have "unat (jiffies s + 1) mod 4 \<noteq> 0" using j Suc.prems(5) by auto
  then have "clocks (Suc (Suc k)) s = Some s'" using clock_handler_ticked [OF Suc.prems(4)] s'(1) by simp
  moreover have "behind x ys s' \<le> behind x xs s" "lead s (cur_se s) < lead s x \<longrightarrow> behind x ys s' < behind x xs s"
    using behind_ticked [OF c(1) Suc.prems(3) c(2)] s'(8) by auto
  ultimately show ?case using s' by (intro exI [of _ s'] exI [of _ ys] conjI) assumption+
qed

lemma clocks_add: "clocks (m + n) s = Option.bind (clocks m s) (clocks n)"
  by (induction m arbitrary: s) (auto split: Option.bind_split)

lemma runs_in_turn:
  assumes "cfs_inv xs s" and "x \<in> set xs" and "k_reenter s = 0" and "unat (jiffies s) mod 4 = 0"
    and "lead s (cur_se s) = 0" and "cur_se s = x \<or> 0 < lead s x"
  shows "\<exists>n \<le> 4 * behind x xs s. \<exists>s'. clocks n s = Some s' \<and> cur_se s' = x"
  using assms
proof (induction "behind x xs s" arbitrary: xs s rule: less_induct)
  case less
  show ?case
  proof (cases "cur_se s = x")
    case True
    then show ?thesis by (intro exI [of _ 0]) auto
  next
    case False
    obtain s' ys where s': "clocks 4 s = Some s'" "cfs_inv ys s'" "x \<in> set ys" "k_reenter s' = 0"
      "unat (jiffies s') mod 4 = 0" "lead s' (cur_se s') = 0" "cur_se s' = x \<or> 0 < lead s' x"
      "behind x ys s' < behind x xs s"
      using run_to_schedule [of xs s x 3] less.prems False by auto
    obtain n s'' where n: "n \<le> 4 * behind x ys s'" "clocks n s' = Some s''" "cur_se s'' = x"
      using less.hyps [OF s'(8,2-7)] by blast
    have "clocks (4 + n) s = Some s''" using s'(1) n(2) by (simp only: clocks_add) simp
    moreover have "4 + n \<le> 4 * behind x xs s" using n(1) s'(8) by linarith
    ultimately show ?thesis using n(3) by blast
  qed
qed

lemma runs_eventually:
  assumes "cfs_inv xs s" and "x \<in> set xs" and "x \<noteq> cur_se s" and "k_reenter s = 0" and "lead s (cur_se s) + 4 < 2 ^ 31"
  shows "\<exists>n \<le> 4 + 4 * behind x xs s. \<exists>s'. clocks n s = Some s' \<and> cur_se s' = x"
proof -
  obtain k where k: "unat (jiffies s) mod 4 + Suc k = 4" by (metis add.commute less_imp_Suc_add mod_less_divisor zero_less_numeral add_Suc_right)
  then have "lead s (cur_se s) + Suc k < 2 ^ 31" using assms(5) by linarith
  then obtain s' ys where s': "clocks (Suc k) s = Some s'" "cfs_inv ys s'" "x \<in> set ys" "k_reenter s' = 0"
      "unat (jiffies s') mod 4 = 0" "lead s' (cur_se s') = 0" "cur_se s' = x \<or> 0 < lead s' x"
      "behind x ys s' \<le> behind x xs s"
    using run_to_schedule [OF assms(1-4) k] by auto
  obtain n s'' where n: "n \<le> 4 * behind x ys s'" "clocks n s' = Some s''" "cur_se s'' = x"
    using runs_in_turn [OF s'(2-7)] by blast
  have "clocks (Suc k + n) s = Some s''" using s'(1) n(2) by (simp only: clocks_add) simp
  moreover have "Suc k + n \<le> 4 + 4 * behind x xs s" using n(1) s'(8) k by linarith
  ultimately show ?thesis using n(3) by blast
qed

lemma schedule_nobody:
  assumes inv: "cfs_inv [cur_se s] s"
  obtains s' where "schedule s = Some s'" "current s' = - 656" "tsk_state s' = tsk_state s"
proof -
  let ?root = "task_timeline (sched_rq s)" and ?c = "cur_se s"
  let ?s = "set_vruntime ?c (se_vruntime s ?c - min_vruntime s (sched_rq s)) s"
  have c: "?c \<noteq> NULL" "aligned ?c" "tsk_class s (current s) \<noteq> None" "current s \<noteq> NULL"
    using inv rb_ok_not_null [of ?root "[?c]" s ?c] unfolding cfs_inv_def by (auto simp: cur_se_def)
  have cl: "tsk_class s (current s) = Some Rr_sched" using c(3) sched_class.exhaust by (metis option.exhaust)
  have "rb_ok ?root [?c] ?s" using inv unfolding cfs_inv_def by simp
  then obtain s2 where s2: "rb_erase ?c ?root ?s = Some s2" "rb_ok ?root [] s2" "same_rest ?s s2" "rb_first ?root s2 = Some NULL"
    using rbt.remove_then_first [of ?root "[?c]" ?s ?c] by auto
  note f = same_rest_sched [OF s2(3)]
  let ?s1 = "set_min_vruntime (sched_rq s) (se_vruntime s2 NULL) s2"
  let ?s3 = "set_vruntime ?c (se_vruntime ?s1 ?c + min_vruntime ?s1 (sched_rq s)) ?s1"
  have "timeline (se_vruntime ?s3 ?c) ?root [] ?s3" using s2(2) unfolding timeline_def by simp
  then obtain s4 where s4: "ts_insert ?root ?c ?s3 = Some (1, s4)" "same_rest ?s3 s4"
    using ts_insert_free [of "se_vruntime ?s3 ?c" ?root "[]" ?s3 ?c] c by auto
  have "\<exists>s5. cfs_next_task (sched_rq s) s = Some (- 656, s5) \<and> current s5 = current s \<and> tsk_state s5 = tsk_state s"
    using s2(1,4) s4(1) same_rest_sched [OF s4(2)]
    unfolding cfs_next_task_def cfs_dequeue_def ts_earse_def ts_leftmost_def cfs_enqueue_def cur_se_def Let_def
    by (auto simp: f cur_se_def se_entry_def split: Option.bind_split)
  then obtain s5 where s5: "cfs_next_task (sched_rq s) s = Some (- 656, s5)" "current s5 = current s" "tsk_state s5 = tsk_state s"
    by blast
  show ?thesis
  proof (cases "current s = - 656")
    case True
    then have "schedule s = Some s5" using cl s5 by (simp add: schedule_def)
    then show ?thesis using that s5 True by metis
  next
    case False
    then have "schedule s = Some (s5\<lparr>current := - 656\<rparr>)" using cl s5 by (simp add: schedule_def)
    then show ?thesis using that s5 by simp
  qed
qed

lemma set_state_cfs [simp]:
  "cfs_inv xs (set_state p v s) = cfs_inv xs s" "waiting xs (set_state p v s) = waiting xs s"
  "cur_se (set_state p v s) = cur_se s" "current (set_state p v s) = current s"
  "tsk_state (set_state p v s) p = v"
proof -
  show c: "cur_se (set_state p v s) = cur_se s" "current (set_state p v s) = current s" "tsk_state (set_state p v s) p = v"
    by (simp_all add: set_state_def cur_se_def)
  show w: "waiting xs (set_state p v s) = waiting xs s" unfolding waiting_def c ..
  show "cfs_inv xs (set_state p v s) = cfs_inv xs s"
    unfolding cfs_inv_def c w by (simp add: lead_def vkey_def) (simp add: set_state_def)
qed

lemma example_cfs: "cfs_inv [0x1290, 0x2290, 0x3290] example_sched"
  unfolding cfs_inv_def using example_sched_ok
  by (simp add: cur_se_def waiting_def lead_def vkey_def sched_entity_def se_entry_def task_timeline_def)

lemma example_alone_inv: "cfs_inv [cur_se example_alone] example_alone"
proof -
  have "rb_tree 0x404 (Nd Lf B 0x1290 Lf) example_alone"
    by (simp add: rb_tree_def example_alone_def node_ok_def aligned_def)
  then have "rb_ok 0x404 [0x1290] example_alone" unfolding rb_ok_def by (intro exI conjI) auto
  then show ?thesis unfolding cfs_inv_def
    by (simp add: example_alone_def cur_se_def waiting_def lead_def vkey_def sched_entity_def se_entry_def task_timeline_def)
qed

lemma example_waiting: "waiting [0x1290, 0x2290, 0x3290] example_sched = [0x2290, 0x3290]" "cur_se example_sched = 0x1290"
  by (simp_all add: waiting_def cur_se_def sched_entity_def)

lemma example_behind: "behind 0x3290 [0x1290, 0x2290, 0x3290] example_sched = 30"
proof -
  have "set [0x1290, 0x2290, 0x3290] - {0x3290} = {0x1290, 0x2290 :: addr}" by auto
  then show ?thesis by (simp add: behind_def lead_def vkey_def)
qed

subsection \<open>Properties\<close>

text \<open>
  C3: when another task waits, \<^verbatim>\<open>schedule\<close> ends and switches to the waiting task with the least
  virtual run time, and keeps the invariant of the run queue. The task that ran stays in the
  tree when it is still runnable and its new key is free; it leaves the tree otherwise.
\<close>

theorem schedule_correct:
  assumes "cfs_inv xs s" and "waiting xs s \<noteq> []"
  shows "\<exists>s' ys. schedule s = Some s' \<and> cfs_inv ys s' \<and> current s' = se_entry (hd (waiting xs s)) \<and>
    (\<forall>y\<in>set (waiting xs s). lead s (hd (waiting xs s)) \<le> lead s y) \<and>
    set ys = (if tsk_state s (current s) = TASK_RUNNING \<and> \<not> clash xs s then set xs else set xs - {cur_se s})"
proof -
  obtain s' ys where s': "schedule s = Some s'" "current s' = se_entry (hd (waiting xs s))" "cfs_inv ys s'"
    "set ys = (if tsk_state s (current s) = 0 \<and> \<not> clash xs s then set xs else set (waiting xs s))"
    using schedule_step [OF assms] by metis
  have "\<forall>y\<in>set (waiting xs s). lead s (hd (waiting xs s)) \<le> lead s y"
    using assms(1) hd_least [of "lead s" "waiting xs s"] unfolding cfs_inv_def by blast
  then show ?thesis using s' cfs_inv_hd(4) [OF assms] by auto
qed

theorem schedule_correct_witness:
  "\<exists>s' ys. schedule example_sched = Some s' \<and> cfs_inv ys s' \<and> current s' = 0x2000"
  using schedule_correct [OF example_cfs] by (auto simp: example_waiting se_entry_def)

text \<open>
  C4: no task starves. From any state that satisfies the invariant, a task that waits in the tree
  is the current one after finitely many clock interrupts, at most four for every tick of virtual
  time the tasks before it are behind it.
\<close>

theorem no_starvation:
  assumes "cfs_inv xs s" and "x \<in> set xs" and "x \<noteq> cur_se s" and "k_reenter s = 0" and "lead s (cur_se s) + 4 < 2 ^ 31"
  shows "\<exists>n \<le> 4 + 4 * behind x xs s. \<exists>s'. clocks n s = Some s' \<and> current s' = se_entry x"
  using runs_eventually [OF assms] unfolding cur_se_def by (metis entity_entry(2))

theorem no_starvation_witness:
  "\<exists>n \<le> 124. \<exists>s'. clocks n example_sched = Some s' \<and> current s' = 0x3000"
  using no_starvation [OF example_cfs, of "0x3290"]
  by (simp add: example_waiting example_behind se_entry_def lead_def vkey_def)

text \<open>
  C26: a runnable task is lost when it calls \<^verbatim>\<open>schedule\<close> before the clock has charged it a tick: its
  key becomes the key of the task that is picked, \<^verbatim>\<open>ts_insert\<close> refuses it, and its result is not
  looked at. The task stays marked as running and is in no tree, so it never runs again.
\<close>

theorem schedule_loses_task:
  assumes "cfs_inv xs s" and "waiting xs s \<noteq> []" and "tsk_state s (current s) = TASK_RUNNING"
    and "se_vruntime s (cur_se s) = min_vruntime s (sched_rq s)"
  shows "\<exists>s' ys. schedule s = Some s' \<and> cfs_inv ys s' \<and> cur_se s \<notin> set ys \<and> tsk_state s' (current s) = TASK_RUNNING"
proof -
  have "lead s (cur_se s) = 0" using assms(4) by (simp add: lead_def vkey_def)
  then have "clash xs s" unfolding clash_def using hd_in_set [OF assms(2)] by auto
  moreover obtain s' ys where "schedule s = Some s'" "cfs_inv ys s'" "tsk_state s' = tsk_state s"
    "set ys = (if tsk_state s (current s) = 0 \<and> \<not> clash xs s then set xs else set (waiting xs s))"
    using schedule_step [OF assms(1,2)] by metis
  ultimately show ?thesis using cfs_inv_hd(3) [OF assms(1,2)] assms(3) by auto
qed

theorem schedule_loses_task_witness:
  "\<exists>s' ys. schedule example_sched = Some s' \<and> cfs_inv ys s' \<and> 0x1290 \<notin> set ys \<and> tsk_state s' 0x1000 = TASK_RUNNING"
  using schedule_loses_task [OF example_cfs] by (simp add: example_waiting)

text \<open>
  C27: a task that blocks never runs again, even when it is woken: \<^verbatim>\<open>block\<close> takes it out of the tree, and
  \<^verbatim>\<open>unblock\<close> marks it as running but does not put it back.
\<close>

theorem unblock_not_queued:
  assumes "cfs_inv xs s" and "waiting xs s \<noteq> []"
  shows "\<exists>s' ys. block (current s) s = Some s' \<and> cfs_inv ys (unblock (current s) s') \<and> cur_se s \<notin> set ys \<and>
    tsk_state (unblock (current s) s') (current s) = TASK_RUNNING"
proof -
  let ?s = "set_state (current s) 1 s"
  have "cfs_inv xs ?s" "waiting xs ?s \<noteq> []" using assms by simp_all
  then obtain s' ys where "schedule ?s = Some s'" "cfs_inv ys s'"
    "set ys = (if tsk_state ?s (current ?s) = 0 \<and> \<not> clash xs ?s then set xs else set (waiting xs ?s))"
    using schedule_step [of xs ?s] by metis
  then show ?thesis using cfs_inv_hd(3) [OF assms] by (auto simp: block_def unblock_def)
qed

theorem unblock_not_queued_witness:
  "\<exists>s' ys. block 0x1000 example_sched = Some s' \<and> cfs_inv ys (unblock 0x1000 s') \<and> 0x1290 \<notin> set ys \<and>
    tsk_state (unblock 0x1000 s') 0x1000 = TASK_RUNNING"
  using unblock_not_queued [OF example_cfs] by (simp add: example_waiting)

text \<open>
  when the current task is the only one, \<^verbatim>\<open>schedule\<close> makes the task at the address
  \<open>- 656 = 0xFFFFFD70\<close> the current one: the tree is empty after the dequeue, and the container of
  the null node is not tested.
\<close>

theorem schedule_alone:
  assumes "cfs_inv [cur_se s] s"
  shows "\<exists>s'. schedule s = Some s' \<and> current s' = 0xFFFFFD70"
proof -
  have "(- 656 :: addr) = 0xFFFFFD70" by simp
  then show ?thesis using schedule_nobody [OF assms] by metis
qed

theorem schedule_alone_witness:
  "\<exists>s'. schedule example_alone = Some s' \<and> current s' = 0xFFFFFD70"
  using schedule_alone [of example_alone] example_alone_inv by simp


end
