(* ===== verification/Timer.thy ===== *)
theory Timer
  imports Klist
begin

section \<open>Timers\<close>

text \<open>
  The model of \<^verbatim>\<open>kernel/timer.c\<close>: timers in a doubly linked ring around \<^verbatim>\<open>timer_header\<close>, whose
  expiry time is the greatest number. The links are those of the list heap.
\<close>

record timer_heap = list_heap +
  tm_expires :: "addr \<Rightarrow> u32"
  tm_jiffies :: u32
  timer_header :: addr

definition set_expires :: "addr \<Rightarrow> u32 \<Rightarrow> 'a timer_heap_scheme \<Rightarrow> 'a timer_heap_scheme" where
  "set_expires t v s = s\<lparr>tm_expires := (tm_expires s)(t := v)\<rparr>"

definition init_timer :: "addr \<Rightarrow> 'a timer_heap_scheme \<Rightarrow> int \<times> 'a timer_heap_scheme" where
  "init_timer timer s = (0, set_next timer NULL (set_prev timer NULL s))"

text \<open>The \<^verbatim>\<open>do\<close> loop: the last node before the place of the timer and the first one after it.\<close>

partial_function (option) add_timer_loop :: "addr \<Rightarrow> u32 \<Rightarrow> 'a timer_heap_scheme \<Rightarrow> (addr \<times> addr) option" where
  "add_timer_loop p e s =
     (let q = p; p = l_next s p
      in if tm_expires s p < e then add_timer_loop p e s else Some (q, p))"

definition add_timer :: "addr \<Rightarrow> 'a timer_heap_scheme \<Rightarrow> (int \<times> 'a timer_heap_scheme) option" where
  "add_timer timer s =
     do {
       let s = set_expires timer (tm_expires s timer + tm_jiffies s) s;
       (q, p) \<leftarrow> add_timer_loop (timer_header s) (tm_expires s timer) s;
       if p \<noteq> NULL then do {
         let s = set_next timer p s;
         let s = set_prev timer (l_prev s p) s;
         let s = set_prev p timer s;
         Some (0, set_next (l_prev s timer) timer s)
       } else do {
         let s = set_next q timer s;
         let s = set_prev timer q s;
         Some (0, set_next timer NULL s)
       }
     }"

partial_function (option) del_timer_loop ::
  "addr \<Rightarrow> addr \<Rightarrow> 'a timer_heap_scheme \<Rightarrow> (int \<times> 'a timer_heap_scheme) option" where
  "del_timer_loop p timer s =
     (let p = l_next s p in
      if p = NULL then Some (-1, s)
      else if p = timer then do {
        let s = set_next (l_prev s p) (l_next s p) s;
        let s = set_prev (l_next s p) (l_prev s p) s;
        let s = set_prev timer NULL (set_next timer NULL s);
        Some (0, set_expires timer (tm_expires s timer - tm_jiffies s) s)
      }
      else del_timer_loop p timer s)"

definition del_timer :: "addr \<Rightarrow> 'a timer_heap_scheme \<Rightarrow> (int \<times> 'a timer_heap_scheme) option" where
  "del_timer timer s = del_timer_loop (timer_header s) timer s"

end
