(* ===== verification/Skbuff.thy ===== *)
theory Skbuff
  imports Timer Bytes
begin

section \<open>Socket buffers and network devices\<close>

text \<open>
  The model of \<^verbatim>\<open>net/inet/skbuff.c\<close>, \<^verbatim>\<open>include/linux/skbuff.h\<close> and of the fields of
  \<^verbatim>\<open>struct net_device\<close> the network code uses. A \<^verbatim>\<open>struct sk_buff_head\<close> is the two links
  at the front of a \<^verbatim>\<open>struct sk_buff\<close>, so the queues live in the links of the list heap. The
  bytes of packets and of names are one byte memory. The loops that empty a queue and the
  proof that a queue is first in, first out are here as well.
\<close>

record net_heap = timer_heap +
  skb_pkt_type :: "addr \<Rightarrow> u8"
  skb_len :: "addr \<Rightarrow> u32"
  skb_dev :: "addr \<Rightarrow> addr"
  skb_free :: "addr \<Rightarrow> u8"
  skb_arp :: "addr \<Rightarrow> u8"
  skb_users :: "addr \<Rightarrow> u16"
  skb_saddr :: "addr \<Rightarrow> u32"
  skb_raddr :: "addr \<Rightarrow> u32"
  skb_used :: "addr \<Rightarrow> u8"
  skb_h :: "addr \<Rightarrow> u32"
  skb_when :: "addr \<Rightarrow> u32"
  skb_ip_hdr :: "addr \<Rightarrow> addr"
  skb_sk :: "addr \<Rightarrow> addr"
  skb_localroute :: "addr \<Rightarrow> u8"
  skb_cache_next :: "addr \<Rightarrow> addr"
  dev_mtu :: "addr \<Rightarrow> u16"
  dev_name :: "addr \<Rightarrow> addr"
  dev_next :: "addr \<Rightarrow> addr"
  dev_addr_len :: "addr \<Rightarrow> u8"
  dev_type :: "addr \<Rightarrow> u16"
  pa_addr :: "addr \<Rightarrow> u32"
  pa_broadcast :: "addr \<Rightarrow> u32"
  pa_mask :: "addr \<Rightarrow> u32"
  hard_header_len :: "addr \<Rightarrow> u16"
  dev_flags :: "addr \<Rightarrow> u8"
  net_mem :: bytes

text \<open>The data of a buffer follows its 72 bytes of header: \<^verbatim>\<open>unsigned char data[0]\<close>.\<close>

definition skb_data :: "addr \<Rightarrow> addr" where
  "skb_data skb = skb + 72"

definition skb_peek :: "addr \<Rightarrow> 'a net_heap_scheme \<Rightarrow> addr" where
  "skb_peek list s = (if l_next s list \<noteq> list then l_next s list else NULL)"

definition skb_queue_head_init :: "addr \<Rightarrow> 'a net_heap_scheme \<Rightarrow> 'a net_heap_scheme" where
  "skb_queue_head_init list s = set_next list list (set_prev list list s)"

definition skb_dequeue :: "addr \<Rightarrow> 'a net_heap_scheme \<Rightarrow> addr \<times> 'a net_heap_scheme" where
  "skb_dequeue list s =
     (let rst = l_next s list in
      if rst = list then (NULL, s)
      else
        let s = set_next list (l_next s rst) s;
            s = set_prev (l_next s rst) list s;
            s = set_prev rst NULL s
        in (rst, set_next rst NULL s))"

definition skb_queue_head :: "addr \<Rightarrow> addr \<Rightarrow> 'a net_heap_scheme \<Rightarrow> 'a net_heap_scheme" where
  "skb_queue_head list skb s =
     (let s = set_next skb (l_next s list) s;
          s = set_prev skb list s;
          s = set_prev (l_next s skb) skb s
      in set_next (l_prev s skb) skb s)"

definition skb_queue_tail :: "addr \<Rightarrow> addr \<Rightarrow> 'a net_heap_scheme \<Rightarrow> 'a net_heap_scheme" where
  "skb_queue_tail list skb s =
     (let s = set_next skb list s;
          s = set_prev skb (l_prev s list) s;
          s = set_next (l_prev s skb) skb s
      in set_prev (l_next s skb) skb s)"

definition skb_unlink :: "addr \<Rightarrow> 'a net_heap_scheme \<Rightarrow> 'a net_heap_scheme" where
  "skb_unlink skb s =
     (if l_prev s skb \<noteq> NULL \<and> l_next s skb \<noteq> NULL then
        let s = set_next (l_prev s skb) (l_next s skb) s;
            s = set_prev (l_next s skb) (l_prev s skb) s;
            s = set_next skb NULL s
        in set_prev skb NULL s
      else s)"

text \<open>The source allocates nothing: the body of \<^verbatim>\<open>alloc_skb\<close> returns its initial NULL.\<close>

definition alloc_skb :: "u32 \<Rightarrow> int \<Rightarrow> addr" where
  "alloc_skb sz priority = NULL"

text \<open>\<^verbatim>\<open>while((skb = skb_dequeue(list)) != NULL) ...\<close>: the buffers in the order they are taken.\<close>

partial_function (option) skb_drain :: "addr \<Rightarrow> 'a net_heap_scheme \<Rightarrow> (addr list \<times> 'a net_heap_scheme) option" where
  "skb_drain list s =
     (let (skb, s) = skb_dequeue list s in
      if skb = NULL then Some ([], s)
      else do { (xs, s) \<leftarrow> skb_drain list s; Some (skb # xs, s) })"

subsection \<open>Queues\<close>

lemma skb_queue_tail_ring:
  assumes "ring s h xs" and "x \<notin> set (h # xs)" and "x \<noteq> NULL"
  shows "ring (skb_queue_tail h x s) h (xs @ [x])"
proof -
  have eq: "l_next (skb_queue_tail h x s) = l_next (raw_list_add x (l_prev s h) h s)"
    "l_prev (skb_queue_tail h x s) = l_prev (raw_list_add x (l_prev s h) h s)"
    using assms by (auto simp: skb_queue_tail_def raw_list_add_def Let_def fun_eq_iff)
  show ?thesis
    using ring_list_add_head [OF assms(1), of x] assms eq
    by (auto simp: list_add_head_def intro: ring_cong [THEN iffD1, rotated -1])
qed

lemma skb_queue_head_ring:
  assumes "ring s h xs" and "x \<notin> set (h # xs)" and "x \<noteq> NULL"
  shows "ring (skb_queue_head h x s) h (x # xs)"
proof -
  have eq: "l_next (skb_queue_head h x s) = l_next (raw_list_add x h (l_next s h) s)"
    "l_prev (skb_queue_head h x s) = l_prev (raw_list_add x h (l_next s h) s)"
    using assms ring_first [OF assms(1)] hd_snoc_in [of xs h] by (auto simp: skb_queue_head_def raw_list_add_def Let_def fun_eq_iff)
  show ?thesis
    using ring_list_add_tail [OF assms(1), of x] assms eq
    by (auto simp: list_add_tail_def intro: ring_cong [THEN iffD1, rotated -1])
qed

lemma skb_unlink_ring:
  assumes "ring s h (xs @ x # ys)"
  shows "ring (skb_unlink x s) h (xs @ ys)"
  using ring_neighbours [OF assms]
  by (intro ring_remove [OF assms]) (auto simp: skb_unlink_def Let_def)

lemma skb_dequeue_ring:
  assumes "ring s h (x # xs)"
  shows "fst (skb_dequeue h s) = x" and "x \<noteq> NULL" and "ring (snd (skb_dequeue h s)) h xs"
proof -
  note nb = ring_neighbours [of s h "[]" x xs, simplified, OF assms]
  have x: "l_next s h = x" "x \<noteq> h" "x \<noteq> NULL" using assms by (auto simp: ring_def)
  then show "fst (skb_dequeue h s) = x" "x \<noteq> NULL" by (simp_all add: skb_dequeue_def Let_def)
  show "ring (snd (skb_dequeue h s)) h xs"
    using ring_remove [of s h "[]" x xs "snd (skb_dequeue h s)"] assms nb x
    by (auto simp: skb_dequeue_def Let_def)
qed

lemma skb_dequeue_empty: "ring s h [] \<Longrightarrow> skb_dequeue h s = (NULL, s)"
  by (simp add: skb_dequeue_def ring_def Let_def)

lemma skb_drain_ring:
  assumes "ring s h xs"
  shows "\<exists>t. skb_drain h s = Some (xs, t) \<and> ring t h []"
  using assms
proof (induction xs arbitrary: s)
  case Nil
  then show ?case by (subst skb_drain.simps) (simp add: skb_dequeue_empty)
next
  case (Cons x xs)
  show ?case
  proof -
    obtain t where "skb_drain h (snd (skb_dequeue h s)) = Some (xs, t)" "ring t h []"
      using skb_dequeue_ring(3) [OF Cons.prems] Cons.IH by blast
    then show ?thesis
      using skb_dequeue_ring(1,2) [OF Cons.prems] by (subst skb_drain.simps) (auto simp: split_beta Let_def)
  qed
qed

end
