(* ===== verification/Route.thy ===== *)
theory Route
  imports Skbuff
begin

section \<open>The routing table\<close>

text \<open>
  The model of \<^verbatim>\<open>net/inet/route.c\<close>: a singly linked list of \<^verbatim>\<open>struct rtable\<close> from \<^verbatim>\<open>rt_base\<close>,
  kept so that an entry with a longer mask comes before one whose mask it covers. The
  macros that convert the byte order are the identity in \<^verbatim>\<open>asm-i386/byteorder.h\<close>. The
  fields \<^verbatim>\<open>rt_metric\<close> and \<^verbatim>\<open>ft_refcnt\<close> are never read. A pointer to a link is \<open>None\<close> for
  \<^verbatim>\<open>&rt_base\<close> and \<open>Some r\<close> for \<^verbatim>\<open>&r->rt_next\<close>.
\<close>

record rt_heap = net_heap +
  rt_next :: "addr \<Rightarrow> addr"
  rt_dst :: "addr \<Rightarrow> u32"
  rt_mask :: "addr \<Rightarrow> u32"
  rt_gateway :: "addr \<Rightarrow> u32"
  rt_flags :: "addr \<Rightarrow> u8"
  rt_use :: "addr \<Rightarrow> u32"
  rt_mss :: "addr \<Rightarrow> u16"
  rt_window :: "addr \<Rightarrow> u32"
  rt_dev :: "addr \<Rightarrow> addr"
  rt_base :: addr
  rt_loopback :: addr

abbreviation (input) RTF_UP :: "'a::len word" where "RTF_UP \<equiv> 1"
abbreviation (input) RTF_GATEWAY :: "'a::len word" where "RTF_GATEWAY \<equiv> 2"
abbreviation (input) RTF_HOST :: "'a::len word" where "RTF_HOST \<equiv> 4"
abbreviation (input) RTF_MSS :: "'a::len word" where "RTF_MSS \<equiv> 0x40"
abbreviation (input) RTF_WINDOW :: "'a::len word" where "RTF_WINDOW \<equiv> 0x80"

fun rt_link :: "addr option \<Rightarrow> 'a rt_heap_scheme \<Rightarrow> addr" where
  "rt_link None s = rt_base s"
| "rt_link (Some r) s = rt_next s r"

fun set_rt_link :: "addr option \<Rightarrow> addr \<Rightarrow> 'a rt_heap_scheme \<Rightarrow> 'a rt_heap_scheme" where
  "set_rt_link None p s = s\<lparr>rt_base := p\<rparr>"
| "set_rt_link (Some r) p s = s\<lparr>rt_next := (rt_next s)(r := p)\<rparr>"

text \<open>
  The loop of \<^verbatim>\<open>rt_del\<close>, \<^verbatim>\<open>ip_rt_flush\<close> and of the first half of \<^verbatim>\<open>ip_rt_add\<close>, which only
  differ in the test that keeps an entry.
\<close>

partial_function (option) rt_sweep ::
  "('a rt_heap_scheme \<Rightarrow> addr \<Rightarrow> bool) \<Rightarrow> addr option \<Rightarrow> 'a rt_heap_scheme \<Rightarrow> 'a rt_heap_scheme option" where
  "rt_sweep keep rtp s =
     (let rt = rt_link rtp s in
      if rt = NULL then Some s
      else if keep s rt then rt_sweep keep (Some rt) s
      else rt_sweep keep rtp (set_rt_link rtp (rt_next s rt) s))"

definition rt_del :: "u32 \<Rightarrow> addr \<Rightarrow> 'a rt_heap_scheme \<Rightarrow> 'a rt_heap_scheme option" where
  "rt_del dst devname s =
     rt_sweep (\<lambda>s rt. rt_dst s rt \<noteq> dst \<or>
       (devname \<noteq> NULL \<and> strcmp (dev_name s (rt_dev s rt)) devname (net_mem s) \<noteq> 0)) None s"

definition ip_rt_flush :: "addr \<Rightarrow> 'a rt_heap_scheme \<Rightarrow> 'a rt_heap_scheme option" where
  "ip_rt_flush dev s = rt_sweep (\<lambda>s rt. rt_dev s rt \<noteq> dev) None s"

definition default_netmask :: "u32 \<Rightarrow> u32" where
  "default_netmask dst =
     (if dst AND 0x80000000 = 0 then 0x7f000000
      else if dst AND 0x40000000 = 0 then 0xbf000000
      else if dst AND 0x20000000 = 0 then 0xdf000000
      else 0)"

definition guess_mask :: "u32 \<Rightarrow> addr \<Rightarrow> 'a rt_heap_scheme \<Rightarrow> u32" where
  "guess_mask dst dev s =
     (if dst = 0 then 0
      else
        let msk = default_netmask dst in
        if (dst XOR pa_addr s dev) AND msk \<noteq> 0 then msk else pa_mask s dev)"

text \<open>The \<^verbatim>\<open>for\<close> loop over the entries up to the first one that satisfies a test; NULL at the end.\<close>

partial_function (option) rt_search ::
  "('a rt_heap_scheme \<Rightarrow> addr \<Rightarrow> bool) \<Rightarrow> addr \<Rightarrow> 'a rt_heap_scheme \<Rightarrow> addr option" where
  "rt_search test rt s =
     (if rt = NULL then Some NULL
      else if test s rt then Some rt
      else rt_search test (rt_next s rt) s)"

definition get_gw_dev :: "u32 \<Rightarrow> 'a rt_heap_scheme \<Rightarrow> addr option" where
  "get_gw_dev gw s =
     do {
       rt \<leftarrow> rt_search (\<lambda>s rt. (gw AND rt_mask s rt) XOR rt_dst s rt = 0) (rt_base s) s;
       if rt = NULL then Some NULL
       else if rt_flags s rt AND RTF_GATEWAY \<noteq> 0 then Some NULL
       else Some (rt_dev s rt)
     }"

text \<open>
  The second loop of \<^verbatim>\<open>ip_rt_add\<close>: the variables \<^verbatim>\<open>prev\<close> and \<^verbatim>\<open>r\<close> when it ends. \<^verbatim>\<open>rt_next\<close> is
  the first field of an entry, so that \<^verbatim>\<open>prev\<close> is also the address of the link \<^verbatim>\<open>prev->rt_next\<close>,
  and it is modelled as one: its uninitialised value may be \<^verbatim>\<open>&rt_base\<close>, which is \<open>None\<close>, or
  any other address.
\<close>

partial_function (option) rt_place ::
  "u32 \<Rightarrow> addr option \<Rightarrow> addr \<Rightarrow> 'a rt_heap_scheme \<Rightarrow> (addr option \<times> addr) option" where
  "rt_place msk prev r s =
     (if r = NULL \<or> rt_mask s r AND msk \<noteq> msk then Some (prev, r)
      else rt_place msk (Some r) (rt_next s r) s)"

text \<open>
  \<^verbatim>\<open>ip_rt_add\<close>, in its three parts: the flags, destination and mask that are entered; the
  fields of the new entry; and the change of the list. The allocation of the entry is
  commented out, so \<^verbatim>\<open>rt\<close> is the value of an uninitialised variable; so is \<^verbatim>\<open>prev\<close> when the
  entry belongs before all others. Both are arguments.
\<close>

definition rt_entered :: "u16 \<Rightarrow> u32 \<Rightarrow> u32 \<Rightarrow> addr \<Rightarrow> 'a rt_heap_scheme \<Rightarrow> u16 \<times> u32 \<times> u32" where
  "rt_entered flags dst msk dev s =
     (if flags AND RTF_HOST \<noteq> 0 then (flags, dst, 0xffffffff)
      else if msk = 0 then
        let (flags, msk) =
              (if (dst XOR pa_addr s dev) AND pa_mask s dev = 0
               then (flags AND NOT RTF_GATEWAY, pa_mask s dev)
               else (flags, guess_mask dst dev s))
        in (flags, dst AND msk, msk)
      else (flags, dst, msk))"

definition rt_fill ::
  "addr \<Rightarrow> u16 \<Rightarrow> u32 \<Rightarrow> u32 \<Rightarrow> u32 \<Rightarrow> addr \<Rightarrow> u16 \<Rightarrow> u32 \<Rightarrow> 'a rt_heap_scheme \<Rightarrow> 'a rt_heap_scheme" where
  "rt_fill rt flags dst msk gw dev mtu window s =
     (let fl = ucast (flags OR RTF_UP) in
      s\<lparr>rt_next := (rt_next s)(rt := NULL),
        rt_flags := (rt_flags s)(rt := fl),
        rt_dst := (rt_dst s)(rt := dst),
        rt_dev := (rt_dev s)(rt := dev),
        rt_gateway := (rt_gateway s)(rt := gw),
        rt_mask := (rt_mask s)(rt := msk),
        rt_use := (rt_use s)(rt := 0),
        rt_mss := (rt_mss s)(rt := (if fl AND RTF_MSS \<noteq> 0 then mtu else 0)),
        rt_window := (rt_window s)(rt := (if fl AND RTF_WINDOW \<noteq> 0 then window else 0))\<rparr>)"

definition rt_enter :: "addr \<Rightarrow> addr option \<Rightarrow> u32 \<Rightarrow> u32 \<Rightarrow> 'a rt_heap_scheme \<Rightarrow> 'a rt_heap_scheme option" where
  "rt_enter rt prev dst msk s =
     do {
       s \<leftarrow> rt_sweep (\<lambda>s r. rt_dst s r \<noteq> dst \<or> rt_mask s r \<noteq> msk) None s;
       (prev, r) \<leftarrow> rt_place msk prev (rt_base s) s;
       let s = s\<lparr>rt_next := (rt_next s)(rt := r)\<rparr>;
       Some (set_rt_link prev rt s)
     }"

definition ip_rt_add ::
  "addr \<Rightarrow> addr option \<Rightarrow> u16 \<Rightarrow> u32 \<Rightarrow> u32 \<Rightarrow> u32 \<Rightarrow> addr \<Rightarrow> u16 \<Rightarrow> u32 \<Rightarrow>
    'a rt_heap_scheme \<Rightarrow> 'a rt_heap_scheme option" where
  "ip_rt_add rt prev flags dst msk gw dev mtu window s =
     do {
       let (flags, dst, msk) = rt_entered flags dst msk dev s;
       let flags = (if gw = pa_addr s dev then flags AND NOT RTF_GATEWAY else flags);
       d \<leftarrow> (if flags AND RTF_GATEWAY \<noteq> 0 then get_gw_dev gw s else Some dev);
       if dev \<noteq> d then Some s
       else if rt = NULL then Some s
       else
         rt_enter rt prev dst msk
           (rt_fill rt flags dst msk (if flags AND RTF_GATEWAY \<noteq> 0 then gw else 0) dev mtu window s)
     }"

definition bad_mask :: "u32 \<Rightarrow> u32 \<Rightarrow> bool" where
  "bad_mask msk addr \<longleftrightarrow>
     addr AND NOT msk \<noteq> 0 \<or> NOT msk AND (NOT msk + 1) \<noteq> 0"

text \<open>
  The two look-ups. \<^verbatim>\<open>src_addr\<close> is the content of the caller's variable, \<open>None\<close> when the
  pointer is NULL. When no entry matches, \<^verbatim>\<open>rt\<close> is NULL and is followed all the same.
\<close>

definition rt_found ::
  "u32 \<Rightarrow> u32 option \<Rightarrow> addr \<Rightarrow> 'a rt_heap_scheme \<Rightarrow> (addr \<times> u32 option) \<times> 'a rt_heap_scheme" where
  "rt_found daddr src_addr rt s =
     (let own = pa_addr s (rt_dev s rt);
          src = map_option (\<lambda>_. own) src_addr;
          rt = (if daddr = own then rt_loopback s else rt)
      in if daddr = own \<and> rt = NULL then ((NULL, src), s)
         else ((rt, src), s\<lparr>rt_use := (rt_use s)(rt := rt_use s rt + 1)\<rparr>))"

definition ip_rt_route ::
  "u32 \<Rightarrow> u32 option \<Rightarrow> 'a rt_heap_scheme \<Rightarrow> ((addr \<times> u32 option) \<times> 'a rt_heap_scheme) option" where
  "ip_rt_route daddr src_addr s =
     do {
       rt \<leftarrow> rt_search (\<lambda>s rt. (daddr AND rt_mask s rt) XOR rt_dst s rt = 0) (rt_base s) s;
       Some (rt_found daddr src_addr rt s)
     }"

definition ip_rt_local ::
  "u32 \<Rightarrow> u32 option \<Rightarrow> 'a rt_heap_scheme \<Rightarrow> ((addr \<times> u32 option) \<times> 'a rt_heap_scheme) option" where
  "ip_rt_local daddr src_addr s =
     do {
       rt \<leftarrow> rt_search (\<lambda>s rt. rt_flags s rt AND RTF_GATEWAY = 0 \<and> (daddr AND rt_mask s rt) XOR rt_dst s rt = 0)
               (rt_base s) s;
       Some (rt_found daddr src_addr rt s)
     }"

end
