(* ===== verification/Route_props.thy ===== *)
theory Route_props
  imports Route
begin

section \<open>The routing table is a longest-prefix map\<close>

text \<open>
  A table is abstracted to a map from a destination and a mask to a gateway and a device.
  The first part says what the loops of the component do to the list of entries, the second
  that adding, deleting and flushing are updates of the map, and that a look-up finds the
  entry with the longest mask among those that match.
\<close>

type_synonym route_map = "u32 \<times> u32 \<rightharpoonup> u32 \<times> addr"

fun rt_list :: "'a rt_heap_scheme \<Rightarrow> addr \<Rightarrow> addr list \<Rightarrow> bool" where
  "rt_list s p [] \<longleftrightarrow> p = NULL"
| "rt_list s p (r # rs) \<longleftrightarrow> p = r \<and> r \<noteq> NULL \<and> rt_list s (rt_next s r) rs"

text \<open>One mask covers another when it has all its bits; the masks of networks are the prefixes.\<close>

definition covers :: "u32 \<Rightarrow> u32 \<Rightarrow> bool" where
  "covers m n \<longleftrightarrow> m AND n = n"

definition prefix_mask :: "u32 \<Rightarrow> bool" where
  "prefix_mask m \<longleftrightarrow> (\<exists>k \<le> 32. m = NOT (mask k))"

definition rt_key :: "'a rt_heap_scheme \<Rightarrow> addr \<Rightarrow> u32 \<times> u32" where
  "rt_key s r = (rt_dst s r, rt_mask s r)"

definition rt_ok :: "'a rt_heap_scheme \<Rightarrow> addr list \<Rightarrow> bool" where
  "rt_ok s rs \<longleftrightarrow> rt_list s (rt_base s) rs \<and> distinct rs \<and> distinct (map (rt_key s) rs) \<and>
     sorted_wrt (\<lambda>a b. covers (rt_mask s a) (rt_mask s b)) rs \<and> (\<forall>r \<in> set rs. prefix_mask (rt_mask s r))"

definition rt_view :: "'a rt_heap_scheme \<Rightarrow> addr list \<Rightarrow> route_map" where
  "rt_view s rs = map_of (map (\<lambda>r. (rt_key s r, (rt_gateway s r, rt_dev s r))) rs)"

definition best_route :: "route_map \<Rightarrow> u32 \<Rightarrow> u32 \<times> u32 \<Rightarrow> bool" where
  "best_route T a k \<longleftrightarrow> k \<in> dom T \<and> a AND snd k = fst k \<and>
     (\<forall>(d, m) \<in> dom T. a AND m = d \<longrightarrow> covers (snd k) m)"

text \<open>A state after changes of links only.\<close>

definition relinked :: "'a rt_heap_scheme \<Rightarrow> 'a rt_heap_scheme \<Rightarrow> bool" where
  "relinked s t \<longleftrightarrow> t\<lparr>rt_next := rt_next s, rt_base := rt_base s\<rparr> = s"

text \<open>
  A table with one entry, at 100: the host 10.0.0.2 on the device at 500, whose own address
  is 10.0.0.1 in the network 10.0.0.0.
\<close>

definition route_example :: rt_heap where
  "route_example =
     \<lparr>l_next = (\<lambda>_. 0), l_prev = (\<lambda>_. 0), tm_expires = (\<lambda>_. 0), tm_jiffies = 0, timer_header = 0,
      skb_pkt_type = (\<lambda>_. 0), skb_len = (\<lambda>_. 0), skb_dev = (\<lambda>_. 0), skb_free = (\<lambda>_. 0), skb_arp = (\<lambda>_. 0),
      skb_users = (\<lambda>_. 0), skb_saddr = (\<lambda>_. 0), skb_raddr = (\<lambda>_. 0), skb_used = (\<lambda>_. 0), skb_h = (\<lambda>_. 0),
      skb_when = (\<lambda>_. 0), skb_ip_hdr = (\<lambda>_. 0), skb_sk = (\<lambda>_. 0), skb_localroute = (\<lambda>_. 0),
      skb_cache_next = (\<lambda>_. 0), dev_mtu = (\<lambda>_. 1500), dev_name = (\<lambda>_. 0), dev_next = (\<lambda>_. 0),
      dev_addr_len = (\<lambda>_. 6), dev_type = (\<lambda>_. 1), pa_addr = (\<lambda>_. 0x0a000001), pa_broadcast = (\<lambda>_. 0x0a0000ff),
      pa_mask = (\<lambda>_. 0xffffff00), hard_header_len = (\<lambda>_. 14), dev_flags = (\<lambda>_. 1), net_mem = (\<lambda>_. 0),
      rt_next = (\<lambda>_. 0), rt_dst = (\<lambda>_. 0x0a000002), rt_mask = (\<lambda>_. 0xffffffff), rt_gateway = (\<lambda>_. 0),
      rt_flags = (\<lambda>_. 1), rt_use = (\<lambda>_. 0), rt_mss = (\<lambda>_. 0), rt_window = (\<lambda>_. 0), rt_dev = (\<lambda>_. 500),
      rt_base = 100, rt_loopback = 0\<rparr>"

subsection \<open>Masks\<close>

lemma covers_refl [simp]: "covers m m"
  by (simp add: covers_def)

lemma covers_trans: "covers a b \<Longrightarrow> covers b c \<Longrightarrow> covers a c"
  unfolding covers_def by (metis and.assoc)

lemma covers_antisym: "covers a b \<Longrightarrow> covers b a \<Longrightarrow> a = b"
  unfolding covers_def by (metis and.commute)

lemma prefix_mask_le:
  assumes "k \<le> l"
  shows "covers (NOT (mask k)) (NOT (mask l))"
  unfolding covers_def using assms by (intro bit_word_eqI) (auto simp: bit_simps)

lemma prefix_mask_linear: "prefix_mask m \<Longrightarrow> prefix_mask n \<Longrightarrow> covers m n \<or> covers n m"
  unfolding prefix_mask_def by (metis le_cases prefix_mask_le)

lemma word_xor_eq_0: "(x :: u32) XOR y = 0 \<longleftrightarrow> x = y"
  by (metis xor.assoc xor.right_neutral xor_self_eq)

subsection \<open>The loops\<close>

lemma rt_list_cong:
  assumes "\<And>r. r \<in> set rs \<Longrightarrow> rt_next t r = rt_next s r"
  shows "rt_list t p rs = rt_list s p rs"
  using assms by (induction rs arbitrary: p) auto

lemma rt_list_next: "rt_list s p rs \<Longrightarrow> p = hd (rs @ [NULL])"
  by (cases rs) auto

lemma rt_list_append:
  "rt_list s p (xs @ y # ys) \<Longrightarrow> rt_list s y (y # ys)"
  by (induction xs arbitrary: p) auto

lemma relinked_refl [simp]: "relinked s s"
  by (simp add: relinked_def)

lemma relinked_trans:
  assumes "relinked s t" and "relinked t u"
  shows "relinked s u"
proof -
  have "u\<lparr>rt_next := rt_next s, rt_base := rt_base s\<rparr> =
    u\<lparr>rt_next := rt_next t, rt_base := rt_base t\<rparr>\<lparr>rt_next := rt_next s, rt_base := rt_base s\<rparr>"
    by simp
  also have "\<dots> = s" using assms by (simp only: relinked_def)
  finally show ?thesis by (simp only: relinked_def)
qed

lemma relinked_set [simp]: "relinked s (set_rt_link rtp p s)"
  by (cases rtp) (simp_all add: relinked_def)

lemma relinked_fields:
  assumes "relinked s t"
  shows "rt_dst t = rt_dst s" "rt_mask t = rt_mask s" "rt_gateway t = rt_gateway s" "rt_dev t = rt_dev s"
    "rt_key t = rt_key s" "net_mem t = net_mem s" "dev_name t = dev_name s"
proof -
  have *: "f t = f s" if "\<And>n b. f (t\<lparr>rt_next := n, rt_base := b\<rparr>) = f t" for f :: "'a rt_heap_scheme \<Rightarrow> 'b"
    using that assms by (metis relinked_def)
  show "rt_dst t = rt_dst s" "rt_mask t = rt_mask s" "rt_gateway t = rt_gateway s" "rt_dev t = rt_dev s"
    "net_mem t = net_mem s" "dev_name t = dev_name s"
    by (rule *, simp)+
  then show "rt_key t = rt_key s" by (simp add: rt_key_def fun_eq_iff)
qed

lemma rt_sweep_list:
  assumes "rt_list s (rt_link rtp s) rs" and "distinct rs" and "\<And>r. rtp = Some r \<Longrightarrow> r \<notin> set rs"
    and "\<And>t r. relinked s t \<Longrightarrow> keep t r = K r"
  shows "\<exists>t. rt_sweep keep rtp s = Some t \<and> rt_list t (rt_link rtp t) (filter K rs) \<and> relinked s t \<and>
    (\<forall>x. x \<notin> set rs \<longrightarrow> rtp \<noteq> Some x \<longrightarrow> rt_next t x = rt_next s x) \<and> (rtp \<noteq> None \<longrightarrow> rt_base t = rt_base s)"
  using assms
proof (induction rs arbitrary: rtp s)
  case Nil
  then show ?case by (subst rt_sweep.simps) simp
next
  case (Cons r rs)
  have r: "rt_link rtp s = r" "r \<noteq> NULL" "rt_list s (rt_next s r) rs" "r \<notin> set rs" "distinct rs"
    using Cons.prems by auto
  show ?case
  proof (cases "K r")
    case True
    obtain t where t: "rt_sweep keep (Some r) s = Some t" "rt_list t (rt_next t r) (filter K rs)" "relinked s t"
      "\<And>x. x \<notin> set rs \<Longrightarrow> x \<noteq> r \<Longrightarrow> rt_next t x = rt_next s x" "rt_base t = rt_base s"
      using Cons.IH [of s "Some r"] r Cons.prems(4) by auto
    have "rt_link rtp t = r"
      using r t(4,5) Cons.prems(3) by (cases rtp) auto
    then show ?thesis
      using t r True Cons.prems(4) [of s r] by (subst rt_sweep.simps) (auto simp: Let_def)
  next
    case False
    let ?u = "set_rt_link rtp (rt_next s r) s"
    have u: "rt_link rtp ?u = rt_next s r" by (cases rtp) auto
    have l: "rt_list ?u (rt_link rtp ?u) rs"
    proof -
      have "rt_list ?u (rt_next s r) rs = rt_list s (rt_next s r) rs"
        using Cons.prems(3) by (intro rt_list_cong) (cases rtp; auto)
      with r(3) u show ?thesis by simp
    qed
    have k: "keep t x = K x" if "relinked ?u t" for t x
      using Cons.prems(4) relinked_trans [OF relinked_set that] by blast
    obtain t where t: "rt_sweep keep rtp ?u = Some t" "rt_list t (rt_link rtp t) (filter K rs)" "relinked ?u t"
      "\<And>x. x \<notin> set rs \<Longrightarrow> rtp \<noteq> Some x \<Longrightarrow> rt_next t x = rt_next ?u x" "rtp \<noteq> None \<Longrightarrow> rt_base t = rt_base ?u"
      using Cons.IH [OF l r(5) _ k] Cons.prems(3) by auto
    have "rt_next ?u x = rt_next s x" if "rtp \<noteq> Some x" for x
      using that by (cases rtp) auto
    moreover have "rtp \<noteq> None \<Longrightarrow> rt_base ?u = rt_base s" by (cases rtp) auto
    moreover have "relinked s t" using relinked_trans [OF relinked_set t(3)] .
    ultimately show ?thesis
      using t r False Cons.prems(4) [of s r] by (subst rt_sweep.simps) (auto simp: Let_def)
  qed
qed

lemma rt_place_list:
  assumes "rt_list s r rs"
  shows "rt_place m prev r s =
    Some (last (prev # map Some (takeWhile (\<lambda>x. covers (rt_mask s x) m) rs)), hd (dropWhile (\<lambda>x. covers (rt_mask s x) m) rs @ [NULL]))"
  using assms
proof (induction rs arbitrary: prev r)
  case (Cons x rs)
  then show ?case by (subst rt_place.simps) (auto simp: covers_def)
qed (subst rt_place.simps, simp)

lemma rt_search_list:
  assumes "rt_list s r rs"
  shows "rt_search test r s = Some (hd (filter (test s) rs @ [NULL]))"
  using assms
proof (induction rs arbitrary: r)
  case (Cons x rs)
  then show ?case by (subst rt_search.simps) auto
qed (subst rt_search.simps, simp)

lemma rt_list_link:
  assumes "rt_list s p (xs @ ys)" and "x \<notin> set (xs @ ys)" and "x \<noteq> NULL" and "distinct (xs @ ys)" and "xs \<noteq> []"
  shows "rt_list (s\<lparr>rt_next := (rt_next s)(x := hd (ys @ [NULL]), last xs := x)\<rparr>) p (xs @ x # ys)"
  using assms(5,1-4)
proof (induction xs arbitrary: p rule: list_nonempty_induct)
  case (single a)
  have "rt_list (s\<lparr>rt_next := (rt_next s)(x := hd (ys @ [NULL]), a := x)\<rparr>) (rt_next s a) ys"
    using single by (subst rt_list_cong [where s = s]) auto
  then show ?case using single rt_list_next [of s "rt_next s a" ys] by (auto simp del: fun_upd_apply) (auto)
next
  case (cons a xs)
  then have "a \<noteq> x" "a \<noteq> last xs" by auto
  moreover have "rt_list (s\<lparr>rt_next := (rt_next s)(x := hd (ys @ [NULL]), last xs := x)\<rparr>) (rt_next s a) (xs @ x # ys)"
    by (rule cons.IH) (use cons.prems in auto)
  ultimately show ?case using cons.prems cons.hyps by (auto simp del: fun_upd_apply) (auto)
qed

text \<open>The two writes that link an entry in, behind the entries \<open>xs\<close> or, by \<^verbatim>\<open>&rt_base\<close>, before all.\<close>

lemma rt_list_splice:
  assumes "rt_list s (rt_base s) (xs @ ys)" and "distinct (xs @ ys)" and "x \<notin> set (xs @ ys)" and "x \<noteq> NULL"
    and "t = set_rt_link (last (None # map Some xs)) x (s\<lparr>rt_next := (rt_next s)(x := hd (ys @ [NULL]))\<rparr>)"
  shows "rt_list t (rt_base t) (xs @ x # ys)"
proof (cases "xs = []")
  case True
  have "rt_list t (rt_base s) ys"
    using assms True by (subst rt_list_cong [where s = s]) auto
  then show ?thesis using assms True rt_list_next [of s "rt_base s" ys] by auto
next
  case False
  then have "last (None # map Some xs) = Some (last xs)" by (simp add: last_map)
  then show ?thesis using rt_list_link [OF assms(1,3,4,2) False] assms(5) by simp
qed

subsection \<open>The table as a map\<close>

lemma option_eqI: "(\<And>v. x = Some v \<longleftrightarrow> y = Some v) \<Longrightarrow> x = y"
  by (cases x; cases y) auto

lemma rt_view_iff:
  assumes "distinct (map (rt_key s) rs)"
  shows "rt_view s rs k = Some v \<longleftrightarrow> (\<exists>r \<in> set rs. rt_key s r = k \<and> v = (rt_gateway s r, rt_dev s r))"
proof -
  have "distinct (map fst (map (\<lambda>r. (rt_key s r, (rt_gateway s r, rt_dev s r))) rs))"
    using assms by (simp add: comp_def)
  then show ?thesis unfolding rt_view_def by (subst map_of_eq_Some_iff) auto
qed

lemma dom_rt_view: "dom (rt_view s rs) = rt_key s ` set rs"
  by (simp add: rt_view_def dom_map_of_conv_image_fst image_image)

lemma rt_ok_cong:
  assumes "rt_base t = rt_base s" and "\<And>r. r \<in> set rs \<Longrightarrow> rt_next t r = rt_next s r"
    and "\<And>r. r \<in> set rs \<Longrightarrow> rt_key t r = rt_key s r"
  shows "rt_ok t rs = rt_ok s rs"
proof -
  have m: "rt_mask t r = rt_mask s r" if "r \<in> set rs" for r
    using assms(3) [OF that] by (simp add: rt_key_def)
  have k: "map (rt_key t) rs = map (rt_key s) rs" using assms(3) by simp
  have "rt_list t (rt_base t) rs = rt_list s (rt_base s) rs"
    using assms(1,2) rt_list_cong [of rs t s] by simp
  moreover have "sorted_wrt (\<lambda>a b. covers (rt_mask t a) (rt_mask t b)) rs =
      sorted_wrt (\<lambda>a b. covers (rt_mask s a) (rt_mask s b)) rs"
    using m by (auto intro: sorted_wrt_mono_rel [of rs, rotated])
  ultimately show ?thesis unfolding rt_ok_def k using m by simp
qed

lemma rt_ok_sweep:
  assumes "rt_ok s rs" and "\<And>t r. relinked s t \<Longrightarrow> keep t r = K r"
  shows "\<exists>t. rt_sweep keep None s = Some t \<and> rt_ok t (filter K rs) \<and> relinked s t \<and>
    (\<forall>x. x \<notin> set rs \<longrightarrow> rt_next t x = rt_next s x)"
proof -
  obtain t where t: "rt_sweep keep None s = Some t" "rt_list t (rt_base t) (filter K rs)" "relinked s t"
    "\<forall>x. x \<notin> set rs \<longrightarrow> rt_next t x = rt_next s x"
    using rt_sweep_list [of s None rs keep K] assms by (auto simp: rt_ok_def)
  have "rt_ok t (filter K rs)"
    using assms(1) t(2) relinked_fields [OF t(3)]
    by (auto simp: rt_ok_def distinct_map_filter intro: sorted_wrt_filter)
  with t show ?thesis by blast
qed

lemma rt_view_filter:
  assumes "rt_ok s rs" and "relinked s t"
  shows "rt_view t (filter K rs) k = Some v \<longleftrightarrow>
    (\<exists>r \<in> set rs. K r \<and> rt_key s r = k \<and> v = (rt_gateway s r, rt_dev s r))"
proof -
  have "distinct (map (rt_key t) (filter K rs))"
    using assms by (auto simp: rt_ok_def relinked_fields distinct_map_filter)
  then show ?thesis using relinked_fields [OF assms(2)] by (subst rt_view_iff) auto
qed

lemma rt_ok_insert:
  assumes ok: "rt_ok s rs" and rt: "rt \<notin> set rs" "rt \<noteq> NULL" "prefix_mask m" "rt_key s rt = (d, m)"
    and new: "(d, m) \<notin> rt_key s ` set rs" and xy: "xs = takeWhile (\<lambda>x. covers (rt_mask s x) m) rs"
    "ys = dropWhile (\<lambda>x. covers (rt_mask s x) m) rs"
    and t: "relinked s t" "rt_list t (rt_base t) (xs @ rt # ys)"
  shows "rt_ok t (xs @ rt # ys)"
proof -
  have rs: "rs = xs @ ys" using xy by simp
  have m: "rt_mask s rt = m" using rt by (simp add: rt_key_def)
  have "covers m (rt_mask s y)" if y: "y \<in> set ys" for y
  proof -
    obtain z zs where z: "ys = z # zs" using y by (cases ys) auto
    have "\<not> covers (rt_mask s z) m" using z xy(2) by (metis hd_dropWhile list.distinct(1) list.sel(1))
    then have "covers m (rt_mask s z)"
      using prefix_mask_linear rt(3) ok z rs by (auto simp: rt_ok_def)
    moreover have "y = z \<or> covers (rt_mask s z) (rt_mask s y)"
      using ok y rs z by (auto simp: rt_ok_def sorted_wrt_append)
    ultimately show ?thesis using covers_trans by blast
  qed
  moreover have "\<forall>x \<in> set xs. covers (rt_mask s x) m" using xy(1) by (auto dest: set_takeWhileD)
  ultimately show ?thesis
    using ok rt new rs m t(2) by (auto simp: rt_ok_def relinked_fields [OF t(1)] sorted_wrt_append)
qed

lemma rt_enter_ok:
  assumes ok: "rt_ok s rs" and rt: "rt \<notin> set rs" "rt \<noteq> NULL" "prefix_mask m" "rt_key s rt = (d, m)"
    and behind: "prev = None \<or> (\<exists>r \<in> set rs. rt_key s r \<noteq> (d, m) \<and> covers (rt_mask s r) m)"
  shows "\<exists>t rs'. rt_enter rt prev d m s = Some t \<and> rt_ok t rs' \<and> relinked s t \<and>
    set rs' = insert rt {r \<in> set rs. rt_key s r \<noteq> (d, m)}"
proof -
  let ?K = "\<lambda>r. rt_key s r \<noteq> (d, m)"
  have "rt_sweep (\<lambda>s r. rt_dst s r \<noteq> d \<or> rt_mask s r \<noteq> m) None s = rt_sweep (\<lambda>s r. rt_key s r \<noteq> (d, m)) None s"
    by (simp add: rt_key_def)
  moreover obtain u where u: "rt_sweep (\<lambda>s r. rt_key s r \<noteq> (d, m)) None s = Some u" "rt_ok u (filter ?K rs)" "relinked s u"
    using rt_ok_sweep [OF ok, of "\<lambda>s r. rt_key s r \<noteq> (d, m)" ?K] by (auto simp: relinked_fields)
  ultimately have sweep: "rt_sweep (\<lambda>s r. rt_dst s r \<noteq> d \<or> rt_mask s r \<noteq> m) None s = Some u" by simp
  define xs where "xs = takeWhile (\<lambda>x. covers (rt_mask u x) m) (filter ?K rs)"
  define ys where "ys = dropWhile (\<lambda>x. covers (rt_mask u x) m) (filter ?K rs)"
  have xy: "filter ?K rs = xs @ ys" by (simp add: xs_def ys_def)
  have ne: "xs \<noteq> []" if prev: "prev \<noteq> None"
  proof -
    obtain r where r: "r \<in> set (filter ?K rs)" "covers (rt_mask u r) m"
      using behind prev by (auto simp: relinked_fields [OF u(3)])
    then obtain a as where a: "filter ?K rs = a # as" by (cases "filter ?K rs") auto
    have "r = a \<or> covers (rt_mask u a) (rt_mask u r)" using u(2) r(1) unfolding a by (auto simp: rt_ok_def)
    then have "covers (rt_mask u a) m" using r(2) covers_trans by blast
    then show ?thesis by (simp add: xs_def a)
  qed
  then have "last (prev # map Some xs) = last (None # map Some xs)" by (cases "xs = []"; cases prev) auto
  then have place: "rt_place m prev (rt_base u) u = Some (last (None # map Some xs), hd (ys @ [NULL]))"
    using rt_place_list [of u "rt_base u" "filter ?K rs" m prev] u(2) by (simp add: rt_ok_def xs_def ys_def)
  define t where "t = set_rt_link (last (None # map Some xs)) rt (u\<lparr>rt_next := (rt_next u)(rt := hd (ys @ [NULL]))\<rparr>)"
  have enter: "rt_enter rt prev d m s = Some t"
    unfolding rt_enter_def sweep by (simp add: place t_def)
  have "relinked u (u\<lparr>rt_next := n\<rparr>)" for n by (simp add: relinked_def)
  then have ut: "relinked u t" unfolding t_def by (rule relinked_trans [OF _ relinked_set])
  have "rt_list t (rt_base t) (xs @ rt # ys)"
    using u(2) rt(1,2) unfolding rt_ok_def xy by (intro rt_list_splice [OF _ _ _ _ t_def]) (auto simp flip: xy)
  then have "rt_ok t (xs @ rt # ys)"
    using rt by (intro rt_ok_insert [OF u(2) _ rt(2,3) _ _ xs_def ys_def ut, of d])
      (auto simp: relinked_fields [OF u(3)])
  moreover have "set (xs @ rt # ys) = insert rt (set (filter ?K rs))" unfolding xy by auto
  ultimately show ?thesis using enter relinked_trans [OF u(3) ut] by auto
qed

lemma rt_fill_ok:
  assumes "rt_ok s rs" and "rt \<notin> set rs"
  shows "rt_ok (rt_fill rt fl d m gw dev mtu window s) rs"
    and "rt_key (rt_fill rt fl d m gw dev mtu window s) = (rt_key s)(rt := (d, m))"
    and "rt_gateway (rt_fill rt fl d m gw dev mtu window s) = (rt_gateway s)(rt := gw)"
    and "rt_dev (rt_fill rt fl d m gw dev mtu window s) = (rt_dev s)(rt := dev)"
proof -
  show "rt_key (rt_fill rt fl d m gw dev mtu window s) = (rt_key s)(rt := (d, m))"
    by (auto simp: rt_fill_def rt_key_def Let_def)
  then show "rt_ok (rt_fill rt fl d m gw dev mtu window s) rs"
    using assms by (subst rt_ok_cong [of _ s]) (auto simp: rt_fill_def Let_def)
qed (simp_all add: rt_fill_def Let_def)

lemma ip_rt_add_enter:
  assumes "rt_entered flags dst msk dev s = (f, d, m)" and "rt \<noteq> NULL"
    and "f AND 2 = 0 \<or> gw = pa_addr s dev \<or> get_gw_dev gw s = Some dev"
  shows "\<exists>fl. ip_rt_add rt prev flags dst msk gw dev mtu window s =
    rt_enter rt prev d m (rt_fill rt fl d m (if f AND 2 = 0 \<or> gw = pa_addr s dev then 0 else gw) dev mtu window s)"
proof -
  have "f AND NOT 2 AND 2 = 0" by (simp add: and.assoc)
  then show ?thesis using assms by (auto simp: ip_rt_add_def and.assoc)
qed

lemma rt_match_hd:
  assumes "rt_ok s rs" and "\<exists>r \<in> set rs. a AND rt_mask s r = rt_dst s r"
  shows "\<exists>rt \<in> set rs. rt_search (\<lambda>s rt. (a AND rt_mask s rt) XOR rt_dst s rt = 0) (rt_base s) s = Some rt \<and>
    best_route (rt_view s rs) a (rt_key s rt)"
proof -
  let ?M = "\<lambda>r. (a AND rt_mask s r) XOR rt_dst s r = 0"
  have M: "?M r \<longleftrightarrow> a AND rt_mask s r = rt_dst s r" for r by (rule word_xor_eq_0)
  obtain rt ms where f: "filter ?M rs = rt # ms"
    using assms(2) M by (cases "filter ?M rs") (auto simp: filter_empty_conv)
  have "rt \<in> set (filter ?M rs)" unfolding f by simp
  then have rt: "rt \<in> set rs" "?M rt" by simp_all
  have "covers (rt_mask s rt) (rt_mask s r)" if "r \<in> set rs" "?M r" for r
  proof -
    have "sorted_wrt (\<lambda>a b. covers (rt_mask s a) (rt_mask s b)) (filter ?M rs)"
      using assms(1) by (simp add: rt_ok_def sorted_wrt_filter)
    moreover have "r \<in> set (filter ?M rs)" using that by simp
    ultimately show ?thesis unfolding f by auto
  qed
  then have "best_route (rt_view s rs) a (rt_key s rt)"
    using rt M by (auto simp: best_route_def dom_rt_view rt_key_def)
  moreover have "rt_search (\<lambda>s rt. (a AND rt_mask s rt) XOR rt_dst s rt = 0) (rt_base s) s = Some rt"
    using assms(1) f by (subst rt_search_list [of s _ rs]) (simp_all add: rt_ok_def)
  ultimately show ?thesis using rt by blast
qed

lemma get_gw_dev_total: "rt_ok s rs \<Longrightarrow> \<exists>d. get_gw_dev gw s = Some d"
  unfolding rt_ok_def get_gw_dev_def by (subst rt_search_list [of s _ rs]) auto

lemma ip_rt_add_refused:
  assumes "rt_ok s rs" and "rt_entered flags dst msk dev s = (f, d, m)"
    and "rt = NULL \<or> f AND 2 \<noteq> 0 \<and> gw \<noteq> pa_addr s dev \<and> get_gw_dev gw s \<noteq> Some dev"
  shows "ip_rt_add rt prev flags dst msk gw dev mtu window s = Some s"
  using get_gw_dev_total [OF assms(1), of gw] assms(2,3) by (auto simp: ip_rt_add_def Let_def and.assoc)

lemma rt_match_none:
  assumes "rt_ok s rs" and "\<not> (\<exists>r \<in> set rs. a AND rt_mask s r = rt_dst s r)"
  shows "rt_search (\<lambda>s rt. (a AND rt_mask s rt) XOR rt_dst s rt = 0) (rt_base s) s = Some NULL"
proof -
  have "filter (\<lambda>r. (a AND rt_mask s r) XOR rt_dst s r = 0) rs = []"
    using assms(2) by (simp add: filter_empty_conv word_xor_eq_0)
  then show ?thesis using assms(1) by (subst rt_search_list [of s _ rs]) (simp_all add: rt_ok_def)
qed

lemma ip_rt_add_map:
  assumes "rt_ok s rs" and "rt \<notin> set rs" and "rt \<noteq> NULL"
    and "rt_entered flags dst msk dev s = (f, d, m)" and "prefix_mask m"
    and "f AND 2 = 0 \<or> gw = pa_addr s dev \<or> get_gw_dev gw s = Some dev"
    and "prev = None \<or> (\<exists>r \<in> set rs. rt_key s r \<noteq> (d, m) \<and> covers (rt_mask s r) m)"
  shows "\<exists>t rs'. ip_rt_add rt prev flags dst msk gw dev mtu window s = Some t \<and> rt_ok t rs' \<and>
    rt_view t rs' = (rt_view s rs)((d, m) \<mapsto> (if f AND 2 = 0 \<or> gw = pa_addr s dev then 0 else gw, dev))"
proof -
  define gw' where "gw' = (if f AND 2 = 0 \<or> gw = pa_addr s dev then 0 else gw)"
  obtain fl where add: "ip_rt_add rt prev flags dst msk gw dev mtu window s =
      rt_enter rt prev d m (rt_fill rt fl d m gw' dev mtu window s)"
    using ip_rt_add_enter [OF assms(4,3,6)] unfolding gw'_def by blast
  note fill = rt_fill_ok [OF assms(1,2), of fl d m gw' dev mtu window]
  have behind: "prev = None \<or> (\<exists>r \<in> set rs. rt_key (rt_fill rt fl d m gw' dev mtu window s) r \<noteq> (d, m) \<and>
      covers (rt_mask (rt_fill rt fl d m gw' dev mtu window s) r) m)"
    using assms(2,7) fill(2) by (auto simp: rt_fill_def rt_key_def Let_def)
  have "rt_key (rt_fill rt fl d m gw' dev mtu window s) rt = (d, m)" using fill(2) by simp
  then obtain t rs' where t: "rt_enter rt prev d m (rt_fill rt fl d m gw' dev mtu window s) = Some t" "rt_ok t rs'"
    "relinked (rt_fill rt fl d m gw' dev mtu window s) t"
    "set rs' = insert rt {r \<in> set rs. rt_key (rt_fill rt fl d m gw' dev mtu window s) r \<noteq> (d, m)}"
    using rt_enter_ok [OF fill(1) assms(2,3,5) _ behind] by blast
  have "rt_view t rs' = (rt_view s rs)((d, m) \<mapsto> (gw', dev))"
  proof (rule ext, rule option_eqI)
    fix k v
    have "distinct (map (rt_key t) rs')" "distinct (map (rt_key s) rs)" using t(2) assms(1) by (auto simp: rt_ok_def)
    then show "rt_view t rs' k = Some v \<longleftrightarrow> ((rt_view s rs)((d, m) \<mapsto> (gw', dev))) k = Some v"
      using assms(2) by (auto simp: rt_view_iff t(4) relinked_fields [OF t(3)] fill(2-4))
  qed
  with add t show ?thesis unfolding gw'_def by auto
qed

lemma route_example_ok: "rt_ok route_example [100]"
proof -
  have "prefix_mask 0xffffffff"
    unfolding prefix_mask_def by (intro exI [of _ 0]) simp
  then show ?thesis by (simp add: route_example_def rt_ok_def)
qed

lemma prefix_mask_24: "prefix_mask 0xffffff00"
  unfolding prefix_mask_def by (intro exI [of _ 8]) (simp add: mask_eq_exp_minus_1)

subsection \<open>Properties\<close>

text \<open>
  C7: \<open>ip_rt_add\<close> is an update of the routing map. Without memory for the entry, or when the
  route has a gateway, which is not the device's own address, and the gateway is not reached
  directly on that device, it changes nothing. Otherwise, in a well-formed table (sorted by the
  length of the masks, one entry for every destination and mask, prefix masks only), with an
  entry \<open>rt\<close> outside the table, for a prefix mask, and when the new entry goes behind one that
  stays in the table, or else the variable \<open>prev\<close>, which is then uninitialised, holds
  \<^verbatim>\<open>&rt_base\<close>: the new table is well formed and its map is the old one with the new gateway and
  device for the destination and the mask that were entered.
\<close>

theorem ip_rt_add_refines:
  assumes "rt_ok s rs" and "rt \<notin> set rs"
    and "rt_entered flags dst msk dev s = (f, d, m)" and "prefix_mask m"
    and "prev = None \<or> (\<exists>r \<in> set rs. rt_key s r \<noteq> (d, m) \<and> covers (rt_mask s r) m)"
  shows "if rt = NULL \<or> f AND 2 \<noteq> 0 \<and> gw \<noteq> pa_addr s dev \<and> get_gw_dev gw s \<noteq> Some dev
    then ip_rt_add rt prev flags dst msk gw dev mtu window s = Some s
    else \<exists>t rs'. ip_rt_add rt prev flags dst msk gw dev mtu window s = Some t \<and> rt_ok t rs' \<and>
      rt_view t rs' = (rt_view s rs)((d, m) \<mapsto> (if f AND 2 = 0 \<or> gw = pa_addr s dev then 0 else gw, dev))"
proof (cases "rt = NULL \<or> f AND 2 \<noteq> 0 \<and> gw \<noteq> pa_addr s dev \<and> get_gw_dev gw s \<noteq> Some dev")
  case True
  then show ?thesis using ip_rt_add_refused [OF assms(1,3)] by simp
next
  case False
  then show ?thesis using ip_rt_add_map [OF assms(1,2) _ assms(3,4) _ assms(5)] by auto
qed

theorem ip_rt_add_refines_witness:
  "\<exists>t rs'. ip_rt_add 200 (Some 0) 0 0x0a000009 0 0 500 1500 0 route_example = Some t \<and> rt_ok t rs' \<and>
    rt_view t rs' = (rt_view route_example [100])((0x0a000000, 0xffffff00) \<mapsto> (0, 500))"
  using ip_rt_add_refines [OF route_example_ok, of 200 0 "0x0a000009" 0 500 0 "0x0a000000" "0xffffff00" "Some 0" 0 1500 0]
  by (simp add: rt_entered_def route_example_def prefix_mask_24 rt_key_def covers_def)

text \<open>
  C8: \<open>ip_rt_route\<close> ends on every well-formed table. The entry \<open>rt\<close> it stops at has the longest
  mask of all entries that match the address; when no entry matches it is NULL, which the code
  follows all the same. The caller gets the address of the device that \<open>rt\<close> names, and \<open>rt\<close>
  itself or, for that device's own address, the loopback route in its place. The use count of
  what is returned is one higher; only when a loopback route is wanted and there is none is
  nothing counted and NULL returned.
\<close>

theorem ip_rt_route_best:
  assumes "rt_ok s rs"
  shows "\<exists>rt. (if \<exists>r \<in> set rs. daddr AND rt_mask s r = rt_dst s r
      then rt \<in> set rs \<and> best_route (rt_view s rs) daddr (rt_key s rt) else rt = NULL) \<and>
    ip_rt_route daddr src s =
      Some (let own = pa_addr s (rt_dev s rt);
                r = (if daddr = own then rt_loopback s else rt)
            in ((r, map_option (\<lambda>_. own) src),
                if daddr = own \<and> r = NULL then s else s\<lparr>rt_use := (rt_use s)(r := rt_use s r + 1)\<rparr>))"
proof -
  obtain rt where rt: "if \<exists>r \<in> set rs. daddr AND rt_mask s r = rt_dst s r
      then rt \<in> set rs \<and> best_route (rt_view s rs) daddr (rt_key s rt) else rt = NULL"
    "rt_search (\<lambda>s rt. (daddr AND rt_mask s rt) XOR rt_dst s rt = 0) (rt_base s) s = Some rt"
    using rt_match_hd [OF assms, of daddr] rt_match_none [OF assms, of daddr] by (metis (lifting))
  show ?thesis
    by (rule exI [of _ rt], rule conjI, rule rt(1)) (auto simp: ip_rt_route_def rt_found_def rt(2) Let_def)
qed

theorem ip_rt_route_best_witness:
  "ip_rt_route 0x0a000002 (Some 0) route_example =
      Some ((100, Some 0x0a000001), route_example\<lparr>rt_use := (\<lambda>_. 0)(100 := 1)\<rparr>) \<and>
    ip_rt_route 0x0a000007 None route_example =
      Some ((NULL, None), route_example\<lparr>rt_use := (\<lambda>_. 0)(NULL := 1)\<rparr>)"
  using ip_rt_route_best [OF route_example_ok, of "0x0a000002" "Some 0"]
    ip_rt_route_best [OF route_example_ok, of "0x0a000007" None]
  by (simp add: route_example_def Let_def)

text \<open>
  C31: nothing is ever entered in front: as long as the table is empty, which is how it starts,
  it stays empty whatever route is added, because the new entry is only linked behind the
  uninitialised \<open>prev\<close>. This holds for every value of \<open>prev\<close> other than \<^verbatim>\<open>&rt_base\<close>.
\<close>

theorem ip_rt_add_never_first:
  assumes "rt_base s = NULL"
  shows "\<exists>t. ip_rt_add rt (Some prev) flags dst msk gw dev mtu window s = Some t \<and> rt_base t = NULL"
proof -
  have "rt_sweep keep None u = Some u" if "rt_base u = NULL" for keep and u :: "'a rt_heap_scheme"
    using that by (subst rt_sweep.simps) simp
  moreover have "rt_place m p NULL u = Some (p, NULL)" for m p and u :: "'a rt_heap_scheme"
    by (subst rt_place.simps) simp
  moreover have "get_gw_dev gw s = Some NULL"
    unfolding get_gw_dev_def assms by (subst rt_search.simps) simp
  ultimately show ?thesis
    using assms by (auto simp: ip_rt_add_def rt_enter_def rt_fill_def Let_def split: prod.splits)
qed

theorem ip_rt_add_never_first_witness:
  "\<exists>t. ip_rt_add 200 (Some 300) 0 0x0a000009 0 0 500 1500 0 (route_example\<lparr>rt_base := 0\<rparr>) = Some t \<and> rt_base t = NULL"
  by (rule ip_rt_add_never_first) simp

end
