(* ===== verification/Netdev.thy ===== *)
theory Netdev
  imports Route
begin

section \<open>Network devices, Ethernet headers and ARP\<close>

text \<open>
  The model of \<^verbatim>\<open>net/inet/devinet.c\<close>, \<^verbatim>\<open>net/eth.c\<close>, \<^verbatim>\<open>net/inet/arp.c\<close> and of the queues of
  \<^verbatim>\<open>net/inet/dev.c\<close>. The operations a driver installs in its \<^verbatim>\<open>struct net_device\<close> are a record
  of functions and an argument. \<^verbatim>\<open>memncpy\<close> is \<^verbatim>\<open>u_phys_copy\<close>, which writes a 0 behind the bytes it
  copies. What such a copy does to the stack behind a local variable is not modelled.
  Offsets: \<^verbatim>\<open>struct net_device\<close> has 116 bytes, its hardware addresses at 101 (broadcast) and 108,
  its three queues at 76; \<^verbatim>\<open>struct arp_table\<close> has 68 bytes, its hardware address at 20, its timer
  at 36 and its queue at 60.
\<close>

record dev_heap = rt_heap +
  dev_base :: addr
  dev_tbusy :: "addr \<Rightarrow> u8"
  backlog :: addr
  backlog_size :: u32
  rx_dropping :: bool
  in_bh :: u8
  in_bh_addr :: addr
  ptype_base :: addr
  pt_type :: "addr \<Rightarrow> u16"
  pt_dev :: "addr \<Rightarrow> addr"
  pt_next :: "addr \<Rightarrow> addr"
  at_next :: "addr \<Rightarrow> addr"
  at_last_used :: "addr \<Rightarrow> u32"
  at_flags :: "addr \<Rightarrow> u32"
  at_ip :: "addr \<Rightarrow> u32"
  at_mask :: "addr \<Rightarrow> u32"
  at_hlen :: "addr \<Rightarrow> u8"
  at_htype :: "addr \<Rightarrow> u16"
  at_dev :: "addr \<Rightarrow> addr"
  at_retries :: "addr \<Rightarrow> u32"
  arp_tables :: "nat \<Rightarrow> addr"
  arp_timer :: addr

record 's dev_ops =
  has_hard_header :: "addr \<Rightarrow> bool"
  hard_header :: "addr \<Rightarrow> addr \<Rightarrow> u16 \<Rightarrow> addr \<Rightarrow> addr \<Rightarrow> u32 \<Rightarrow> addr \<Rightarrow> 's \<Rightarrow> (int \<times> 's) option"
  rebuild_header :: "addr \<Rightarrow> addr \<Rightarrow> u32 \<Rightarrow> addr \<Rightarrow> 's \<Rightarrow> (int \<times> 's) option"
  hard_start_xmit :: "addr \<Rightarrow> addr \<Rightarrow> 's \<Rightarrow> (int \<times> 's) option"

abbreviation (input) IFF_UP :: "'a::len word" where "IFF_UP \<equiv> 1"
abbreviation (input) IFF_BROADCAST :: "'a::len word" where "IFF_BROADCAST \<equiv> 2"
abbreviation (input) IFF_NOARP :: "'a::len word" where "IFF_NOARP \<equiv> 0x80"
abbreviation (input) IS_MYADDR :: int where "IS_MYADDR \<equiv> 1"
abbreviation (input) IS_BROADCAST :: int where "IS_BROADCAST \<equiv> 3"
abbreviation (input) ATF_COM :: "'a::len word" where "ATF_COM \<equiv> 2"
abbreviation (input) ATF_PERM :: "'a::len word" where "ATF_PERM \<equiv> 4"
abbreviation (input) ETH_P_IP :: u16 where "ETH_P_IP \<equiv> 0x0800"
abbreviation (input) ETH_P_ARP :: u16 where "ETH_P_ARP \<equiv> 0x0806"
abbreviation (input) ARP_TIMEOUT :: u32 where "ARP_TIMEOUT \<equiv> 60000"
abbreviation (input) ARP_RES_TIME :: u32 where "ARP_RES_TIME \<equiv> 2500"
abbreviation (input) ARP_CHECK_INTERVA :: u32 where "ARP_CHECK_INTERVA \<equiv> 6000"

definition memncpy :: "addr \<Rightarrow> addr \<Rightarrow> u32 \<Rightarrow> 'a net_heap_scheme \<Rightarrow> 'a net_heap_scheme" where
  "memncpy d src l s = s\<lparr>net_mem := snd (u_phys_copy d src l (net_mem s))\<rparr>"

subsection \<open>Addresses of the host\<close>

definition ip_get_mask :: "u32 \<Rightarrow> u32" where
  "ip_get_mask a =
     (if a = 0 then 0
      else if a AND 0x80000000 = 0 then 0xff000000
      else if a AND 0x40000000 = 0 then 0xffff0000
      else if a AND 0x20000000 = 0 then 0xffffff00
      else 0)"

text \<open>
  The loops step to the next structure in memory (\<^verbatim>\<open>dev++\<close>) and not along the list, so they run
  through the address space until a test holds or the pointer wraps to NULL.
\<close>

partial_function (option) ip_chk_loop :: "u32 \<Rightarrow> addr \<Rightarrow> 'a dev_heap_scheme \<Rightarrow> int option" where
  "ip_chk_loop a dev s =
     (if dev = NULL then Some 0
      else if dev_flags s dev AND IFF_UP = 0 then ip_chk_loop a (dev + 116) s
      else if pa_addr s dev = 0 then Some IS_MYADDR
      else if a = pa_addr s dev then Some IS_MYADDR
      else if dev_flags s dev AND IFF_BROADCAST \<noteq> 0 \<and> a = pa_broadcast s dev then Some IS_BROADCAST
      else ip_chk_loop a (dev + 116) s)"

definition ip_chk_addr :: "u32 \<Rightarrow> 'a dev_heap_scheme \<Rightarrow> int option" where
  "ip_chk_addr a s =
     (if a = 0 \<or> a = 0xffffffff \<or> a = 0x7fffffff then Some IS_BROADCAST
      else if a AND ip_get_mask a = 0x7f000000 then Some IS_MYADDR
      else ip_chk_loop a (dev_base s) s)"

partial_function (option) dev_walk ::
  "('a dev_heap_scheme \<Rightarrow> addr \<Rightarrow> bool) \<Rightarrow> addr \<Rightarrow> 'a dev_heap_scheme \<Rightarrow> addr option" where
  "dev_walk test dev s =
     (if dev = NULL then Some NULL
      else if test s dev then Some dev
      else dev_walk test (dev + 116) s)"

definition ip_my_addr :: "'a dev_heap_scheme \<Rightarrow> u32 option" where
  "ip_my_addr s =
     do {
       dev \<leftarrow> dev_walk (\<lambda>s dev. dev_flags s dev AND 8 \<noteq> 0) (dev_base s) s;
       Some (if dev = NULL then 0 else pa_addr s dev)
     }"

definition ip_dev_check :: "u32 \<Rightarrow> 'a dev_heap_scheme \<Rightarrow> addr option" where
  "ip_dev_check a s =
     dev_walk (\<lambda>s dev. dev_flags s dev AND IFF_UP \<noteq> 0 \<and> (a XOR pa_addr s dev) AND pa_mask s dev = 0)
       (dev_base s) s"

subsection \<open>Ethernet headers\<close>

definition eth_header ::
  "addr \<Rightarrow> addr \<Rightarrow> u16 \<Rightarrow> addr \<Rightarrow> addr \<Rightarrow> u32 \<Rightarrow> addr \<Rightarrow> 'a dev_heap_scheme \<Rightarrow> int \<times> 'a dev_heap_scheme" where
  "eth_header buff dev type daddr saddr len skb s =
     (let s = s\<lparr>net_mem := store16 (buff + 12) (ucast len) (net_mem s)\<rparr>;
          s = (if saddr \<noteq> NULL then memncpy (buff + 6) saddr (ucast (dev_addr_len s dev)) s else s)
      in if daddr \<noteq> NULL then
           (uint (hard_header_len s dev), memncpy buff daddr (ucast (dev_addr_len s dev)) s)
         else (- uint (hard_header_len s dev), s))"

definition eth_type_trans :: "addr \<Rightarrow> addr \<Rightarrow> 'a dev_heap_scheme \<Rightarrow> (u16 \<times> 'a dev_heap_scheme) option" where
  "eth_type_trans skb dev s =
     (let eth = skb_data skb in
      if net_mem s eth AND 1 \<noteq> 0 then do {
        c \<leftarrow> memcmp eth (dev + 101) 6 (net_mem s);
        let t = (if c = 0 then 1 else 2);
        Some (load16 (net_mem s) (eth + 12), s\<lparr>skb_pkt_type := (skb_pkt_type s)(skb := t)\<rparr>)
      } else Some (load16 (net_mem s) (eth + 12), s))"

subsection \<open>The ARP table\<close>

text \<open>A pointer to a link: the head of a bucket or the \<^verbatim>\<open>next\<close> field of an entry.\<close>

fun at_link :: "nat + addr \<Rightarrow> 'a dev_heap_scheme \<Rightarrow> addr" where
  "at_link (Inl i) s = arp_tables s i"
| "at_link (Inr e) s = at_next s e"

fun set_at_link :: "nat + addr \<Rightarrow> addr \<Rightarrow> 'a dev_heap_scheme \<Rightarrow> 'a dev_heap_scheme" where
  "set_at_link (Inl i) p s = s\<lparr>arp_tables := (arp_tables s)(i := p)\<rparr>"
| "set_at_link (Inr e) p s = s\<lparr>at_next := (at_next s)(e := p)\<rparr>"

definition arp_hash :: "u32 \<Rightarrow> nat" where
  "arp_hash a = unat (a AND 15)"

text \<open>The loop over one bucket in \<^verbatim>\<open>arp_check_expire\<close> and \<^verbatim>\<open>arp_device_event\<close>.\<close>

partial_function (option) arp_sweep ::
  "('a dev_heap_scheme \<Rightarrow> addr \<Rightarrow> bool) \<Rightarrow> nat + addr \<Rightarrow> 'a dev_heap_scheme \<Rightarrow> 'a dev_heap_scheme option" where
  "arp_sweep gone pentry s =
     (let entry = at_link pentry s in
      if entry = NULL then Some s
      else if gone s entry then do {
        let s = set_at_link pentry (at_next s entry) s;
        (_, s) \<leftarrow> del_timer (entry + 36) s;
        arp_sweep gone pentry s
      } else arp_sweep gone (Inr entry) s)"

fun arp_sweep_all ::
  "('a dev_heap_scheme \<Rightarrow> addr \<Rightarrow> bool) \<Rightarrow> nat list \<Rightarrow> 'a dev_heap_scheme \<Rightarrow> 'a dev_heap_scheme option" where
  "arp_sweep_all gone [] s = Some s"
| "arp_sweep_all gone (i # is') s = do { s \<leftarrow> arp_sweep gone (Inl i) s; arp_sweep_all gone is' s }"

definition arp_check_expire :: "'a dev_heap_scheme \<Rightarrow> 'a dev_heap_scheme option" where
  "arp_check_expire s =
     do {
       let now = tm_jiffies s;
       s \<leftarrow> arp_sweep_all (\<lambda>s e. now - at_last_used s e > ARP_TIMEOUT) [0..<17] s;
       (_, s) \<leftarrow> del_timer (arp_timer s) s;
       let s = set_expires (arp_timer s) ARP_CHECK_INTERVA s;
       (_, s) \<leftarrow> add_timer (arp_timer s) s;
       Some s
     }"

definition arp_device_event :: "u32 \<Rightarrow> addr \<Rightarrow> 'a dev_heap_scheme \<Rightarrow> (int \<times> 'a dev_heap_scheme) option" where
  "arp_device_event event dev s =
     (if event \<noteq> 2 then Some (0, s)
      else do { s \<leftarrow> arp_sweep_all (\<lambda>s e. at_dev s e = dev) [0..<17] s; Some (0, s) })"

definition arp_release_entry :: "addr \<Rightarrow> 'a dev_heap_scheme \<Rightarrow> 'a dev_heap_scheme option" where
  "arp_release_entry entry s =
     do { (_, s) \<leftarrow> skb_drain (entry + 60) s; (_, s) \<leftarrow> del_timer (entry + 36) s; Some s }"

text \<open>\<^verbatim>\<open>sizeof(struct arphdr)\<close> is 8: the operation is a single byte at offset 6, padded.\<close>

definition arp_send ::
  "'a dev_heap_scheme dev_ops \<Rightarrow> u16 \<Rightarrow> u16 \<Rightarrow> u32 \<Rightarrow> addr \<Rightarrow> u32 \<Rightarrow> addr \<Rightarrow> addr \<Rightarrow>
   'a dev_heap_scheme \<Rightarrow> 'a dev_heap_scheme option" where
  "arp_send D type ptype dest_ip dev src_ip dest_hw src_hw s =
     (if dev_flags s dev AND IFF_NOARP \<noteq> 0 then Some s
      else
        let al = (ucast (dev_addr_len s dev) :: u32);
            n = 8 + 2 * (al + 4) + ucast (hard_header_len s dev);
            skb = alloc_skb n 1
        in if skb = NULL then Some s
           else do {
             let s = s\<lparr>skb_len := (skb_len s)(skb := n), skb_arp := (skb_arp s)(skb := 1),
                       skb_dev := (skb_dev s)(skb := dev), skb_free := (skb_free s)(skb := 1)\<rparr>;
             (_, s) \<leftarrow> hard_header D (skb_data skb) dev ptype (if dest_hw \<noteq> NULL then dest_hw else dev + 101)
                         src_hw (skb_len s skb) skb s;
             let arph = skb_data skb + ucast (hard_header_len s dev);
             let s = s\<lparr>net_mem := (store16 (arph + 2) ETH_P_IP (store16 arph (dev_type s dev) (net_mem s)))
                       (arph + 4 := dev_addr_len s dev, arph + 5 := 4, arph + 6 := ucast type)\<rparr>;
             let p = arph + 8;
             let s = memncpy p src_hw al s;
             let p = p + al;
             let s = s\<lparr>net_mem := (store32 p src_ip (net_mem s))(p + 4 := 0)\<rparr>;
             let p = p + 4;
             let s = (if dest_hw \<noteq> NULL then memncpy p dest_hw al s
                      else s\<lparr>net_mem := snd (memset p 0 (uint al) (net_mem s))\<rparr>);
             let p = p + al;
             Some (s\<lparr>net_mem := (store32 p dest_ip (net_mem s))(p + 4 := 0)\<rparr>)
           })"

partial_function (option) arp_unlink :: "addr \<Rightarrow> nat + addr \<Rightarrow> 'a dev_heap_scheme \<Rightarrow> 'a dev_heap_scheme option" where
  "arp_unlink entry pentry s =
     (let e = at_link pentry s in
      if e = NULL then Some s
      else if e = entry then do {
        let s = set_at_link pentry (at_next s entry) s;
        (_, s) \<leftarrow> del_timer (entry + 36) s;
        arp_release_entry entry s
      } else arp_unlink entry (Inr e) s)"

definition arp_expire_request ::
  "'a dev_heap_scheme dev_ops \<Rightarrow> addr \<Rightarrow> 'a dev_heap_scheme \<Rightarrow> 'a dev_heap_scheme option" where
  "arp_expire_request D entry s =
     (if at_flags s entry AND ATF_COM \<noteq> 0 then Some s
      else
        let s = s\<lparr>at_retries := (at_retries s)(entry := at_retries s entry - 1)\<rparr> in
        if at_retries s entry > 0 then do {
          let ip = at_ip s entry;
          let dev = at_dev s entry;
          (_, s) \<leftarrow> del_timer (entry + 36) s;
          let s = set_expires (entry + 36) ARP_RES_TIME s;
          (_, s) \<leftarrow> add_timer (entry + 36) s;
          arp_send D 1 ETH_P_ARP ip dev (pa_addr s dev) NULL (dev + 108) s
        } else arp_unlink entry (Inl (arp_hash (at_ip s entry))) s)"

text \<open>The loop of \<^verbatim>\<open>arp_destory\<close> does not step past an entry with another address.\<close>

partial_function (option) arp_destory_loop ::
  "u32 \<Rightarrow> bool \<Rightarrow> nat \<Rightarrow> 'a dev_heap_scheme \<Rightarrow> 'a dev_heap_scheme option" where
  "arp_destory_loop a force h s =
     (let entry = arp_tables s h in
      if entry = NULL then Some s
      else if at_ip s entry = a then
        if at_flags s entry AND ATF_PERM \<noteq> 0 \<and> \<not> force then Some s
        else do {
          let s = set_at_link (Inl h) (at_next s entry) s;
          (_, s) \<leftarrow> del_timer (entry + 36) s;
          s \<leftarrow> arp_release_entry entry s;
          arp_destory_loop a force h s
        }
      else arp_destory_loop a force h s)"

definition arp_destory :: "u32 \<Rightarrow> bool \<Rightarrow> 'a dev_heap_scheme \<Rightarrow> 'a dev_heap_scheme option" where
  "arp_destory a force s = arp_destory_loop a force (arp_hash a) s"

text \<open>\<^verbatim>\<open>arp_lookup\<close> steps by \<^verbatim>\<open>entry++\<close> through memory; \<^verbatim>\<open>arp_rcv\<close> follows the bucket.\<close>

partial_function (option) arp_lookup_loop :: "u32 \<Rightarrow> addr \<Rightarrow> 'a dev_heap_scheme \<Rightarrow> addr option" where
  "arp_lookup_loop paddr entry s =
     (if entry = NULL then Some NULL
      else if at_ip s entry = paddr then Some entry
      else arp_lookup_loop paddr (entry + 68) s)"

definition arp_lookup :: "u32 \<Rightarrow> 'a dev_heap_scheme \<Rightarrow> addr option" where
  "arp_lookup paddr s = arp_lookup_loop paddr (arp_tables s (arp_hash paddr)) s"

partial_function (option) arp_bucket :: "u32 \<Rightarrow> u16 \<Rightarrow> addr \<Rightarrow> 'a dev_heap_scheme \<Rightarrow> addr option" where
  "arp_bucket sip htype entry s =
     (if entry = NULL then Some NULL
      else if at_ip s entry = sip \<and> at_htype s entry = htype then Some entry
      else arp_bucket sip htype (at_next s entry) s)"

text \<open>
  \<^verbatim>\<open>arp_find\<close>. \<open>ip_chk_addr\<close> never returns \<^verbatim>\<open>IS_MULTICAST\<close>, but the case is there and falls through
  to the broadcast one on other hardware. The allocation of an entry is commented out, so the
  branch that fills one is never entered.
\<close>

definition arp_find ::
  "'a dev_heap_scheme dev_ops \<Rightarrow> addr \<Rightarrow> u32 \<Rightarrow> addr \<Rightarrow> u32 \<Rightarrow> addr \<Rightarrow> 'a dev_heap_scheme \<Rightarrow>
   (int \<times> 'a dev_heap_scheme) option" where
  "arp_find D haddr paddr dev saddr skb s =
     do {
       c \<leftarrow> ip_chk_addr paddr s;
       let al = (ucast (dev_addr_len s dev) :: u32);
       if c = IS_MYADDR then
         Some (0, (memncpy haddr (dev + 108) al s)\<lparr>skb_arp := (skb_arp s)(skb := 1)\<rparr>)
       else if c = 4 \<and> dev_type s dev = 1 then
         Some (0, s\<lparr>net_mem := (net_mem s)(haddr := 1, haddr + 1 := 0, haddr + 2 := 0x5e,
           haddr + 5 := ucast paddr, haddr + 4 := ucast (drop_bit 8 paddr),
           haddr + 3 := ucast (drop_bit 16 paddr AND 0x7f))\<rparr>)
       else if c = 4 \<or> c = IS_BROADCAST then
         Some (0, (memncpy haddr (dev + 101) al s)\<lparr>skb_arp := (skb_arp s)(skb := 1)\<rparr>)
       else do {
         entry \<leftarrow> arp_lookup paddr s;
         if entry \<noteq> NULL then
           (if at_flags s entry AND ATF_COM = 0 then
             Some (0, if skb \<noteq> NULL then skb_queue_tail (entry + 60) skb s else s)
           else
             let s = s\<lparr>at_last_used := (at_last_used s)(entry := tm_jiffies s)\<rparr>;
                 s = memncpy haddr (entry + 20) al s
             in Some (0, if skb \<noteq> NULL then s\<lparr>skb_arp := (skb_arp s)(skb := 1)\<rparr> else s))
         else do {
           s \<leftarrow> arp_send D 1 ETH_P_ARP paddr dev saddr NULL (dev + 108) s;
           Some (0, s)
         }
       }
     }"

definition eth_rebuild_header ::
  "'a dev_heap_scheme dev_ops \<Rightarrow> addr \<Rightarrow> addr \<Rightarrow> u32 \<Rightarrow> addr \<Rightarrow> 'a dev_heap_scheme \<Rightarrow>
   (int \<times> 'a dev_heap_scheme) option" where
  "eth_rebuild_header D buff dev dst skb s =
     (if load16 (net_mem s) (buff + 12) \<noteq> ETH_P_IP then
        Some (0, memncpy (buff + 6) (dev + 108) (ucast (dev_addr_len s dev)) s)
      else do {
        (r, s) \<leftarrow> arp_find D buff dst dev (pa_addr s dev) skb s;
        Some (if r \<noteq> 0 then 1 else 0, s)
      })"

subsection \<open>Sending and receiving\<close>

text \<open>
  The queues of a device are \<^verbatim>\<open>dev->buffs[pri]\<close>; a priority of 3 passes the test \<^verbatim>\<open>pri > DEV_NUMBUFFS\<close> and
  is the cell behind the array.
\<close>

definition dev_queue_xmit ::
  "'a dev_heap_scheme dev_ops \<Rightarrow> addr \<Rightarrow> addr \<Rightarrow> int \<Rightarrow> 'a dev_heap_scheme \<Rightarrow> 'a dev_heap_scheme option" where
  "dev_queue_xmit D skb dev pri s =
     (if dev = NULL then Some s
      else if l_next s skb \<noteq> NULL then do { (_, s) \<leftarrow> hard_start_xmit D NULL dev s; Some s }
      else do {
        let (wh, pri) = (if pri < 0 then (True, - pri - 1) else (False, pri));
        let pri = (if pri > 3 then 1 else pri);
        let q = dev + 76 + 8 * word_of_int pri;
        (r, s) \<leftarrow> (if skb_arp s skb = 0 then rebuild_header D (skb_data skb) dev (skb_raddr s skb) skb s
                   else Some (0, s));
        if r \<noteq> 0 then Some s
        else do {
          let (skb, s) = (if \<not> wh then skb_dequeue q (skb_queue_tail q skb s) else (skb, s));
          (r, s) \<leftarrow> hard_start_xmit D skb dev s;
          Some (if r = 0 then s else skb_queue_head q skb s)
        }
      })"

text \<open>\<^verbatim>\<open>!backlog_size > 300\<close> compares the negation, so the queue is never full.\<close>

definition netif_rx :: "addr \<Rightarrow> 'a dev_heap_scheme \<Rightarrow> 'a dev_heap_scheme" where
  "netif_rx skb s =
     (let s = s\<lparr>skb_sk := (skb_sk s)(skb := NULL), skb_free := (skb_free s)(skb := 1)\<rparr>;
          dropping = (if backlog_size s = 0 then False
                      else if (if backlog_size s = 0 then 1 else 0 :: int) > 300 then True
                      else rx_dropping s);
          s = s\<lparr>rx_dropping := dropping\<rparr>
      in if dropping then s
         else (skb_queue_tail (backlog s) skb s)\<lparr>backlog_size := backlog_size s + 1\<rparr>)"

text \<open>The loops of \<^verbatim>\<open>dev_tint\<close>: whether the transmitter became busy, and the state.\<close>

partial_function (option) dev_tint_loop ::
  "'a dev_heap_scheme dev_ops \<Rightarrow> addr \<Rightarrow> nat \<Rightarrow> 'a dev_heap_scheme \<Rightarrow> (bool \<times> 'a dev_heap_scheme) option" where
  "dev_tint_loop D dev i s =
     (if i \<ge> 3 then Some (False, s)
      else
        let (skb, s) = skb_dequeue (dev + 76 + 8 * of_nat i) s in
        if skb = NULL then dev_tint_loop D dev (i + 1) s
        else do {
          s \<leftarrow> dev_queue_xmit D skb dev (- int i - 1) s;
          if dev_tbusy s dev \<noteq> 0 then Some (True, s) else dev_tint_loop D dev i s
        })"

partial_function (option) dev_transmit_loop ::
  "'a dev_heap_scheme dev_ops \<Rightarrow> addr \<Rightarrow> 'a dev_heap_scheme \<Rightarrow> 'a dev_heap_scheme option" where
  "dev_transmit_loop D dev s =
     (if dev = NULL then Some s
      else do {
        (_, s) \<leftarrow> (if dev_flags s dev \<noteq> 0 \<and> dev_tbusy s dev \<noteq> 0 then dev_tint_loop D dev 0 s else Some (False, s));
        dev_transmit_loop D (dev_next s dev) s
      })"

definition dev_transmit :: "'a dev_heap_scheme dev_ops \<Rightarrow> 'a dev_heap_scheme \<Rightarrow> 'a dev_heap_scheme option" where
  "dev_transmit D s = dev_transmit_loop D (dev_base s) s"

text \<open>\<^verbatim>\<open>arp_send_q\<close>: the packets that waited for an address are sent.\<close>

partial_function (option) arp_send_q_loop ::
  "'a dev_heap_scheme dev_ops \<Rightarrow> (addr \<Rightarrow> int) \<Rightarrow> addr \<Rightarrow> 'a dev_heap_scheme \<Rightarrow> 'a dev_heap_scheme option" where
  "arp_send_q_loop D sk_prio entry s =
     (let (skb, s) = skb_dequeue (entry + 60) s in
      if skb = NULL then Some s
      else do {
        (r, s) \<leftarrow> rebuild_header D (skb_data skb) (skb_dev s skb) (skb_raddr s skb) skb s;
        s \<leftarrow> (if r = 0 then
                 dev_queue_xmit D skb (skb_dev s skb) (if skb_sk s skb = NULL then 0 else sk_prio (skb_sk s skb))
                   (s\<lparr>skb_arp := (skb_arp s)(skb := 1)\<rparr>)
               else Some s);
        arp_send_q_loop D sk_prio entry s
      })"

definition arp_send_q ::
  "'a dev_heap_scheme dev_ops \<Rightarrow> (addr \<Rightarrow> int) \<Rightarrow> addr \<Rightarrow> 'a dev_heap_scheme \<Rightarrow> 'a dev_heap_scheme option" where
  "arp_send_q D sk_prio entry s =
     (if at_flags s entry AND ATF_COM = 0 then Some s else arp_send_q_loop D sk_prio entry s)"

text \<open>
  \<^verbatim>\<open>arp_rcv\<close>. The 0 written behind the sender's hardware address is the first byte of its protocol
  address, which is read afterwards; the target's protocol address is read at the place of its
  hardware address. An unknown sender is not entered, because the allocation is commented out.
\<close>

definition arp_known ::
  "'a dev_heap_scheme dev_ops \<Rightarrow> (addr \<Rightarrow> int) \<Rightarrow> addr \<Rightarrow> addr \<Rightarrow> u8 \<Rightarrow> 'a dev_heap_scheme \<Rightarrow>
   'a dev_heap_scheme option" where
  "arp_known D sk_prio entry sha hlen s =
     (let s = memncpy (entry + 20) sha (ucast hlen) s;
          s = s\<lparr>at_hlen := (at_hlen s)(entry := hlen), at_last_used := (at_last_used s)(entry := tm_jiffies s)\<rparr>
      in if at_flags s entry AND ATF_COM \<noteq> 0 then do {
           (_, s) \<leftarrow> del_timer (entry + 36) s;
           arp_send_q D sk_prio entry (s\<lparr>at_flags := (at_flags s)(entry := at_flags s entry OR ATF_COM)\<rparr>)
         } else Some s)"

definition arp_rcv ::
  "'a dev_heap_scheme dev_ops \<Rightarrow> (addr \<Rightarrow> int) \<Rightarrow> addr \<Rightarrow> addr \<Rightarrow> 'a dev_heap_scheme \<Rightarrow>
   (int \<times> 'a dev_heap_scheme) option" where
  "arp_rcv D sk_prio skb dev s =
     (let arp = skb_h s skb; m = net_mem s; hlen = dev_addr_len s dev; al = ucast hlen :: u32 in
      if m (arp + 4) \<noteq> hlen \<or> load16 m arp \<noteq> dev_type s dev \<or> dev_flags s dev AND IFF_NOARP \<noteq> 0 \<or> m (arp + 5) \<noteq> 4
      then Some (0, s)
      else if dev_type s dev \<noteq> 3 \<and> (dev_type s dev \<noteq> 1 \<or> load16 m (arp + 2) \<noteq> ETH_P_IP) then Some (0, s)
      else do {
        let sha = arp + 8;
        let s = s\<lparr>net_mem := (net_mem s)(sha + al := 0)\<rparr>;
        let sip = load32 (net_mem s) (sha + al);
        let dha = sha + al + 4;
        let s = s\<lparr>net_mem := (net_mem s)(dha + al := 0)\<rparr>;
        let dip = load32 (net_mem s) dha;
        if dip = 0x7f000001 then Some (0, s)
        else do {
          addr_hint \<leftarrow> ip_chk_addr dip s;
          if net_mem s (arp + 6) = 2 \<and> addr_hint \<noteq> IS_MYADDR then Some (0, s)
          else if net_mem s (arp + 6) \<noteq> 2 \<and> dip \<noteq> pa_addr s dev then Some (0, s)
          else do {
            s \<leftarrow> (if net_mem s (arp + 6) \<noteq> 2 then arp_send D 2 ETH_P_ARP sip dev dip sha (dev + 108) s else Some s);
            entry \<leftarrow> arp_bucket sip (dev_type s dev) (arp_tables s (arp_hash sip)) s;
            s \<leftarrow> (if entry \<noteq> NULL then arp_known D sk_prio entry sha hlen s else Some s);
            Some (0, s)
          }
        }
      })"

text \<open>
  Requests of the user. \<^verbatim>\<open>struct arpreq\<close>: the family at 2, the protocol address at 8, the hardware
  family at 20 and address at 22, the flags at 56, 60 bytes in all.
\<close>

definition arp_req_set :: "addr \<Rightarrow> 'a dev_heap_scheme \<Rightarrow> (int \<times> 'a dev_heap_scheme) option" where
  "arp_req_set req s =
     (if load16 (net_mem s) (req + 2) \<noteq> 1 then Some (-100, s)
      else if load32 (net_mem s) (req + 8) = 0 then Some (-22, s)
      else do {
        entry \<leftarrow> arp_lookup (load32 (net_mem s) (req + 8)) s;
        if entry = NULL then Some (-12, s)
        else do {
          let fl = load32 (net_mem s) (req + 56);
          let s = memncpy (entry + 20) (req + 22) 6 s;
          Some (0, s\<lparr>at_last_used := (at_last_used s)(entry := tm_jiffies s),
                     at_flags := (at_flags s)(entry := fl OR ATF_COM),
                     at_mask := (at_mask s)(entry := 0xffffffff)\<rparr>)
        }
      })"

text \<open>An address of more than 37 bytes does not fit in the local copy: \<open>None\<close>.\<close>

definition arp_req_get :: "addr \<Rightarrow> 'a dev_heap_scheme \<Rightarrow> (int \<times> 'a dev_heap_scheme) option" where
  "arp_req_get req s =
     (if load16 (net_mem s) (req + 2) \<noteq> 2 then Some (-100, s)
      else do {
        entry \<leftarrow> arp_lookup (load32 (net_mem s) (req + 8)) s;
        if entry = NULL then Some (-6, s)
        else if at_hlen s entry > 37 then None
        else do {
          let s = memncpy (req + 22) (entry + 20) (ucast (at_hlen s entry)) s;
          let m = store32 (req + 56) (at_flags s entry) (store16 (req + 20) (at_htype s entry) (net_mem s));
          Some (0, s\<lparr>net_mem := m(req + 60 := 0)\<rparr>)
        }
      })"

definition arp_ioctl :: "u32 \<Rightarrow> addr \<Rightarrow> 'a dev_heap_scheme \<Rightarrow> (int \<times> 'a dev_heap_scheme) option" where
  "arp_ioctl cmd arg s =
     (if cmd = 0x8850 then
        if load16 (net_mem s) (arg + 2) \<noteq> 2 then Some (-100, s)
        else do { s \<leftarrow> arp_destory (load32 (net_mem s) (arg + 8)) True s; Some (0, s) }
      else if cmd = 0x8851 then arp_req_get arg s
      else if cmd = 0x8852 then arp_req_set arg s
      else Some (-22, s))"

text \<open>
  \<^verbatim>\<open>set_bit\<close> and \<^verbatim>\<open>clear_bit\<close> of \<^verbatim>\<open>kernel/bitmap.c\<close>: the assembly works on the variable that holds the
  pointer and not on what it points to, so memory stays as it is and the result is the old bit of
  the address, as 0 or -1.
\<close>

definition addr_set_bit :: "nat \<Rightarrow> addr \<Rightarrow> int" where
  "addr_set_bit nr a = (if bit a (nr mod 32) then -1 else 0)"

definition addr_clear_bit :: "nat \<Rightarrow> addr \<Rightarrow> int" where
  "addr_clear_bit nr a = (if bit a (nr mod 32) then -1 else 0)"

text \<open>
  \<^verbatim>\<open>net_bh\<close>: every packet of the backlog goes to the handlers of its type; the function pointers
  \<^verbatim>\<open>func\<close> are an argument. A handler is called when the next one of the type is found, and the
  last one at the end.
\<close>

partial_function (option) net_bh_types ::
  "(addr \<Rightarrow> addr \<Rightarrow> addr \<Rightarrow> 'a dev_heap_scheme \<Rightarrow> 'a dev_heap_scheme option) \<Rightarrow> addr \<Rightarrow> u16 \<Rightarrow> addr \<Rightarrow> addr \<Rightarrow>
   'a dev_heap_scheme \<Rightarrow> 'a dev_heap_scheme option" where
  "net_bh_types fn skb type pt_prev ptype s =
     (if ptype = NULL then
        if pt_prev \<noteq> NULL then fn pt_prev skb (skb_dev s skb) s else Some s
      else if pt_type s ptype = type \<and> (pt_dev s ptype = NULL \<or> pt_dev s ptype = skb_dev s skb) then do {
        s \<leftarrow> (if pt_prev \<noteq> NULL then fn pt_prev skb (skb_dev s skb) s else Some s);
        net_bh_types fn skb type ptype (pt_next s ptype) s
      } else net_bh_types fn skb type pt_prev (pt_next s ptype) s)"

partial_function (option) net_bh_loop ::
  "'a dev_heap_scheme dev_ops \<Rightarrow> (addr \<Rightarrow> addr \<Rightarrow> addr \<Rightarrow> 'a dev_heap_scheme \<Rightarrow> 'a dev_heap_scheme option) \<Rightarrow>
   'a dev_heap_scheme \<Rightarrow> 'a dev_heap_scheme option" where
  "net_bh_loop D fn s =
     (let (skb, s) = skb_dequeue (backlog s) s in
      if skb = NULL then Some s
      else do {
        let s = s\<lparr>backlog_size := backlog_size s - 1\<rparr>;
        let hh = ucast (hard_header_len s (skb_dev s skb));
        let s = s\<lparr>skb_h := (skb_h s)(skb := skb_data skb + hh), skb_len := (skb_len s)(skb := hh)\<rparr>;
        (type, s) \<leftarrow> eth_type_trans skb (skb_dev s skb) s;
        s \<leftarrow> net_bh_types fn skb type NULL (ptype_base s) s;
        s \<leftarrow> dev_transmit D s;
        net_bh_loop D fn s
      })"

definition net_bh ::
  "'a dev_heap_scheme dev_ops \<Rightarrow> (addr \<Rightarrow> addr \<Rightarrow> addr \<Rightarrow> 'a dev_heap_scheme \<Rightarrow> 'a dev_heap_scheme option) \<Rightarrow>
   'a dev_heap_scheme \<Rightarrow> 'a dev_heap_scheme option" where
  "net_bh D fn s =
     (if addr_set_bit 1 (in_bh_addr s) \<noteq> 0 then Some s
      else do {
        s \<leftarrow> dev_transmit D s;
        s \<leftarrow> net_bh_loop D fn s;
        dev_transmit D (s\<lparr>in_bh := 0\<rparr>)
      })"

end
