(* ===== verification/Inet_sock.thy ===== *)
theory Inet_sock
  imports Netdev
begin

section \<open>Sockets\<close>

text \<open>
  The model of \<^verbatim>\<open>net/inet/af_inet.c\<close>, \<^verbatim>\<open>net/inet/sock.h\<close> and \<^verbatim>\<open>net/inet/protocol.c\<close>. A socket is a record, found
  by its address; the timers, queues and the header template inside a \<^verbatim>\<open>struct sock\<close> have their own
  addresses: \<^verbatim>\<open>retransmit_timer\<close> at 100, \<^verbatim>\<open>timer\<close> at 120, \<^verbatim>\<open>dummy_th\<close> at 188, \<^verbatim>\<open>partial_timer\<close> at 216, the
  queues \<^verbatim>\<open>receive_queue\<close> at 236, \<^verbatim>\<open>write_queue\<close> at 244 and \<^verbatim>\<open>back_log\<close> at 252. Headers are
  bytes of the network memory.
\<close>

record sock =
  sk_next :: addr
  sk_num :: u16
  sk_prot :: addr
  sk_mtu :: u16
  sk_saddr :: u32
  sk_daddr :: u32
  sk_priority :: u32
  sk_send_head :: addr
  sk_send_tail :: addr
  sk_wmem_alloc :: u32
  sk_rmem_alloc :: u32
  sk_packets_out :: u32
  sk_state :: u8
  sk_err :: u16
  sk_inuse_flag :: u8
  sk_dead :: u8
  sk_ack_backlog :: u8
  sk_max_ack_backlog :: u8
  sk_zapped :: u8
  sk_ack_timed :: u8
  sk_keepopen :: u8
  sk_done :: u8
  sk_localroute :: u8
  sk_retransmits :: u32
  sk_window_clamp :: u32
  sk_write_seq :: u32
  sk_sent_seq :: u32
  sk_acked_seq :: u32
  sk_copied_seq :: u32
  sk_window_seq :: u32
  sk_fin_seq :: u32
  sk_rcv_ack_seq :: u32
  sk_cong_window :: u16
  sk_cong_count :: u16
  sk_ssthresh :: u16
  sk_mss :: u16
  sk_max_window :: u16
  sk_rto :: u32
  sk_rtt :: u32
  sk_backoff :: u16
  sk_shutdown :: u16
  sk_window :: u16
  sk_user_mss :: u16
  sk_bytes_rcv :: u16
  sk_ip_xmit_timeout :: u32
  sk_ip_tos :: u32
  sk_ip_ttl :: u32
  sk_timeout :: u32
  sk_partial :: addr
  sk_sleep :: addr
  sk_socket :: addr

record sock_heap = dev_heap +
  socks :: "addr \<Rightarrow> sock"
  sock_array :: "addr \<Rightarrow> nat \<Rightarrow> addr"
  prot_inuse :: "addr \<Rightarrow> u32"
  prot_retransmits :: "addr \<Rightarrow> u32"
  socknum_start :: int
  ip_protocol :: "addr \<Rightarrow> u8"
  ip_proto_next :: "addr \<Rightarrow> addr"
  inet_protos :: "nat \<Rightarrow> addr"

definition upd_sk :: "addr \<Rightarrow> (sock \<Rightarrow> sock) \<Rightarrow> 'a sock_heap_scheme \<Rightarrow> 'a sock_heap_scheme" where
  "upd_sk sk f s = s\<lparr>socks := (socks s)(sk := f (socks s sk))\<rparr>"

subsection \<open>The table of sockets\<close>

partial_function (option) sk_inuse_loop :: "int \<Rightarrow> addr \<Rightarrow> 'a sock_heap_scheme \<Rightarrow> bool option" where
  "sk_inuse_loop num sk s =
     (if sk = NULL then Some False
      else if uint (sk_num (socks s sk)) = num then Some True
      else sk_inuse_loop num (sk_next (socks s sk)) s)"

definition sk_inuse :: "addr \<Rightarrow> int \<Rightarrow> 'a sock_heap_scheme \<Rightarrow> bool option" where
  "sk_inuse prot num s = sk_inuse_loop num (sock_array s prot (nat (num mod 256))) s"

partial_function (option) chain_length :: "addr \<Rightarrow> int \<Rightarrow> 'a sock_heap_scheme \<Rightarrow> int option" where
  "chain_length sk j s = (if sk = NULL then Some j else chain_length (sk_next (socks s sk)) (j + 1) s)"

text \<open>The \<^verbatim>\<open>for\<close> loop: the number and the new \<open>start\<close> if a chain is empty, else the best index.\<close>

function socknum_scan ::
  "addr \<Rightarrow> int \<Rightarrow> nat \<Rightarrow> nat \<Rightarrow> int \<Rightarrow> 'a sock_heap_scheme \<Rightarrow> (nat + nat) option" where
  "socknum_scan prot base i best sz s =
     (if i < 256 then do {
        j \<leftarrow> chain_length (sock_array s prot (nat ((int i + base + 1) mod 256))) 0 s;
        if j = 0 then Some (Inl i)
        else if j < sz then socknum_scan prot base (i + 1) i j s
        else socknum_scan prot base (i + 1) best sz s
      } else Some (Inr best))"
  by pat_completeness auto
termination by (relation "measure (\<lambda>(prot, base, i, best, sz, s). 256 - i)") auto

declare socknum_scan.simps [simp del]

partial_function (option) socknum_free :: "addr \<Rightarrow> int \<Rightarrow> 'a sock_heap_scheme \<Rightarrow> int option" where
  "socknum_free prot n s =
     do { u \<leftarrow> sk_inuse prot n s; if u then socknum_free prot (n + 256) s else Some n }"

definition get_new_socknum :: "addr \<Rightarrow> u16 \<Rightarrow> 'a sock_heap_scheme \<Rightarrow> (u16 \<times> 'a sock_heap_scheme) option" where
  "get_new_socknum prot base s =
     do {
       let start = socknum_start s;
       let base = (if base = 0 then word_of_int (1024 + 1 + start mod 1024) else base);
       let base = (if uint base \<le> 1024 then word_of_int (uint base + 1024 + start mod 1024) else base);
       r \<leftarrow> socknum_scan prot (uint base) 0 0 32767 s;
       (case r of
          Inl i \<Rightarrow> Some (word_of_int (int i + uint base + 1), s\<lparr>socknum_start := (int i + 1 + start) mod 1024\<rparr>)
        | Inr best \<Rightarrow> do {
            n \<leftarrow> socknum_free prot (uint base + int best + 1) s;
            Some (word_of_int n, s)
          })
     }"

text \<open>
  \<^verbatim>\<open>put_sock\<close>: the loop over a chain that is not empty runs to its end, so the new socket is
  linked behind NULL. \<open>None\<close>: the chain does not end.
\<close>

definition put_sock :: "u16 \<Rightarrow> addr \<Rightarrow> 'a sock_heap_scheme \<Rightarrow> 'a sock_heap_scheme option" where
  "put_sock num sk s =
     (let s = upd_sk sk (\<lambda>k. k\<lparr>sk_num := num, sk_next := NULL\<rparr>) s;
          h = unat (num AND 255);
          prot = sk_prot (socks s sk);
          s = s\<lparr>prot_inuse := (prot_inuse s)(prot := 1)\<rparr>
      in if sock_array s prot h = NULL then
           Some (s\<lparr>sock_array := (sock_array s)(prot := (sock_array s prot)(h := sk))\<rparr>)
         else do {
           _ \<leftarrow> chain_length (sock_array s prot h) 0 s;
           let s = upd_sk NULL (\<lambda>k. k\<lparr>sk_next := sk\<rparr>) s;
           Some (upd_sk sk (\<lambda>k. k\<lparr>sk_next := NULL\<rparr>) s)
         })"

partial_function (option) before_sock :: "addr \<Rightarrow> addr \<Rightarrow> 'a sock_heap_scheme \<Rightarrow> addr option" where
  "before_sock sk sk1 s =
     (if sk1 \<noteq> NULL \<and> sk_next (socks s sk1) \<noteq> sk then before_sock sk (sk_next (socks s sk1)) s
      else Some sk1)"

text \<open>
  \<^verbatim>\<open>remove_sock\<close>: the variable \<^verbatim>\<open>sk1\<close> is used for the index before it is set: an argument.
  \<^verbatim>\<open>sk->prot -= 1\<close> moves the pointer back by a \<^verbatim>\<open>struct proto\<close>, 1164 bytes.
\<close>

definition remove_sock :: "addr \<Rightarrow> addr \<Rightarrow> 'a sock_heap_scheme \<Rightarrow> 'a sock_heap_scheme option" where
  "remove_sock sk1 sk s =
     (let prot = sk_prot (socks s sk) in
      if prot = NULL then Some s
      else
        let sk1 = sock_array s prot (unat (sk_num (socks s sk1) AND 255)) in
        if sk1 = sk then
          let p1 = sk_prot (socks s sk1);
              s = s\<lparr>prot_inuse := (prot_inuse s)(p1 := prot_inuse s p1 - 1)\<rparr>;
              h = unat (sk_num (socks s sk1) AND 255)
          in Some (s\<lparr>sock_array := (sock_array s)(prot := (sock_array s prot)(h := sk_next (socks s sk1)))\<rparr>)
        else do {
          p \<leftarrow> before_sock sk sk1 s;
          if p \<noteq> NULL then do {
            let s = upd_sk sk (\<lambda>k. k\<lparr>sk_prot := sk_prot k - 1164\<rparr>) s;
            let s = upd_sk p (\<lambda>k. k\<lparr>sk_next := sk_next (socks s sk)\<rparr>) s;
            Some (upd_sk sk (\<lambda>k. k\<lparr>sk_next := NULL\<rparr>) s)
          } else Some s
        })"

definition inet_add_protocol :: "addr \<Rightarrow> 'a sock_heap_scheme \<Rightarrow> 'a sock_heap_scheme" where
  "inet_add_protocol prot s =
     (let h = unat (ip_protocol s prot AND 31);
          s = s\<lparr>ip_proto_next := (ip_proto_next s)(prot := inet_protos s h)\<rparr>
      in s\<lparr>inet_protos := (inet_protos s)(h := prot)\<rparr>)"

end
