(* ===== verification/Ip.thy ===== *)
theory Ip
  imports Inet_sock
begin

section \<open>The Internet Protocol\<close>

text \<open>
  The model of \<^verbatim>\<open>net/inet/ip.c\<close>: building headers, reassembling and making fragments, forwarding,
  receiving and sending. Headers are bytes in memory. The first byte of a header holds the version in
  its low half and the header length in its high half, as the compiler lays out the bit fields.
  The allocations are commented out in the source: the pointers that are used without being
  set are arguments, collected in a record.
\<close>

record ip_heap = sock_heap +
  fr_offset :: "addr \<Rightarrow> int"
  fr_end :: "addr \<Rightarrow> int"
  fr_len :: "addr \<Rightarrow> int"
  fr_skb :: "addr \<Rightarrow> addr"
  fr_ptr :: "addr \<Rightarrow> addr"
  fr_next :: "addr \<Rightarrow> addr"
  fr_prev :: "addr \<Rightarrow> addr"
  fq_mac :: "addr \<Rightarrow> addr"
  fq_iph :: "addr \<Rightarrow> addr"
  fq_len :: "addr \<Rightarrow> int"
  fq_ihlen :: "addr \<Rightarrow> int"
  fq_maclen :: "addr \<Rightarrow> int"
  fq_fragments :: "addr \<Rightarrow> addr"
  fq_next :: "addr \<Rightarrow> addr"
  fq_prev :: "addr \<Rightarrow> addr"
  fq_dev :: "addr \<Rightarrow> addr"
  ipfrag_queue :: addr
  ip_id_count :: u32

text \<open>The values of \<^verbatim>\<open>fp\<close>, \<^verbatim>\<open>ifq\<close>, \<^verbatim>\<open>ifg_next\<close>, \<^verbatim>\<open>skb\<close> (in \<^verbatim>\<open>ip_frq_glue\<close>) and of \<^verbatim>\<open>skb2\<close> in three functions.\<close>

record unset =
  un_fp :: addr
  un_ifq :: addr
  un_ifg_next :: addr
  un_skb :: addr
  un_forward :: addr
  un_fragment :: addr
  un_rcv :: addr

abbreviation (input) IP_FRAG_TIME :: u32 where "IP_FRAG_TIME \<equiv> 3000"
abbreviation (input) IP_OFFSET :: u16 where "IP_OFFSET \<equiv> 0x1FFF"
abbreviation (input) IP_FLAGS :: u16 where "IP_FLAGS \<equiv> 0xE000"
abbreviation (input) IP_DF :: u16 where "IP_DF \<equiv> 0x10"
abbreviation (input) IP_MF :: u16 where "IP_MF \<equiv> 0x20"

definition ip_rt_event :: "u32 \<Rightarrow> addr \<Rightarrow> 'a ip_heap_scheme \<Rightarrow> (int \<times> 'a ip_heap_scheme) option" where
  "ip_rt_event event dev s = (if event = 2 then do { s \<leftarrow> ip_rt_flush dev s; Some (0, s) } else Some (0, s))"

subsection \<open>Headers\<close>

definition iph_ihl :: "bytes \<Rightarrow> addr \<Rightarrow> int" where
  "iph_ihl m a = uint (drop_bit 4 (m a))"

definition iph_version :: "bytes \<Rightarrow> addr \<Rightarrow> int" where
  "iph_version m a = uint (m a AND 0x0F)"

definition iph_tot_len :: "bytes \<Rightarrow> addr \<Rightarrow> int" where
  "iph_tot_len m a = uint (load16 m (a + 2))"

definition on_mem :: "(bytes \<Rightarrow> bytes) \<Rightarrow> 'a net_heap_scheme \<Rightarrow> 'a net_heap_scheme" where
  "on_mem f s = s\<lparr>net_mem := f (net_mem s)\<rparr>"

definition LOOPBACK :: "u32 \<Rightarrow> bool" where
  "LOOPBACK x \<longleftrightarrow> x AND 0xff000000 = 0x7f000000"

definition ip_build_eth_header ::
  "'a ip_heap_scheme dev_ops \<Rightarrow> addr \<Rightarrow> u32 \<Rightarrow> u32 \<Rightarrow> addr \<Rightarrow> u32 \<Rightarrow> 'a ip_heap_scheme \<Rightarrow>
   (int \<times> 'a ip_heap_scheme) option" where
  "ip_build_eth_header D skb daddr len dev saddr s =
     (let s = s\<lparr>skb_dev := (skb_dev s)(skb := dev), skb_arp := (skb_arp s)(skb := 1)\<rparr> in
      if has_hard_header D dev then do {
        (mac, s) \<leftarrow> hard_header D (skb_data skb) dev ETH_P_IP NULL NULL len skb s;
        Some (if mac < 0
          then (- mac - 1, s\<lparr>skb_arp := (skb_arp s)(skb := 0), skb_raddr := (skb_raddr s)(skb := daddr)\<rparr>)
          else (mac, s))
      } else Some (0, s))"

text \<open>The variable \<^verbatim>\<open>*dev\<close> of the caller is returned with the result; 255 is \<^verbatim>\<open>IPPROTO_RAW\<close>.\<close>

definition ip_build_header ::
  "'a ip_heap_scheme dev_ops \<Rightarrow> addr \<Rightarrow> u32 \<Rightarrow> u32 \<Rightarrow> addr \<Rightarrow> int \<Rightarrow> u32 \<Rightarrow> u32 \<Rightarrow> u32 \<Rightarrow> 'a ip_heap_scheme \<Rightarrow>
   ((int \<times> addr) \<times> 'a ip_heap_scheme) option" where
  "ip_build_header D skb saddr daddr dev type len tos ttl s =
     do {
       ((rt, src), s) \<leftarrow> (if skb_localroute s skb \<noteq> 0 then ip_rt_local daddr (Some 0) s else ip_rt_route daddr (Some 0) s);
       if dev = NULL \<and> rt = NULL then Some ((-101, dev), s)
       else do {
         let dev = (if dev = NULL then rt_dev s rt else dev);
         let saddr = (if LOOPBACK saddr \<and> \<not> LOOPBACK daddr then the src else saddr);
         let raddr = (if rt = NULL then 0 else rt_gateway s rt);
         let saddr = (if saddr = 0 then the src else saddr);
         let raddr = (if raddr = 0 then daddr else raddr);
         (tmp, s) \<leftarrow> ip_build_eth_header D skb raddr len dev saddr s;
         let s = s\<lparr>skb_dev := (skb_dev s)(skb := dev), skb_saddr := (skb_saddr s)(skb := saddr)\<rparr>;
         let s = (if skb_sk s skb \<noteq> NULL then upd_sk (skb_sk s skb) (\<lambda>k. k\<lparr>sk_saddr := saddr\<rparr>) s else s);
         if type = 255 then Some ((tmp, dev), s)
         else do {
           let iph = skb_data skb + word_of_int tmp;
           let m = store16 (iph + 6) 0 (store16 (iph + 2) (ucast tos) (net_mem s));
           let m = store32 (iph + 12) saddr (store32 (iph + 16) daddr (m(iph + 8 := ucast ttl)));
           let s = s\<lparr>net_mem := m(iph + 9 := word_of_int type, iph := 0x54),
                     skb_ip_hdr := (skb_ip_hdr s)(skb := iph)\<rparr>;
           Some ((20 + tmp, dev), s)
         }
       }
     }"

text \<open>\<^verbatim>\<open>ip_send_checksum\<close> clears the checksum and does not compute one.\<close>

definition ip_send_checksum :: "addr \<Rightarrow> 'a ip_heap_scheme \<Rightarrow> 'a ip_heap_scheme" where
  "ip_send_checksum iph s = on_mem (store16 (iph + 10) 0) s"

subsection \<open>Reassembly\<close>

definition ip_frag_create ::
  "addr \<Rightarrow> int \<Rightarrow> int \<Rightarrow> addr \<Rightarrow> addr \<Rightarrow> 'a ip_heap_scheme \<Rightarrow> addr \<times> 'a ip_heap_scheme" where
  "ip_frag_create fp offset fin skb ptr s =
     (if fp = NULL then (NULL, s)
      else (fp, s\<lparr>fr_offset := (fr_offset s)(fp := offset), fr_end := (fr_end s)(fp := fin),
                 fr_len := (fr_len s)(fp := fin - offset), fr_skb := (fr_skb s)(fp := skb),
                 fr_ptr := (fr_ptr s)(fp := ptr), fr_next := (fr_next s)(fp := NULL),
                 fr_prev := (fr_prev s)(fp := NULL)\<rparr>))"

definition same_datagram :: "bytes \<Rightarrow> addr \<Rightarrow> addr \<Rightarrow> bool" where
  "same_datagram m a b \<longleftrightarrow> load16 m (a + 4) = load16 m (b + 4) \<and> load32 m (a + 12) = load32 m (b + 12) \<and>
     load32 m (a + 16) = load32 m (b + 16) \<and> m (a + 9) = m (b + 9)"

partial_function (option) ip_frq_find_loop ::
  "addr \<Rightarrow> addr \<Rightarrow> 'a ip_heap_scheme \<Rightarrow> (addr \<times> 'a ip_heap_scheme) option" where
  "ip_frq_find_loop iph fq s =
     (if fq = NULL then Some (NULL, s)
      else if same_datagram (net_mem s) iph (fq_iph s fq) then do {
        (_, s) \<leftarrow> del_timer (fq + 16) s;
        Some (fq, s)
      } else ip_frq_find_loop iph (fq_next s fq) s)"

definition ip_frq_find :: "addr \<Rightarrow> 'a ip_heap_scheme \<Rightarrow> (addr \<times> 'a ip_heap_scheme) option" where
  "ip_frq_find iph s = ip_frq_find_loop iph (ipfrag_queue s) s"

text \<open>
  \<^verbatim>\<open>ip_frq_free\<close>: in its loop \<^verbatim>\<open>ifg_next = ifg_next\<close> never changes, so the loop over a list that is not empty
  ends after one round if the uninitialised pointer is NULL and never otherwise.
\<close>

definition ip_frq_free :: "addr \<Rightarrow> addr \<Rightarrow> 'a ip_heap_scheme \<Rightarrow> 'a ip_heap_scheme option" where
  "ip_frq_free ifg_next fq s =
     do {
       (_, s) \<leftarrow> del_timer (fq + 16) s;
       let s = (if fq_prev s fq = NULL then
                  let s = s\<lparr>ipfrag_queue := fq_next s fq\<rparr>
                  in if ipfrag_queue s \<noteq> NULL then s\<lparr>fq_prev := (fq_prev s)(ipfrag_queue s := NULL)\<rparr> else s
                else
                  let s = s\<lparr>fq_next := (fq_next s)(fq_prev s fq := fq_next s fq)\<rparr>
                  in if fq_next s fq \<noteq> NULL then s\<lparr>fq_prev := (fq_prev s)(fq_next s fq := fq_prev s fq)\<rparr> else s);
       if fq_fragments s fq \<noteq> NULL \<and> ifg_next \<noteq> NULL then None else Some s
     }"

definition ip_frq_expire :: "addr \<Rightarrow> addr \<Rightarrow> 'a ip_heap_scheme \<Rightarrow> 'a ip_heap_scheme option" where
  "ip_frq_expire ifg_next ifq s = ip_frq_free ifg_next ifq s"

text \<open>
  \<^verbatim>\<open>ip_frq_create\<close>: the structure is cleared and its two blocks are never allocated, so it returns
  NULL; the rest of the function is translated all the same.
\<close>

definition fq_clear :: "addr \<Rightarrow> 'a ip_heap_scheme \<Rightarrow> 'a ip_heap_scheme" where
  "fq_clear q s =
     s\<lparr>fq_mac := (fq_mac s)(q := NULL), fq_iph := (fq_iph s)(q := NULL), fq_len := (fq_len s)(q := 0),
       fq_ihlen := (fq_ihlen s)(q := 0), fq_maclen := (fq_maclen s)(q := 0),
       fq_fragments := (fq_fragments s)(q := NULL), fq_next := (fq_next s)(q := NULL),
       fq_prev := (fq_prev s)(q := NULL), fq_dev := (fq_dev s)(q := NULL)\<rparr>"

definition ip_frq_create ::
  "addr \<Rightarrow> addr \<Rightarrow> addr \<Rightarrow> addr \<Rightarrow> 'a ip_heap_scheme \<Rightarrow> (addr \<times> 'a ip_heap_scheme) option" where
  "ip_frq_create ifq skb iph dev s =
     (if ifq = NULL then Some (NULL, s)
      else
        let s = fq_clear ifq s;
            maclen = iph - skb_data skb;
            ihlen = 4 * iph_ihl (net_mem s) iph
        in if fq_mac s ifq = NULL then Some (NULL, s)
           else if fq_iph s ifq = NULL then Some (NULL, s)
           else do {
             let s = memncpy (fq_mac s ifq) (skb_data skb) maclen s;
             let s = memncpy (fq_iph s ifq) iph (word_of_int (ihlen + 8)) s;
             let s = s\<lparr>fq_len := (fq_len s)(ifq := 0), fq_ihlen := (fq_ihlen s)(ifq := ihlen),
                       fq_maclen := (fq_maclen s)(ifq := sint maclen),
                       fq_fragments := (fq_fragments s)(ifq := NULL), fq_dev := (fq_dev s)(ifq := dev)\<rparr>;
             (_, s) \<leftarrow> add_timer (ifq + 16) (set_expires (ifq + 16) IP_FRAG_TIME s);
             let s = s\<lparr>fq_prev := (fq_prev s)(ifq := NULL), fq_next := (fq_next s)(ifq := ipfrag_queue s)\<rparr>;
             let s = (if fq_next s ifq \<noteq> NULL then s\<lparr>fq_prev := (fq_prev s)(fq_next s ifq := ifq)\<rparr> else s);
             Some (ifq, s\<lparr>ipfrag_queue := ifq\<rparr>)
           })"

partial_function (option) ip_frq_done_loop :: "addr \<Rightarrow> int \<Rightarrow> 'a ip_heap_scheme \<Rightarrow> bool option" where
  "ip_frq_done_loop frag offset s =
     (if frag = NULL then Some True
      else if fr_offset s frag > offset then Some False
      else ip_frq_done_loop (fr_next s frag) (fr_end s frag) s)"

definition ip_frq_done :: "addr \<Rightarrow> 'a ip_heap_scheme \<Rightarrow> bool option" where
  "ip_frq_done ifq s = (if fq_len s ifq = 0 then Some False else ip_frq_done_loop (fq_fragments s ifq) 0 s)"

text \<open>The copying loop of \<^verbatim>\<open>ip_frq_glue\<close>: the number of bytes copied, \<open>Inl\<close> when they do not fit.\<close>

partial_function (option) ip_glue_loop ::
  "addr \<Rightarrow> addr \<Rightarrow> addr \<Rightarrow> int \<Rightarrow> 'a ip_heap_scheme \<Rightarrow> ((unit + int) \<times> 'a ip_heap_scheme) option" where
  "ip_glue_loop skb ptr ifg count s =
     (if ifg = NULL then Some (Inr count, s)
      else if word_of_int (count + fr_len s ifg) > skb_len s skb then Some (Inl (), s)
      else
        ip_glue_loop skb ptr (fr_next s ifg) (count + fr_len s ifg)
          (memncpy (ptr + word_of_int (fr_offset s ifg)) (fr_ptr s ifg) (word_of_int (fr_len s ifg)) s))"

text \<open>\<^verbatim>\<open>ip_frq_glue\<close> builds the datagram and returns NULL in every case.\<close>

definition ip_frq_glue :: "unset \<Rightarrow> addr \<Rightarrow> 'a ip_heap_scheme \<Rightarrow> (addr \<times> 'a ip_heap_scheme) option" where
  "ip_frq_glue U ifq s =
     (let skb = un_skb U; len = fq_maclen s ifq + fq_ihlen s ifq + fq_len s ifq in
      if skb = NULL then do { s \<leftarrow> ip_frq_free (un_ifg_next U) ifq s; Some (NULL, s) }
      else do {
        let s = s\<lparr>skb_len := (skb_len s)(skb := word_of_int (len - fq_maclen s ifq)),
                  skb_h := (skb_h s)(skb := skb_data skb), skb_free := (skb_free s)(skb := 1)\<rparr>;
        let ptr = skb_h s skb;
        let s = memncpy ptr (fq_mac s ifq) (word_of_int (fq_maclen s ifq)) s;
        let ptr = ptr + word_of_int (fq_maclen s ifq);
        let s = memncpy ptr (fq_iph s ifq) (word_of_int (fq_ihlen s ifq)) s;
        let ptr = ptr + word_of_int (fq_ihlen s ifq);
        let s = s\<lparr>skb_h := (skb_h s)(skb := skb_h s skb + word_of_int (fq_maclen s ifq))\<rparr>;
        (r, s) \<leftarrow> ip_glue_loop skb ptr (fq_fragments s ifq) 0 s;
        s \<leftarrow> ip_frq_free (un_ifg_next U) ifq s;
        (case r of
           Inl _ \<Rightarrow> Some (NULL, s)
         | Inr count \<Rightarrow> do {
             let iph = skb_h s skb;
             let m = store16 (iph + 6) 0 (net_mem s);
             let m = store16 (iph + 2) (word_of_int (4 * iph_ihl m iph + count)) m;
             Some (NULL, s\<lparr>net_mem := m, skb_ip_hdr := (skb_ip_hdr s)(skb := iph)\<rparr>)
           })
      })"

text \<open>The place of a fragment: the last one that starts at or before it, and the next one.\<close>

partial_function (option) ip_frag_place :: "int \<Rightarrow> addr \<Rightarrow> addr \<Rightarrow> 'a ip_heap_scheme \<Rightarrow> (addr \<times> addr) option" where
  "ip_frag_place offset prev nxt s =
     (if nxt = NULL \<or> fr_offset s nxt > offset then Some (prev, nxt)
      else ip_frag_place offset nxt (fr_next s nxt) s)"

text \<open>The loop that cuts the fragments the new one overlaps.\<close>

partial_function (option) ip_frag_cut ::
  "addr \<Rightarrow> int \<Rightarrow> addr \<Rightarrow> 'a ip_heap_scheme \<Rightarrow> (addr \<times> 'a ip_heap_scheme) option" where
  "ip_frag_cut ifq fin nxt s =
     (if nxt = NULL then Some (NULL, s)
      else
        let tfp = fr_next s nxt in
        if fr_offset s nxt \<ge> fin then Some (nxt, s)
        else
          let i = fin - fr_offset s nxt;
              s = s\<lparr>fr_len := (fr_len s)(nxt := fr_len s nxt - i), fr_offset := (fr_offset s)(nxt := fr_offset s nxt + i),
                    fr_ptr := (fr_ptr s)(nxt := fr_ptr s nxt + word_of_int i)\<rparr>;
              s = (if fr_len s nxt \<le> 0 then
                     if fr_prev s nxt \<noteq> NULL then s\<lparr>fr_next := (fr_next s)(fr_prev s nxt := fr_next s nxt)\<rparr>
                     else s\<lparr>fq_fragments := (fq_fragments s)(ifq := fr_next s nxt)\<rparr>
                   else s);
              s = (if tfp \<noteq> NULL then s\<lparr>fr_prev := (fr_prev s)(tfp := fr_prev s nxt)\<rparr> else s)
          in ip_frag_cut ifq fin tfp s)"

text \<open>\<^verbatim>\<open>ip_defrag\<close> from the point where the queue of the datagram is known.\<close>

definition ip_frag_insert ::
  "unset \<Rightarrow> addr \<Rightarrow> addr \<Rightarrow> addr \<Rightarrow> addr \<Rightarrow> u16 \<Rightarrow> int \<Rightarrow> 'a ip_heap_scheme \<Rightarrow> (addr \<times> 'a ip_heap_scheme) option" where
  "ip_frag_insert U ifq iph skb dev flags offset s =
     do {
       let ihl = 4 * iph_ihl (net_mem s) iph;
       let fin = offset + iph_tot_len (net_mem s) iph - ihl;
       let ptr = skb_data skb + ucast (hard_header_len s dev) + word_of_int ihl;
       let s = (if flags AND IP_MF = 0 then s\<lparr>fq_len := (fq_len s)(ifq := fin)\<rparr> else s);
       (prev, nxt) \<leftarrow> ip_frag_place offset NULL (fq_fragments s ifq) s;
       let (offset, ptr) = (if prev \<noteq> NULL \<and> offset < fr_end s prev
                            then (fr_end s prev, ptr + word_of_int (fr_end s prev - offset)) else (offset, ptr));
       (nxt, s) \<leftarrow> ip_frag_cut ifq fin nxt s;
       let (tfp, s) = ip_frag_create (un_fp U) offset fin skb ptr s;
       if tfp = NULL then Some (NULL, s\<lparr>skb_sk := (skb_sk s)(skb := NULL)\<rparr>)
       else do {
         let s = s\<lparr>fr_prev := (fr_prev s)(tfp := prev), fr_next := (fr_next s)(tfp := nxt)\<rparr>;
         let s = (if prev \<noteq> NULL then s\<lparr>fr_next := (fr_next s)(prev := tfp)\<rparr>
                  else s\<lparr>fq_fragments := (fq_fragments s)(ifq := tfp)\<rparr>);
         let s = (if nxt \<noteq> NULL then s\<lparr>fr_prev := (fr_prev s)(nxt := tfp)\<rparr> else s);
         d \<leftarrow> ip_frq_done ifq s;
         if d then ip_frq_glue U ifq s else Some (NULL, s)
       }
     }"

definition ip_defrag ::
  "unset \<Rightarrow> addr \<Rightarrow> addr \<Rightarrow> addr \<Rightarrow> 'a ip_heap_scheme \<Rightarrow> (addr \<times> 'a ip_heap_scheme) option" where
  "ip_defrag U iph skb dev s =
     do {
       (ifq, s) \<leftarrow> ip_frq_find iph s;
       let off = load16 (net_mem s) (iph + 6);
       let flags = off AND IP_FLAGS;
       let offset = uint (off AND IP_OFFSET);
       if flags AND IP_MF = 0 \<and> offset = 0 then do {
         s \<leftarrow> (if ifq = NULL then ip_frq_free (un_ifg_next U) ifq s else Some s);
         Some (skb, s)
       } else do {
         let offset = 8 * offset;
         (ifq, s) \<leftarrow> (if ifq \<noteq> NULL then do {
                       (_, s) \<leftarrow> del_timer (ifq + 16) s;
                       (_, s) \<leftarrow> add_timer (ifq + 16) (set_expires (ifq + 16) IP_FRAG_TIME s);
                       Some (ifq, s)
                     } else ip_frq_create (un_ifq U) skb iph dev s);
         if ifq = NULL then Some (NULL, s\<lparr>skb_sk := (skb_sk s)(skb := NULL)\<rparr>)
         else ip_frag_insert U ifq iph skb dev flags offset s
       }
     }"

subsection \<open>Sending\<close>

text \<open>
  \<^verbatim>\<open>ip_queue_xmit\<close> and \<^verbatim>\<open>ip_fragment\<close> call each other. The function \<open>ip_run\<close> is both: a call of the
  first, and the loop of the second with its variables.
\<close>

datatype ip_call =
    Xmit addr addr addr u32
  | Frag addr addr addr int addr addr int int int int

text \<open>The part of \<^verbatim>\<open>ip_fragment\<close> before its loop; \<open>None\<close> as the call when it returns there.\<close>

definition ip_frag_start ::
  "addr \<Rightarrow> addr \<Rightarrow> addr \<Rightarrow> int \<Rightarrow> 'a ip_heap_scheme \<Rightarrow> ip_call option \<times> 'a ip_heap_scheme" where
  "ip_frag_start sk skb dev is_flag s =
     (let raw = skb_data skb;
          hh = uint (hard_header_len s dev);
          iph = raw + word_of_int hh;
          s = s\<lparr>skb_ip_hdr := (skb_ip_hdr s)(skb := iph)\<rparr>;
          hlen = 4 * iph_ihl (net_mem s) iph;
          left = iph_tot_len (net_mem s) iph - hlen;
          hlen = hlen + hh;
          mtu = uint (dev_mtu s dev) - hlen;
          ptr = raw + word_of_int hlen;
          fo = load16 (net_mem s) (iph + 6)
      in if fo AND IP_DF \<noteq> 0 then (None, s)
         else if mtu < 8 then (None, s)
         else (Some (Frag sk skb dev is_flag raw ptr hlen mtu left
                       (if is_flag mod 4 \<noteq> 0 then 8 * uint (fo AND IP_OFFSET) else 0)), s))"

text \<open>One round of the loop: the fragment is put together in the uninitialised \<^verbatim>\<open>skb2\<close>.\<close>

definition ip_frag_piece ::
  "addr \<Rightarrow> addr \<Rightarrow> addr \<Rightarrow> addr \<Rightarrow> int \<Rightarrow> addr \<Rightarrow> addr \<Rightarrow> int \<Rightarrow> int \<Rightarrow> int \<Rightarrow> int \<Rightarrow> 'a ip_heap_scheme \<Rightarrow>
   'a ip_heap_scheme" where
  "ip_frag_piece skb2 sk skb dev is_flag raw ptr hlen len left offset s =
     (let s = s\<lparr>skb_arp := (skb_arp s)(skb2 := skb_arp s skb), skb_free := (skb_free s)(skb2 := 1),
                skb_len := (skb_len s)(skb := word_of_int (len + hlen)),
                skb_h := (skb_h s)(skb := skb_data skb2)\<rparr>;
          s = (if sk \<noteq> NULL then s\<lparr>skb_sk := (skb_sk s)(skb2 := sk)\<rparr> else s);
          s = memncpy (skb_h s skb2) raw (word_of_int hlen) s;
          s = memncpy (skb_h s skb2 + word_of_int hlen) ptr (word_of_int len) s;
          iph = skb_h s skb2;
          fo = word_of_int (offset div 8) OR (if left - len > 0 \<or> is_flag mod 2 \<noteq> 0 then IP_MF else 0)
      in s\<lparr>net_mem := store16 (iph + 6) fo (net_mem s),
           skb_h := (skb_h s)(skb2 := iph + ucast (hard_header_len s dev))\<rparr>)"

text \<open>\<^verbatim>\<open>ip_queue_xmit\<close> up to the test of the length: the new value of \<^verbatim>\<open>free\<close>.\<close>

definition ip_xmit_start ::
  "addr \<Rightarrow> addr \<Rightarrow> addr \<Rightarrow> u32 \<Rightarrow> 'a ip_heap_scheme \<Rightarrow> u32 \<times> 'a ip_heap_scheme" where
  "ip_xmit_start sk dev skb free s =
     (let iph = skb_data skb + ucast (hard_header_len s dev);
          s = s\<lparr>skb_dev := (skb_dev s)(skb := dev), skb_when := (skb_when s)(skb := tm_jiffies s),
                skb_ip_hdr := (skb_ip_hdr s)(skb := iph)\<rparr>;
          s = on_mem (store16 (iph + 2) (ucast (skb_len s skb - ucast (hard_header_len s dev)))) s;
          s = (if free \<noteq> 2 then (on_mem (store16 (iph + 4) (ucast (ip_id_count s))) s)\<lparr>ip_id_count := ip_id_count s + 1\<rparr>
               else s);
          free = (if free = 2 \<or> sk = NULL then 1 else free)
      in (free, s\<lparr>skb_free := (skb_free s)(skb := ucast free)\<rparr>))"

text \<open>The rest of it, for a packet that fits: the queue of sent packets, and the device.\<close>

definition ip_xmit_send ::
  "'a ip_heap_scheme dev_ops \<Rightarrow> addr \<Rightarrow> addr \<Rightarrow> addr \<Rightarrow> u32 \<Rightarrow> 'a ip_heap_scheme \<Rightarrow> 'a ip_heap_scheme option" where
  "ip_xmit_send D sk dev skb free s =
     (let s = ip_send_checksum (skb_ip_hdr s skb) s;
          s = (if l_next s skb \<noteq> NULL then skb_unlink skb s else s);
          s = (if free = 0 then
                 let s = upd_sk sk (\<lambda>k. k\<lparr>sk_packets_out := sk_packets_out k + 1\<rparr>) s;
                     s = s\<lparr>skb_cache_next := (skb_cache_next s)(skb := NULL)\<rparr>
                 in if sk_send_head (socks s sk) = NULL
                    then upd_sk sk (\<lambda>k. k\<lparr>sk_send_head := skb, sk_send_tail := skb\<rparr>) s
                    else upd_sk sk (\<lambda>k. k\<lparr>sk_send_tail := skb\<rparr>)
                           (s\<lparr>skb_cache_next := (skb_cache_next s)(sk_send_head (socks s sk) := skb)\<rparr>)
               else s\<lparr>skb_sk := (skb_sk s)(skb := sk)\<rparr>)
      in if dev_flags s dev AND IFF_UP \<noteq> 0
         then dev_queue_xmit D skb dev (if sk \<noteq> NULL then sint (sk_priority (socks s sk)) else 1) s
         else Some s)"

partial_function (option) ip_run ::
  "'a ip_heap_scheme dev_ops \<Rightarrow> addr \<Rightarrow> ip_call \<Rightarrow> 'a ip_heap_scheme \<Rightarrow> 'a ip_heap_scheme option" where
  "ip_run D skb2 c s =
     (case c of
        Xmit sk dev skb free \<Rightarrow>
          if dev = NULL then Some s
          else
            let (free, s) = ip_xmit_start sk dev skb free s in
            if skb_len s skb > ucast (dev_mtu s dev) + ucast (hard_header_len s dev) then
              (case ip_frag_start sk skb dev 0 s of
                 (None, s) \<Rightarrow> Some s
               | (Some c, s) \<Rightarrow> ip_run D skb2 c s)
            else ip_xmit_send D sk dev skb free s
      | Frag sk skb dev is_flag raw ptr hlen mtu left offset \<Rightarrow>
          if left > 0 then do {
            let len = (if left > mtu then mtu else left);
            let len = (if len < left then len div 8 * 8 else len);
            let s = ip_frag_piece skb2 sk skb dev is_flag raw ptr hlen len left offset s;
            s \<leftarrow> ip_run D skb2 (Xmit sk dev skb2 2) s;
            ip_run D skb2 (Frag sk skb dev is_flag raw (ptr + word_of_int len) hlen mtu (left - len) (offset + len)) s
          } else Some s)"

definition ip_queue_xmit ::
  "'a ip_heap_scheme dev_ops \<Rightarrow> addr \<Rightarrow> addr \<Rightarrow> addr \<Rightarrow> addr \<Rightarrow> u32 \<Rightarrow> 'a ip_heap_scheme \<Rightarrow> 'a ip_heap_scheme option" where
  "ip_queue_xmit D skb2 sk dev skb free s = ip_run D skb2 (Xmit sk dev skb free) s"

definition ip_fragment ::
  "'a ip_heap_scheme dev_ops \<Rightarrow> addr \<Rightarrow> addr \<Rightarrow> addr \<Rightarrow> addr \<Rightarrow> int \<Rightarrow> 'a ip_heap_scheme \<Rightarrow> 'a ip_heap_scheme option" where
  "ip_fragment D skb2 sk skb dev is_flag s =
     (case ip_frag_start sk skb dev is_flag s of
        (None, s) \<Rightarrow> Some s
      | (Some c, s) \<Rightarrow> ip_run D skb2 c s)"

subsection \<open>Forwarding and receiving\<close>

text \<open>\<^verbatim>\<open>dev2->flags * IFF_UP\<close> is a product, so any flag of the device will do.\<close>

definition ip_forward_send ::
  "'a ip_heap_scheme dev_ops \<Rightarrow> unset \<Rightarrow> addr \<Rightarrow> addr \<Rightarrow> addr \<Rightarrow> u32 \<Rightarrow> int \<Rightarrow> 'a ip_heap_scheme \<Rightarrow>
   'a ip_heap_scheme option" where
  "ip_forward_send D U skb iph dev2 raddr is_flag s =
     (let skb2 = un_forward U in
      if dev_flags s dev2 = 0 \<or> skb2 = NULL then Some s
      else do {
        let hh = ucast (hard_header_len s dev2);
        let s = s\<lparr>skb_free := (skb_free s)(skb2 := 1), skb_len := (skb_len s)(skb2 := skb_len s skb + hh),
                  skb_h := (skb_h s)(skb2 := skb_data skb2)\<rparr>;
        let s = memncpy (skb_data skb2 + hh) (skb_h s skb) (skb_len s skb) s;
        (_, s) \<leftarrow> ip_build_eth_header D skb2 raddr (skb_len s skb) dev2 (pa_addr s dev2) s;
        if skb_len s skb2 > ucast (dev_mtu s dev2) + hh then ip_fragment D (un_fragment U) NULL skb2 dev2 is_flag s
        else
          let tos = net_mem s (iph + 1)
          in dev_queue_xmit D skb2 dev2 (if tos AND 0x10 \<noteq> 0 then 0 else if tos AND 8 \<noteq> 0 then 2 else 1) s
      })"

definition ip_forward ::
  "'a ip_heap_scheme dev_ops \<Rightarrow> unset \<Rightarrow> addr \<Rightarrow> addr \<Rightarrow> int \<Rightarrow> 'a ip_heap_scheme \<Rightarrow> 'a ip_heap_scheme option" where
  "ip_forward D U skb dev is_flag s =
     do {
       let iph = skb_h s skb;
       let s = on_mem (\<lambda>m. m(iph + 8 := m (iph + 8) - 1)) s;
       if net_mem s (iph + 8) = 0 then Some s
       else do {
         let s = ip_send_checksum iph s;
         ((rt, _), s) \<leftarrow> ip_rt_route (load32 (net_mem s) (iph + 16)) None s;
         if rt = NULL then Some s
         else if rt_gateway s rt \<noteq> 0 then do {
           let raddr = rt_gateway s rt;
           ((rt, _), s) \<leftarrow> ip_rt_route raddr None s;
           if rt = NULL then Some s
           else ip_forward_send D U skb iph (rt_dev s rt) (if rt_gateway s rt \<noteq> 0 then rt_gateway s rt else raddr) is_flag s
         } else ip_forward_send D U skb iph (rt_dev s rt) (load32 (net_mem s) (iph + 16)) is_flag s
       }
     }"

text \<open>
  The protocols' handlers are an argument. They are passed the uninitialised \<^verbatim>\<open>skb2\<close>; the
  addresses and the length are read from the header.
\<close>

partial_function (option) ip_deliver ::
  "(addr \<Rightarrow> addr \<Rightarrow> addr \<Rightarrow> u32 \<Rightarrow> u16 \<Rightarrow> u32 \<Rightarrow> 'a ip_heap_scheme \<Rightarrow> 'a ip_heap_scheme option) \<Rightarrow> addr \<Rightarrow> addr \<Rightarrow> addr \<Rightarrow>
   addr \<Rightarrow> 'a ip_heap_scheme \<Rightarrow> 'a ip_heap_scheme option" where
  "ip_deliver handler skb2 dev iph ipprot s =
     (if ipprot = NULL then Some s
      else do {
        let m = net_mem s;
        s \<leftarrow> (if ip_protocol s ipprot \<noteq> m (iph + 9) then Some s
               else handler ipprot skb2 dev (load32 m (iph + 16))
                      (word_of_int (iph_tot_len m iph - 4 * iph_ihl m iph)) (load32 m (iph + 12)) s);
        ip_deliver handler skb2 dev iph (ip_proto_next s ipprot) s
      })"

definition ip_rcv ::
  "'a ip_heap_scheme dev_ops \<Rightarrow> unset \<Rightarrow>
   (addr \<Rightarrow> addr \<Rightarrow> addr \<Rightarrow> u32 \<Rightarrow> u16 \<Rightarrow> u32 \<Rightarrow> 'a ip_heap_scheme \<Rightarrow> 'a ip_heap_scheme option) \<Rightarrow>
   addr \<Rightarrow> addr \<Rightarrow> 'a ip_heap_scheme \<Rightarrow> (int \<times> 'a ip_heap_scheme) option" where
  "ip_rcv D U handler skb dev s =
     (let iph = skb_h s skb; m = net_mem s; s = s\<lparr>skb_ip_hdr := (skb_ip_hdr s)(skb := iph)\<rparr> in
      if skb_len s skb < 20 \<or> iph_ihl m iph < 5 \<or> iph_version m iph \<noteq> 4 then Some (0, s)
      else do {
        let s = s\<lparr>skb_len := (skb_len s)(skb := word_of_int (iph_tot_len m iph))\<rparr>;
        let fo = load16 m (iph + 6);
        let is_flag = (if fo AND IP_MF \<noteq> 0 then 1 else 0) + (if fo AND IP_OFFSET \<noteq> 0 then 2 else 0 :: int);
        let daddr = load32 m (iph + 16);
        brd \<leftarrow> (if daddr \<noteq> pa_addr s (skb_dev s skb) then ip_chk_addr daddr s else Some IS_MYADDR);
        if brd = 0 \<and> skb_pkt_type s skb \<noteq> 0 then Some (0, s)
        else do {
          s \<leftarrow> (if brd = 0 then ip_forward D U skb dev is_flag s else Some s);
          (skb, s) \<leftarrow> (if is_flag \<noteq> 0 then ip_defrag U iph skb dev s else Some (skb, s));
          if is_flag \<noteq> 0 \<and> skb = NULL then Some (0, s)
          else do {
            let s = (if is_flag \<noteq> 0 then s\<lparr>skb_dev := (skb_dev s)(skb := dev)\<rparr> else s);
            let iph = (if is_flag \<noteq> 0 then skb_h s skb else iph);
            let s = s\<lparr>skb_ip_hdr := (skb_ip_hdr s)(skb := iph),
                      skb_h := (skb_h s)(skb := skb_h s skb + word_of_int (4 * iph_ihl (net_mem s) iph))\<rparr>;
            s \<leftarrow> ip_deliver handler (un_rcv U) dev iph (inet_protos s (unat (net_mem s (iph + 9) AND 31))) s;
            Some (0, s)
          }
        }
      })"

end
