(* ===== verification/Tcp.thy ===== *)
theory Tcp
  imports Ip Wait
begin

section \<open>The Transmission Control Protocol\<close>

text \<open>
  The model of \<^verbatim>\<open>net/inet/tcp.c\<close>. The operations of \<^verbatim>\<open>struct proto\<close> and the call-backs of \<^verbatim>\<open>struct sock\<close> are
  function pointers that no source file sets; with the functions that are declared and nowhere
  defined they are a record of functions and an argument. The tasks and wait queues are the state of
  the theory Wait, in a field of their own. \<^verbatim>\<open>release_sock\<close>, \<^verbatim>\<open>tcp_write_timeout\<close> and \<^verbatim>\<open>tcp_send_checksum\<close> are empty and
  \<^verbatim>\<open>tcp_select_window\<close> returns 0. The flags of a header are the bits of the 16-bit word at
  offset 12: the length in bits 0 to 3, then from bit 10 on urg, ack, psh, rst, syn and fin.
\<close>

record tcp_heap = ip_heap +
  tasks :: wait_heap
  master_select_wakeup :: addr
  socket_flags :: "addr \<Rightarrow> u32"
  tsk_blocked :: "addr \<Rightarrow> u32"
  skb_mem_len :: "addr \<Rightarrow> u32"
  prot_max_header :: "addr \<Rightarrow> u16"

record 's prot_ops =
  wmalloc :: "addr \<Rightarrow> u32 \<Rightarrow> bool \<Rightarrow> 's \<Rightarrow> (addr \<times> 's) option"
  wfree :: "addr \<Rightarrow> addr \<Rightarrow> 's \<Rightarrow> 's option"
  build_header :: "addr \<Rightarrow> u32 \<Rightarrow> u32 \<Rightarrow> addr \<Rightarrow> u32 \<Rightarrow> u32 \<Rightarrow> u32 \<Rightarrow> 's \<Rightarrow> ((int \<times> addr) \<times> 's) option"
  queue_xmit :: "addr \<Rightarrow> addr \<Rightarrow> addr \<Rightarrow> int \<Rightarrow> 's \<Rightarrow> 's option"
  rspace :: "addr \<Rightarrow> 's \<Rightarrow> u32"
  retransmit :: "addr \<Rightarrow> bool \<Rightarrow> 's \<Rightarrow> 's option"
  read_wakeup :: "addr \<Rightarrow> 's \<Rightarrow> 's option"
  write_wakeup :: "addr \<Rightarrow> 's \<Rightarrow> 's option"
  data_ready :: "addr \<Rightarrow> 's \<Rightarrow> 's option"
  state_change :: "addr \<Rightarrow> 's \<Rightarrow> 's option"
  err_report :: "addr \<Rightarrow> 's \<Rightarrow> 's option"
  tcp_send_probe :: "addr \<Rightarrow> 's \<Rightarrow> 's option"
  tcp_connected :: "u8 \<Rightarrow> bool"
  delete_timer :: "addr \<Rightarrow> 's \<Rightarrow> 's option"
  ntol :: "u32 \<Rightarrow> u32"
  tcp_build_header :: "addr \<Rightarrow> addr \<Rightarrow> int \<Rightarrow> 's \<Rightarrow> (int \<times> 's) option"
  befor :: "u32 \<Rightarrow> u32 \<Rightarrow> bool"
  kfree_skb :: "addr \<Rightarrow> 's \<Rightarrow> 's option"
  write_space :: "addr \<Rightarrow> 's \<Rightarrow> 's option"
  tcp_send_patial :: "addr \<Rightarrow> 's \<Rightarrow> 's option"
  memcpy_tofs :: "addr \<Rightarrow> addr \<Rightarrow> u32 \<Rightarrow> u32 \<Rightarrow> 's \<Rightarrow> 's option"

abbreviation (input) TCP_ESTABLISHED :: u8 where "TCP_ESTABLISHED \<equiv> 1"
abbreviation (input) TCP_SYN_SENT :: u8 where "TCP_SYN_SENT \<equiv> 2"
abbreviation (input) TCP_SYN_RECV :: u8 where "TCP_SYN_RECV \<equiv> 3"
abbreviation (input) TCP_FIN_WAIT1 :: u8 where "TCP_FIN_WAIT1 \<equiv> 4"
abbreviation (input) TCP_FIN_WAIT2 :: u8 where "TCP_FIN_WAIT2 \<equiv> 5"
abbreviation (input) TCP_TIME_WAIT :: u8 where "TCP_TIME_WAIT \<equiv> 6"
abbreviation (input) TCP_CLOSE :: u8 where "TCP_CLOSE \<equiv> 7"
abbreviation (input) TCP_CLOSE_WAIT :: u8 where "TCP_CLOSE_WAIT \<equiv> 8"
abbreviation (input) TCP_LAST_ACK :: u8 where "TCP_LAST_ACK \<equiv> 9"
abbreviation (input) TCP_LISTEN :: u8 where "TCP_LISTEN \<equiv> 10"
abbreviation (input) TCP_CLOSING :: u8 where "TCP_CLOSING \<equiv> 11"
abbreviation (input) TIME_WRITE :: u32 where "TIME_WRITE \<equiv> 1"
abbreviation (input) TIME_CLOSE :: u32 where "TIME_CLOSE \<equiv> 2"
abbreviation (input) TIME_KEEPOPEN :: u32 where "TIME_KEEPOPEN \<equiv> 3"
abbreviation (input) TIME_PROBE :: u32 where "TIME_PROBE \<equiv> 6"
abbreviation (input) TCP_TIMEOUT_LEN :: u32 where "TCP_TIMEOUT_LEN \<equiv> 90000"
abbreviation (input) TCP_FIN_TIMEOUT :: u32 where "TCP_FIN_TIMEOUT \<equiv> 18000"
abbreviation (input) TCP_ACK_TIME :: u32 where "TCP_ACK_TIME \<equiv> 300"
abbreviation (input) TCP_TIMEOUT_INIT :: u32 where "TCP_TIMEOUT_INIT \<equiv> 300"

definition set_flag :: "nat \<Rightarrow> bool \<Rightarrow> addr \<Rightarrow> bytes \<Rightarrow> bytes" where
  "set_flag n b th m =
     store16 (th + 12) (if b then Bit_Operations.set_bit n (load16 m (th + 12)) else unset_bit n (load16 m (th + 12))) m"

definition th_len :: "addr \<Rightarrow> bytes \<Rightarrow> u32" where
  "th_len th m = ucast (load16 m (th + 12) AND 15)"

definition set_th_len :: "u16 \<Rightarrow> addr \<Rightarrow> bytes \<Rightarrow> bytes" where
  "set_th_len n th m = store16 (th + 12) ((load16 m (th + 12) AND 0xFFF0) OR n) m"

subsection \<open>Sequence numbers\<close>

text \<open>Both compare the difference of unsigned numbers with 0.\<close>

definition before :: "u32 \<Rightarrow> u32 \<Rightarrow> bool" where
  "before seq1 seq2 \<longleftrightarrow> seq1 - seq2 < 0"

definition after :: "u32 \<Rightarrow> u32 \<Rightarrow> bool" where
  "after seq1 seq2 \<longleftrightarrow> seq1 - seq2 > 0"

subsection \<open>Connections\<close>

definition tcp_set_state :: "addr \<Rightarrow> u8 \<Rightarrow> 'a tcp_heap_scheme \<Rightarrow> 'a tcp_heap_scheme option" where
  "tcp_set_state sk state s =
     do {
       s \<leftarrow> (if sk_state (socks s sk) = TCP_SYN_RECV \<and> state = TCP_ESTABLISHED then do {
                w \<leftarrow> wake_up_interruptible (master_select_wakeup s) (tasks s);
                Some (s\<lparr>tasks := w\<rparr>)
              } else Some s);
       Some (upd_sk sk (\<lambda>k. k\<lparr>sk_state := state\<rparr>) s)
     }"

partial_function (option) tcp_find_loop :: "addr \<Rightarrow> addr \<Rightarrow> 'a tcp_heap_scheme \<Rightarrow> addr option" where
  "tcp_find_loop queue p s =
     (let st = sk_state (socks s (skb_sk s p)) in
      if st = TCP_ESTABLISHED \<or> st = TCP_FIN_WAIT2 then Some p
      else if l_next s p \<noteq> queue then tcp_find_loop queue (l_next s p) s
      else Some NULL)"

definition tcp_find_established :: "addr \<Rightarrow> 'a tcp_heap_scheme \<Rightarrow> addr option" where
  "tcp_find_established sk s =
     (let p = skb_peek (sk + 236) s in
      if p = NULL then Some NULL else tcp_find_loop (sk + 236) p s)"

definition tcp_dequeue_established :: "addr \<Rightarrow> 'a tcp_heap_scheme \<Rightarrow> (addr \<times> 'a tcp_heap_scheme) option" where
  "tcp_dequeue_established sk s =
     do {
       skb \<leftarrow> tcp_find_established sk s;
       Some (skb, if skb \<noteq> NULL then skb_unlink skb s else s)
     }"

definition select_wait :: "addr \<Rightarrow> addr \<Rightarrow> 'a tcp_heap_scheme \<Rightarrow> 'a tcp_heap_scheme" where
  "select_wait wq wait s = s\<lparr>tasks := add_wait_queue wq wait (new_wait wait (tasks s))\<rparr>"

definition tcp_listen_select :: "addr \<Rightarrow> int \<Rightarrow> addr \<Rightarrow> 'a tcp_heap_scheme \<Rightarrow> (int \<times> 'a tcp_heap_scheme) option" where
  "tcp_listen_select sk sel_type wait s =
     (if sel_type = 1 then do {
        let s = upd_sk sk (\<lambda>k. k\<lparr>sk_inuse_flag := 1\<rparr>) s;
        p \<leftarrow> tcp_find_established sk s;
        Some (if p \<noteq> NULL then (1, s) else (0, select_wait (master_select_wakeup s) wait s))
      } else Some (0, s))"

definition tcp_select :: "addr \<Rightarrow> int \<Rightarrow> addr \<Rightarrow> 'a tcp_heap_scheme \<Rightarrow> (int \<times> 'a tcp_heap_scheme) option" where
  "tcp_select sk sel_type wait s =
     (let k = socks s sk; asleep = Some (0, select_wait (sk_sleep k) wait s) in
      if sk_state k = TCP_LISTEN then tcp_listen_select sk sel_type wait s
      else if sel_type = 1 then
        (if sk_err k \<noteq> 0 then Some (1, s)
         else if sk_state k = TCP_SYN_SENT \<or> sk_state k = TCP_SYN_RECV then asleep
         else if sk_shutdown k AND 1 \<noteq> 0 then Some (1, s)
         else if sk_acked_seq k = sk_copied_seq k then asleep
         else Some (1, s))
      else if sel_type = 2 then
        (if sk_shutdown k AND 2 \<noteq> 0 then Some (0, s) else asleep)
      else if sel_type = 4 \<and> sk_err k \<noteq> 0 then Some (1, s)
      else asleep)"

text \<open>
  \<^verbatim>\<open>tcp_accept\<close>: \<open>others\<close> is what happens while the task sleeps; \<open>wait\<close> is the local entry of the sleep.
\<close>

partial_function (option) tcp_accept_loop ::
  "('a tcp_heap_scheme \<Rightarrow> 'a tcp_heap_scheme) \<Rightarrow> addr \<Rightarrow> addr \<Rightarrow> u32 \<Rightarrow> 'a tcp_heap_scheme \<Rightarrow>
   (addr \<times> 'a tcp_heap_scheme) option" where
  "tcp_accept_loop others wait sk flags s =
     do {
       (skb, s) \<leftarrow> tcp_dequeue_established sk s;
       if skb \<noteq> NULL then Some (skb, s)
       else if flags AND 0x800 \<noteq> 0 then Some (NULL, upd_sk sk (\<lambda>k. k\<lparr>sk_err := 11\<rparr>) s)
       else do {
         w \<leftarrow> interruptible_sleep_on (sk_sleep (socks s sk)) wait (tasks s);
         tcp_accept_loop others wait sk flags (upd_sk sk (\<lambda>k. k\<lparr>sk_inuse_flag := 1\<rparr>) (others (s\<lparr>tasks := w\<rparr>)))
       }
     }"

definition tcp_accept ::
  "('a tcp_heap_scheme \<Rightarrow> 'a tcp_heap_scheme) \<Rightarrow> addr \<Rightarrow> addr \<Rightarrow> u32 \<Rightarrow> 'a tcp_heap_scheme \<Rightarrow>
   (addr \<times> 'a tcp_heap_scheme) option" where
  "tcp_accept others wait sk flags s =
     (if sk_state (socks s sk) \<noteq> TCP_LISTEN then Some (NULL, upd_sk sk (\<lambda>k. k\<lparr>sk_err := 22\<rparr>) s)
      else do {
        (skb, s) \<leftarrow> tcp_accept_loop others wait sk flags (upd_sk sk (\<lambda>k. k\<lparr>sk_inuse_flag := 1\<rparr>) s);
        if skb = NULL then Some (NULL, s)
        else Some (skb_sk s skb, upd_sk sk (\<lambda>k. k\<lparr>sk_ack_backlog := sk_ack_backlog k - 1\<rparr>) s)
      })"

subsection \<open>Sending\<close>

definition reset_xmit_timer :: "addr \<Rightarrow> u32 \<Rightarrow> u32 \<Rightarrow> 'a tcp_heap_scheme \<Rightarrow> 'a tcp_heap_scheme option" where
  "reset_xmit_timer sk why when s =
     do {
       (_, s) \<leftarrow> del_timer (sk + 100) s;
       let s = upd_sk sk (\<lambda>k. k\<lparr>sk_ip_xmit_timeout := why\<rparr>) s;
       let when = (if sint when < 0 then 3 else when);
       (_, s) \<leftarrow> add_timer (sk + 100) (set_expires (sk + 100) when s);
       Some s
     }"

definition tcp_send_skb ::
  "'a tcp_heap_scheme prot_ops \<Rightarrow> addr \<Rightarrow> addr \<Rightarrow> 'a tcp_heap_scheme \<Rightarrow> 'a tcp_heap_scheme option" where
  "tcp_send_skb P sk skb s =
     (let th = skb_h s skb; sz = skb_len s skb - (th - skb_data skb) in
      if sz < 20 \<or> sz > skb_len s skb \<or> sz = 20 then Some s
      else do {
        let seq = load32 (net_mem s) (th + 4) + sz - drop_bit 2 (th_len th (net_mem s));
        let s = s\<lparr>skb_h := (skb_h s)(skb := seq)\<rparr>;
        let k = socks s sk;
        if after seq (sk_window_seq k) \<or> (sk_retransmits k \<noteq> 0 \<and> sk_ip_xmit_timeout k = TIME_WRITE) \<or>
           sk_packets_out k \<ge> ucast (sk_cong_window k)
        then do {
          let s = on_mem (store16 (th + 16) 0) s;
          let s = (if l_next s skb \<noteq> NULL then skb_unlink skb s else s);
          let s = skb_queue_tail (sk + 244) skb s;
          let k = socks s sk;
          if before (sk_window_seq k) (skb_h s (l_next s (sk + 244))) \<and> sk_send_head k = NULL \<and> sk_ack_backlog k = 0
          then reset_xmit_timer sk TIME_PROBE (sk_rto k) s
          else Some s
        } else do {
          let s = on_mem (\<lambda>m. store16 (th + 14) 0 (store32 (th + 8) (sk_acked_seq k) m)) s;
          let s = upd_sk sk (\<lambda>k. k\<lparr>sk_sent_seq := sk_write_seq k\<rparr>) s;
          s \<leftarrow> queue_xmit P sk (skb_dev s skb) skb 0 s;
          reset_xmit_timer sk TIME_WRITE (sk_rto (socks s sk)) s
        }
      })"

partial_function (option) tcp_do_retransmit_loop ::
  "'a tcp_heap_scheme dev_ops \<Rightarrow> addr \<Rightarrow> bool \<Rightarrow> addr \<Rightarrow> int \<Rightarrow> 'a tcp_heap_scheme \<Rightarrow> 'a tcp_heap_scheme option" where
  "tcp_do_retransmit_loop D sk every skb ct s =
     (if skb = NULL then Some s
      else do {
        let dev = skb_dev s skb;
        let s = s\<lparr>skb_when := (skb_when s)(skb := tm_jiffies s)\<rparr>;
        let iph = skb_data skb + ucast (hard_header_len s dev);
        let th = iph + word_of_int (4 * iph_ihl (net_mem s) iph);
        let s = (on_mem (store16 (iph + 4) (ucast (ip_id_count s))) s)\<lparr>ip_id_count := ip_id_count s + 1\<rparr>;
        let s = ip_send_checksum iph s;
        let s = on_mem (\<lambda>m. store16 (th + 14) 0 (store32 (th + 8) (sk_acked_seq (socks s sk)) m)) s;
        s \<leftarrow> (if dev_flags s dev AND IFF_UP \<noteq> 0 \<and> sk \<noteq> NULL
               then dev_queue_xmit D skb dev (sint (sk_priority (socks s sk))) (skb_unlink skb s) else Some s);
        let prot = sk_prot (socks s sk);
        let s = s\<lparr>prot_retransmits := (prot_retransmits s)(prot := prot_retransmits s prot + 1)\<rparr>;
        if \<not> every \<or> ct + 1 > uint (sk_cong_window (socks s sk)) then Some s
        else tcp_do_retransmit_loop D sk every (skb_cache_next s skb) (ct + 1) s
      })"

definition tcp_do_retransmit ::
  "'a tcp_heap_scheme dev_ops \<Rightarrow> addr \<Rightarrow> bool \<Rightarrow> 'a tcp_heap_scheme \<Rightarrow> 'a tcp_heap_scheme option" where
  "tcp_do_retransmit D sk every s = tcp_do_retransmit_loop D sk every (sk_send_head (socks s sk)) 0 s"

definition tcp_retransmit_time ::
  "'a tcp_heap_scheme dev_ops \<Rightarrow> addr \<Rightarrow> bool \<Rightarrow> 'a tcp_heap_scheme \<Rightarrow> 'a tcp_heap_scheme option" where
  "tcp_retransmit_time D sk every s =
     do {
       s \<leftarrow> tcp_do_retransmit D sk every s;
       let s = upd_sk sk (\<lambda>k. k\<lparr>sk_retransmits := sk_retransmits k + 1, sk_backoff := sk_backoff k + 1,
                            sk_rto := min (push_bit 1 (sk_rto k)) 12000\<rparr>) s;
       reset_xmit_timer sk TIME_WRITE (sk_rto (socks s sk)) s
     }"

definition tcp_retransmit ::
  "'a tcp_heap_scheme dev_ops \<Rightarrow> addr \<Rightarrow> bool \<Rightarrow> 'a tcp_heap_scheme \<Rightarrow> 'a tcp_heap_scheme option" where
  "tcp_retransmit D sk every s =
     (if every then tcp_retransmit_time D sk every s
      else tcp_retransmit_time D sk every
        (upd_sk sk (\<lambda>k. k\<lparr>sk_ssthresh := drop_bit 1 (sk_cong_window k), sk_cong_count := 0, sk_cong_window := 1\<rparr>) s))"

definition retransmit_timer ::
  "'a tcp_heap_scheme prot_ops \<Rightarrow> addr \<Rightarrow> 'a tcp_heap_scheme \<Rightarrow> 'a tcp_heap_scheme option" where
  "retransmit_timer P sk s =
     (let reason = sk_ip_xmit_timeout (socks s sk) in
      if sk_inuse_flag (socks s sk) \<noteq> 0 \<or> in_bh s \<noteq> 0 then do {
        (_, s) \<leftarrow> add_timer (sk + 100) (set_expires (sk + 100) 100 s);
        Some s
      } else do {
        let s = upd_sk sk (\<lambda>k. k\<lparr>sk_inuse_flag := 1\<rparr>) s;
        s \<leftarrow> (if sk_ack_backlog (socks s sk) \<noteq> 0 \<and> sk_zapped (socks s sk) = 0 then do {
                s \<leftarrow> read_wakeup P sk s;
                if sk_dead (socks s sk) = 0 then data_ready P sk s else Some s
              } else Some s);
        if reason = TIME_PROBE then tcp_send_probe P sk s
        else if reason = TIME_WRITE then
          let skb = sk_send_head (socks s sk); due = skb_when s skb + sk_rto (socks s sk) in
          if skb = NULL then Some s
          else if tm_jiffies s < due then reset_xmit_timer sk TIME_WRITE (due - tm_jiffies s) s
          else retransmit P sk False s
        else if reason = TIME_KEEPOPEN then do {
          s \<leftarrow> reset_xmit_timer sk TIME_KEEPOPEN TCP_TIMEOUT_LEN s;
          s \<leftarrow> write_wakeup P sk s;
          Some (upd_sk sk (\<lambda>k. k\<lparr>sk_retransmits := sk_retransmits k + 1\<rparr>) s)
        } else Some s
      })"

text \<open>\<^verbatim>\<open>get_sock\<close> returns a variable that it never sets: the socket is an argument of \<^verbatim>\<open>tcp_err\<close>.\<close>

definition tcp_err ::
  "'a tcp_heap_scheme prot_ops \<Rightarrow> addr \<Rightarrow> int \<Rightarrow> 'a tcp_heap_scheme \<Rightarrow> 'a tcp_heap_scheme option" where
  "tcp_err P sk err s =
     (if sk = NULL then Some s
      else if err < 0 then err_report P sk (upd_sk sk (\<lambda>k. k\<lparr>sk_err := word_of_int err\<rparr>) s)
      else if (word_of_int err :: u32) AND 0xff00 = 0x400 then
        Some (if sk_cong_window (socks s sk) > 4 then upd_sk sk (\<lambda>k. k\<lparr>sk_cong_window := sk_cong_window k - 1\<rparr>) s else s)
      else if sk_state (socks s sk) = TCP_SYN_SENT then do { s \<leftarrow> tcp_set_state sk TCP_CLOSE s; err_report P sk s }
      else Some s)"

definition tcp_dequeue_partial :: "addr \<Rightarrow> 'a tcp_heap_scheme \<Rightarrow> (addr \<times> 'a tcp_heap_scheme) option" where
  "tcp_dequeue_partial sk s =
     (let skb = sk_partial (socks s sk) in
      if skb \<noteq> NULL then do {
        (_, s) \<leftarrow> del_timer (sk + 216) (upd_sk sk (\<lambda>k. k\<lparr>sk_partial := NULL\<rparr>) s);
        Some (skb, s)
      } else Some (NULL, s))"

text \<open>The assignment takes the value of the comparison, so the packet that is sent is at address 1.\<close>

partial_function (option) tcp_send_partial ::
  "'a tcp_heap_scheme prot_ops \<Rightarrow> addr \<Rightarrow> 'a tcp_heap_scheme \<Rightarrow> 'a tcp_heap_scheme option" where
  "tcp_send_partial P sk s =
     (if sk = NULL then Some s
      else do {
        (skb, s) \<leftarrow> tcp_dequeue_partial sk s;
        if skb \<noteq> NULL then do { s \<leftarrow> tcp_send_skb P sk 1 s; tcp_send_partial P sk s } else Some s
      })"

definition tcp_enqueue_partial ::
  "'a tcp_heap_scheme prot_ops \<Rightarrow> addr \<Rightarrow> addr \<Rightarrow> 'a tcp_heap_scheme \<Rightarrow> 'a tcp_heap_scheme option" where
  "tcp_enqueue_partial P skb sk s =
     do {
       let tmp = sk_partial (socks s sk);
       (_, s) \<leftarrow> (if tmp \<noteq> NULL then del_timer (sk + 216) s else Some (0, s));
       let s = upd_sk sk (\<lambda>k. k\<lparr>sk_partial := skb\<rparr>) s;
       let (_, s) = init_timer (sk + 216) s;
       (_, s) \<leftarrow> add_timer (sk + 216) (set_expires (sk + 216) 100 s);
       if tmp \<noteq> NULL then tcp_send_skb P sk tmp s else Some s
     }"

subsection \<open>Acknowledgements\<close>

text \<open>The common part of the three functions that fill in an acknowledgement at \<^verbatim>\<open>th\<close>.\<close>

definition ack_flags :: "addr \<Rightarrow> bytes \<Rightarrow> bytes" where
  "ack_flags th m =
     (let m = set_flag 11 True th m;
          m = store16 (th + 12) (load16 m (th + 12) AND NOT 0x3F0) m
      in set_flag 12 False th (set_flag 14 False th (set_flag 10 False th (set_flag 13 False th m))))"

definition tcp_send_ack ::
  "'a tcp_heap_scheme prot_ops \<Rightarrow> addr \<Rightarrow> u32 \<Rightarrow> u32 \<Rightarrow> addr \<Rightarrow> addr \<Rightarrow> u32 \<Rightarrow> 'a tcp_heap_scheme \<Rightarrow>
   'a tcp_heap_scheme option" where
  "tcp_send_ack P dev0 sequeue ack sk th daddr s =
     (if sk_zapped (socks s sk) \<noteq> 0 then Some s
      else do {
        (skb, s) \<leftarrow> wmalloc P sk 58 True s;
        s \<leftarrow> (if skb = NULL then do {
                let s = upd_sk sk (\<lambda>k. k\<lparr>sk_ack_backlog := sk_ack_backlog k + 1\<rparr>) s;
                if sk_ip_xmit_timeout (socks s sk) \<noteq> TIME_WRITE \<and> tcp_connected P (sk_state (socks s sk))
                then reset_xmit_timer sk TIME_WRITE 100 s else Some s
              } else Some s);
        let s = s\<lparr>skb_len := (skb_len s)(skb := 20), skb_sk := (skb_sk s)(skb := sk),
                  skb_localroute := (skb_localroute s)(skb := sk_localroute (socks s sk))\<rparr>;
        let k = socks s sk;
        ((tmp, dev), s) \<leftarrow> build_header P skb (sk_saddr k) daddr dev0 58 (sk_ip_tos k) (sk_ip_ttl k) s;
        s \<leftarrow> (if tmp < 0 then wfree P sk skb (s\<lparr>skb_free := (skb_free s)(skb := 1)\<rparr>) else Some s);
        let s = s\<lparr>skb_len := (skb_len s)(skb := skb_len s skb + word_of_int tmp)\<rparr>;
        let th2 = skb_data skb + word_of_int tmp;
        let s = memncpy th2 th 20 s;
        let s = on_mem (\<lambda>m. store32 (th2 + 4) sequeue (store16 th2 (load16 m (th + 2)) (store16 (th2 + 2) (load16 m th) m))) s;
        let s = on_mem (\<lambda>m. set_flag 15 False th2 (ack_flags th2 (set_th_len 0 th2 (store16 (th2 + 14) 0 m))))
                  (upd_sk sk (\<lambda>k. k\<lparr>sk_window := 0\<rparr>) s);
        s \<leftarrow> (if ack = sk_acked_seq (socks s sk) then do {
                let s = upd_sk sk (\<lambda>k. k\<lparr>sk_ack_backlog := 0, sk_bytes_rcv := 0, sk_ack_timed := 0\<rparr>) s;
                let k = socks s sk;
                if sk_send_head k = NULL \<and> skb_peek (sk + 244) s = NULL \<and> sk_ip_xmit_timeout k = TIME_WRITE
                then (if sk_keepopen k \<noteq> 0 then reset_xmit_timer sk TIME_KEEPOPEN TCP_TIMEOUT_LEN s else delete_timer P sk s)
                else Some s
              } else Some s);
        let s = on_mem (\<lambda>m. set_th_len 5 th2 (store32 (th2 + 8) ack m)) s;
        queue_xmit P sk dev skb 1 s
      })"

text \<open>The rest of \<^verbatim>\<open>tcp_read_wakeup\<close> and \<^verbatim>\<open>tcp_write_wakeup\<close> after the header of the layer below.\<close>

definition tcp_fill_ack ::
  "'a tcp_heap_scheme prot_ops \<Rightarrow> addr \<Rightarrow> addr \<Rightarrow> addr \<Rightarrow> int \<Rightarrow> u32 \<Rightarrow> 'a tcp_heap_scheme \<Rightarrow> 'a tcp_heap_scheme option" where
  "tcp_fill_ack P sk skb dev tmp seq s =
     (let s = s\<lparr>skb_len := (skb_len s)(skb := skb_len s skb + word_of_int tmp)\<rparr>;
          th = skb_data skb + word_of_int tmp;
          s = memncpy th (sk + 188) 20 s;
          s = on_mem (\<lambda>m. ack_flags th (store32 (th + 4) seq m)) s;
          s = upd_sk sk (\<lambda>k. k\<lparr>sk_ack_backlog := 0, sk_window := 0\<rparr>) s;
          s = on_mem (\<lambda>m. set_th_len 5 th (store32 (th + 8) (ntol P (sk_acked_seq (socks s sk))) (store16 (th + 14) 0 m))) s
      in queue_xmit P sk dev skb 1 s)"

definition tcp_read_wakeup ::
  "'a tcp_heap_scheme prot_ops \<Rightarrow> addr \<Rightarrow> addr \<Rightarrow> 'a tcp_heap_scheme \<Rightarrow> 'a tcp_heap_scheme option" where
  "tcp_read_wakeup P dev0 sk s =
     (if sk_ack_backlog (socks s sk) = 0 then Some s
      else do {
        (skb, s) \<leftarrow> wmalloc P sk 58 True s;
        if skb = NULL then reset_xmit_timer sk TIME_WRITE 100 s
        else do {
          let k = socks s sk;
          let s = s\<lparr>skb_len := (skb_len s)(skb := 20), skb_sk := (skb_sk s)(skb := sk),
                    skb_localroute := (skb_localroute s)(skb := sk_localroute k)\<rparr>;
          ((tmp, dev), s) \<leftarrow> build_header P skb (sk_saddr k) (sk_daddr k) dev0 58 (sk_ip_tos k) (sk_ip_ttl k) s;
          if tmp < 0 then wfree P sk skb (s\<lparr>skb_free := (skb_free s)(skb := 1)\<rparr>)
          else tcp_fill_ack P sk skb dev tmp (sk_sent_seq (socks s sk)) (upd_sk sk (\<lambda>k. k\<lparr>sk_bytes_rcv := 0\<rparr>) s)
        }
      })"

definition tcp_write_wakeup ::
  "'a tcp_heap_scheme prot_ops \<Rightarrow> addr \<Rightarrow> 'a tcp_heap_scheme \<Rightarrow> 'a tcp_heap_scheme option" where
  "tcp_write_wakeup P sk s =
     (let k = socks s sk; st = sk_state k in
      if sk_zapped k \<noteq> 0 then Some s
      else if st \<noteq> TCP_ESTABLISHED \<and> st \<noteq> TCP_CLOSE_WAIT \<and> st \<noteq> TCP_FIN_WAIT1 \<and> st \<noteq> TCP_LAST_ACK \<and> st \<noteq> TCP_CLOSING
      then Some s
      else do {
        (skb, s) \<leftarrow> wmalloc P sk 58 True s;
        if skb = NULL then Some s
        else do {
          let k = socks s sk;
          let s = s\<lparr>skb_len := (skb_len s)(skb := 20), skb_free := (skb_free s)(skb := 1), skb_sk := (skb_sk s)(skb := sk),
                    skb_localroute := (skb_localroute s)(skb := sk_localroute k)\<rparr>;
          ((tmp, dev), s) \<leftarrow> build_header P skb (sk_saddr k) (sk_daddr k) NULL 58 (sk_ip_tos k) (sk_ip_ttl k) s;
          if tmp < 0 then wfree P sk skb s
          else tcp_fill_ack P sk skb dev tmp (sk_sent_seq (socks s sk) - 1) s
        }
      })"

subsection \<open>Reading\<close>

partial_function (option) cleanup_loop :: "addr \<Rightarrow> 'a tcp_heap_scheme \<Rightarrow> 'a tcp_heap_scheme option" where
  "cleanup_loop sk s =
     (let skb = skb_peek (sk + 236) s in
      if skb = NULL \<or> skb_used s skb = 0 then Some s
      else cleanup_loop sk ((skb_unlink skb s)\<lparr>skb_sk := (skb_sk s)(skb := sk)\<rparr>))"

definition cleanup_rbuf ::
  "'a tcp_heap_scheme prot_ops \<Rightarrow> addr \<Rightarrow> addr \<Rightarrow> 'a tcp_heap_scheme \<Rightarrow> 'a tcp_heap_scheme option" where
  "cleanup_rbuf P dev0 sk s =
     do {
       let left = rspace P sk s;
       s \<leftarrow> cleanup_loop sk s;
       let space = rspace P sk s;
       if space = left then Some s
       else do {
         let s = upd_sk sk (\<lambda>k. k\<lparr>sk_ack_backlog := sk_ack_backlog k + 1\<rparr>) s;
         let k = socks s sk;
         if space > ucast (sk_window k) - ucast (sk_bytes_rcv k) + ucast (sk_mtu k) then tcp_read_wakeup P dev0 sk s
         else do {
           (was_active, s) \<leftarrow> del_timer (sk + 100) s;
           if was_active = 0 \<or> TCP_ACK_TIME < tm_expires s (sk + 120) then reset_xmit_timer sk TIME_WRITE TCP_ACK_TIME s
           else do { (_, s) \<leftarrow> add_timer (sk + 100) s; Some s }
         }
       }
     }"

datatype tcp_found = Found addr u32 | Found_fin addr | Found_none

partial_function (option) tcp_read_scan ::
  "addr \<Rightarrow> bool \<Rightarrow> addr \<Rightarrow> 'a tcp_heap_scheme \<Rightarrow> (tcp_found \<times> 'a tcp_heap_scheme) option" where
  "tcp_read_scan sk peek skb s =
     (let th = skb_h s skb; m = net_mem s; seq = sk_copied_seq (socks s sk); fl = load16 m (th + 12);
          offset = seq - load32 m (th + 4) - (if bit fl 14 then 1 else 0)
      in if skb = NULL \<or> before seq (load32 m (th + 4)) then Some (Found_none, s)
         else if offset < skb_len s skb then Some (Found skb offset, s)
         else if bit fl 15 then Some (Found_fin skb, s)
         else
           let s = (if peek then s else s\<lparr>skb_used := (skb_used s)(skb := 1)\<rparr>)
           in if l_next s skb = sk + 236 then Some (Found_none, s)
              else tcp_read_scan sk peek (l_next s skb) s)"

text \<open>\<open>Inl\<close>: the function returns this value after the clean-up; \<open>Inr\<close>: the task waits for data.\<close>

definition tcp_read_none :: "addr \<Rightarrow> int \<Rightarrow> bool \<Rightarrow> 'a tcp_heap_scheme \<Rightarrow> (int + unit) \<times> 'a tcp_heap_scheme" where
  "tcp_read_none sk copied nonblock s =
     (let k = socks s sk in
      if copied \<noteq> 0 then (Inl copied, s)
      else if sk_err k \<noteq> 0 then (Inl (- sint (sk_err k)), upd_sk sk (\<lambda>k. k\<lparr>sk_err := 0\<rparr>) s)
      else if sk_state k = TCP_CLOSE then
        (if sk_done k = 0 then (Inl copied, upd_sk sk (\<lambda>k. k\<lparr>sk_done := 1\<rparr>) s) else (Inl (-107), s))
      else if sk_shutdown k AND 1 \<noteq> 0 then (Inl copied, upd_sk sk (\<lambda>k. k\<lparr>sk_done := 1\<rparr>) s)
      else if nonblock then (Inl (-11), s)
      else (Inr (), s))"

definition signalled :: "'a tcp_heap_scheme \<Rightarrow> bool" where
  "signalled s \<longleftrightarrow> (let c = current (tasks s) in tsk_signal (tasks s) c AND NOT (tsk_blocked s c) \<noteq> 0)"

definition tcp_found_fin :: "addr \<Rightarrow> addr \<Rightarrow> 'a tcp_heap_scheme \<Rightarrow> 'a tcp_heap_scheme" where
  "tcp_found_fin sk skb s =
     (upd_sk sk (\<lambda>k. k\<lparr>sk_copied_seq := sk_copied_seq k + 1\<rparr>) s)\<lparr>skb_used := (skb_used s)(skb := 1)\<rparr>"

partial_function (option) tcp_read_loop ::
  "'a tcp_heap_scheme prot_ops \<Rightarrow> addr \<Rightarrow> ('a tcp_heap_scheme \<Rightarrow> 'a tcp_heap_scheme) \<Rightarrow> addr \<Rightarrow> bool \<Rightarrow> u32 \<Rightarrow> addr \<Rightarrow> int \<Rightarrow> int \<Rightarrow>
   'a tcp_heap_scheme \<Rightarrow> (int \<times> 'a tcp_heap_scheme) option" where
  "tcp_read_loop P dev0 others sk nonblock flags to len copied s =
     (if len \<le> 0 then Some (copied, s)
      else do {
        let s = s\<lparr>tasks := set_state (current (tasks s)) TASK_INTERRUPTIBLE (tasks s)\<rparr>;
        (f, s) \<leftarrow> tcp_read_scan sk (flags AND 2 \<noteq> 0) (skb_peek (sk + 236) s) s;
        (case f of
           Found_none \<Rightarrow>
             (case tcp_read_none sk copied nonblock s of
                (Inl r, s) \<Rightarrow> Some (r, s)
              | (Inr _, s) \<Rightarrow> do {
                  s \<leftarrow> cleanup_rbuf P dev0 sk s;
                  let so = sk_socket (socks s sk);
                  let s = s\<lparr>socket_flags := (socket_flags s)(so := socket_flags s so OR 0x20000)\<rparr>;
                  w \<leftarrow> schedule (tasks s);
                  let s = others (s\<lparr>tasks := w\<rparr>);
                  let s = s\<lparr>socket_flags := (socket_flags s)(so := socket_flags s so AND NOT 0x20000)\<rparr>;
                  let s = upd_sk sk (\<lambda>k. k\<lparr>sk_inuse_flag := 1\<rparr>) s;
                  if signalled s then Some (-512, s)
                  else tcp_read_loop P dev0 others sk nonblock flags to len copied s
                })
         | Found_fin skb \<Rightarrow> Some (copied, tcp_found_fin sk skb s)
         | Found skb offset \<Rightarrow> do {
             let s = s\<lparr>skb_users := (skb_users s)(skb := skb_users s skb + 1)\<rparr>;
             let used = skb_len s skb - offset;
             let used = (if word_of_int len < used then word_of_int len else used);
             if copied \<noteq> 0 then Some (copied, s)
             else do {
               let s = upd_sk sk (\<lambda>k. k\<lparr>sk_copied_seq := sk_copied_seq k + used\<rparr>) s;
               let th = skb_h s skb;
               s \<leftarrow> memcpy_tofs P to th (4 * th_len th (net_mem s) + offset) used s;
               let s = s\<lparr>skb_users := (skb_users s)(skb := skb_users s skb - 1)\<rparr>;
               let copied = copied + uint used;
               if used + offset < skb_len s skb
               then tcp_read_loop P dev0 others sk nonblock flags (to + used) (len - uint used) copied s
               else if bit (load16 (net_mem s) (th + 12)) 15 then Some (copied, tcp_found_fin sk skb s)
               else
                 tcp_read_loop P dev0 others sk nonblock flags (to + used) (len - uint used) copied
                   (s\<lparr>skb_used := (skb_used s)(skb := 1)\<rparr>)
             }
           })
      })"

definition tcp_read ::
  "'a tcp_heap_scheme prot_ops \<Rightarrow> addr \<Rightarrow> ('a tcp_heap_scheme \<Rightarrow> 'a tcp_heap_scheme) \<Rightarrow> addr \<Rightarrow> addr \<Rightarrow> addr \<Rightarrow> int \<Rightarrow> bool \<Rightarrow> u32 \<Rightarrow>
   'a tcp_heap_scheme \<Rightarrow> (int \<times> 'a tcp_heap_scheme) option" where
  "tcp_read P dev0 others wait sk to len nonblock flags s =
     (if sk_state (socks s sk) = TCP_LISTEN then Some (-107, s)
      else do {
        let s = s\<lparr>tasks := add_wait_queue (sk_sleep (socks s sk)) wait (new_wait wait (tasks s))\<rparr>;
        let s = upd_sk sk (\<lambda>k. k\<lparr>sk_inuse_flag := 1\<rparr>) s;
        (copied, s) \<leftarrow> tcp_read_loop P dev0 others sk nonblock flags to len 0 s;
        w \<leftarrow> remove_wait_queue (sk_sleep (socks s sk)) wait (tasks s);
        s \<leftarrow> cleanup_rbuf P dev0 sk (s\<lparr>tasks := set_state (current w) TASK_RUNNING w\<rparr>);
        Some (copied, s)
      })"

text \<open>\<open>addr_len\<close> and \<open>addr\<close> point to variables of the caller; what is stored there is returned.\<close>

definition tcp_recvfrom ::
  "'a tcp_heap_scheme prot_ops \<Rightarrow> addr \<Rightarrow> ('a tcp_heap_scheme \<Rightarrow> 'a tcp_heap_scheme) \<Rightarrow> addr \<Rightarrow> addr \<Rightarrow> addr \<Rightarrow> int \<Rightarrow> bool \<Rightarrow> u32 \<Rightarrow>
   'a tcp_heap_scheme \<Rightarrow> ((int \<times> (u16 \<times> u16 \<times> u32) option) \<times> 'a tcp_heap_scheme) option" where
  "tcp_recvfrom P dev0 others wait sk to len nonblock flags s =
     do {
       (r, s) \<leftarrow> tcp_read P dev0 others wait sk to len nonblock flags s;
       Some ((r, if r < 0 then None else Some (2, load16 (net_mem s) (sk + 190), sk_daddr (socks s sk))), s)
     }"

subsection \<open>Writing\<close>

text \<open>
  The inner loop of \<^verbatim>\<open>tcp_write\<close>, which waits until the connection stands. \<open>Inl\<close> is the value
  that \<^verbatim>\<open>tcp_write\<close> returns from inside it.
\<close>

definition sk_take_err :: "addr \<Rightarrow> 'a tcp_heap_scheme \<Rightarrow> int \<times> 'a tcp_heap_scheme" where
  "sk_take_err sk s = (- sint (sk_err (socks s sk)), upd_sk sk (\<lambda>k. k\<lparr>sk_err := 0\<rparr>) s)"

definition tcp_sleep ::
  "('a tcp_heap_scheme \<Rightarrow> 'a tcp_heap_scheme) \<Rightarrow> addr \<Rightarrow> addr \<Rightarrow> 'a tcp_heap_scheme \<Rightarrow> 'a tcp_heap_scheme option" where
  "tcp_sleep others wait sk s =
     do { w \<leftarrow> interruptible_sleep_on (sk_sleep (socks s sk)) wait (tasks s); Some (others (s\<lparr>tasks := w\<rparr>)) }"

partial_function (option) tcp_wait_connected ::
  "('a tcp_heap_scheme \<Rightarrow> 'a tcp_heap_scheme) \<Rightarrow> addr \<Rightarrow> addr \<Rightarrow> bool \<Rightarrow> 'a tcp_heap_scheme \<Rightarrow>
   ((int + unit) \<times> 'a tcp_heap_scheme) option" where
  "tcp_wait_connected others wait sk nonblock s =
     (let k = socks s sk in
      if sk_state k = TCP_ESTABLISHED \<or> sk_state k = TCP_CLOSE_WAIT then Some (Inr (), s)
      else if sk_err k \<noteq> 0 then let (r, s) = sk_take_err sk s in Some (Inl r, s)
      else if nonblock then Some (Inl (-11), s)
      else do {
        s \<leftarrow> tcp_sleep others wait sk s;
        if signalled s then Some (Inl (-512), s)
        else tcp_wait_connected others wait sk nonblock (upd_sk sk (\<lambda>k. k\<lparr>sk_inuse_flag := 1\<rparr>) s)
      })"

text \<open>A packet that waits for more data is filled up. The new \<^verbatim>\<open>from\<close> and \<^verbatim>\<open>len\<close> are returned.\<close>

definition tcp_write_partial ::
  "'a tcp_heap_scheme prot_ops \<Rightarrow> addr \<Rightarrow> addr \<Rightarrow> addr \<Rightarrow> int \<Rightarrow> u32 \<Rightarrow> 'a tcp_heap_scheme \<Rightarrow>
   ((addr \<times> int) \<times> 'a tcp_heap_scheme) option" where
  "tcp_write_partial P sk skb from len flags s =
     do {
       let hdrlen = skb_h s skb - skb_data skb + 20;
       let oob = (flags AND 1 \<noteq> 0);
       let copy = sint (min (ucast (sk_mss (socks s sk)) - (skb_len s skb - hdrlen)) (word_of_int len));
       let copy = (if copy \<le> 0 then 0 else copy);
       let (from, len, s) =
         (if oob then (from, len, s)
          else
            let s = memncpy (skb_data skb + skb_len s skb) from (word_of_int copy) s;
                s = s\<lparr>skb_len := (skb_len s)(skb := skb_len s skb + word_of_int copy)\<rparr>
            in (from + word_of_int copy, len - copy,
                upd_sk sk (\<lambda>k. k\<lparr>sk_write_seq := sk_write_seq k + word_of_int copy\<rparr>) s));
       s \<leftarrow> (if skb_len s skb - hdrlen \<ge> ucast (sk_mss (socks s sk)) \<or> oob \<or> sk_packets_out (socks s sk) = 0
             then tcp_send_skb P sk skb s else tcp_enqueue_partial P skb sk s);
       Some ((from, len), s)
     }"

text \<open>
  A new packet: \<open>Inl\<close> when a header cannot be built. \<open>send_tmp\<close> tells that the packet is
  allocated with room for more data than is there.
\<close>

definition tcp_write_new ::
  "'a tcp_heap_scheme prot_ops \<Rightarrow> addr \<Rightarrow> addr \<Rightarrow> addr \<Rightarrow> addr \<Rightarrow> int \<Rightarrow> int \<Rightarrow> u32 \<Rightarrow> bool \<Rightarrow> 'a tcp_heap_scheme \<Rightarrow>
   ((int + addr) \<times> 'a tcp_heap_scheme) option" where
  "tcp_write_new P sk skb dev from len copy flags send_tmp s =
     do {
       let k = socks s sk;
       let s = s\<lparr>skb_len := (skb_len s)(skb := 0), skb_sk := (skb_sk s)(skb := sk), skb_free := (skb_free s)(skb := 0),
                 skb_localroute := (skb_localroute s)(skb := sk_localroute k OR ucast (flags AND 4))\<rparr>;
       ((tmp, dev), s) \<leftarrow> build_header P skb (sk_saddr k) (sk_daddr k) dev (skb_mem_len s skb) (sk_ip_tos k) (sk_ip_ttl k) s;
       if tmp < 0 then do { s \<leftarrow> wfree P sk skb s; Some (Inl tmp, s) }
       else do {
         let buff = skb_data skb + word_of_int tmp;
         let s = s\<lparr>skb_len := (skb_len s)(skb := skb_len s skb + word_of_int tmp), skb_dev := (skb_dev s)(skb := dev),
                   skb_h := (skb_h s)(skb := buff)\<rparr>;
         (tmp, s) \<leftarrow> tcp_build_header P buff sk (len - copy) s;
         if tmp < 0 then do { s \<leftarrow> wfree P sk skb s; Some (Inl tmp, s) }
         else do {
           let s = s\<lparr>skb_len := (skb_len s)(skb := skb_len s skb + word_of_int tmp)\<rparr>;
           let s = memncpy (buff + word_of_int tmp) from (word_of_int copy) s;
           let s = s\<lparr>skb_len := (skb_len s)(skb := skb_len s skb + word_of_int copy), skb_free := (skb_free s)(skb := 0)\<rparr>;
           let s = upd_sk sk (\<lambda>k. k\<lparr>sk_write_seq := sk_write_seq k + word_of_int copy\<rparr>) s;
           s \<leftarrow> (if send_tmp \<and> sk_packets_out (socks s sk) \<noteq> 0 then tcp_enqueue_partial P skb sk s
                  else tcp_send_skb P sk skb s);
           Some (Inr dev, s)
         }
       }
     }"

text \<open>How much of the data goes into the next packet.\<close>

definition tcp_copy_size :: "sock \<Rightarrow> int \<Rightarrow> int" where
  "tcp_copy_size k len =
     (let copy = sint (sk_window_seq k - sk_write_seq k);
          mss = uint (sk_mss k);
          copy = (if copy \<le> 0 \<or> copy < uint (drop_bit 1 (sk_max_window k)) \<or> copy > mss then mss else copy)
      in if copy > len then len else copy)"

partial_function (option) tcp_write_loop ::
  "'a tcp_heap_scheme prot_ops \<Rightarrow> ('a tcp_heap_scheme \<Rightarrow> 'a tcp_heap_scheme) \<Rightarrow> addr \<Rightarrow> addr \<Rightarrow> bool \<Rightarrow> u32 \<Rightarrow> addr \<Rightarrow> addr \<Rightarrow> int \<Rightarrow>
   'a tcp_heap_scheme \<Rightarrow> ((int + unit) \<times> 'a tcp_heap_scheme) option" where
  "tcp_write_loop P others wait sk nonblock flags dev from len s =
     (if len \<le> 0 then Some (Inr (), s)
      else if sk_err (socks s sk) \<noteq> 0 then let (r, s) = sk_take_err sk s in Some (Inl r, s)
      else if sk_shutdown (socks s sk) AND 2 \<noteq> 0 then Some (Inl (-32), upd_sk sk (\<lambda>k. k\<lparr>sk_err := 0\<rparr>) s)
      else do {
        (c, s) \<leftarrow> tcp_wait_connected others wait sk nonblock s;
        (case c of
           Inl r \<Rightarrow> Some (Inl r, s)
         | Inr _ \<Rightarrow> do {
             (skb, s) \<leftarrow> tcp_dequeue_partial sk s;
             if skb \<noteq> NULL then do {
               ((from, len), s) \<leftarrow> tcp_write_partial P sk skb from len flags s;
               tcp_write_loop P others wait sk nonblock flags dev from len s
             } else do {
               let k = socks s sk;
               let copy = tcp_copy_size k len;
               let send_tmp = (copy < uint (sk_mss k) \<and> flags AND 1 = 0);
               let room = (if send_tmp then ucast (sk_mtu k) + 128 else word_of_int copy);
               (skb, s) \<leftarrow> wmalloc P sk (room + ucast (prot_max_header s (sk_prot k))) False s;
               let s = upd_sk sk (\<lambda>k. k\<lparr>sk_inuse_flag := 1\<rparr>) s;
               if skb = NULL then
                 if nonblock then Some (Inl (-11), s)
                 else do {
                   s \<leftarrow> tcp_sleep others wait sk s;
                   if signalled s then Some (Inl (-512), s)
                   else tcp_write_loop P others wait sk nonblock flags dev from len (upd_sk sk (\<lambda>k. k\<lparr>sk_inuse_flag := 1\<rparr>) s)
                 }
               else do {
                 (r, s) \<leftarrow> tcp_write_new P sk skb dev from len copy flags send_tmp s;
                 (case r of
                    Inl e \<Rightarrow> Some (Inl e, s)
                  | Inr dev \<Rightarrow>
                      tcp_write_loop P others wait sk nonblock flags dev (from + word_of_int copy) (len - copy) s)
               }
             }
           })
      })"

definition tcp_write ::
  "'a tcp_heap_scheme prot_ops \<Rightarrow> ('a tcp_heap_scheme \<Rightarrow> 'a tcp_heap_scheme) \<Rightarrow> addr \<Rightarrow> addr \<Rightarrow> addr \<Rightarrow> int \<Rightarrow> bool \<Rightarrow> u32 \<Rightarrow>
   'a tcp_heap_scheme \<Rightarrow> (int \<times> 'a tcp_heap_scheme) option" where
  "tcp_write P others wait sk from len nonblock flags s =
     do {
       (r, s) \<leftarrow> tcp_write_loop P others wait sk nonblock flags NULL from len (upd_sk sk (\<lambda>k. k\<lparr>sk_inuse_flag := 1\<rparr>) s);
       (case r of
          Inl e \<Rightarrow> Some (e, s)
        | Inr _ \<Rightarrow> do {
            let s = upd_sk sk (\<lambda>k. k\<lparr>sk_err := 0\<rparr>) s;
            s \<leftarrow> (if sk_partial (socks s sk) \<noteq> NULL \<and> sk_packets_out (socks s sk) = 0 then tcp_send_patial P sk s else Some s);
            Some (0, s)
          })
     }"

text \<open>\<^verbatim>\<open>tcp_write_xmit\<close> sends what waits for the window, as its loop is written: from the receive queue.\<close>

partial_function (option) tcp_write_xmit ::
  "'a tcp_heap_scheme prot_ops \<Rightarrow> addr \<Rightarrow> 'a tcp_heap_scheme \<Rightarrow> 'a tcp_heap_scheme option" where
  "tcp_write_xmit P sk s =
     (let k = socks s sk; skb = skb_peek (sk + 236) s; seq = skb_h s skb in
      if sk_zapped k \<noteq> 0 \<or> skb = NULL \<or> \<not> before seq (sk_window_seq k + 1) \<or>
         \<not> (sk_retransmits k = 0 \<or> sk_ip_xmit_timeout k \<noteq> TIME_WRITE \<or> befor P seq (sk_rcv_ack_seq k + 1)) \<or>
         sk_packets_out k \<ge> ucast (sk_cong_window k)
      then Some s
      else do {
        let s = skb_unlink skb s;
        s \<leftarrow> (if before seq (sk_rcv_ack_seq k + 1) then do {
                s \<leftarrow> kfree_skb P skb (upd_sk sk (\<lambda>k. k\<lparr>sk_retransmits := 0\<rparr>) s);
                if sk_dead (socks s sk) = 0 then write_space P sk s else Some s
              } else do {
                let iph = skb_data skb + ucast (hard_header_len s (skb_dev s skb));
                let th = iph + word_of_int (4 * iph_ihl (net_mem s) iph);
                let s = on_mem (\<lambda>m. store16 (th + 14) 0 (store32 (th + 8) (sk_acked_seq k) m)) s;
                let s = upd_sk sk (\<lambda>k. k\<lparr>sk_sent_seq := skb_h s skb\<rparr>) s;
                s \<leftarrow> queue_xmit P sk (skb_dev s skb) skb (sint (skb_free s skb)) s;
                reset_xmit_timer sk TIME_WRITE (sk_rto (socks s sk)) s
              });
        tcp_write_xmit P sk s
      })"

text \<open>\<open>addr\<close> is the caller's \<^verbatim>\<open>struct sockaddr_in\<close>: its family and address; its size is 20.\<close>

definition tcp_sendto ::
  "'a tcp_heap_scheme prot_ops \<Rightarrow> ('a tcp_heap_scheme \<Rightarrow> 'a tcp_heap_scheme) \<Rightarrow> addr \<Rightarrow> addr \<Rightarrow> addr \<Rightarrow> int \<Rightarrow> bool \<Rightarrow> u32 \<Rightarrow>
   u16 \<Rightarrow> u32 \<Rightarrow> u32 \<Rightarrow> 'a tcp_heap_scheme \<Rightarrow> (int \<times> 'a tcp_heap_scheme) option" where
  "tcp_sendto P others wait sk from len nonblock flags fam s_addr addr_len s =
     (if flags AND NOT 5 \<noteq> 0 then Some (-22, s)
      else if sk_state (socks s sk) = TCP_CLOSE then Some (-107, s)
      else if addr_len < 20 then Some (-22, s)
      else if fam \<noteq> 0 \<and> fam \<noteq> 2 then Some (-22, s)
      else if s_addr \<noteq> sk_daddr (socks s sk) then Some (-106, s)
      else tcp_write P others wait sk from len nonblock flags s)"

subsection \<open>Closing\<close>

text \<open>
  The \<^verbatim>\<open>switch\<close> of \<^verbatim>\<open>tcp_close_state\<close>: the next state and whether a FIN is sent. The case of an
  established connection has no \<^verbatim>\<open>break\<close> and falls into the next one, which keeps the state.
\<close>

definition tcp_close_next :: "u8 \<Rightarrow> u8 \<times> bool" where
  "tcp_close_next st =
     (if st = TCP_SYN_SENT then (TCP_CLOSE, False)
      else if st = TCP_SYN_RECV \<or> st = TCP_ESTABLISHED then (st, True)
      else if st = TCP_FIN_WAIT1 \<or> st = TCP_FIN_WAIT2 \<or> st = TCP_CLOSING then (st, False)
      else if st = TCP_CLOSE \<or> st = TCP_LISTEN then (TCP_CLOSE, False)
      else if st = TCP_CLOSE_WAIT then (TCP_LAST_ACK, True)
      else (TCP_CLOSE, False))"

definition tcp_close_state :: "addr \<Rightarrow> bool \<Rightarrow> 'a tcp_heap_scheme \<Rightarrow> (bool \<times> 'a tcp_heap_scheme) option" where
  "tcp_close_state sk dead s =
     do {
       let (ns, send_fin) = tcp_close_next (sk_state (socks s sk));
       s \<leftarrow> tcp_set_state sk ns s;
       if dead \<and> ns = TCP_FIN_WAIT2 then do {
         (timer_active, s) \<leftarrow> del_timer (sk + 120) s;
         s \<leftarrow> (if timer_active \<noteq> 0 then do { (_, s) \<leftarrow> add_timer (sk + 120) s; Some s }
               else reset_xmit_timer sk TIME_CLOSE TCP_FIN_TIMEOUT s);
         Some (send_fin, s)
       } else Some (send_fin, s)
     }"

text \<open>\<^verbatim>\<open>tcp_send_fin\<close> computes the place of the new header from the template \<^verbatim>\<open>th\<close> and not from the packet.\<close>

definition tcp_send_fin ::
  "'a tcp_heap_scheme prot_ops \<Rightarrow> addr \<Rightarrow> 'a tcp_heap_scheme \<Rightarrow> 'a tcp_heap_scheme option" where
  "tcp_send_fin P sk s =
     do {
       (skb, s) \<leftarrow> wmalloc P sk 58 True s;
       let s = upd_sk sk (\<lambda>k. k\<lparr>sk_inuse_flag := 1\<rparr>) s;
       if skb = NULL then Some s
       else do {
         let th = sk + 188;
         let k = socks s sk;
         let s = s\<lparr>skb_sk := (skb_sk s)(skb := sk), skb_len := (skb_len s)(skb := 20)\<rparr>;
         ((tmp, dev), s) \<leftarrow> build_header P skb (sk_saddr k) (sk_daddr k) NULL 20 (sk_ip_tos k) (sk_ip_ttl k) s;
         if tmp < 0 then do {
           s \<leftarrow> wfree P sk skb (s\<lparr>skb_free := (skb_free s)(skb := 1)\<rparr>);
           (t, s) \<leftarrow> del_timer (sk + 120) (upd_sk sk (\<lambda>k. k\<lparr>sk_write_seq := sk_write_seq k + 1\<rparr>) s);
           if t \<noteq> 0 then do { (_, s) \<leftarrow> add_timer (sk + 120) s; Some s }
           else reset_xmit_timer sk TIME_CLOSE TCP_TIMEOUT_LEN s
         } else do {
           let th2 = th + word_of_int tmp;
           let s = s\<lparr>skb_len := (skb_len s)(skb := skb_len s skb + word_of_int tmp), skb_dev := (skb_dev s)(skb := dev)\<rparr>;
           let s = memncpy th2 th 20 s;
           let s = on_mem (store32 (th2 + 4) (sk_write_seq (socks s sk))) s;
           let s = upd_sk sk (\<lambda>k. k\<lparr>sk_write_seq := sk_write_seq k + 1, sk_window := 0\<rparr>) s;
           let s = s\<lparr>skb_h := (skb_h s)(skb := sk_write_seq (socks s sk))\<rparr>;
           let s = on_mem (\<lambda>m. store32 (th + 8) (sk_acked_seq (socks s sk)) (set_flag 11 True th2 m)) s;
           let s = on_mem (\<lambda>m. set_th_len 5 th2 (set_flag 15 True th2 (store16 (th2 + 14) 0 m))) s;
           if skb_peek (sk + 244) s \<noteq> NULL then
             let s = s\<lparr>skb_free := (skb_free s)(skb := 0)\<rparr>;
                 s = (if l_next s skb \<noteq> NULL then skb_unlink skb s else s)
             in Some (skb_queue_tail (sk + 244) skb s)
           else do {
             s \<leftarrow> queue_xmit P sk dev skb 0 (upd_sk sk (\<lambda>k. k\<lparr>sk_sent_seq := sk_write_seq k\<rparr>) s);
             reset_xmit_timer sk TIME_WRITE (sk_rto (socks s sk)) s
           }
         }
       }
     }"

definition tcp_shutdown ::
  "'a tcp_heap_scheme prot_ops \<Rightarrow> addr \<Rightarrow> u32 \<Rightarrow> 'a tcp_heap_scheme \<Rightarrow> 'a tcp_heap_scheme option" where
  "tcp_shutdown P sk now s =
     (let st = sk_state (socks s sk) in
      if now AND 2 = 0 then Some s
      else if st \<noteq> TCP_FIN_WAIT1 \<or> st \<noteq> TCP_FIN_WAIT2 \<or> st \<noteq> TCP_CLOSING \<or> st \<noteq> TCP_LAST_ACK \<or> st \<noteq> TCP_TIME_WAIT \<or>
        st \<noteq> TCP_CLOSE \<or> st \<noteq> TCP_LISTEN
      then Some s
      else do {
        let s = upd_sk sk (\<lambda>k. k\<lparr>sk_inuse_flag := 1, sk_shutdown := sk_shutdown k OR 2\<rparr>) s;
        s \<leftarrow> (if sk_partial (socks s sk) \<noteq> NULL then tcp_send_partial P sk s else Some s);
        (send_fin, s) \<leftarrow> tcp_close_state sk False s;
        if send_fin then tcp_send_fin P sk s else Some s
      })"

text \<open>
  \<^verbatim>\<open>tcp_close\<close> and \<^verbatim>\<open>tcp_close_pending\<close> call each other: closing a listening socket closes the sockets
  of the connections that nobody accepted.
\<close>

datatype tcp_closing = Close addr bool | Pending addr

partial_function (option) tcp_close_run ::
  "'a tcp_heap_scheme prot_ops \<Rightarrow> tcp_closing \<Rightarrow> 'a tcp_heap_scheme \<Rightarrow> 'a tcp_heap_scheme option" where
  "tcp_close_run P c s =
     (case c of
        Pending sk \<Rightarrow>
          let (skb, s) = skb_dequeue (sk + 236) s in
          if skb = NULL then Some s
          else do {
            s \<leftarrow> tcp_close_run P (Close (skb_sk s skb) False) (upd_sk (skb_sk s skb) (\<lambda>k. k\<lparr>sk_dead := 1\<rparr>) s);
            tcp_close_run P (Pending sk) s
          }
      | Close sk timeout \<Rightarrow> do {
          let s = upd_sk sk (\<lambda>k. k\<lparr>sk_inuse_flag := 1\<rparr>) s;
          if sk_state (socks s sk) = TCP_LISTEN then do {
            s \<leftarrow> tcp_set_state sk TCP_CLOSE s;
            tcp_close_run P (Pending sk) s
          } else do {
            let s = upd_sk sk (\<lambda>k. k\<lparr>sk_keepopen := 1, sk_shutdown := sk_shutdown k AND 3\<rparr>) s;
            s \<leftarrow> (if sk_dead (socks s sk) = 0 then state_change P sk s else Some s);
            if timeout then tcp_set_state sk TCP_CLOSE s
            else do {
              (_, s) \<leftarrow> skb_drain (sk + 236) s;
              s \<leftarrow> (if sk_partial (socks s sk) \<noteq> NULL then tcp_send_partial P sk s else Some s);
              (send_fin, s) \<leftarrow> tcp_close_state sk True s;
              if send_fin then tcp_send_fin P sk s else Some s
            }
          }
        })"

definition tcp_close ::
  "'a tcp_heap_scheme prot_ops \<Rightarrow> addr \<Rightarrow> bool \<Rightarrow> 'a tcp_heap_scheme \<Rightarrow> 'a tcp_heap_scheme option" where
  "tcp_close P sk timeout s = tcp_close_run P (Close sk timeout) s"

definition tcp_close_pending ::
  "'a tcp_heap_scheme prot_ops \<Rightarrow> addr \<Rightarrow> 'a tcp_heap_scheme \<Rightarrow> 'a tcp_heap_scheme option" where
  "tcp_close_pending P sk s = tcp_close_run P (Pending sk) s"

definition tcp_reset ::
  "'a tcp_heap_scheme prot_ops \<Rightarrow> u32 \<Rightarrow> u32 \<Rightarrow> addr \<Rightarrow> addr \<Rightarrow> u32 \<Rightarrow> u32 \<Rightarrow> 'a tcp_heap_scheme \<Rightarrow> 'a tcp_heap_scheme option" where
  "tcp_reset P saddr daddr th dev tos ttl s =
     (if bit (load16 (net_mem s) (th + 12)) 13 then Some s
      else do {
        (skb, s) \<leftarrow> wmalloc P NULL 58 True s;
        if skb = NULL then Some s
        else do {
          let s = s\<lparr>skb_len := (skb_len s)(skb := 20), skb_sk := (skb_sk s)(skb := NULL), skb_dev := (skb_dev s)(skb := dev),
                    skb_localroute := (skb_localroute s)(skb := 0)\<rparr>;
          ((tmp, ndev), s) \<leftarrow> build_header P skb saddr daddr NULL 20 tos ttl s;
          if tmp < 0 then wfree P NULL skb (s\<lparr>skb_free := (skb_free s)(skb := 1)\<rparr>)
          else do {
            let th2 = skb_data skb + word_of_int tmp;
            let s = on_mem (\<lambda>m. store16 th2 (load16 m (th + 2)) (store16 (th2 + 2) (load16 m th) m)) s;
            let s = on_mem (\<lambda>m. store16 (th2 + 14) 0 (set_flag 13 True th2 m)) s;
            let fl = load16 (net_mem s) (th + 12);
            let s = on_mem (\<lambda>m.
                      if bit fl 11 then
                        let m = set_flag 11 False th2 m; m = store32 (th2 + 4) (load32 m (th + 8)) m
                        in store32 (th2 + 8) 0 m
                      else
                        let m = set_flag 11 True th2 m;
                            m = store32 (th2 + 8) (load32 m (th + 4) + (if bit fl 14 then 1 else 0)) m
                        in store32 (th + 4) 0 m) s;
            let s = on_mem (\<lambda>m. set_flag 12 False th2 (set_flag 15 False th2 (set_flag 10 False th2 (set_flag 14 False th2 m)))) s;
            queue_xmit P NULL ndev skb 1 (on_mem (set_th_len 5 th2) s)
          }
        }
      })"

subsection \<open>A request for a connection\<close>

text \<open>
  The allocation of the new socket is commented out: \<open>newsk\<close> is an argument. The copy of the
  whole structure copies the socket, its header template and its timers; then the queues are made
  empty and the fields of a new connection are set. The timer that is initialised a second time is
  the one of the listening socket.
\<close>

definition copy_sock :: "addr \<Rightarrow> addr \<Rightarrow> 'a tcp_heap_scheme \<Rightarrow> 'a tcp_heap_scheme" where
  "copy_sock newsk sk s =
     (let s = memncpy (newsk + 188) (sk + 188) 20 s;
          s = s\<lparr>socks := (socks s)(newsk := socks s sk)\<rparr>;
          s = fold (\<lambda>i s. set_expires (newsk + i) (tm_expires s (sk + i))
                (set_next (newsk + i) (l_next s (sk + i)) (set_prev (newsk + i) (l_prev s (sk + i)) s))) [100, 120, 216] s
      in on_mem (\<lambda>m. m(newsk + 284 := 0)) s)"

definition conn_fields :: "addr \<Rightarrow> addr \<Rightarrow> u32 \<Rightarrow> u32 \<Rightarrow> u32 \<Rightarrow> bytes \<Rightarrow> addr \<Rightarrow> sock \<Rightarrow> sock" where
  "conn_fields th iph daddr saddr seq m sk k =
     k\<lparr>sk_send_head := NULL, sk_send_tail := NULL, sk_rtt := 0, sk_rto := TCP_TIMEOUT_INIT, sk_max_window := 0,
       sk_cong_window := 1, sk_cong_count := 0, sk_done := 0, sk_ssthresh := 0, sk_partial := NULL,
       sk_wmem_alloc := 0, sk_rmem_alloc := 0, sk_err := 0, sk_shutdown := 0,
       sk_acked_seq := load32 m (th + 4) + 1, sk_copied_seq := load32 m (th + 4) + 1, sk_fin_seq := load32 m (th + 4),
       sk_state := TCP_SYN_RECV, sk_timeout := 0, sk_ip_xmit_timeout := 0, sk_write_seq := seq,
       sk_window_seq := seq, sk_rcv_ack_seq := seq, sk_retransmits := 0, sk_daddr := saddr, sk_saddr := daddr,
       sk_socket := NULL, sk_ip_tos := ucast (m (iph + 1))\<rparr>"

definition new_connection ::
  "addr \<Rightarrow> addr \<Rightarrow> addr \<Rightarrow> u32 \<Rightarrow> u32 \<Rightarrow> u32 \<Rightarrow> 'a tcp_heap_scheme \<Rightarrow> 'a tcp_heap_scheme" where
  "new_connection newsk sk skb daddr saddr seq s =
     (let th = skb_h s skb;
          s = copy_sock newsk sk s;
          s = skb_queue_head_init (newsk + 252) (skb_queue_head_init (newsk + 236) (skb_queue_head_init (newsk + 244) s));
          s = upd_sk newsk (conn_fields th (skb_ip_hdr s skb) daddr saddr seq (net_mem s) sk) s;
          s = snd (init_timer (sk + 100) (snd (init_timer (newsk + 120) s)));
          th0 = newsk + 188;
          s = on_mem (\<lambda>m. store16 (th0 + 2) (load16 m th) (store16 th0 (load16 m (th + 2)) m)) s
      in on_mem (\<lambda>m. store16 (th0 + 12) ((load16 m (th0 + 12) AND 0x8000) OR 6) m) s)"

text \<open>The window and the maximal segment of the new connection, from the route to the other side.\<close>

definition conn_route :: "addr \<Rightarrow> addr \<Rightarrow> addr \<Rightarrow> u32 \<Rightarrow> 'a tcp_heap_scheme \<Rightarrow> 'a tcp_heap_scheme option" where
  "conn_route newsk sk dev saddr s =
     do {
       ((rt, _), s) \<leftarrow> ip_rt_route saddr None s;
       let clamp = (if rt \<noteq> NULL \<and> rt_flags s rt AND RTF_WINDOW \<noteq> 0 then rt_window s rt else 0);
       let mtu = (if sk_user_mss (socks s sk) \<noteq> 0 then sk_user_mss (socks s sk)
                  else if rt \<noteq> NULL \<and> rt_flags s rt AND RTF_MSS \<noteq> 0 then rt_mss s rt - 64
                  else 16384);
       let mtu = min (ucast mtu :: u32) (ucast (dev_mtu s dev) - 64);
       Some (upd_sk newsk (\<lambda>k. k\<lparr>sk_window_clamp := clamp, sk_mtu := ucast mtu\<rparr>) s)
     }"

definition tcp_conn_request ::
  "'a tcp_heap_scheme prot_ops \<Rightarrow> addr \<Rightarrow> addr \<Rightarrow> addr \<Rightarrow> u32 \<Rightarrow> u32 \<Rightarrow> addr \<Rightarrow> u32 \<Rightarrow> 'a tcp_heap_scheme \<Rightarrow>
   'a tcp_heap_scheme option" where
  "tcp_conn_request P newsk sk skb daddr saddr dev seq s =
     (let th = skb_h s skb in
      if sk_dead (socks s sk) \<noteq> 0 then
        tcp_reset P daddr saddr th dev (sk_ip_tos (socks s sk)) (sk_ip_ttl (socks s sk)) s
      else do {
        s \<leftarrow> data_ready P sk s;
        if sint (sk_ack_backlog (socks s sk)) \<ge> sint (sk_max_ack_backlog (socks s sk)) \<or> newsk = NULL then Some s
        else do {
          s \<leftarrow> conn_route newsk sk dev saddr (new_connection newsk sk skb daddr saddr seq s);
          (buff, s) \<leftarrow> wmalloc P newsk 62 True s;
          if buff = NULL then
            Some (upd_sk newsk (\<lambda>k. k\<lparr>sk_dead := 1, sk_state := TCP_CLOSE\<rparr>) (upd_sk sk (\<lambda>k. k\<lparr>sk_err := -12\<rparr>) s))
          else do {
            let k = socks s newsk;
            let s = s\<lparr>skb_len := (skb_len s)(buff := 24), skb_sk := (skb_sk s)(buff := newsk),
                      skb_localroute := (skb_localroute s)(buff := sk_localroute k)\<rparr>;
            ((tmp, ndev), s) \<leftarrow> build_header P buff (sk_saddr k) (sk_daddr k) NULL 62 (sk_ip_tos (socks s sk)) (sk_ip_ttl (socks s sk)) s;
            if tmp < 0 then do {
              let s = upd_sk sk (\<lambda>k. k\<lparr>sk_err := word_of_int tmp\<rparr>) (s\<lparr>skb_free := (skb_free s)(buff := 1)\<rparr>);
              let s = upd_sk newsk (\<lambda>k. k\<lparr>sk_dead := 1, sk_state := TCP_CLOSE\<rparr>) s;
              Some (s\<lparr>skb_sk := (skb_sk s)(skb := sk)\<rparr>)
            } else do {
              let t1 = skb_data buff + word_of_int tmp;
              let s = s\<lparr>skb_len := (skb_len s)(buff := skb_len s buff + word_of_int tmp)\<rparr>;
              let s = memncpy t1 th 20 s;
              let s = s\<lparr>skb_h := (skb_h s)(buff := sk_write_seq (socks s newsk))\<rparr>;
              let s = on_mem (\<lambda>m. store16 t1 (load16 m (newsk + 188)) (store16 (t1 + 2) (load16 m th) m)) s;
              let s = on_mem (store32 (t1 + 4) (sk_write_seq (socks s newsk))) s;
              let s = upd_sk newsk (\<lambda>k. k\<lparr>sk_write_seq := sk_write_seq k + 1, sk_window := 0, sk_sent_seq := sk_write_seq k + 1\<rparr>) s;
              let s = on_mem (\<lambda>m. set_flag 14 True t1 (ack_flags t1 (store16 (t1 + 14) 0 m))) s;
              let s = on_mem (\<lambda>m. set_th_len 6 t1 (store32 (t1 + 8) (load32 m (th + 4) + 1) m)) s;
              let mtu = sk_mtu (socks s newsk);
              let s = on_mem (\<lambda>m. m(t1 + 20 := 2, t1 + 21 := 4, t1 + 22 := ucast (drop_bit 8 mtu), t1 + 23 := ucast mtu)) s;
              s \<leftarrow> queue_xmit P newsk ndev buff 0 s;
              s \<leftarrow> reset_xmit_timer newsk TIME_WRITE TCP_TIMEOUT_INIT s;
              let s = s\<lparr>skb_sk := (skb_sk s)(skb := newsk)\<rparr>;
              let s = upd_sk sk (\<lambda>k. k\<lparr>sk_rmem_alloc := sk_rmem_alloc k - skb_mem_len s skb\<rparr>) s;
              let s = upd_sk newsk (\<lambda>k. k\<lparr>sk_rmem_alloc := sk_rmem_alloc k + skb_mem_len s skb\<rparr>) s;
              Some (skb_queue_tail (sk + 236) skb s)
            }
          }
        }
      })"

end
