(* ===== verification/Netreg.thy ===== *)
theory Netreg
  imports Route_props Ip
begin

section \<open>Registration: devices, packet types, notifiers and protocol families\<close>

text \<open>
  The rest of \<^verbatim>\<open>net/inet/dev.c\<close>, the notifier chains of \<^verbatim>\<open>include/linux/notifier.h\<close>, \<^verbatim>\<open>drivers/net\<close>, \<^verbatim>\<open>net/socket.c\<close>
  and the initialisation in \<^verbatim>\<open>net/inet/af_inet.c\<close>. The function pointers of devices and notifiers are a
  record of functions; \<^verbatim>\<open>arp_device_down\<close>, which is declared and called but nowhere defined, is one of
  them. The addresses of the static structures are the record \<open>statics\<close>. A pointer to a link is
  \<open>None\<close> for the head of a list and \<open>Some x\<close> for the field of \<open>x\<close>.
\<close>

record reg_heap = ip_heap +
  nb_next :: "addr \<Rightarrow> addr"
  nb_priority :: "addr \<Rightarrow> int"
  netdev_chain :: addr
  dev_start :: "addr \<Rightarrow> u8"
  dev_family :: "addr \<Rightarrow> u16"
  ethdev_index :: "nat \<Rightarrow> addr"
  pops :: "nat \<Rightarrow> addr"
  po_family :: "addr \<Rightarrow> int"
  prot_highestinuse :: "addr \<Rightarrow> u32"

record 's reg_ops =
  has_init :: "addr \<Rightarrow> bool"
  call_init :: "addr \<Rightarrow> 's \<Rightarrow> (int \<times> 's) option"
  has_open :: "addr \<Rightarrow> bool"
  call_open :: "addr \<Rightarrow> 's \<Rightarrow> (int \<times> 's) option"
  has_stop :: "addr \<Rightarrow> bool"
  call_stop :: "addr \<Rightarrow> 's \<Rightarrow> (int \<times> 's) option"
  notifier_call :: "addr \<Rightarrow> u32 \<Rightarrow> addr \<Rightarrow> 's \<Rightarrow> (int \<times> 's) option"
  arp_device_down :: "addr \<Rightarrow> 's \<Rightarrow> 's option"

record statics =
  arp_packet_type :: addr
  arp_dev_notifier :: addr
  ip_packet_type :: addr
  ip_rt_notifier :: addr
  inet_ops :: addr
  inet_protocol_base :: addr
  tcp_prot :: addr
  udp_prot :: addr
  raw_prot :: addr

abbreviation (input) NETDEV_UP :: u32 where "NETDEV_UP \<equiv> 1"
abbreviation (input) NETDEV_DOWN :: u32 where "NETDEV_DOWN \<equiv> 2"
abbreviation (input) IFF_RUNNING :: "'a::len word" where "IFF_RUNNING \<equiv> 0x40"
abbreviation (input) MAX_ETH_CARDS :: nat where "MAX_ETH_CARDS \<equiv> 16"
abbreviation (input) NPROTO :: nat where "NPROTO \<equiv> 16"

subsection \<open>Packet types\<close>

fun pt_link :: "addr option \<Rightarrow> 'a dev_heap_scheme \<Rightarrow> addr" where
  "pt_link None s = ptype_base s"
| "pt_link (Some p) s = pt_next s p"

fun set_pt_link :: "addr option \<Rightarrow> addr \<Rightarrow> 'a dev_heap_scheme \<Rightarrow> 'a dev_heap_scheme" where
  "set_pt_link None q s = s\<lparr>ptype_base := q\<rparr>"
| "set_pt_link (Some p) q s = s\<lparr>pt_next := (pt_next s)(p := q)\<rparr>"

definition dev_add_pack :: "addr \<Rightarrow> 'a dev_heap_scheme \<Rightarrow> 'a dev_heap_scheme" where
  "dev_add_pack pt s =
     (let s = s\<lparr>pt_next := (pt_next s)(pt := ptype_base s)\<rparr> in s\<lparr>ptype_base := pt\<rparr>)"

partial_function (option) remove_pack_loop ::
  "addr \<Rightarrow> addr option \<Rightarrow> 'a dev_heap_scheme \<Rightarrow> 'a dev_heap_scheme option" where
  "remove_pack_loop packet_t pt s =
     (let c = pt_link pt s in
      if c = NULL then Some s
      else if c = packet_t then Some (set_pt_link pt (pt_next s packet_t) s)
      else remove_pack_loop packet_t (Some c) s)"

definition dev_remove_pack :: "addr \<Rightarrow> 'a dev_heap_scheme \<Rightarrow> 'a dev_heap_scheme option" where
  "dev_remove_pack packet_t s = remove_pack_loop packet_t None s"

subsection \<open>Notifiers\<close>

fun nb_link :: "addr option \<Rightarrow> 'a reg_heap_scheme \<Rightarrow> addr" where
  "nb_link None s = netdev_chain s"
| "nb_link (Some p) s = nb_next s p"

fun set_nb_link :: "addr option \<Rightarrow> addr \<Rightarrow> 'a reg_heap_scheme \<Rightarrow> 'a reg_heap_scheme" where
  "set_nb_link None q s = s\<lparr>netdev_chain := q\<rparr>"
| "set_nb_link (Some p) q s = s\<lparr>nb_next := (nb_next s)(p := q)\<rparr>"

text \<open>
  The loop of \<^verbatim>\<open>notifier_chain_register\<close>: the variables \<^verbatim>\<open>list\<close> and \<^verbatim>\<open>prev\<close> when it ends. \<^verbatim>\<open>prev\<close> is not
  initialised: its first value is an argument, and is written through if the loop ends at once. The
  write is followed where it meets the field \<^verbatim>\<open>next\<close> of a notifier. If \<^verbatim>\<open>prev->next\<close> is \<^verbatim>\<open>netdev_chain\<close>
  it changes nothing, as the notifier has just become the first; what it does to a variable of
  another kind is not followed.
\<close>

partial_function (option) notifier_place ::
  "addr \<Rightarrow> addr option \<Rightarrow> addr \<Rightarrow> 'a reg_heap_scheme \<Rightarrow> (addr option \<times> addr) option" where
  "notifier_place n l prev s =
     (let c = nb_link l s in
      if c = NULL \<or> nb_priority s n < nb_priority s c then Some (l, prev)
      else notifier_place n (Some c) c s)"

definition notifier_chain_register ::
  "addr \<Rightarrow> addr \<Rightarrow> 'a reg_heap_scheme \<Rightarrow> (int \<times> 'a reg_heap_scheme) option" where
  "notifier_chain_register prev n s =
     do {
       (l, prev) \<leftarrow> notifier_place n None prev s;
       let s = s\<lparr>nb_next := (nb_next s)(n := nb_link l s)\<rparr>;
       let s = set_nb_link l n s;
       Some (0, s\<lparr>nb_next := (nb_next s)(prev := n)\<rparr>)
     }"

partial_function (option) notifier_unregister_loop ::
  "addr \<Rightarrow> addr option \<Rightarrow> 'a reg_heap_scheme \<Rightarrow> 'a reg_heap_scheme option" where
  "notifier_unregister_loop n l s =
     (let c = nb_link l s in
      if c = NULL then Some s
      else if c = n then Some (set_nb_link l (nb_next s n) s)
      else notifier_unregister_loop n (Some c) s)"

definition notifier_chain_unregister :: "addr \<Rightarrow> 'a reg_heap_scheme \<Rightarrow> (int \<times> 'a reg_heap_scheme) option" where
  "notifier_chain_unregister n s = do { s \<leftarrow> notifier_unregister_loop n None s; Some (0, s) }"

definition register_netdevice_notifier ::
  "addr \<Rightarrow> addr \<Rightarrow> 'a reg_heap_scheme \<Rightarrow> (int \<times> 'a reg_heap_scheme) option" where
  "register_netdevice_notifier prev nb s = notifier_chain_register prev nb s"

definition unregister_netdevice_notifier :: "addr \<Rightarrow> 'a reg_heap_scheme \<Rightarrow> (int \<times> 'a reg_heap_scheme) option" where
  "unregister_netdevice_notifier nb s = notifier_chain_unregister nb s"

partial_function (option) notifier_call_loop ::
  "'a reg_heap_scheme reg_ops \<Rightarrow> u32 \<Rightarrow> addr \<Rightarrow> addr \<Rightarrow> int \<Rightarrow> 'a reg_heap_scheme \<Rightarrow>
   (int \<times> 'a reg_heap_scheme) option" where
  "notifier_call_loop C val arg nb ret s =
     (if nb = NULL then Some (ret, s)
      else do {
        (ret, s) \<leftarrow> notifier_call C nb val arg s;
        if bit ret 2 then Some (ret, s) else notifier_call_loop C val arg (nb_next s nb) ret s
      })"

definition notifier_call_chain ::
  "'a reg_heap_scheme reg_ops \<Rightarrow> u32 \<Rightarrow> addr \<Rightarrow> 'a reg_heap_scheme \<Rightarrow> (int \<times> 'a reg_heap_scheme) option" where
  "notifier_call_chain C val arg s = notifier_call_loop C val arg (netdev_chain s) 2 s"

subsection \<open>Devices\<close>

text \<open>The loops of \<^verbatim>\<open>dev_get\<close> and \<^verbatim>\<open>dev_init\<close> step by \<^verbatim>\<open>dev++\<close> through memory, as those of \<^verbatim>\<open>devinet.c\<close> do.\<close>

partial_function (option) dev_get_loop :: "addr \<Rightarrow> addr \<Rightarrow> 'a reg_heap_scheme \<Rightarrow> addr option" where
  "dev_get_loop name dev s =
     (if dev = NULL then Some NULL
      else do {
        l \<leftarrow> strlen (dev_name s dev) (net_mem s);
        c \<leftarrow> strncmp (dev_name s dev) name l (net_mem s);
        if c = 0 then Some dev else dev_get_loop name (dev + 116) s
      })"

definition dev_get :: "addr \<Rightarrow> 'a reg_heap_scheme \<Rightarrow> addr option" where
  "dev_get name s = dev_get_loop name (dev_base s) s"

definition dev_open ::
  "'a reg_heap_scheme reg_ops \<Rightarrow> addr \<Rightarrow> 'a reg_heap_scheme \<Rightarrow> (int \<times> 'a reg_heap_scheme) option" where
  "dev_open C dev s =
     do {
       (ret, s) \<leftarrow> (if has_open C dev then call_open C dev s else Some (0, s));
       if ret = 0 then do {
         let s = s\<lparr>dev_flags := (dev_flags s)(dev := dev_flags s dev OR (IFF_UP OR IFF_RUNNING))\<rparr>;
         (_, s) \<leftarrow> notifier_call_chain C NETDEV_UP dev s;
         Some (ret, s)
       } else Some (ret, s)
     }"

text \<open>
  The two loops of \<^verbatim>\<open>dev_close\<close>. The call that would free a buffer is commented out, so the increment
  of \<^verbatim>\<open>ct\<close> is the body of the \<^verbatim>\<open>if\<close>. The inner loop tests only the queue: with \<^verbatim>\<open>ct\<close> at 3 it reads behind the
  array of queues (\<open>None\<close>).
\<close>

partial_function (option) dev_close_drain :: "addr \<Rightarrow> nat \<Rightarrow> 'a reg_heap_scheme \<Rightarrow> (nat \<times> 'a reg_heap_scheme) option" where
  "dev_close_drain dev ct s =
     (if ct \<ge> 3 then None
      else
        let (skb, s) = skb_dequeue (dev + 76 + 8 * of_nat ct) s in
        if skb = NULL then Some (ct, s)
        else dev_close_drain dev (if skb_free s skb \<noteq> 0 then ct + 1 else ct) s)"

partial_function (option) dev_close_loop :: "addr \<Rightarrow> nat \<Rightarrow> 'a reg_heap_scheme \<Rightarrow> 'a reg_heap_scheme option" where
  "dev_close_loop dev ct s =
     (if ct < 3 then do { (ct, s) \<leftarrow> dev_close_drain dev ct s; dev_close_loop dev ct s } else Some s)"

definition dev_close ::
  "'a reg_heap_scheme reg_ops \<Rightarrow> addr \<Rightarrow> 'a reg_heap_scheme \<Rightarrow> (int \<times> 'a reg_heap_scheme) option" where
  "dev_close C dev s =
     (if dev_flags s dev \<noteq> 0 then do {
        (_, s) \<leftarrow> (if has_stop C dev then call_stop C dev s else Some (0, s));
        (_, s) \<leftarrow> notifier_call_chain C NETDEV_DOWN dev s;
        s \<leftarrow> arp_device_down C dev s;
        let s = s\<lparr>pa_addr := (pa_addr s)(dev := 0), pa_broadcast := (pa_broadcast s)(dev := 0),
                  pa_mask := (pa_mask s)(dev := 0)\<rparr>;
        s \<leftarrow> dev_close_loop dev 0 s;
        Some (0, s)
      } else Some (0, s))"

text \<open>The copy of \<^verbatim>\<open>bad_mask\<close> in \<^verbatim>\<open>dev.c\<close>; \<^verbatim>\<open>ntohl\<close> is the identity.\<close>

definition dev_bad_mask :: "u32 \<Rightarrow> u32 \<Rightarrow> int" where
  "dev_bad_mask msk a =
     (let msk = NOT msk in
      if a AND msk \<noteq> 0 then 1
      else if msk AND (msk + 1) \<noteq> 0 then 1
      else 0)"

text \<open>
  \<^verbatim>\<open>dev_ifconf\<close>. The addresses of the local structures \<^verbatim>\<open>ifc\<close> and \<^verbatim>\<open>ifr\<close> are arguments. \<^verbatim>\<open>struct ifreq\<close> has 36
  bytes, the family of its address at 18 and the address itself at 24; \<^verbatim>\<open>struct ifconf\<close> has 8, the
  length at 0 and the buffer at 4. The comparison of \<^verbatim>\<open>len\<close> with a \<^verbatim>\<open>sizeof\<close> is unsigned.
\<close>

partial_function (option) dev_ifconf_loop ::
  "addr \<Rightarrow> addr \<Rightarrow> addr \<Rightarrow> u32 \<Rightarrow> 'a reg_heap_scheme \<Rightarrow> (addr \<times> 'a reg_heap_scheme) option" where
  "dev_ifconf_loop ifr dev pos len s =
     (if dev = NULL then Some (pos, s)
      else if dev_flags s dev AND IFF_UP = 0 then dev_ifconf_loop ifr (dev_next s dev) pos len s
      else do {
        (_, m) \<leftarrow> strcpy ifr (dev_name s dev) (snd (memset ifr 0 36 (net_mem s)));
        let s = s\<lparr>net_mem := store16 (ifr + 18) (dev_family s dev) (store32 (ifr + 24) (pa_addr s dev) m)\<rparr>;
        let s = memncpy pos ifr 36 s;
        let pos = pos + 36;
        let len = len - 36;
        if len < 36 then Some (pos, s) else dev_ifconf_loop ifr (dev_next s dev) pos len s
      })"

definition dev_ifconf :: "addr \<Rightarrow> addr \<Rightarrow> addr \<Rightarrow> 'a reg_heap_scheme \<Rightarrow> (u32 \<times> 'a reg_heap_scheme) option" where
  "dev_ifconf ifc ifr arg s =
     do {
       let s = memncpy ifc arg 8 s;
       (pos, s) \<leftarrow> dev_ifconf_loop ifr (dev_base s) (load32 (net_mem s) (ifc + 4)) (load32 (net_mem s) ifc) s;
       let s = s\<lparr>net_mem := store32 ifc (pos - load32 (net_mem s) (ifc + 4)) (net_mem s)\<rparr>;
       Some (pos - arg, memncpy arg ifc 8 s)
     }"

definition dev_ioctl :: "u32 \<Rightarrow> int" where
  "dev_ioctl cmd = 0"

text \<open>\<^verbatim>\<open>dev_prev = dev->next\<close> assigns the variable and not the link, so only a first device is unlinked.\<close>

partial_function (option) dev_init_loop ::
  "'a reg_heap_scheme reg_ops \<Rightarrow> addr \<Rightarrow> addr \<Rightarrow> 'a reg_heap_scheme \<Rightarrow> 'a reg_heap_scheme option" where
  "dev_init_loop C dev dev_prev s =
     (if dev = NULL then Some s
      else do {
        (r, s) \<leftarrow> (if has_init C dev then call_init C dev s else Some (0, s));
        if r \<noteq> 0 then
          if dev_prev = NULL then dev_init_loop C (dev + 116) dev_prev (s\<lparr>dev_base := dev_next s dev\<rparr>)
          else dev_init_loop C (dev + 116) (dev_next s dev) s
        else dev_init_loop C (dev + 116) dev s
      })"

definition dev_init :: "'a reg_heap_scheme reg_ops \<Rightarrow> 'a reg_heap_scheme \<Rightarrow> 'a reg_heap_scheme option" where
  "dev_init C s = dev_init_loop C (dev_base s) NULL s"

definition loopback_init :: "addr \<Rightarrow> 'a reg_heap_scheme \<Rightarrow> int \<times> 'a reg_heap_scheme" where
  "loopback_init dev s = (0, s\<lparr>dev_mtu := (dev_mtu s)(dev := 2000)\<rparr>)"

text \<open>
  \<^verbatim>\<open>register_netdev\<close>: the tests of the first letter of the name are assignments, and leave a space.
\<close>

partial_function (option) last_dev :: "addr \<Rightarrow> 'a reg_heap_scheme \<Rightarrow> addr option" where
  "last_dev d s = (if dev_next s d = NULL then Some d else last_dev (dev_next s d) s)"

definition eth_slot :: "addr \<Rightarrow> 'a reg_heap_scheme \<Rightarrow> 'a reg_heap_scheme" where
  "eth_slot dev s =
     (case find (\<lambda>i. ethdev_index s i = NULL) [0..<MAX_ETH_CARDS] of
        None \<Rightarrow> s
      | Some i \<Rightarrow> s\<lparr>ethdev_index := (ethdev_index s)(i := dev)\<rparr>)"

definition register_netdev ::
  "'a reg_heap_scheme reg_ops \<Rightarrow> addr \<Rightarrow> 'a reg_heap_scheme \<Rightarrow> (int \<times> 'a reg_heap_scheme) option" where
  "register_netdev C dev s =
     do {
       let d = dev_base s;
       (r, s) \<leftarrow> (if dev \<noteq> NULL \<and> has_init C dev then
                    let s = (if dev_name s dev \<noteq> NULL
                             then eth_slot dev (s\<lparr>net_mem := (net_mem s)(dev_name s dev := 0x20)\<rparr>) else s)
                    in call_init C dev s
                  else Some (0, s));
       if r \<noteq> 0 then Some (-5, s)
       else do {
         s \<leftarrow> (if dev_base s \<noteq> NULL then do {
                  d \<leftarrow> last_dev d s;
                  Some (s\<lparr>dev_next := (dev_next s)(d := dev)\<rparr>)
                } else Some (s\<lparr>dev_base := dev\<rparr>));
         Some (0, s\<lparr>dev_next := (dev_next s)(dev := NULL)\<rparr>)
       }
     }"

text \<open>
  \<^verbatim>\<open>unregister_netdev\<close>: the loop looks for the device before, so the first one is never found; and
  the loop over the cards leaves after the first.
\<close>

partial_function (option) dev_before :: "addr \<Rightarrow> addr \<Rightarrow> 'a reg_heap_scheme \<Rightarrow> addr option" where
  "dev_before dev d s =
     (if d \<noteq> NULL \<and> dev_next s d \<noteq> dev then dev_before dev (dev_next s d) s else Some d)"

definition unregister_netdev :: "addr \<Rightarrow> 'a reg_heap_scheme \<Rightarrow> 'a reg_heap_scheme option" where
  "unregister_netdev dev s =
     (if dev = NULL then Some s
      else if dev_start s dev \<noteq> 0 then Some s
      else do {
        d \<leftarrow> dev_before dev (dev_base s) s;
        if d \<noteq> NULL \<and> dev_next s d = dev then
          let s = s\<lparr>dev_next := (dev_next s)(d := dev_next s dev)\<rparr>
          in Some (if ethdev_index s 0 = dev then s\<lparr>ethdev_index := (ethdev_index s)(0 := NULL)\<rparr> else s)
        else Some s
      })"

subsection \<open>Protocol families\<close>

definition sock_register :: "addr \<Rightarrow> 'a reg_heap_scheme \<Rightarrow> int \<times> 'a reg_heap_scheme" where
  "sock_register ops s =
     (case find (\<lambda>i. pops s i = NULL) [0..<NPROTO] of
        None \<Rightarrow> (-12, s)
      | Some i \<Rightarrow> (int i, s\<lparr>pops := (pops s)(i := ops), po_family := (po_family s)(ops := 2)\<rparr>))"

definition arp_init :: "statics \<Rightarrow> addr \<Rightarrow> 'a reg_heap_scheme \<Rightarrow> 'a reg_heap_scheme option" where
  "arp_init T prev s =
     do {
       let s = s\<lparr>pt_type := (pt_type s)(arp_packet_type T := ETH_P_ARP)\<rparr>;
       let s = dev_add_pack (arp_packet_type T) s;
       (_, s) \<leftarrow> add_timer (arp_timer s) s;
       (_, s) \<leftarrow> register_netdevice_notifier prev (arp_dev_notifier T) s;
       Some s
     }"

definition ip_init :: "statics \<Rightarrow> addr \<Rightarrow> 'a reg_heap_scheme \<Rightarrow> 'a reg_heap_scheme option" where
  "ip_init T prev s =
     do {
       let s = s\<lparr>pt_type := (pt_type s)(ip_packet_type T := ETH_P_IP)\<rparr>;
       let s = dev_add_pack (ip_packet_type T) s;
       (_, s) \<leftarrow> register_netdevice_notifier prev (ip_rt_notifier T) s;
       Some s
     }"

definition clear_prot :: "addr \<Rightarrow> 'a reg_heap_scheme \<Rightarrow> 'a reg_heap_scheme" where
  "clear_prot prot s =
     s\<lparr>sock_array := (sock_array s)(prot := (\<lambda>i. if i < 256 then NULL else sock_array s prot i)),
       prot_inuse := (prot_inuse s)(prot := 0),
       prot_highestinuse := (prot_highestinuse s)(prot := 0)\<rparr>"

text \<open>The loop over the protocols in \<^verbatim>\<open>inet_proto_init\<close> has no step.\<close>

partial_function (option) add_protocols :: "addr \<Rightarrow> 'a reg_heap_scheme \<Rightarrow> 'a reg_heap_scheme option" where
  "add_protocols p s = (if p = NULL then Some s else add_protocols p (inet_add_protocol p s))"

definition inet_proto_init :: "statics \<Rightarrow> addr \<Rightarrow> 'a reg_heap_scheme \<Rightarrow> 'a reg_heap_scheme option" where
  "inet_proto_init T prev s =
     do {
       let (_, s) = sock_register (inet_ops T) s;
       let s = clear_prot (raw_prot T) (clear_prot (udp_prot T) (clear_prot (tcp_prot T) s));
       s \<leftarrow> add_protocols (inet_protocol_base T) s;
       s \<leftarrow> arp_init T prev s;
       ip_init T prev s
     }"

text \<open>
  \<^verbatim>\<open>proto_init\<close> over the table of \<^verbatim>\<open>protocols.c\<close>, an entry without a function being one the loop does
  not get past. \<^verbatim>\<open>unix_proto_init\<close> is empty.
\<close>

fun proto_init :: "('s \<Rightarrow> 's option) option list \<Rightarrow> 's \<Rightarrow> 's option" where
  "proto_init [] s = Some s"
| "proto_init (None # ps) s = None"
| "proto_init (Some f # ps) s = do { s \<leftarrow> f s; proto_init ps s }"

definition protocols :: "statics \<Rightarrow> addr \<Rightarrow> ('a reg_heap_scheme \<Rightarrow> 'a reg_heap_scheme option) option list" where
  "protocols T prev = [Some Some, Some (inet_proto_init T prev)]"

definition init_sock ::
  "'a reg_heap_scheme reg_ops \<Rightarrow> statics \<Rightarrow> addr \<Rightarrow> 'a reg_heap_scheme \<Rightarrow> (int \<times> 'a reg_heap_scheme) option" where
  "init_sock C T prev s =
     do {
       let s = s\<lparr>pops := (\<lambda>i. if i < NPROTO then NULL else pops s i)\<rparr>;
       s \<leftarrow> proto_init (protocols T prev) s;
       s \<leftarrow> dev_init C s;
       Some (0, s)
     }"

end
