(* ===== verification/Net_example.thy ===== *)
theory Net_example
  imports Netreg
begin

section \<open>A small state of the network\<close>

text \<open>
  A state to evaluate the network code on: one device at 500, which is down, two notifiers at 100
  and 200 with the priorities 1 and 5, and no sockets, packets or routes.
\<close>

definition idle_sock :: sock where
  "idle_sock =
     \<lparr>sk_next = 0, sk_num = 0, sk_prot = 0, sk_mtu = 0, sk_saddr = 0, sk_daddr = 0, sk_priority = 0,
      sk_send_head = 0, sk_send_tail = 0, sk_wmem_alloc = 0, sk_rmem_alloc = 0, sk_packets_out = 0, sk_state = 0,
      sk_err = 0, sk_inuse_flag = 0, sk_dead = 0, sk_ack_backlog = 0, sk_max_ack_backlog = 0, sk_zapped = 0,
      sk_ack_timed = 0, sk_keepopen = 0, sk_done = 0, sk_localroute = 0, sk_retransmits = 0, sk_window_clamp = 0,
      sk_write_seq = 0, sk_sent_seq = 0, sk_acked_seq = 0, sk_copied_seq = 0, sk_window_seq = 0, sk_fin_seq = 0,
      sk_rcv_ack_seq = 0, sk_cong_window = 0, sk_cong_count = 0, sk_ssthresh = 0, sk_mss = 0, sk_max_window = 0,
      sk_rto = 0, sk_rtt = 0, sk_backoff = 0, sk_shutdown = 0, sk_window = 0, sk_user_mss = 0, sk_bytes_rcv = 0,
      sk_ip_xmit_timeout = 0, sk_ip_tos = 0, sk_ip_ttl = 0, sk_timeout = 0, sk_partial = 0, sk_sleep = 0,
      sk_socket = 0\<rparr>"

definition net_example :: reg_heap where
  "net_example =
     \<lparr>l_next = (\<lambda>_. 0), l_prev = (\<lambda>_. 0), tm_expires = (\<lambda>_. 0), tm_jiffies = 0,
      timer_header = 0, skb_pkt_type = (\<lambda>_. 0), skb_len = (\<lambda>_. 0), skb_dev = (\<lambda>_. 0),
      skb_free = (\<lambda>_. 0), skb_arp = (\<lambda>_. 0), skb_users = (\<lambda>_. 0),
      skb_saddr = (\<lambda>_. 0), skb_raddr = (\<lambda>_. 0), skb_used = (\<lambda>_. 0),
      skb_h = (\<lambda>_. 0), skb_when = (\<lambda>_. 0), skb_ip_hdr = (\<lambda>_. 0), skb_sk = (\<lambda>_. 0),
      skb_localroute = (\<lambda>_. 0), skb_cache_next = (\<lambda>_. 0), dev_mtu = (\<lambda>_. 0),
      dev_name = (\<lambda>_. 0), dev_next = (\<lambda>_. 0), dev_addr_len = (\<lambda>_. 0),
      dev_type = (\<lambda>_. 0), pa_addr = (\<lambda>_. 0), pa_broadcast = (\<lambda>_. 0),
      pa_mask = (\<lambda>_. 0), hard_header_len = (\<lambda>_. 0), dev_flags = (\<lambda>_. 0),
      net_mem = (\<lambda>_. 0), rt_next = (\<lambda>_. 0), rt_dst = (\<lambda>_. 0), rt_mask = (\<lambda>_. 0),
      rt_gateway = (\<lambda>_. 0), rt_flags = (\<lambda>_. 0), rt_use = (\<lambda>_. 0), rt_mss = (\<lambda>_. 0),
      rt_window = (\<lambda>_. 0), rt_dev = (\<lambda>_. 0), rt_base = 0, rt_loopback = 0, dev_base = 500,
      dev_tbusy = (\<lambda>_. 0), backlog = 0, backlog_size = 0, rx_dropping = False, in_bh = 0, in_bh_addr = 0,
      ptype_base = 0, pt_type = (\<lambda>_. 0), pt_dev = (\<lambda>_. 0), pt_next = (\<lambda>_. 0),
      at_next = (\<lambda>_. 0), at_last_used = (\<lambda>_. 0), at_flags = (\<lambda>_. 0),
      at_ip = (\<lambda>_. 0), at_mask = (\<lambda>_. 0), at_hlen = (\<lambda>_. 0), at_htype = (\<lambda>_. 0),
      at_dev = (\<lambda>_. 0), at_retries = (\<lambda>_. 0), arp_tables = (\<lambda>_. 0), arp_timer = 0,
      socks = (\<lambda>_. idle_sock), sock_array = (\<lambda>_ _. 0), prot_inuse = (\<lambda>_. 0),
      prot_retransmits = (\<lambda>_. 0), socknum_start = 0, ip_protocol = (\<lambda>_. 0),
      ip_proto_next = (\<lambda>_. 0), inet_protos = (\<lambda>_. 0), fr_offset = (\<lambda>_. 0),
      fr_end = (\<lambda>_. 0), fr_len = (\<lambda>_. 0), fr_skb = (\<lambda>_. 0), fr_ptr = (\<lambda>_. 0),
      fr_next = (\<lambda>_. 0), fr_prev = (\<lambda>_. 0), fq_mac = (\<lambda>_. 0), fq_iph = (\<lambda>_. 0),
      fq_len = (\<lambda>_. 0), fq_ihlen = (\<lambda>_. 0), fq_maclen = (\<lambda>_. 0),
      fq_fragments = (\<lambda>_. 0), fq_next = (\<lambda>_. 0), fq_prev = (\<lambda>_. 0),
      fq_dev = (\<lambda>_. 0), ipfrag_queue = 0, ip_id_count = 0, nb_next = (\<lambda>_. 0)(100 := 200),
      nb_priority = (\<lambda>_. 5)(100 := 1), netdev_chain = 100, dev_start = (\<lambda>_. 0),
      dev_family = (\<lambda>_. 0), ethdev_index = (\<lambda>_. 0), pops = (\<lambda>_. 0),
      po_family = (\<lambda>_. 0), prot_highestinuse = (\<lambda>_. 0)\<rparr>"

lemma net_example_fields [simp]:
  "dev_base net_example = 500"
  "dev_next net_example = (\<lambda>_. 0)"
  "dev_start net_example = (\<lambda>_. 0)"
  "netdev_chain net_example = 100"
  "nb_next net_example = (\<lambda>_. 0)(100 := 200)"
  "nb_priority net_example = (\<lambda>_. 5)(100 := 1)"
  "sock_array net_example = (\<lambda>_ _. 0)"
  "socks net_example = (\<lambda>_. idle_sock)"
  "socknum_start net_example = 0"
  "dev_name net_example = (\<lambda>_. 0)"
  "dev_flags net_example = (\<lambda>_. 0)"
  by (simp_all add: net_example_def)

end
