(* ===== verification/Tcp_props.thy ===== *)
theory Tcp_props
  imports Tcp Net_example Cfs
begin

section \<open>Accepting connections\<close>

text \<open>
  The connections that wait for \<^verbatim>\<open>tcp_accept\<close> are the packets of the receive queue of a listening socket.
  The first of them whose socket is established is taken out and its socket handed over; the
  others keep their order.
\<close>

definition waiting :: "'a tcp_heap_scheme \<Rightarrow> addr \<Rightarrow> addr list \<Rightarrow> bool" where
  "waiting s sk q \<longleftrightarrow> ring s (sk + 236) q"

definition established :: "'a tcp_heap_scheme \<Rightarrow> addr \<Rightarrow> bool" where
  "established s p \<longleftrightarrow> sk_state (socks s (skb_sk s p)) = TCP_ESTABLISHED \<or> sk_state (socks s (skb_sk s p)) = TCP_FIN_WAIT2"

text \<open>
  A listening socket at 1000 with two packets in its queue: one at 2000 for the socket at 3000,
  which has not got its last acknowledgement, and one at 2100 for the socket at 3100, which is
  established.
\<close>

definition tcp_example :: tcp_heap where
  "tcp_example =
     ip_heap.extend
       (ip_heap.truncate net_example
        \<lparr>l_next := (\<lambda>_. 0)(1236 := 2000, 2000 := 2100, 2100 := 1236),
         l_prev := (\<lambda>_. 0)(1236 := 2100, 2000 := 1236, 2100 := 2000),
         skb_sk := (\<lambda>_. 0)(2000 := 3000, 2100 := 3100),
         socks := (\<lambda>_. idle_sock)(1000 := idle_sock\<lparr>sk_state := TCP_LISTEN, sk_ack_backlog := 2\<rparr>,
           3000 := idle_sock\<lparr>sk_state := TCP_SYN_RECV\<rparr>, 3100 := idle_sock\<lparr>sk_state := TCP_ESTABLISHED\<rparr>)\<rparr>)
       (tcp_heap.fields
         (sched_heap.extend example_alone (wait_heap.fields (\<lambda>_. 0) (\<lambda>_. 0) (\<lambda>_. 0) (\<lambda>_. 0)))
         0 (\<lambda>_. 0) (\<lambda>_. 0) (\<lambda>_. 0) (\<lambda>_. 0))"

lemma tcp_find_loop_step:
  "tcp_find_loop h p s =
     (if established s p then Some p else if l_next s p \<noteq> h then tcp_find_loop h (l_next s p) s else Some NULL)"
  by (subst tcp_find_loop.simps) (simp add: established_def Let_def)

lemma tcp_find_loop_ring:
  assumes "ring s h (xs @ p # ps)"
  shows "tcp_find_loop h p s = Some (case find (established s) (p # ps) of None \<Rightarrow> NULL | Some x \<Rightarrow> x)"
  using assms
proof (induction ps arbitrary: xs p)
  case Nil
  then have "l_next s p = h" using ring_neighbours by fastforce
  then show ?case by (subst tcp_find_loop_step) simp
next
  case (Cons x ps)
  have nx: "l_next s p = x" "x \<noteq> h" using ring_neighbours [OF Cons.prems] Cons.prems by (auto simp: ring_def)
  show ?case
    using Cons.IH [of "xs @ [p]" x] Cons.prems nx by (subst tcp_find_loop_step) simp
qed

lemma tcp_find_established_ring:
  assumes "waiting s sk q"
  shows "tcp_find_established sk s = Some (case find (established s) q of None \<Rightarrow> NULL | Some x \<Rightarrow> x)"
proof (cases q)
  case Nil
  then show ?thesis using assms by (simp add: tcp_find_established_def skb_peek_def waiting_def ring_def)
next
  case (Cons p ps)
  then have "skb_peek (sk + 236) s = p" "p \<noteq> NULL"
    using assms by (auto simp: skb_peek_def waiting_def ring_def)
  then show ?thesis
    using tcp_find_loop_ring [of s "sk + 236" "[]" p ps] assms Cons
    by (simp add: tcp_find_established_def waiting_def)
qed

lemma skb_unlink_fields [simp]:
  "socks (skb_unlink p s) = socks s" "skb_sk (skb_unlink p s) = skb_sk s"
  by (simp_all add: skb_unlink_def Let_def set_next_def set_prev_def)

lemma find_Some_split:
  assumes "find P xs = Some x" shows "\<exists>ys zs. xs = ys @ x # zs \<and> x \<notin> set ys \<and> remove1 x xs = ys @ zs"
proof -
  have "x \<in> set xs" using assms by (auto simp: find_Some_iff)
  then obtain ys zs where "xs = ys @ x # zs" "x \<notin> set ys" by (meson split_list_first)
  then show ?thesis by (auto simp: remove1_append)
qed

lemma tcp_dequeue_established_ring:
  assumes "waiting s sk q"
  shows "case find (established s) q of
      None \<Rightarrow> tcp_dequeue_established sk s = Some (NULL, s)
    | Some x \<Rightarrow> x \<noteq> NULL \<and> tcp_dequeue_established sk s = Some (x, skb_unlink x s) \<and>
        waiting (skb_unlink x s) sk (remove1 x q)"
proof (cases "find (established s) q")
  case None
  then show ?thesis using tcp_find_established_ring [OF assms] by (simp add: tcp_dequeue_established_def)
next
  case (Some x)
  obtain ys zs where q: "q = ys @ x # zs" "remove1 x q = ys @ zs" using find_Some_split [OF Some] by blast
  have "x \<noteq> NULL" using assms q(1) by (auto simp: waiting_def ring_def)
  moreover have "waiting (skb_unlink x s) sk (remove1 x q)"
    using assms skb_unlink_ring q unfolding waiting_def by metis
  ultimately show ?thesis
    using Some tcp_find_established_ring [OF assms] by (simp add: tcp_dequeue_established_def)
qed

lemma ring_upd_sk: "ring (upd_sk sk f s) h xs = ring s h xs"
  by (rule ring_cong) (simp_all add: upd_sk_def)

lemma upd_sk_fields [simp]:
  "socks (upd_sk sk f s) = (socks s)(sk := f (socks s sk))" "skb_sk (upd_sk sk f s) = skb_sk s"
  by (simp_all add: upd_sk_def)

lemma waiting_upd_sk [simp]: "waiting (upd_sk sk' f s) sk q = waiting s sk q"
  by (simp add: waiting_def ring_upd_sk)

lemma tcp_example_fields [simp]:
  "l_next tcp_example = (\<lambda>_. 0)(1236 := 2000, 2000 := 2100, 2100 := 1236)"
  "l_prev tcp_example = (\<lambda>_. 0)(1236 := 2100, 2000 := 1236, 2100 := 2000)"
  "skb_sk tcp_example = (\<lambda>_. 0)(2000 := 3000, 2100 := 3100)"
  "socks tcp_example = (\<lambda>_. idle_sock)(1000 := idle_sock\<lparr>sk_state := TCP_LISTEN, sk_ack_backlog := 2\<rparr>,
     3000 := idle_sock\<lparr>sk_state := TCP_SYN_RECV\<rparr>, 3100 := idle_sock\<lparr>sk_state := TCP_ESTABLISHED\<rparr>)"
  by (simp_all add: tcp_example_def ip_heap.defs tcp_heap.defs)

lemma waiting_example: "waiting tcp_example 1000 [2000, 2100]"
  by (simp add: waiting_def ring_def)

text \<open>
  C9: \<^verbatim>\<open>tcp_accept\<close> on a listening socket hands over the socket of the first waiting connection that is
  established, takes its packet out of the queue, leaves the other connections in order and counts
  the backlog down. If there is none and the call must not block, it returns NULL with the
  error EAGAIN and the queue is as before.
\<close>

theorem tcp_accept_first_established:
  assumes "sk_state (socks s sk) = TCP_LISTEN" "waiting s sk q"
  shows "case find (established s) q of
      Some x \<Rightarrow> \<exists>t. tcp_accept others wait sk flags s = Some (skb_sk s x, t) \<and> waiting t sk (remove1 x q) \<and>
        sk_ack_backlog (socks t sk) = sk_ack_backlog (socks s sk) - 1
    | None \<Rightarrow> flags AND 0x800 \<noteq> 0 \<longrightarrow>
        (\<exists>t. tcp_accept others wait sk flags s = Some (NULL, t) \<and> sk_err (socks t sk) = 11 \<and> waiting t sk q)"
proof -
  define u where "u = upd_sk sk (\<lambda>k. k\<lparr>sk_inuse_flag := 1\<rparr>) s"
  have "established u = established s" by (rule ext) (simp add: u_def established_def)
  moreover have "waiting u sk q" using assms(2) by (simp add: u_def)
  ultimately have d: "case find (established s) q of
      None \<Rightarrow> tcp_dequeue_established sk u = Some (NULL, u)
    | Some x \<Rightarrow> x \<noteq> NULL \<and> tcp_dequeue_established sk u = Some (x, skb_unlink x u) \<and>
        waiting (skb_unlink x u) sk (remove1 x q)"
    using tcp_dequeue_established_ring [of u sk q] by simp
  have a: "tcp_accept others wait sk flags s =
    do { (skb, s) \<leftarrow> tcp_accept_loop others wait sk flags u;
         if skb = NULL then Some (NULL, s)
         else Some (skb_sk s skb, upd_sk sk (\<lambda>k. k\<lparr>sk_ack_backlog := sk_ack_backlog k - 1\<rparr>) s) }"
    using assms(1) by (simp add: tcp_accept_def u_def)
  show ?thesis
  proof (cases "find (established s) q")
    case None
    then have "tcp_accept_loop others wait sk flags u = Some (NULL, upd_sk sk (\<lambda>k. k\<lparr>sk_err := 11\<rparr>) u)"
      if "flags AND 0x800 \<noteq> 0"
      using d that by (subst tcp_accept_loop.simps) simp
    then have "tcp_accept others wait sk flags s = Some (NULL, upd_sk sk (\<lambda>k. k\<lparr>sk_err := 11\<rparr>) u)"
      if "flags AND 0x800 \<noteq> 0"
      using that a by simp
    moreover have "waiting (upd_sk sk (\<lambda>k. k\<lparr>sk_err := 11\<rparr>) u) sk q"
      "sk_err (socks (upd_sk sk (\<lambda>k. k\<lparr>sk_err := 11\<rparr>) u) sk) = 11"
      using \<open>waiting u sk q\<close> by simp_all
    ultimately show ?thesis unfolding None option.case by blast
  next
    case (Some x)
    then have x: "x \<noteq> NULL" using d by simp
    have "tcp_accept_loop others wait sk flags u = Some (x, skb_unlink x u)"
      using d Some by (subst tcp_accept_loop.simps) simp
    then have "tcp_accept others wait sk flags s =
      Some (skb_sk s x, upd_sk sk (\<lambda>k. k\<lparr>sk_ack_backlog := sk_ack_backlog k - 1\<rparr>) (skb_unlink x u))"
      using a x by (simp add: u_def)
    then show ?thesis using Some d by (simp add: u_def)
  qed
qed

theorem tcp_accept_first_established_witness:
  "\<exists>t. tcp_accept (\<lambda>s. s) 0 1000 0 tcp_example = Some (3100, t) \<and> waiting t 1000 [2000] \<and>
     sk_ack_backlog (socks t 1000) = 1"
  using tcp_accept_first_established [of tcp_example 1000 "[2000, 2100]" 0 "\<lambda>s. s" 0] waiting_example
  by (simp add: established_def)

end
