(* ===== verification/Netreg_props.thy ===== *)
theory Netreg_props
  imports Net_example
begin

section \<open>What registration promises\<close>

text \<open>
  Lists reached through pointers to links: a locale for the two operations on a link, one for the
  loop that removes an element, and their interpretations on the lists of packet types, notifiers
  and devices. Then the properties of the registration functions, of the masks they accept and of
  the initialisation.
\<close>

fun lchain :: "(addr option \<Rightarrow> 's \<Rightarrow> addr) \<Rightarrow> 's \<Rightarrow> addr option \<Rightarrow> addr list \<Rightarrow> bool" where
  "lchain link s l [] \<longleftrightarrow> link l s = NULL"
| "lchain link s l (x # xs) \<longleftrightarrow> link l s = x \<and> x \<noteq> NULL \<and> lchain link s (Some x) xs"

fun dev_link :: "addr option \<Rightarrow> 'a reg_heap_scheme \<Rightarrow> addr" where
  "dev_link None s = dev_base s"
| "dev_link (Some d) s = dev_next s d"

fun set_dev_link :: "addr option \<Rightarrow> addr \<Rightarrow> 'a reg_heap_scheme \<Rightarrow> 'a reg_heap_scheme" where
  "set_dev_link None p s = s\<lparr>dev_base := p\<rparr>"
| "set_dev_link (Some d) p s = s\<lparr>dev_next := (dev_next s)(d := p)\<rparr>"

text \<open>The link behind the elements \<open>xs\<close> of a list from \<open>l\<close>.\<close>

fun seg_end :: "addr option \<Rightarrow> addr list \<Rightarrow> addr option" where
  "seg_end l [] = l"
| "seg_end l (x # xs) = seg_end (Some x) xs"

text \<open>The chain of notifiers: the list from \<^verbatim>\<open>netdev_chain\<close>, by priority.\<close>

definition notifiers :: "'a reg_heap_scheme \<Rightarrow> addr list \<Rightarrow> bool" where
  "notifiers s ns \<longleftrightarrow> lchain nb_link s None ns \<and> distinct ns \<and>
     sorted_wrt (\<lambda>a b. nb_priority s a \<le> nb_priority s b) ns"

definition add_notifier :: "(addr \<Rightarrow> int) \<Rightarrow> addr \<Rightarrow> addr list \<Rightarrow> addr list" where
  "add_notifier pr n ns = takeWhile (\<lambda>m. pr m \<le> pr n) ns @ n # dropWhile (\<lambda>m. pr m \<le> pr n) ns"

text \<open>An initialisation function that succeeds and leaves the list of devices alone.\<close>

definition plain_init :: "'a reg_heap_scheme reg_ops \<Rightarrow> addr \<Rightarrow> bool" where
  "plain_init C dev \<longleftrightarrow> (\<forall>s. \<exists>t. call_init C dev s = Some (0, t) \<and> dev_base t = dev_base s \<and>
     dev_next t = dev_next s \<and> dev_start t = dev_start s)"

text \<open>The functions of a device that is initialised by \<open>loopback_init\<close> and has no others.\<close>

definition loopback_ops :: "reg_heap reg_ops" where
  "loopback_ops =
     \<lparr>has_init = (\<lambda>_. True), call_init = (\<lambda>dev s. Some (loopback_init dev s)),
      has_open = (\<lambda>_. False), call_open = (\<lambda>_ s. Some (0, s)), has_stop = (\<lambda>_. False),
      call_stop = (\<lambda>_ s. Some (0, s)), notifier_call = (\<lambda>_ _ _ s. Some (0, s)), arp_device_down = (\<lambda>_ s. Some s)\<rparr>"

lemma Some_in_image [simp]: "Some x \<in> Some ` A \<longleftrightarrow> x \<in> A"
  by auto

lemma seg_end_snoc [simp]: "seg_end l (xs @ [x]) = Some x"
  by (induction xs arbitrary: l) auto

lemma lchain_cong:
  "(\<And>k. k \<in> insert l (Some ` set xs) \<Longrightarrow> link k t = link k s) \<Longrightarrow> lchain link t l xs = lchain link s l xs"
  by (induction xs arbitrary: l) auto

lemma lchain_nonnull: "lchain link s l xs \<Longrightarrow> NULL \<notin> set xs"
  by (induction xs arbitrary: l) auto

text \<open>
  A list that is followed along \<open>xs\<close>, and whose last element links back to the first, has no end:
  no finite list of addresses is its content.
\<close>

lemma lchain_follow:
  assumes "lchain link t l zs" "lchain link s l (xs @ ys)" "xs \<noteq> []"
    "\<And>k. k \<in> insert l (Some ` set (butlast xs)) \<Longrightarrow> link k t = link k s"
  shows "\<exists>ws. zs = xs @ ws \<and> lchain link t (Some (last xs)) ws"
  using assms
proof (induction xs arbitrary: l zs)
  case (Cons x xs)
  then obtain w where z: "zs = x # w" "lchain link t (Some x) w" by (cases zs) auto
  show ?case
  proof (cases "xs = []")
    case False
    then obtain ws where "w = xs @ ws" "lchain link t (Some (last xs)) ws"
      using Cons.IH [OF z(2)] Cons.prems by auto
    then show ?thesis using z False by simp
  qed (use z in simp)
qed simp

lemma lchain_loop:
  assumes "lchain link s l (xs @ ys)" "xs \<noteq> []" "link (Some (last xs)) t = link l t"
    "\<And>k. k \<in> insert l (Some ` set (butlast xs)) \<Longrightarrow> link k t = link k s"
  shows "\<not> lchain link t l zs"
proof (induction zs rule: length_induct)
  case (1 zs)
  show ?case
  proof
    assume "lchain link t l zs"
    then obtain ws where ws: "zs = xs @ ws" "lchain link t (Some (last xs)) ws"
      using lchain_follow [OF _ assms(1,2,4)] by blast
    then have "lchain link t l ws" using assms(3) by (cases ws) simp_all
    moreover have "length ws < length zs" using ws(1) assms(2) by simp
    ultimately show False using 1 by blast
  qed
qed

locale links =
  fixes link :: "addr option \<Rightarrow> 's \<Rightarrow> addr"
    and set_link :: "addr option \<Rightarrow> addr \<Rightarrow> 's \<Rightarrow> 's"
  assumes link_set: "link k (set_link l p s) = (if k = l then p else link k s)"
begin

lemma lchain_set_other:
  "l \<notin> insert k (Some ` set xs) \<Longrightarrow> lchain link (set_link l p s) k xs = lchain link s k xs"
  by (rule lchain_cong) (auto simp: link_set)

lemma lchain_unlink:
  assumes "lchain link s l (x # xs)" "l \<notin> Some ` set (x # xs)" "x \<notin> set xs"
  shows "lchain link (set_link l (link (Some x) s) s) l xs"
  using assms by (cases xs) (auto simp: link_set lchain_set_other)

lemma lchain_insert:
  assumes "lchain link s l xs" "x \<notin> set xs" "x \<noteq> NULL" "l \<notin> Some ` set (x # xs)"
  shows "lchain link (set_link l x (set_link (Some x) (link l s) s)) l (x # xs)"
  using assms by (cases xs) (auto simp: link_set lchain_set_other)

lemma lchain_at: "lchain link s l (xs @ ys) \<Longrightarrow> link (seg_end l xs) s = hd (ys @ [NULL])"
  by (induction xs arbitrary: l) (cases ys; auto)+

lemma lchain_insert_at:
  assumes "lchain link s l (xs @ ys)" "distinct (xs @ ys)" "x \<notin> set (xs @ ys)" "x \<noteq> NULL"
    "l \<notin> Some ` set (x # xs @ ys)"
  shows "lchain link (set_link (seg_end l xs) x (set_link (Some x) (link (seg_end l xs) s) s)) l (xs @ x # ys)"
  using assms
proof (induction xs arbitrary: l)
  case Nil
  then show ?case using lchain_insert [of s l ys x] by simp
next
  case (Cons y xs)
  have "seg_end (Some y) xs \<noteq> l" using Cons.prems(5) by (cases xs rule: rev_cases) auto
  then show ?case using Cons.IH [of "Some y"] Cons.prems by (auto simp: link_set)
qed

end

locale link_removal = links +
  fixes remove :: "addr \<Rightarrow> addr option \<Rightarrow> 's \<Rightarrow> 's option"
  assumes remove_step: "remove x l s =
    (let c = link l s in
     if c = NULL then Some s
     else if c = x then Some (set_link l (link (Some x) s) s)
     else remove x (Some c) s)"
begin

lemma remove_chain:
  assumes "lchain link s l xs" "distinct xs" "l \<notin> Some ` set xs"
  shows "\<exists>t. remove x l s = Some t \<and> lchain link t l (remove1 x xs) \<and>
    (\<forall>k. k \<notin> insert l (Some ` set xs) \<longrightarrow> link k t = link k s)"
  using assms
proof (induction xs arbitrary: l)
  case Nil
  then show ?case by (subst remove_step) simp
next
  case (Cons y ys)
  show ?case
  proof (cases "y = x")
    case True
    then have "remove x l s = Some (set_link l (link (Some x) s) s)"
      using Cons.prems by (subst remove_step) auto
    then show ?thesis
      using True lchain_unlink [of s l x ys] Cons.prems by (auto simp: link_set)
  next
    case False
    obtain t where t: "remove x (Some y) s = Some t" "lchain link t (Some y) (remove1 x ys)"
      and frame: "\<forall>k. k \<notin> insert (Some y) (Some ` set ys) \<longrightarrow> link k t = link k s"
      using Cons.IH [of "Some y"] Cons.prems by auto
    have "remove x l s = Some t"
      using t(1) False Cons.prems by (subst remove_step) auto
    then show ?thesis using t(2) frame False Cons.prems by auto
  qed
qed

end

interpretation packs: link_removal pt_link set_pt_link remove_pack_loop
proof
  show "pt_link k (set_pt_link l p s) = (if k = l then p else pt_link k s)"
    for k l p and s :: "'a dev_heap_scheme"
    by (cases k; cases l) auto
  show "remove_pack_loop x l s =
    (let c = pt_link l s in
     if c = NULL then Some s
     else if c = x then Some (set_pt_link l (pt_link (Some x) s) s)
     else remove_pack_loop x (Some c) s)" for x l and s :: "'a dev_heap_scheme"
    by (subst remove_pack_loop.simps) (simp add: Let_def)
qed

interpretation nbs: link_removal nb_link set_nb_link notifier_unregister_loop
proof
  show "nb_link k (set_nb_link l p s) = (if k = l then p else nb_link k s)"
    for k l p and s :: "'a reg_heap_scheme"
    by (cases k; cases l) auto
  show "notifier_unregister_loop x l s =
    (let c = nb_link l s in
     if c = NULL then Some s
     else if c = x then Some (set_nb_link l (nb_link (Some x) s) s)
     else notifier_unregister_loop x (Some c) s)" for x l and s :: "'a reg_heap_scheme"
    by (subst notifier_unregister_loop.simps) (simp add: Let_def)
qed

interpretation devs: links dev_link set_dev_link
proof
  show "dev_link k (set_dev_link l p s) = (if k = l then p else dev_link k s)"
    for k l p and s :: "'a reg_heap_scheme"
    by (cases k; cases l) auto
qed


subsection \<open>Notifiers\<close>

lemma notifier_place_chain:
  "lchain nb_link s l ns \<Longrightarrow> T = takeWhile (\<lambda>m. nb_priority s m \<le> nb_priority s n) ns \<Longrightarrow>
   notifier_place n l prev s = Some (seg_end l T, last (prev # T))"
proof (induction ns arbitrary: l prev T)
  case Nil
  then show ?case by (subst notifier_place.simps) simp
next
  case (Cons m ns)
  then show ?case by (subst notifier_place.simps) (auto simp: Let_def)
qed

lemma nb_priority_set_link [simp]: "nb_priority (set_nb_link l p s) = nb_priority s"
  by (cases l) auto

lemma set_take_drop_While: "set (takeWhile P xs) \<union> set (dropWhile P xs) = set xs"
  by (induction xs) auto

lemma set_add_notifier [simp]: "set (add_notifier pr n ns) = insert n (set ns)"
  using set_take_drop_While [of "\<lambda>m. pr m \<le> pr n" ns] by (auto simp: add_notifier_def)

lemma add_notifier_sorted:
  assumes "sorted_wrt (\<lambda>a b. pr a \<le> pr b) ns"
  shows "sorted_wrt (\<lambda>a b. pr a \<le> pr b) (add_notifier pr n ns)"
  using assms
proof (induction ns)
  case (Cons m ns)
  then show ?case by (fastforce simp: add_notifier_def dest: set_takeWhileD set_dropWhileD)
qed (simp add: add_notifier_def)

lemma add_notifier_distinct: "distinct ns \<Longrightarrow> n \<notin> set ns \<Longrightarrow> distinct (add_notifier pr n ns)"
  by (induction ns) (auto simp: add_notifier_def dest: set_takeWhileD set_dropWhileD)

lemma remove1_add_notifier: "n \<notin> set ns \<Longrightarrow> remove1 n (add_notifier pr n ns) = ns"
  by (auto simp: add_notifier_def remove1_append dest: set_takeWhileD)

lemma register_loop:
  assumes "lchain nb_link u None (n # ns)" "distinct (n # ns)" "prev \<in> insert n (set ns)"
  shows "\<not> lchain nb_link (set_nb_link (Some prev) n u) None ms"
proof -
  obtain xs ys where xy: "n # ns = (xs @ [prev]) @ ys" using assms(3) split_list [of prev "n # ns"] by auto
  have "prev \<notin> set xs" using assms(2) unfolding xy by simp
  then show ?thesis
    using assms(1) unfolding xy
    by (intro lchain_loop [where s = u and xs = "xs @ [prev]" and ys = ys])
      (use assms(1) in \<open>auto simp: nbs.link_set simp del: set_nb_link.simps nb_link.simps\<close>)
qed

lemma register_chain:
  assumes ns: "notifiers s ns" and n: "n \<notin> set ns" "n \<noteq> NULL"
  shows "\<exists>t. notifier_chain_register prev n s = Some (0, t) \<and> nb_priority t = nb_priority s \<and>
    (if (\<exists>m \<in> set ns. nb_priority s m \<le> nb_priority s n) \<or> prev \<notin> insert n (set ns)
     then notifiers t (add_notifier (nb_priority s) n ns) else \<not> (\<exists>ms. lchain nb_link t None ms))"
proof -
  define T D where TD: "T = takeWhile (\<lambda>m. nb_priority s m \<le> nb_priority s n) ns"
    "D = dropWhile (\<lambda>m. nb_priority s m \<le> nb_priority s n) ns"
  have eq: "ns = T @ D" by (simp add: TD)
  have ch: "lchain nb_link s None (T @ D)" and d: "distinct (T @ D)"
    using ns eq by (auto simp: notifiers_def)
  have first: "T = [] \<longleftrightarrow> \<not> (\<exists>m \<in> set ns. nb_priority s m \<le> nb_priority s n)"
    using ns unfolding TD(1) notifiers_def by (cases ns) auto
  let ?l = "seg_end None T" and ?p = "last (prev # T)"
  let ?u = "set_nb_link ?l n (set_nb_link (Some n) (nb_link ?l s) s)"
  let ?t = "set_nb_link (Some ?p) n ?u"
  have place: "notifier_place n None prev s = Some (?l, ?p)"
    using notifier_place_chain ns by (metis TD(1) notifiers_def)
  have u: "lchain nb_link ?u None (T @ n # D)"
    using nbs.lchain_insert_at [OF ch d] n eq by auto
  have reg: "notifier_chain_register prev n s = Some (0, ?t)"
    by (simp add: notifier_chain_register_def place Let_def)
  have good: "notifiers ?t (add_notifier (nb_priority s) n ns)" if prev: "T \<noteq> [] \<or> prev \<notin> insert n (set ns)"
  proof -
    have "lchain nb_link ?t None (T @ n # D)"
    proof (cases T rule: rev_cases)
      case Nil
      then show ?thesis using u prev eq by (subst nbs.lchain_set_other) auto
    next
      case (snoc T' x)
      then have "nb_link k ?t = nb_link k ?u" for k by (simp add: nbs.link_set)
      then show ?thesis using u lchain_cong by metis
    qed
    then show ?thesis
      using add_notifier_sorted add_notifier_distinct [OF _ n(1)] ns
      by (simp add: notifiers_def add_notifier_def TD del: set_nb_link.simps)
  qed
  have bad: "\<not> lchain nb_link ?t None ms" if "T = []" "prev \<in> insert n (set ns)" for ms
    using register_loop [of ?u n D prev ms] u d n eq that by (simp del: set_nb_link.simps)
  show ?thesis
    using good bad first by (intro exI [of _ ?t] conjI reg) (auto simp del: set_nb_link.simps)
qed

lemma unregister_chain:
  assumes "notifiers s ns"
  shows "\<exists>t. notifier_chain_unregister n s = Some (0, t) \<and> lchain nb_link t None (remove1 n ns)"
  using nbs.remove_chain [of s None ns n] assms
  by (auto simp: notifier_chain_unregister_def notifiers_def)

subsection \<open>Closing a device\<close>

lemma dev_close_drain_less: "dev_close_drain dev ct s = Some (ct', s') \<Longrightarrow> ct' < 3"
proof -
  assume a: "dev_close_drain dev ct s = Some (ct', s')"
  have "fst (ct', s') < 3"
  proof (rule dev_close_drain.raw_induct [OF _ a])
    fix f dev ct and s :: "'b reg_heap_scheme" and r
    assume IH: "\<And>dev ct s r. f dev ct s = Some r \<Longrightarrow> fst r < 3"
      and "(if 3 \<le> ct then None
            else let (skb, s) = skb_dequeue (dev + 76 + 8 * of_nat ct) s
                 in if skb = NULL then Some (ct, s)
                    else f dev (if skb_free s skb \<noteq> 0 then ct + 1 else ct) s) = Some r"
    then show "fst r < 3" by (auto split: if_splits prod.splits simp: Let_def)
  qed
  then show ?thesis by simp
qed

lemma dev_close_loop_none: "ct < 3 \<Longrightarrow> dev_close_loop dev ct s = None"
proof (rule ccontr)
  assume ct: "ct < 3" and "dev_close_loop dev ct s \<noteq> None"
  then obtain t where t: "dev_close_loop dev ct s = Some t" by auto
  have "\<not> ct < 3"
  proof (rule dev_close_loop.raw_induct [OF _ t])
    fix f dev ct and s t :: "'b reg_heap_scheme"
    assume IH: "\<And>dev ct s t. f dev ct s = Some t \<Longrightarrow> \<not> ct < (3 :: nat)"
      and "(if ct < 3 then dev_close_drain dev ct s \<bind> (\<lambda>(ct, s). f dev ct s) else Some s) = Some t"
    then show "\<not> ct < 3"
      by (auto split: if_splits bind_splits dest!: dev_close_drain_less)
  qed
  then show False using ct by simp
qed

lemma add_protocols_none: "p \<noteq> NULL \<Longrightarrow> add_protocols p s = None"
proof (rule ccontr)
  assume p: "p \<noteq> NULL" and "add_protocols p s \<noteq> None"
  then obtain t where t: "add_protocols p s = Some t" by auto
  have "p = NULL" by (rule add_protocols.raw_induct [OF _ t]) (auto split: if_splits)
  then show False using p by simp
qed

subsection \<open>Devices\<close>

lemma last_dev_chain:
  "lchain dev_link s l (d # ds) \<Longrightarrow> last_dev d s = Some (last (d # ds))"
proof (induction ds arbitrary: l d)
  case Nil
  then show ?case by (subst last_dev.simps) simp
next
  case (Cons e ds)
  then show ?case using Cons.IH [of "Some d" e] by (subst last_dev.simps) auto
qed

lemma dev_before_chain:
  "lchain dev_link s l (ds @ [dev]) \<Longrightarrow> ds \<noteq> [] \<Longrightarrow> distinct (ds @ [dev]) \<Longrightarrow>
   dev_before dev (dev_link l s) s = Some (last ds)"
proof (induction ds arbitrary: l)
  case (Cons d ds)
  show ?case
  proof (cases ds)
    case Nil
    then show ?thesis using Cons.prems by (subst dev_before.simps) auto
  next
    case (Cons e es)
    then have "dev_before dev (dev_link (Some d) s) s = Some (last ds)"
      using Cons.IH [of "Some d"] Cons.prems by auto
    then show ?thesis using Cons Cons.prems by (subst dev_before.simps) auto
  qed
qed simp

lemma eth_slot_fields [simp]:
  "dev_base (eth_slot dev s) = dev_base s" "dev_next (eth_slot dev s) = dev_next s"
  "dev_start (eth_slot dev s) = dev_start s"
  by (auto simp: eth_slot_def split: option.splits)

lemma dev_chain_fields:
  fixes s t :: "'a reg_heap_scheme"
  assumes "dev_base t = dev_base s" "dev_next t = dev_next s"
  shows "lchain dev_link t l ds = lchain dev_link s l ds"
proof (rule lchain_cong)
  show "dev_link k t = dev_link k s" for k using assms by (cases k) auto
qed

lemma seg_end_last: "xs \<noteq> [] \<Longrightarrow> seg_end l xs = Some (last xs)"
  by (cases xs rule: rev_cases) auto

lemma append_dev_chain:
  assumes "lchain dev_link s None ds" "ds \<noteq> []" "distinct ds" "dev \<notin> set ds" "dev \<noteq> NULL"
  shows "lchain dev_link (s\<lparr>dev_next := (dev_next s)(last ds := dev, dev := NULL)\<rparr>) None (ds @ [dev])"
proof -
  have "dev_next s (last ds) = NULL"
    using devs.lchain_at [of s None ds "[]"] assms by (simp add: seg_end_last)
  moreover have "last ds \<noteq> dev" using assms by auto
  ultimately show ?thesis
    using devs.lchain_insert_at [of s None ds "[]" dev] assms
    by (simp add: seg_end_last fun_upd_twist)
qed

lemma register_dev_chain:
  assumes ds: "lchain dev_link s None ds" "distinct ds" and dev: "dev \<notin> set ds" "dev \<noteq> NULL"
    and C: "plain_init C dev"
  shows "\<exists>t. register_netdev C dev s = Some (0, t) \<and> lchain dev_link t None (ds @ [dev]) \<and>
    dev_start t = dev_start s"
proof -
  obtain u where u: "(if dev \<noteq> NULL \<and> has_init C dev then
        let s = (if dev_name s dev \<noteq> NULL
                 then eth_slot dev (s\<lparr>net_mem := (net_mem s)(dev_name s dev := 0x20)\<rparr>) else s)
        in call_init C dev s else Some (0, s)) = Some (0, u)"
    "dev_base u = dev_base s" "dev_next u = dev_next s" "dev_start u = dev_start s"
  proof (cases "has_init C dev")
    case True
    define v where "v = (if dev_name s dev \<noteq> NULL
      then eth_slot dev (s\<lparr>net_mem := (net_mem s)(dev_name s dev := 0x20)\<rparr>) else s)"
    have v: "dev_base v = dev_base s" "dev_next v = dev_next s" "dev_start v = dev_start s"
      by (simp_all add: v_def)
    obtain u where "call_init C dev v = Some (0, u)" "dev_base u = dev_base v" "dev_next u = dev_next v"
      "dev_start u = dev_start v"
      using C unfolding plain_init_def by blast
    with that [of u] True dev v show ?thesis by (simp add: v_def Let_def)
  qed (use that [of s] in simp)
  have ch: "lchain dev_link u None ds" using dev_chain_fields [OF u(2,3)] ds(1) by simp
  show ?thesis
  proof (cases "ds = []")
    case True
    then have "register_netdev C dev s = Some (0, u\<lparr>dev_base := dev, dev_next := (dev_next u)(dev := NULL)\<rparr>)"
      using ds(1) unfolding register_netdev_def Let_def [of "dev_base s"] u(1) by (simp add: u(2))
    then show ?thesis using True dev u(4) by simp
  next
    case False
    then have base: "dev_base s \<noteq> NULL" "dev_base s = hd ds" using ds by (cases ds; auto)+
    have "last_dev (dev_base s) u = Some (last ds)"
      using last_dev_chain [of u None "hd ds" "tl ds"] ch False base(2) by simp
    then have "register_netdev C dev s = Some (0, u\<lparr>dev_next := (dev_next u)(last ds := dev, dev := NULL)\<rparr>)"
      using base(1) unfolding register_netdev_def Let_def [of "dev_base s"] u(1) by (simp add: u(2))
    then show ?thesis using append_dev_chain [OF ch False ds(2) dev] u(4) by simp
  qed
qed

lemma drop_last_dev:
  assumes "lchain dev_link s None ((ds @ [x]) @ [dev])" "distinct ((ds @ [x]) @ [dev])"
  shows "lchain dev_link (s\<lparr>dev_next := (dev_next s)(last (ds @ [x]) := NULL)\<rparr>) None (ds @ [x])"
proof -
  have "lchain dev_link s l ((ds @ [x]) @ [dev]) \<Longrightarrow> distinct ((ds @ [x]) @ [dev]) \<Longrightarrow> l \<noteq> Some x \<Longrightarrow>
    lchain dev_link (set_dev_link (Some x) NULL s) l (ds @ [x])" for l
    by (induction ds arbitrary: l) (auto simp: devs.link_set simp del: set_dev_link.simps)
  then show ?thesis using assms by simp
qed

lemma unregister_dev_chain:
  assumes "lchain dev_link s None (ds @ [dev])" "ds \<noteq> []" "distinct (ds @ [dev])" "dev_start s dev = 0"
  shows "\<exists>t. unregister_netdev dev s = Some t \<and> lchain dev_link t None ds"
proof -
  have d: "dev_before dev (dev_base s) s = Some (last ds)"
    using dev_before_chain [OF assms(1-3)] by simp
  have nn: "last ds \<noteq> NULL" "dev \<noteq> NULL"
    using lchain_nonnull [OF assms(1)] assms(2) by (auto dest: last_in_set)
  have nx: "dev_next s (last ds) = dev" "dev_next s dev = NULL"
    using devs.lchain_at [OF assms(1)] devs.lchain_at [of s None "ds @ [dev]" "[]"] assms(1,2)
    by (simp_all add: seg_end_last)
  define t where "t = s\<lparr>dev_next := (dev_next s)(last ds := NULL)\<rparr>"
  obtain e x where e: "ds = e @ [x]" using assms(2) by (cases ds rule: rev_cases) auto
  have "lchain dev_link t None ds"
    using assms(1,3) unfolding t_def e by (rule drop_last_dev)
  then have "lchain dev_link (t\<lparr>ethdev_index := i\<rparr>) None ds" for i
    by (subst dev_chain_fields [of _ t]) simp_all
  moreover have "unregister_netdev dev s =
    Some (t\<lparr>ethdev_index := (if ethdev_index s 0 = dev then (ethdev_index s)(0 := NULL) else ethdev_index s)\<rparr>)"
    using nn nx assms(4) by (simp add: unregister_netdev_def d t_def Let_def)
  ultimately show ?thesis by blast
qed

lemma unregister_dev_kept:
  assumes "lchain dev_link s None (ds @ [dev])" "ds = [] \<or> dev_start s dev \<noteq> 0"
  shows "unregister_netdev dev s = Some s"
proof (cases "dev_start s dev = 0")
  case True
  then have "dev_base s = dev" "dev_next s dev = NULL" "dev \<noteq> NULL" using assms by auto
  moreover from this have "dev_before dev (dev_base s) s = Some NULL"
    by (subst dev_before.simps, subst dev_before.simps) simp
  ultimately show ?thesis by (simp add: unregister_netdev_def)
qed (simp add: unregister_netdev_def)

subsection \<open>Masks\<close>

lemma nat_and_Suc: "n AND Suc n = 0 \<Longrightarrow> \<exists>k. Suc n = 2 ^ k"
proof (induction n rule: less_induct)
  case (less n)
  show ?case
  proof (cases "even n")
    case True
    then obtain m where m: "n = 2 * m" by auto
    have "n AND Suc n = 2 * m" unfolding m by (subst and_rec) simp
    then have "Suc n = 2 ^ 0" using less.prems m by simp
    then show ?thesis by blast
  next
    case False
    then obtain m where m: "n = Suc (2 * m)" by (auto elim: oddE)
    have "n AND Suc n = 2 * (m AND Suc m)" unfolding m by (subst and_rec) simp
    then obtain k where "Suc m = 2 ^ k" using less.IH [of m] less.prems m by auto
    then have "Suc n = 2 ^ Suc k" using m by simp
    then show ?thesis by blast
  qed
qed

lemma low_bits_mask:
  assumes "(w :: u32) AND (w + 1) = 0"
  shows "\<exists>k \<le> 32. w = mask k"
proof (cases "w + 1 = 0")
  case True
  then have "w = - 1" by (simp add: eq_neg_iff_add_eq_0)
  moreover have "(- 1 :: u32) = mask 32" by (rule bit_word_eqI) (simp add: bit_simps)
  ultimately have "w = mask 32" by simp
  then show ?thesis by blast
next
  case False
  then have s: "unat (w + 1) = Suc (unat w)" using unatSuc [of w] by (simp add: add.commute)
  have "unat w AND unat (w + 1) = 0" using assms by (metis unat_0 unsigned_and_eq)
  then obtain k where k: "Suc (unat w) = 2 ^ k" using nat_and_Suc s by auto
  have "(2 :: nat) ^ k < 2 ^ 32" using unsigned_less [of "w + 1", where 'a = nat] s k by simp
  then have "k < 32" by (rule power_less_imp_less_exp [rotated]) simp
  moreover have "w = mask k"
  proof -
    have "w + 1 = of_nat (unat (w + 1))" by simp
    also have "\<dots> = 2 ^ k" unfolding s k by simp
    finally show ?thesis by (simp add: mask_eq_exp_minus_1 eq_diff_eq)
  qed
  ultimately show ?thesis using less_imp_le by blast
qed

lemma mask_and_Suc: "(mask k :: u32) AND (mask k + 1) = 0"
proof -
  have "mask k + 1 = (2 ^ k :: u32)" by (simp add: mask_eq_exp_minus_1)
  moreover have "mask k AND (2 ^ k :: u32) = 0" by (rule bit_word_eqI) (simp add: bit_simps)
  ultimately show ?thesis by simp
qed

lemma notifiers_example: "notifiers net_example [100, 200]"
  by (simp add: notifiers_def)

lemma plain_loopback: "call_init C dev = (\<lambda>s. Some (loopback_init dev s)) \<Longrightarrow> plain_init C dev"
  by (simp add: plain_init_def loopback_init_def)

subsection \<open>The properties\<close>

text \<open>
  C10: a notifier that is not in the chain is entered behind all those of the same or a lower priority
  value, so the chain stays sorted and every other notifier keeps its place. This holds without a
  condition when some notifier goes before it. When it becomes the first, the code also writes it
  through the uninitialised \<^verbatim>\<open>prev\<close>: the chain is then as it should be if \<^verbatim>\<open>prev\<close> points neither to the new
  notifier nor to another one of the chain, and otherwise it has become a circle without an end.
\<close>

theorem notifier_register_sorted:
  assumes "notifiers s ns" "n \<notin> set ns" "n \<noteq> NULL"
  shows "\<exists>t. register_netdevice_notifier prev n s = Some (0, t) \<and> nb_priority t = nb_priority s \<and>
    (if (\<exists>m \<in> set ns. nb_priority s m \<le> nb_priority s n) \<or> prev \<notin> insert n (set ns)
     then notifiers t (add_notifier (nb_priority s) n ns) else \<not> (\<exists>ms. lchain nb_link t None ms))"
  unfolding register_netdevice_notifier_def by (rule register_chain [OF assms])

theorem notifier_register_sorted_witness:
  "\<exists>t. register_netdevice_notifier 100 300 net_example = Some (0, t) \<and> nb_priority t = nb_priority net_example \<and>
    notifiers t (add_notifier (nb_priority net_example) 300 [100, 200])"
  using notifier_register_sorted [OF notifiers_example, of 300 100] by simp

text \<open>
  taking a notifier out again after it was registered gives back the chain as it was.
\<close>

theorem notifier_register_unregister:
  assumes "notifiers s ns" "n \<notin> set ns" "n \<noteq> NULL" "prev \<notin> insert n (set ns)"
  shows "\<exists>t u. register_netdevice_notifier prev n s = Some (0, t) \<and>
    unregister_netdevice_notifier n t = Some (0, u) \<and> lchain nb_link u None ns"
proof -
  obtain t where t: "notifier_chain_register prev n s = Some (0, t)"
    "notifiers t (add_notifier (nb_priority s) n ns)"
    using register_chain [OF assms(1-3), of prev] assms(4) by auto
  show ?thesis
    using unregister_chain [OF t(2), of n] t(1) remove1_add_notifier [OF assms(2)]
    by (auto simp: register_netdevice_notifier_def unregister_netdevice_notifier_def)
qed

theorem notifier_register_unregister_witness:
  "\<exists>t u. register_netdevice_notifier 0 300 net_example = Some (0, t) \<and>
    unregister_netdevice_notifier 300 t = Some (0, u) \<and> lchain nb_link u None [100, 200]"
  by (rule notifier_register_unregister [OF notifiers_example]) simp_all

text \<open>
  C32: a device that is not in the list of devices, and whose initialisation succeeds and leaves the list
  alone, is registered at the end of the list. Unregistering it then gives back the list as it was, unless
  the list was empty before, because the first device is never found, or the device is started: in these
  two cases it stays in the list.
\<close>

theorem netdev_register_unregister:
  assumes "lchain dev_link s None ds" "distinct ds" "dev \<notin> set ds" "dev \<noteq> NULL" "plain_init C dev"
  shows "\<exists>t u. register_netdev C dev s = Some (0, t) \<and> lchain dev_link t None (ds @ [dev]) \<and>
    unregister_netdev dev t = Some u \<and>
    lchain dev_link u None (if ds = [] \<or> dev_start s dev \<noteq> 0 then ds @ [dev] else ds)"
proof -
  obtain t where t: "register_netdev C dev s = Some (0, t)" "lchain dev_link t None (ds @ [dev])"
    "dev_start t = dev_start s"
    using register_dev_chain [OF assms] by blast
  show ?thesis
  proof (cases "ds = [] \<or> dev_start s dev \<noteq> 0")
    case True
    then show ?thesis using unregister_dev_kept [OF t(2)] t by auto
  next
    case False
    then show ?thesis using unregister_dev_chain [OF t(2)] t assms(2,3) by auto
  qed
qed

theorem netdev_register_unregister_witness:
  "\<exists>t u. register_netdev loopback_ops 700 net_example = Some (0, t) \<and> lchain dev_link t None ([500] @ [700]) \<and>
    unregister_netdev 700 t = Some u \<and> lchain dev_link u None [500]"
  using netdev_register_unregister [of net_example "[500]" 700 loopback_ops]
  by (simp add: plain_loopback loopback_ops_def)

text \<open>
  C34: \<^verbatim>\<open>dev_close\<close> returns only for a device that is down already. For any other one the loop that empties
  its queues does not end: it never steps past an empty queue, or reads behind the array.
\<close>

theorem dev_close_never_returns:
  "dev_close C dev s = (if dev_flags s dev = 0 then Some (0, s) else None)"
  by (auto simp: dev_close_def dev_close_loop_none split: bind_splits)

text \<open>
  C33: \<^verbatim>\<open>bad_mask\<close> accepts a mask and an address exactly if the mask is a prefix mask and the
  address has no bit outside it; the copies of the function in \<^verbatim>\<open>dev.c\<close> and \<^verbatim>\<open>route.c\<close> agree.
\<close>

theorem bad_mask_prefix:
  "(dev_bad_mask m a = 0 \<longleftrightarrow> prefix_mask m \<and> a AND NOT m = 0) \<and> (bad_mask m a \<longleftrightarrow> dev_bad_mask m a = 1)"
proof -
  have "NOT m AND (NOT m + 1) = 0 \<longleftrightarrow> (\<exists>k \<le> 32. NOT m = mask k)"
    using low_bits_mask [of "NOT m"] mask_and_Suc by metis
  also have "\<dots> \<longleftrightarrow> prefix_mask m"
    unfolding prefix_mask_def by (metis bit.double_compl)
  finally show ?thesis by (auto simp: dev_bad_mask_def bad_mask_def Let_def)
qed

text \<open>
  C35: the initialisation of the network does not return when there is a protocol to enter, because the loop
  over the protocols has no step.
\<close>

theorem init_sock_never_returns:
  assumes "inet_protocol_base T \<noteq> NULL"
  shows "init_sock C T prev s = None"
  using assms
  by (simp add: init_sock_def protocols_def inet_proto_init_def add_protocols_none Let_def split: prod.splits)

theorem init_sock_never_returns_witness:
  "init_sock loopback_ops
     \<lparr>arp_packet_type = 10, arp_dev_notifier = 20, ip_packet_type = 30, ip_rt_notifier = 40, inet_ops = 50,
      inet_protocol_base = 60, tcp_prot = 70, udp_prot = 80, raw_prot = 90\<rparr> 0 net_example = None"
  by (rule init_sock_never_returns) simp

end
