(* ===== verification/Sock_props.thy ===== *)
theory Sock_props
  imports Net_example
begin

section \<open>Port numbers\<close>

text \<open>
  \<^verbatim>\<open>get_new_socknum\<close> returns for every table whose chains end, and the number is free whenever one of the
  256 chains is empty. (If none is, the search may run past 65535 and the number that is returned
  is cut to 16 bits.)
\<close>

fun sk_chain :: "'a sock_heap_scheme \<Rightarrow> addr \<Rightarrow> addr list \<Rightarrow> bool" where
  "sk_chain s p [] \<longleftrightarrow> p = NULL"
| "sk_chain s p (k # ks) \<longleftrightarrow> p = k \<and> k \<noteq> NULL \<and> sk_chain s (sk_next (socks s k)) ks"

definition sock_table :: "'a sock_heap_scheme \<Rightarrow> addr \<Rightarrow> bool" where
  "sock_table s prot \<longleftrightarrow> (\<forall>i < 256. \<exists>ks. sk_chain s (sock_array s prot i) ks)"

text \<open>Whether the chain that the search visits at step \<open>i\<close> is empty.\<close>

definition empty_at :: "'a sock_heap_scheme \<Rightarrow> addr \<Rightarrow> int \<Rightarrow> nat \<Rightarrow> bool" where
  "empty_at s prot b i \<longleftrightarrow> sock_array s prot (nat ((int i + b + 1) mod 256)) = NULL"

lemma chain_length_eq: "sk_chain s p ks \<Longrightarrow> chain_length p j s = Some (j + int (length ks))"
proof (induction ks arbitrary: p j)
  case Nil
  then show ?case by (subst chain_length.simps) simp
next
  case (Cons k ks)
  then show ?case by (subst chain_length.simps) simp
qed

lemma sk_inuse_loop_eq:
  "sk_chain s p ks \<Longrightarrow> sk_inuse_loop num p s = Some (\<exists>k \<in> set ks. uint (sk_num (socks s k)) = num)"
proof (induction ks arbitrary: p)
  case Nil
  then show ?case by (subst sk_inuse_loop.simps) simp
next
  case (Cons k ks)
  then show ?case by (subst sk_inuse_loop.simps) auto
qed

lemma sock_table_chain: "sock_table s prot \<Longrightarrow> \<exists>ks. sk_chain s (sock_array s prot (nat (n mod 256))) ks"
  by (simp add: sock_table_def nat_less_iff)

lemma sk_num_less: "uint (sk_num k) < 65536"
  using unsigned_less [of "sk_num k", where 'a = int] by simp

lemma sk_inuse_some:
  assumes "sock_table s prot"
  shows "\<exists>b. sk_inuse prot num s = Some b \<and> (num \<ge> 65536 \<longrightarrow> \<not> b)"
proof -
  obtain ks where "sk_chain s (sock_array s prot (nat (num mod 256))) ks"
    using sock_table_chain [OF assms] by blast
  then have "sk_inuse prot num s = Some (\<exists>k \<in> set ks. uint (sk_num (socks s k)) = num)"
    by (simp add: sk_inuse_def sk_inuse_loop_eq)
  moreover have "uint (sk_num (socks s k)) \<noteq> num" if "num \<ge> 65536" for k
    using sk_num_less [of "socks s k"] that by linarith
  ultimately show ?thesis by blast
qed

lemma sk_inuse_empty:
  "sock_array s prot (nat (num mod 256)) = NULL \<Longrightarrow> sk_inuse prot num s = Some False"
  by (simp add: sk_inuse_def sk_inuse_loop.simps)

lemma socknum_free_some: "sock_table s prot \<Longrightarrow> \<exists>n'. socknum_free prot n s = Some n'"
proof (induction "nat (65536 - n)" arbitrary: n rule: less_induct)
  case less
  obtain b where b: "sk_inuse prot n s = Some b" "n \<ge> 65536 \<longrightarrow> \<not> b"
    using sk_inuse_some [OF less.prems] by blast
  show ?case
  proof (cases b)
    case True
    then have "\<exists>n'. socknum_free prot (n + 256) s = Some n'"
      using b less by (intro less.hyps) auto
    then show ?thesis using True b by (subst socknum_free.simps) simp
  qed (use b in \<open>subst socknum_free.simps, simp\<close>)
qed

text \<open>The search over the 256 chains: it returns, and finds an empty one if there is one left to visit.\<close>

lemma socknum_scan_some:
  assumes "sock_table s prot"
  shows "\<exists>r. socknum_scan prot b i best sz s = Some r \<and>
    (case r of Inl j \<Rightarrow> empty_at s prot b j | Inr _ \<Rightarrow> \<forall>j. i \<le> j \<and> j < 256 \<longrightarrow> \<not> empty_at s prot b j)"
proof (induction "256 - i" arbitrary: i best sz rule: less_induct)
  case less
  show ?case
  proof (cases "i < 256")
    case False
    then show ?thesis by (subst socknum_scan.simps) auto
  next
    case True
    obtain ks where ks: "sk_chain s (sock_array s prot (nat ((int i + b + 1) mod 256))) ks"
      using sock_table_chain [OF assms] by blast
    have len: "chain_length (sock_array s prot (nat ((int i + b + 1) mod 256))) 0 s = Some (int (length ks))"
      using chain_length_eq [OF ks] by simp
    have emp: "empty_at s prot b i \<longleftrightarrow> ks = []" using ks by (cases ks) (auto simp: empty_at_def)
    show ?thesis
    proof (cases "ks = []")
      case True
      then show ?thesis using len emp \<open>i < 256\<close> by (subst socknum_scan.simps) simp
    next
      case False
      define best' sz' where "best' = (if int (length ks) < sz then i else best)"
        and "sz' = (if int (length ks) < sz then int (length ks) else sz)"
      obtain r where r: "socknum_scan prot b (i + 1) best' sz' s = Some r"
        "case r of Inl j \<Rightarrow> empty_at s prot b j
         | Inr _ \<Rightarrow> \<forall>j. i + 1 \<le> j \<and> j < 256 \<longrightarrow> \<not> empty_at s prot b j"
        using less [of "i + 1" best' sz'] \<open>i < 256\<close> diff_less_mono2 [of i "i + 1" 256] by auto
      have "socknum_scan prot b i best sz s = Some r"
        using r(1) len False \<open>i < 256\<close> by (subst socknum_scan.simps) (auto simp: best'_def sz'_def)
      moreover have "\<not> empty_at s prot b i" using emp False by simp
      ultimately show ?thesis using r(2) by (cases r) (simp_all, metis Suc_leI le_neq_implies_less)
    qed
  qed
qed

text \<open>Every chain is visited.\<close>

lemma empty_at_visited:
  assumes "h < 256" "sock_array s prot h = NULL"
  shows "\<exists>i < 256. empty_at s prot b i"
proof (intro exI conjI)
  let ?i = "nat ((int h - b - 1) mod 256)"
  show "?i < 256" by (simp add: nat_less_iff)
  have "(int ?i + b + 1) mod 256 = int h mod 256"
    using mod_add_left_eq [of "int h - b - 1" 256 "b + 1"] by (simp add: add.assoc)
  then show "empty_at s prot b ?i" using assms by (simp add: empty_at_def)
qed

lemma empty_at_unused:
  fixes b :: u16
  assumes "empty_at s prot (uint b) i"
  shows "sk_inuse prot (uint (word_of_int (int i + uint b + 1) :: u16)) s = Some False"
proof (rule sk_inuse_empty)
  have "uint (word_of_int (int i + uint b + 1) :: u16) mod 256 = (int i + uint b + 1) mod 256"
    unfolding uint_word_of_int by (simp add: mod_mod_cancel del: of_int_add)
  then show "sock_array s prot (nat (uint (word_of_int (int i + uint b + 1) :: u16) mod 256)) = NULL"
    using assms by (simp add: empty_at_def)
qed

text \<open>
  C11: when every chain of the table of sockets ends, \<^verbatim>\<open>get_new_socknum\<close> returns; and if some chain is empty,
  no socket has the number it returns.
\<close>

theorem get_new_socknum_unused:
  assumes "sock_table s prot"
  shows "\<exists>n t. get_new_socknum prot base s = Some (n, t) \<and>
    ((\<exists>h < 256. sock_array s prot h = NULL) \<longrightarrow> sk_inuse prot (uint n) t = Some False)"
proof -
  define start where "start = socknum_start s"
  define b0 where "b0 = (if base = 0 then word_of_int (1024 + 1 + start mod 1024) else base)"
  define b where "b = (if uint b0 \<le> 1024 then word_of_int (uint b0 + 1024 + start mod 1024) else b0)"
  obtain r where r: "socknum_scan prot (uint b) 0 0 32767 s = Some r"
    "case r of Inl j \<Rightarrow> empty_at s prot (uint b) j | Inr _ \<Rightarrow> \<forall>j. 0 \<le> j \<and> j < 256 \<longrightarrow> \<not> empty_at s prot (uint b) j"
    using socknum_scan_some [OF assms] by blast
  have g: "get_new_socknum prot base s =
    (case r of
       Inl i \<Rightarrow> Some (word_of_int (int i + uint b + 1), s\<lparr>socknum_start := (int i + 1 + start) mod 1024\<rparr>)
     | Inr best \<Rightarrow> do { n \<leftarrow> socknum_free prot (uint b + int best + 1) s; Some (word_of_int n, s) })"
    using r(1) unfolding get_new_socknum_def Let_def b_def b0_def start_def by (simp only: Option.bind_lunit)
  show ?thesis
  proof (cases r)
    case (Inl i)
    let ?t = "s\<lparr>socknum_start := (int i + 1 + start) mod 1024\<rparr>"
    have "empty_at ?t prot (uint b) i" using r(2) Inl by (simp add: empty_at_def)
    then have "sk_inuse prot (uint (word_of_int (int i + uint b + 1) :: u16)) ?t = Some False"
      by (rule empty_at_unused)
    moreover have "get_new_socknum prot base s = Some (word_of_int (int i + uint b + 1), ?t)"
      using g Inl by (simp only: sum.case)
    ultimately show ?thesis by blast
  next
    case (Inr best)
    have none: "\<not> (\<exists>h < 256. sock_array s prot h = NULL)"
      using r(2) Inr empty_at_visited [of _ s prot "uint b"] by auto
    obtain n where "socknum_free prot (uint b + int best + 1) s = Some n"
      using socknum_free_some [OF assms] by blast
    then have "get_new_socknum prot base s = Some (word_of_int n, s)" using g Inr by simp
    then show ?thesis using none by blast
  qed
qed

theorem get_new_socknum_unused_witness:
  "\<exists>n t. get_new_socknum 70 0 net_example = Some (n, t) \<and>
    ((\<exists>h < 256. sock_array net_example 70 h = NULL) \<longrightarrow> sk_inuse 70 (uint n) t = Some False)"
proof (rule get_new_socknum_unused)
  show "sock_table net_example 70" by (auto simp: sock_table_def intro: exI [of _ "[]"])
qed

end
