(* ===== verification/Start.thy ===== *)
theory Start
  imports Process Timeline Vsprintf
begin

section \<open>The first tasks\<close>

text \<open>
  The model of \<^verbatim>\<open>init/main.c\<close> up to the call of the initialisers of the other components, and of
  \<^verbatim>\<open>init_trap\<close> in \<^verbatim>\<open>kernel/traps.c\<close>. The state is the allocator's heap, the scheduler's and a record for the
  descriptor table, the next selector, the thread unions, the open files and the bytes of memory.
  Addresses of functions and static variables are arguments. In \<^verbatim>\<open>struct task_struct\<close> the descriptors of a
  task are at 74 and its name at 392. \<^verbatim>\<open>pid_t\<close> is unsigned, so the tests for a negative number do not hold.
\<close>

record boot =
  b_gdt :: "descriptor list"
  b_selector :: u16
  b_thread_task :: "addr \<Rightarrow> addr"
  b_filp :: "addr \<Rightarrow> nat \<Rightarrow> addr"
  b_mem :: bytes

abbreviation (input) BOOT_PARAM_ADDR :: addr where "BOOT_PARAM_ADDR \<equiv> 0x900"
abbreviation (input) INIT_PID :: u32 where "INIT_PID \<equiv> 1"
abbreviation (input) KERNEL_PRIOR :: u32 where "KERNEL_PRIOR \<equiv> 25"

text \<open>A wrong magic number fails the assertion: \<open>None\<close>.\<close>

definition get_memsize :: "bytes \<Rightarrow> u32 option" where
  "get_memsize m = (if load32 m BOOT_PARAM_ADDR = 0xCCCC then Some (load32 m (BOOT_PARAM_ADDR + 4)) else None)"

definition get_kernel_map :: "bytes \<Rightarrow> u32 \<times> u32" where
  "get_kernel_map m = (let a = load32 m (BOOT_PARAM_ADDR + 8) in snd (get_elf_map a a m))"

text \<open>What the two loops have in common: the fields up to the descriptor of the task's own table.\<close>

definition new_task ::
  "addr \<Rightarrow> addr \<Rightarrow> addr \<Rightarrow> addr \<Rightarrow> boot \<times> 'a sched_heap_scheme \<Rightarrow> (boot \<times> 'a sched_heap_scheme) option" where
  "new_task do_signal_addr tsk tu command bs =
     do {
       let (b, s) = bs;
       let b = b\<lparr>b_thread_task := (b_thread_task b)(tu := tsk)\<rparr>;
       let s = set_state tsk TASK_RUNNING s;
       (_, m) \<leftarrow> strcpy (tsk + 392) command (b_mem b);
       let b = b\<lparr>b_mem := m\<rparr>;
       (pid, pm) \<leftarrow> get_pidmap (pidmap s);
       let s = s\<lparr>pidmap := pm, tsk_pid := (tsk_pid s)(tsk := pid)\<rparr>;
       let s = s\<lparr>tsk_parent := (tsk_parent s)(tsk := NULL)\<rparr>;
       let s = s\<lparr>tsk_sibling := (tsk_sibling s)(tsk := NULL)\<rparr>;
       let s = s\<lparr>tsk_next := (tsk_next s)(tsk := NULL)\<rparr>;
       let s = init_sig_action do_signal_addr tsk [0..<NR_SIGNALS] s;
       let b = b\<lparr>b_filp := (b_filp b)(tsk := (\<lambda>j. if j < 32 then NULL else b_filp b tsk j))\<rparr>;
       let s = s\<lparr>tsk_signal := (tsk_signal s)(tsk := 0)\<rparr>;
       let s = s\<lparr>tsk_ldt_sel := (tsk_ldt_sel s)(tsk := b_selector b)\<rparr>;
       base \<leftarrow> seg2phys 0x10 (b_gdt b);
       let n = unat (drop_bit 3 (b_selector b));
       if n < length (b_gdt b)
       then Some (b\<lparr>b_gdt := (b_gdt b)[n := init_descriptor (base + (tsk + 74)) 15 0x82]\<rparr>, s)
       else None
     }"

text \<open>The registers both loops give a task; the privilege and the requested one are 1.\<close>

definition task_regs :: "u32 \<Rightarrow> addr \<Rightarrow> stackframe \<Rightarrow> stackframe" where
  "task_regs esp eip r =
     (let ds = ((8 AND 0xFFFC) AND 0xFFFB) OR 4 OR 1 in
      r\<lparr>r_esp := esp, r_cs := 4 OR 1, r_ds := ds, r_es := ds, r_fs := ds, r_ss := ds,
        r_gs := (0x1B AND 0xFFFC) OR 1, r_eip := eip, r_eflags := 0x1202\<rparr>)"

definition ready_task ::
  "u32 \<Rightarrow> addr \<Rightarrow> descriptor \<times> descriptor \<Rightarrow> nat \<Rightarrow> addr \<Rightarrow> 'a sched_heap_scheme \<Rightarrow> 'a sched_heap_scheme" where
  "ready_task esp eip ldts i tsk s =
     (let s = s\<lparr>tsk_ldts := (tsk_ldts s)(tsk := ldts)\<rparr>;
          s = s\<lparr>tsk_regs := (tsk_regs s)(tsk := task_regs esp eip (tsk_regs s tsk))\<rparr>;
          s = s\<lparr>tsk_priority := (tsk_priority s)(tsk := KERNEL_PRIOR)\<rparr>;
          s = set_ticks tsk KERNEL_PRIOR s;
          s = set_vruntime (sched_entity tsk) (of_nat i) s
      in s\<lparr>tsk_class := (tsk_class s)(tsk := Some Rr_sched)\<rparr>)"

text \<open>The body of the loop of \<^verbatim>\<open>init_kernel_thread\<close> behind the allocations: the init task is not queued.\<close>

definition kernel_task ::
  "addr \<Rightarrow> u32 \<Rightarrow> u32 \<Rightarrow> nat \<Rightarrow> addr \<Rightarrow> addr \<Rightarrow> addr \<Rightarrow> addr \<Rightarrow> boot \<times> 'a sched_heap_scheme \<Rightarrow>
   (boot \<times> 'a sched_heap_scheme) option" where
  "kernel_task do_signal_addr k_top stack i eip command tsk tu bs =
     do {
       (b, s) \<leftarrow> new_task do_signal_addr tsk tu command bs;
       let lim = drop_bit 12 k_top;
       let s = ready_task stack eip (init_descriptor 0 lim 0xC0B8, init_descriptor 0 lim 0xC0B2) i tsk s;
       s \<leftarrow> (if tsk_pid s tsk \<noteq> INIT_PID then enqueue_task Rr_sched (sched_rq s) tsk 0 s else Some s);
       Some (b\<lparr>b_selector := b_selector b + 8\<rparr>, s)
     }"

text \<open>The body of the loop of \<^verbatim>\<open>init_user_process\<close>: the descriptors are copies of the kernel's.\<close>

definition user_task ::
  "addr \<Rightarrow> nat \<Rightarrow> addr \<Rightarrow> addr \<Rightarrow> addr \<Rightarrow> addr \<Rightarrow> boot \<times> 'a sched_heap_scheme \<Rightarrow>
   (boot \<times> 'a sched_heap_scheme) option" where
  "user_task do_signal_addr i eip command tsk tu bs =
     do {
       (b, s) \<leftarrow> new_task do_signal_addr tsk tu command bs;
       if length (b_gdt b) \<le> 2 then None
       else do {
         let c = (b_gdt b ! 1)\<lparr>attr1 := 0xB8\<rparr>;
         let d = (b_gdt b ! 2)\<lparr>attr1 := 0xB2\<rparr>;
         let s = ready_task (tu + 8192) eip (c, d) i tsk s;
         s \<leftarrow> enqueue_task Rr_sched (sched_rq s) tsk 0 s;
         Some (b\<lparr>b_selector := b_selector b + 8\<rparr>, s)
       }
     }"

text \<open>
  The loops over the tables of \<^verbatim>\<open>kernel/proc.c\<close>, lists of entry points and names. The flag tells whether
  the loop ran to its end; an allocation that gives NULL returns from the function.
\<close>

fun kernel_loop ::
  "addr \<Rightarrow> u32 \<Rightarrow> (addr \<times> addr) list \<Rightarrow> u32 \<Rightarrow> nat \<Rightarrow> 'm slab_heap_scheme \<times> boot \<times> 'a sched_heap_scheme \<Rightarrow>
   (bool \<times> 'm slab_heap_scheme \<times> boot \<times> 'a sched_heap_scheme) option" where
  "kernel_loop sg k_top [] stack i (m, b, s) = Some (True, m, b, s)"
| "kernel_loop sg k_top ((eip, command) # ps) stack i (m, b, s) =
     do {
       (tsk, m) \<leftarrow> kmem_get_obj (tsk_cachep m) m;
       if tsk = NULL then Some (False, m, b, s)
       else do {
         (tu, m) \<leftarrow> kmem_get_obj (thread_union_cachep m) m;
         if tu = NULL then Some (False, m, b, s)
         else do {
           (b, s) \<leftarrow> kernel_task sg k_top stack i eip command tsk tu (b, s);
           kernel_loop sg k_top ps (stack - 4192) (i + 1) (m, b, s)
         }
       }
     }"

fun user_loop ::
  "addr \<Rightarrow> (addr \<times> addr) list \<Rightarrow> nat \<Rightarrow> 'm slab_heap_scheme \<times> boot \<times> 'a sched_heap_scheme \<Rightarrow>
   (bool \<times> 'm slab_heap_scheme \<times> boot \<times> 'a sched_heap_scheme) option" where
  "user_loop sg [] i (m, b, s) = Some (True, m, b, s)"
| "user_loop sg ((eip, command) # ps) i (m, b, s) =
     do {
       (tsk, m) \<leftarrow> kmem_get_obj (tsk_cachep m) m;
       if tsk = NULL then Some (False, m, b, s)
       else do {
         (tu, m) \<leftarrow> kmem_get_obj (thread_union_cachep m) m;
         if tu = NULL then Some (False, m, b, s)
         else do {
           (b, s) \<leftarrow> user_task sg i eip command tsk tu (b, s);
           user_loop sg ps (i + 1) (m, b, s)
         }
       }
     }"

definition init_kernel_thread ::
  "addr \<Rightarrow> addr \<Rightarrow> (addr \<times> addr) list \<Rightarrow> 'm slab_heap_scheme \<times> boot \<times> 'a sched_heap_scheme \<Rightarrow>
   ('m slab_heap_scheme \<times> boot \<times> 'a sched_heap_scheme) option" where
  "init_kernel_thread sg task_stack task_table mbs =
     do {
       let (m, b, s) = mbs;
       let (k_base, k_limit) = get_kernel_map (b_mem b);
       (fin, m, b, s) \<leftarrow> kernel_loop sg (k_base + k_limit) task_table (task_stack + 12576) 0 (m, b, s);
       Some (m, b, if fin then s\<lparr>k_reenter := 0, ticks := 0\<rparr> else s)
     }"

definition init_user_process ::
  "addr \<Rightarrow> (addr \<times> addr) list \<Rightarrow> 'm slab_heap_scheme \<times> boot \<times> 'a sched_heap_scheme \<Rightarrow>
   ('m slab_heap_scheme \<times> boot \<times> 'a sched_heap_scheme) option" where
  "init_user_process sg user_proc_table mbs =
     do {
       (fin, m, b, s) \<leftarrow> user_loop sg user_proc_table 0 mbs;
       Some (m, b, if fin then s\<lparr>k_reenter := 0, ticks := 0\<rparr> else s)
     }"

definition init_task ::
  "addr \<Rightarrow> addr \<Rightarrow> (addr \<times> addr) list \<Rightarrow> (addr \<times> addr) list \<Rightarrow> 'm slab_heap_scheme \<times> boot \<times> 'a sched_heap_scheme \<Rightarrow>
   ('m slab_heap_scheme \<times> boot \<times> 'a sched_heap_scheme) option" where
  "init_task sg task_stack task_table user_proc_table mbs =
     do {
       mbs \<leftarrow> init_kernel_thread sg task_stack task_table mbs;
       (m, b, s) \<leftarrow> init_user_process sg user_proc_table mbs;
       se \<leftarrow> ts_leftmost (task_timeline (sched_rq s)) s;
       Some (m, b, s\<lparr>current := se_entry se\<rparr>)
     }"

subsection \<open>Interrupt gates\<close>

text \<open>The vectors with their kinds and privileges; \<open>h n\<close> is the address of the handler of vector \<open>n\<close>.\<close>

definition trap_gates :: "(nat \<times> u8 \<times> u8) list" where
  "trap_gates =
     map (\<lambda>n. (n, 0x8F, if n \<in> {3, 4, 5} then 3 else 0)) ([0..<15] @ [16]) @
     map (\<lambda>n. (n, 0x8E, 0)) [0x20..<0x30] @ [(0x80, 0x8E, 3)]"

fun set_gates :: "(nat \<Rightarrow> u32) \<Rightarrow> (nat \<times> u8 \<times> u8) list \<Rightarrow> gate list \<Rightarrow> gate list option" where
  "set_gates h [] idt = Some idt"
| "set_gates h ((n, kind, privilege) # gs) idt =
     do { idt \<leftarrow> init_idt_desc n kind (h n) privilege idt; set_gates h gs idt }"

text \<open>\<^verbatim>\<open>init_trap\<close>; the task state segment has 104 bytes, \<^verbatim>\<open>ss0\<close> at 8 and \<^verbatim>\<open>iobase\<close> at 102.\<close>

definition init_trap :: "(nat \<Rightarrow> u32) \<Rightarrow> addr \<Rightarrow> gate list \<times> boot \<Rightarrow> (gate list \<times> boot) option" where
  "init_trap h tss ib =
     do {
       let (idt, b) = ib;
       idt \<leftarrow> set_gates h trap_gates idt;
       let m = store32 (tss + 8) 0x10 (snd (memset tss 0 104 (b_mem b)));
       base \<leftarrow> seg2phys 0x10 (b_gdt b);
       if length (b_gdt b) \<le> 4 then None
       else Some (idt, b\<lparr>b_gdt := (b_gdt b)[4 := init_descriptor (base + tss) 103 0x89],
                         b_mem := store16 (tss + 102) 104 m\<rparr>)
     }"

end
