(* ===== verification/Start_props.thy ===== *)
theory Start_props
  imports Start
begin

section \<open>The tasks that are queued at start-up\<close>

text \<open>
  The two loops of \<^verbatim>\<open>init/main.c\<close> number their tasks from 0, and the number is the key in the tree of
  runnable tasks. The tree refuses a key twice, so of the second system task and the second user
  task only the first one is ever queued.
\<close>

text \<open>The 32 bytes of a name.\<close>

definition name_area :: "addr \<Rightarrow> addr set" where
  "name_area p = span p 32"

text \<open>The strings with the names of the tasks are apart from the places they are copied to.\<close>

definition names_ok :: "addr set \<Rightarrow> addr set \<Rightarrow> bytes \<Rightarrow> bool" where
  "names_ok C T m \<longleftrightarrow> (\<forall>c \<in> C. c \<noteq> NULL \<and> (\<exists>cs. cstr m c cs \<and> length cs < 32)) \<and>
     (\<forall>t \<in> T. t + 392 \<noteq> NULL \<and> (\<forall>c \<in> C. name_area (t + 392) \<inter> name_area c = {}))"

text \<open>The state before the task number \<open>k\<close> is made, with the entities \<open>xs\<close> in the tree.\<close>

definition booting :: "addr set \<Rightarrow> addr set \<Rightarrow> addr list \<Rightarrow> nat \<Rightarrow> boot \<times> 'a sched_heap_scheme \<Rightarrow> bool" where
  "booting C T xs k = (\<lambda>(b, s). names_ok C T (b_mem b) \<and> length (b_gdt b) = 128 \<and>
     b_selector b = 0x28 + 8 * of_nat k \<and> pidmap s = init_pidmap[0 := mask (Suc k)] \<and>
     timeline 100 (task_timeline (sched_rq s)) xs s \<and> min_vruntime s (sched_rq s) = 100)"

definition same_tree :: "'a sched_heap_scheme \<Rightarrow> 'a sched_heap_scheme \<Rightarrow> bool" where
  "same_tree s t \<longleftrightarrow> rb_parent_color t = rb_parent_color s \<and> rb_left t = rb_left s \<and> rb_right t = rb_right s \<and>
     rb_root t = rb_root s \<and> min_vruntime t = min_vruntime s \<and> sched_rq t = sched_rq s"

text \<open>Four tasks one after the other, as the two loops make them.\<close>

definition start_four ::
  "addr \<Rightarrow> u32 \<Rightarrow> u32 \<Rightarrow> (nat \<Rightarrow> addr) \<Rightarrow> (nat \<Rightarrow> addr) \<Rightarrow> (nat \<Rightarrow> addr) \<Rightarrow> (nat \<Rightarrow> addr) \<Rightarrow>
   boot \<times> 'a sched_heap_scheme \<Rightarrow> (boot \<times> 'a sched_heap_scheme) option" where
  "start_four sg k_top stack eip cmd tsk tu bs =
     do {
       bs \<leftarrow> kernel_task sg k_top stack 0 (eip 0) (cmd 0) (tsk 0) (tu 0) bs;
       bs \<leftarrow> kernel_task sg k_top (stack - 4192) 1 (eip 1) (cmd 1) (tsk 1) (tu 1) bs;
       bs \<leftarrow> user_task sg 0 (eip 2) (cmd 2) (tsk 2) (tu 2) bs;
       user_task sg 1 (eip 3) (cmd 3) (tsk 3) (tu 3) bs
     }"

text \<open>
  A descriptor table of 128 zero entries, the one-letter names i, t, A and D at 4096, 4128, 4160 and 4192,
  and tasks at 65536, 69632, 73728 and 77824.
\<close>

definition example_boot :: boot where
  "example_boot =
     \<lparr>b_gdt = replicate 128 \<lparr>limit_low = 0, base_low = 0, base_mid = 0, attr1 = 0, limit_high_attr2 = 0, base_high = 0\<rparr>,
      b_selector = 0x28, b_thread_task = (\<lambda>_. 0), b_filp = (\<lambda>_ _. 0),
      b_mem = (\<lambda>_. 0)(4096 := 0x69, 4128 := 0x74, 4160 := 0x41, 4192 := 0x44)\<rparr>"

definition example_cmd :: "nat \<Rightarrow> addr" where
  "example_cmd i = 4096 + 32 * of_nat i"

definition example_tsk :: "nat \<Rightarrow> addr" where
  "example_tsk i = 65536 + 4096 * of_nat i"

lemma init_sig_action_fields [simp]:
  "same_tree s (init_sig_action h p is s)" "se_vruntime (init_sig_action h p is s) = se_vruntime s"
  "pidmap (init_sig_action h p is s) = pidmap s" "tsk_pid (init_sig_action h p is s) = tsk_pid s"
  "tsk_state (init_sig_action h p is s) = tsk_state s"
  by (induction "is" arbitrary: s) (auto simp: same_tree_def)

lemma get_pidmap_init:
  "get_pidmap (init_pidmap[0 := mask 1]) = Some (1, init_pidmap[0 := mask 2])"
  "get_pidmap (init_pidmap[0 := mask 2]) = Some (2, init_pidmap[0 := mask 3])"
  "get_pidmap (init_pidmap[0 := mask 3]) = Some (3, init_pidmap[0 := mask 4])"
  "get_pidmap (init_pidmap[0 := mask 4]) = Some (4, init_pidmap[0 := mask 5])"
  by code_simp+

lemma get_pidmap_nth:
  assumes "k < 4"
  shows "get_pidmap (init_pidmap[0 := mask (Suc k)]) = Some (of_nat (Suc k), init_pidmap[0 := mask (Suc (Suc k))])"
proof -
  have "k \<in> {0, 1, 2, 3}" using assms by auto
  then show ?thesis using get_pidmap_init by (auto simp: numeral_eq_Suc)
qed

lemma span_mono: "m \<le> n \<Longrightarrow> span p m \<subseteq> span p n"
  by (auto simp: span_def)

lemma name_area_sub: "length cs < 32 \<Longrightarrow> span p (Suc (length cs)) \<subseteq> name_area p"
  unfolding name_area_def by (rule span_mono) (simp only: Suc_le_eq)

lemma name_kept:
  assumes "cstr m c ds" "length ds < 32" "length cs < 32" "name_area p \<inter> name_area c = {}"
  shows "cstr (store p (cs @ [0]) m) c ds"
proof -
  have "store p (cs @ [0]) m a = m a" if "a \<in> span c (Suc (length ds))" for a
    using that name_area_sub [OF assms(2), of c] name_area_sub [OF assms(3), of p] assms(4)
    by (intro store_other) (simp only: length_append_singleton, blast)
  then show ?thesis using cstr_cong [of c ds "store p (cs @ [0]) m" m] assms(1) by blast
qed

lemma names_ok_copy:
  assumes N: "names_ok C T m" and c: "c \<in> C" and t: "t \<in> T"
  shows "\<exists>m'. strcpy (t + 392) c m = Some (0, m') \<and> names_ok C T m'"
proof -
  obtain cs where cs: "cstr m c cs" "length cs < 32" "c \<noteq> NULL" using N c unfolding names_ok_def by blast
  have dis: "name_area (t + 392) \<inter> name_area c' = {}" "t + 392 \<noteq> NULL" if "c' \<in> C" for c'
    using N t that unfolding names_ok_def by blast+
  let ?m = "store (t + 392) (cs @ [0]) m"
  have "span (t + 392) (Suc (length cs)) \<inter> span c (Suc (length cs)) = {}"
    using dis(1) [OF c] name_area_sub [OF cs(2)] by blast
  then have "strcpy (t + 392) c m = Some (0, ?m)"
    using strcpy_loop_cstr [OF cs(1)] cs(3) dis(2) [OF c] by (simp add: strcpy_def)
  moreover have "names_ok C T ?m"
    unfolding names_ok_def
  proof (intro conjI ballI)
    fix c' assume c': "c' \<in> C"
    then obtain ds where ds: "cstr m c' ds" "length ds < 32" "c' \<noteq> NULL" using N unfolding names_ok_def by blast
    then show "c' \<noteq> NULL" by simp
    show "\<exists>ds. cstr ?m c' ds \<and> length ds < 32" using name_kept [OF ds(1,2) cs(2) dis(1) [OF c']] ds(2) by blast
  qed (use N in \<open>simp_all add: names_ok_def\<close>)
  ultimately show ?thesis by blast
qed

lemma same_tree_timeline:
  assumes "same_tree s t" "\<And>x. x \<in> set xs \<Longrightarrow> se_vruntime t x = se_vruntime s x"
  shows "timeline w root xs s \<Longrightarrow> timeline w root xs t"
proof -
  assume tl: "timeline w root xs s"
  have "rb_ok root xs t = rb_ok root xs s" by (rule rb_ok_cong) (use assms(1) in \<open>auto simp: same_tree_def\<close>)
  moreover have k: "vkey w t x = vkey w s x" if "x \<in> set xs" for x using assms(2) that by (simp add: vkey_def)
  have "sorted_wrt (\<lambda>x y. vkey w t x < vkey w t y) xs"
    by (rule sorted_wrt_mono_rel [of _ "\<lambda>x y. vkey w s x < vkey w s y"]) (use tl k in \<open>auto simp: timeline_def\<close>)
  ultimately show ?thesis using tl k by (simp add: timeline_def)
qed

lemma same_tree_trans: "same_tree s t \<Longrightarrow> same_tree t u \<Longrightarrow> same_tree s u"
  by (simp add: same_tree_def)

subsection \<open>Making a task\<close>

lemma seg2phys_ds: "length g = 128 \<Longrightarrow> \<exists>base. seg2phys 0x10 g = Some base"
proof -
  have "sint (signed_drop_bit 3 (scast (0x10 :: u16) :: u32)) = 2" by code_simp
  then show "length g = 128 \<Longrightarrow> ?thesis" by (simp add: seg2phys_def)
qed

lemma selector_index: "k < 4 \<Longrightarrow> unat (drop_bit 3 (0x28 + 8 * of_nat k :: u16)) < 128"
proof -
  assume "k < 4"
  then have "k \<in> {0, 1, 2, 3}" by auto
  then show ?thesis by (elim insertE emptyE) simp_all
qed

lemma new_task_boots:
  assumes B: "booting C T xs k (b, s)" and c: "c \<in> C" and t: "t \<in> T" and k: "k < 4"
  shows "\<exists>b' s'. new_task sg t u c (b, s) = Some (b', s') \<and> names_ok C T (b_mem b') \<and> length (b_gdt b') = 128 \<and>
    b_selector b' = b_selector b \<and> pidmap s' = init_pidmap[0 := mask (Suc (Suc k))] \<and>
    tsk_pid s' t = of_nat (Suc k) \<and> tsk_state s' t = TASK_RUNNING \<and> same_tree s s' \<and> se_vruntime s' = se_vruntime s"
proof -
  obtain m where m: "strcpy (t + 392) c (b_mem b) = Some (0, m)" "names_ok C T m"
    using names_ok_copy [OF _ c t] B unfolding booting_def by blast
  obtain base where base: "seg2phys 0x10 (b_gdt b) = Some base"
    using seg2phys_ds [of "b_gdt b"] B unfolding booting_def by blast
  have sel: "unat (drop_bit 3 (b_selector b)) < length (b_gdt b)" and len: "length (b_gdt b) = 128"
    and pm: "get_pidmap (pidmap s) = Some (of_nat (Suc k), init_pidmap[0 := mask (Suc (Suc k))])"
    using B selector_index [OF k] get_pidmap_nth [OF k] unfolding booting_def by simp_all
  show ?thesis
    unfolding new_task_def using m base sel len pm
    by (simp add: Let_def set_state_def del: upt_rec_numeral)
       (simp add: same_tree_def init_sig_action_fields [unfolded same_tree_def] del: upt_rec_numeral)
qed

lemma ready_task_fields:
  "same_tree s (ready_task esp eip l i t s)" "pidmap (ready_task esp eip l i t s) = pidmap s"
  "tsk_pid (ready_task esp eip l i t s) = tsk_pid s" "tsk_state (ready_task esp eip l i t s) = tsk_state s"
  "se_vruntime (ready_task esp eip l i t s) = (se_vruntime s)(sched_entity t := of_nat i)"
  by (simp_all add: ready_task_def same_tree_def set_ticks_def set_vruntime_def)

text \<open>A task made ready: everything of the body of a loop but the queueing.\<close>

lemma task_boots:
  assumes B: "booting C T xs k (b, s)" and ct: "c \<in> C" "t \<in> T" and k: "k < 4" and t: "sched_entity t \<notin> set xs"
  obtains b' s' where "new_task sg t u c (b, s) = Some (b', s')" "length (b_gdt b') = 128"
    "\<And>esp l. let r = ready_task esp eip l i t s' in
       booting C T xs (Suc k) (b'\<lparr>b_selector := b_selector b' + 8\<rparr>, r) \<and> tsk_pid r t = of_nat (Suc k) \<and>
       tsk_state r t = TASK_RUNNING \<and> sched_rq r = sched_rq s \<and>
       se_vruntime r = (se_vruntime s)(sched_entity t := of_nat i)"
proof -
  obtain b' s' where n: "new_task sg t u c (b, s) = Some (b', s')" "names_ok C T (b_mem b')" "length (b_gdt b') = 128"
    "b_selector b' = b_selector b" "pidmap s' = init_pidmap[0 := mask (Suc (Suc k))]" "tsk_pid s' t = of_nat (Suc k)"
    "tsk_state s' t = TASK_RUNNING" "same_tree s s'" "se_vruntime s' = se_vruntime s"
    using new_task_boots [OF B ct k] by blast
  have "booting C T xs (Suc k) (b'\<lparr>b_selector := b_selector b' + 8\<rparr>, ready_task esp eip l i t s')" for esp l
  proof -
    let ?r = "ready_task esp eip l i t s'"
    have st: "same_tree s ?r" by (rule same_tree_trans [OF n(8) ready_task_fields(1)])
    have "timeline 100 (task_timeline (sched_rq s)) xs ?r"
      by (rule same_tree_timeline [OF st]) (use B t n(9) in \<open>auto simp: booting_def ready_task_fields\<close>)
    moreover have "sched_rq ?r = sched_rq s" "min_vruntime ?r = min_vruntime s" using st by (simp_all add: same_tree_def)
    ultimately show ?thesis using B n by (simp add: booting_def ready_task_fields algebra_simps)
  qed
  moreover have "sched_rq (ready_task esp eip l i t s') = sched_rq s" for esp l
    using n(8) ready_task_fields(1) [of s' esp eip l i t] by (simp add: same_tree_def)
  ultimately show ?thesis using that [OF n(1,3)] n by (simp add: Let_def ready_task_fields)
qed

subsection \<open>Queueing\<close>

lemma same_rest_pids:
  assumes "same_rest s s'" shows "pidmap s' = pidmap s"
  using assms by (cases s; cases s'; simp add: same_rest_def)

lemma timeline_set_vruntime: "timeline w root xs s \<Longrightarrow> se \<notin> set xs \<Longrightarrow> timeline w root xs (set_vruntime se v s)"
  by (rule same_tree_timeline [of s]) (auto simp: same_tree_def set_vruntime_def)

lemma key_in_window: "i < 2 ^ 31 \<Longrightarrow> unat (of_nat i :: u32) < 2 ^ 31"
  by (simp add: unsigned_of_nat take_bit_eq_mod)

lemma enqueue_refused:
  assumes B: "booting C T xs k (b, s)" and t: "sched_entity t \<notin> set xs" and v: "se_vruntime s (sched_entity t) = of_nat i" "i < 2 ^ 31"
    and taken: "of_nat i + 100 \<in> se_vruntime s ` set xs"
  shows "\<exists>s'. enqueue_task Rr_sched (sched_rq s) t 0 s = Some s' \<and> booting C T xs k (b, s') \<and>
    sched_rq s' = sched_rq s \<and> tsk_state s' = tsk_state s"
proof -
  let ?s = "set_vruntime (sched_entity t) (of_nat i + 100) s"
  let ?root = "task_timeline (sched_rq s)"
  have tl: "timeline 100 ?root xs ?s" using B t by (simp add: booting_def timeline_set_vruntime)
  have "ts_insert ?root (sched_entity t) ?s = Some (0, ?s)"
    by (rule ts_insert_taken [OF tl]) (use taken t key_in_window [OF v(2)] in \<open>auto simp: set_vruntime_def image_iff\<close>)
  then have "enqueue_task Rr_sched (sched_rq s) t 0 s = Some ?s" using B v by (simp add: cfs_enqueue_def booting_def Let_def)
  moreover have "booting C T xs k (b, ?s)" using B tl by (simp add: booting_def set_vruntime_def)
  ultimately show ?thesis by (simp add: set_vruntime_def)
qed

lemma enqueue_queues:
  assumes B: "booting C T xs k (b, s)" and t: "sched_entity t \<notin> set xs" "sched_entity t \<noteq> NULL" "aligned (sched_entity t)"
    and v: "se_vruntime s (sched_entity t) = of_nat i" "i < 2 ^ 31" and free: "of_nat i + 100 \<notin> se_vruntime s ` set xs"
  defines "u \<equiv> (se_vruntime s)(sched_entity t := of_nat i + 100)"
  shows "\<exists>s'. enqueue_task Rr_sched (sched_rq s) t 0 s = Some s' \<and> se_vruntime s' = u \<and> sched_rq s' = sched_rq s \<and>
    booting C T (insort_key (\<lambda>x. unat (u x - 100)) (sched_entity t) xs) k (b, s')"
proof -
  let ?s = "set_vruntime (sched_entity t) (of_nat i + 100) s"
  let ?root = "task_timeline (sched_rq s)"
  have tl: "timeline 100 ?root xs ?s" using B t by (simp add: booting_def timeline_set_vruntime)
  have key: "vkey 100 ?s = (\<lambda>x. unat (u x - 100))" by (simp add: fun_eq_iff vkey_def u_def set_vruntime_def)
  obtain s' where s': "ts_insert ?root (sched_entity t) ?s = Some (1, s')" "same_rest ?s s'"
    "timeline 100 ?root (insort_key (vkey 100 ?s) (sched_entity t) xs) s'"
    using ts_insert_free [OF tl, of "sched_entity t"] free key_in_window [OF v(2)] t
    by (auto simp: set_vruntime_def image_iff)
  have "enqueue_task Rr_sched (sched_rq s) t 0 s = Some s'" using B v s'(1) by (simp add: cfs_enqueue_def booting_def Let_def)
  moreover have "se_vruntime s' = u" "sched_rq s' = sched_rq s" "min_vruntime s' = min_vruntime s" "pidmap s' = pidmap s"
    using same_rest_sched [OF s'(2)] same_rest_pids [OF s'(2)] by (simp_all add: u_def set_vruntime_def)
  ultimately show ?thesis using B s'(3) key by (simp add: booting_def)
qed

subsection \<open>The four tasks\<close>

lemma kernel_task_init:
  assumes "booting C T xs 0 (b, s)" "c \<in> C" "t \<in> T" "sched_entity t \<notin> set xs"
  shows "\<exists>b' s'. kernel_task sg k_top stack i eip c t u (b, s) = Some (b', s') \<and> booting C T xs 1 (b', s') \<and>
    sched_rq s' = sched_rq s"
  by (rule task_boots [OF assms(1-3) _ assms(4), of sg u eip i]) (auto simp: kernel_task_def Let_def)

lemma kernel_task_queued:
  assumes "booting C T xs k (b, s)" "c \<in> C" "t \<in> T" "k < 4" "0 < k" "sched_entity t \<notin> set xs" "sched_entity t \<noteq> NULL"
    "aligned (sched_entity t)" "i < 2 ^ 31" "of_nat i + 100 \<notin> se_vruntime s ` set xs"
  defines "v \<equiv> (se_vruntime s)(sched_entity t := of_nat i + 100)"
  shows "\<exists>b' s'. kernel_task sg k_top stack i eip c t u (b, s) = Some (b', s') \<and> se_vruntime s' = v \<and>
    sched_rq s' = sched_rq s \<and> booting C T (insort_key (\<lambda>x. unat (v x - 100)) (sched_entity t) xs) (Suc k) (b', s')"
proof (rule task_boots [OF assms(1-4,6), of sg u eip i])
  fix b' s' assume n: "new_task sg t u c (b, s) = Some (b', s')"
    and r: "\<And>esp l. let r = ready_task esp eip l i t s' in
       booting C T xs (Suc k) (b'\<lparr>b_selector := b_selector b' + 8\<rparr>, r) \<and> tsk_pid r t = of_nat (Suc k) \<and>
       tsk_state r t = TASK_RUNNING \<and> sched_rq r = sched_rq s \<and>
       se_vruntime r = (se_vruntime s)(sched_entity t := of_nat i)"
  define q where "q = ready_task stack eip
    (init_descriptor 0 (drop_bit 12 k_top) 0xC0B8, init_descriptor 0 (drop_bit 12 k_top) 0xC0B2) i t s'"
  have q: "booting C T xs (Suc k) (b'\<lparr>b_selector := b_selector b' + 8\<rparr>, q)" "tsk_pid q t = of_nat (Suc k)"
    "sched_rq q = sched_rq s" "se_vruntime q = (se_vruntime s)(sched_entity t := of_nat i)"
    using r unfolding q_def Let_def by blast+
  have "k \<in> {1, 2, 3}" using assms(4,5) by auto
  then have pid: "tsk_pid q t \<noteq> 1" using q(2) by auto
  obtain w where w: "enqueue_task Rr_sched (sched_rq q) t 0 q = Some w" "se_vruntime w = v" "sched_rq w = sched_rq q"
    "booting C T (insort_key (\<lambda>x. unat (v x - 100)) (sched_entity t) xs) (Suc k) (b'\<lparr>b_selector := b_selector b' + 8\<rparr>, w)"
    using enqueue_queues [OF q(1) assms(6-8), of i] assms(6,9,10) q(4) unfolding v_def by (auto simp: image_iff)
  have "kernel_task sg k_top stack i eip c t u (b, s) = Some (b'\<lparr>b_selector := b_selector b' + 8\<rparr>, w)"
    using n pid w(1) by (simp add: kernel_task_def q_def)
  then show ?thesis using w q(3) by auto
qed

lemma user_task_body:
  assumes "booting C T xs k (b, s)" "c \<in> C" "t \<in> T" "k < 4" "sched_entity t \<notin> set xs"
  obtains b' q where "booting C T xs (Suc k) (b', q)" "sched_rq q = sched_rq s" "tsk_state q t = TASK_RUNNING"
    "se_vruntime q = (se_vruntime s)(sched_entity t := of_nat i)"
    "user_task sg i eip c t u (b, s) = do { w \<leftarrow> enqueue_task Rr_sched (sched_rq q) t 0 q; Some (b', w) }"
proof (rule task_boots [OF assms, of sg u eip i])
  fix b' s' assume n: "new_task sg t u c (b, s) = Some (b', s')" "length (b_gdt b') = 128"
    and r: "\<And>esp l. let r = ready_task esp eip l i t s' in
       booting C T xs (Suc k) (b'\<lparr>b_selector := b_selector b' + 8\<rparr>, r) \<and> tsk_pid r t = of_nat (Suc k) \<and>
       tsk_state r t = TASK_RUNNING \<and> sched_rq r = sched_rq s \<and>
       se_vruntime r = (se_vruntime s)(sched_entity t := of_nat i)"
  let ?l = "((b_gdt b' ! 1)\<lparr>attr1 := 0xB8\<rparr>, (b_gdt b' ! 2)\<lparr>attr1 := 0xB2\<rparr>)"
  let ?q = "ready_task (u + 8192) eip ?l i t s'"
  have "user_task sg i eip c t u (b, s) =
    do { w \<leftarrow> enqueue_task Rr_sched (sched_rq ?q) t 0 ?q; Some (b'\<lparr>b_selector := b_selector b' + 8\<rparr>, w) }"
    using n by (simp add: user_task_def Let_def)
  then show ?thesis using r [of "u + 8192" ?l] that unfolding Let_def by blast
qed

lemma user_task_queued:
  assumes "booting C T xs k (b, s)" "c \<in> C" "t \<in> T" "k < 4" "sched_entity t \<notin> set xs" "sched_entity t \<noteq> NULL"
    "aligned (sched_entity t)" "i < 2 ^ 31" "of_nat i + 100 \<notin> se_vruntime s ` set xs"
  defines "v \<equiv> (se_vruntime s)(sched_entity t := of_nat i + 100)"
  shows "\<exists>b' s'. user_task sg i eip c t u (b, s) = Some (b', s') \<and> se_vruntime s' = v \<and>
    sched_rq s' = sched_rq s \<and> booting C T (insort_key (\<lambda>x. unat (v x - 100)) (sched_entity t) xs) (Suc k) (b', s')"
proof (rule user_task_body [OF assms(1-5), of i sg eip u])
  fix b' q assume q: "booting C T xs (Suc k) (b', q)" "sched_rq q = sched_rq s"
    "se_vruntime q = (se_vruntime s)(sched_entity t := of_nat i)"
    "user_task sg i eip c t u (b, s) = do { w \<leftarrow> enqueue_task Rr_sched (sched_rq q) t 0 q; Some (b', w) }"
  obtain w where "enqueue_task Rr_sched (sched_rq q) t 0 q = Some w" "se_vruntime w = v" "sched_rq w = sched_rq q"
    "booting C T (insort_key (\<lambda>x. unat (v x - 100)) (sched_entity t) xs) (Suc k) (b', w)"
    using enqueue_queues [OF q(1) assms(5-7), of i] assms(5,8,9) q(3) unfolding v_def by (auto simp: image_iff)
  then show ?thesis using q(2,4) by auto
qed

lemma user_task_refused:
  assumes "booting C T xs k (b, s)" "c \<in> C" "t \<in> T" "k < 4" "sched_entity t \<notin> set xs" "i < 2 ^ 31"
    "of_nat i + 100 \<in> se_vruntime s ` set xs"
  shows "\<exists>b' s'. user_task sg i eip c t u (b, s) = Some (b', s') \<and> sched_rq s' = sched_rq s \<and>
    tsk_state s' t = TASK_RUNNING \<and> booting C T xs (Suc k) (b', s')"
proof (rule user_task_body [OF assms(1-5), of i sg eip u])
  fix b' q assume q: "booting C T xs (Suc k) (b', q)" "sched_rq q = sched_rq s" "tsk_state q t = TASK_RUNNING"
    "se_vruntime q = (se_vruntime s)(sched_entity t := of_nat i)"
    "user_task sg i eip c t u (b, s) = do { w \<leftarrow> enqueue_task Rr_sched (sched_rq q) t 0 q; Some (b', w) }"
  have "of_nat i + 100 \<in> se_vruntime q ` set xs" using assms(5,7) q(4) by (auto simp: image_iff)
  then show ?thesis
    using enqueue_refused [OF q(1) assms(5), of i] assms(6) q by auto
qed

lemma booting_start:
  assumes "names_ok C T (b_mem b)" "length (b_gdt b) = 128" "b_selector b = 0x28"
  shows "booting C T [] 0 (b, init_sched s)" "sched_rq (init_sched s) = sched_rq s"
proof -
  let ?s = "init_sched s"
  have rq: "sched_rq ?s = sched_rq s"
    by (simp add: init_sched_def Let_def set_min_vruntime_def set_root_def INIT_LIST_HEAD_def set_next_def set_prev_def)
  have "rb_root ?s (task_timeline (sched_rq s)) = NULL" "min_vruntime ?s (sched_rq s) = 100" "pidmap ?s = init_pidmap"
    by (simp_all add: init_sched_def Let_def set_min_vruntime_def set_root_def INIT_LIST_HEAD_def set_next_def set_prev_def)
  moreover have "init_pidmap = init_pidmap[0 := mask (Suc 0)]"
    by (simp add: init_pidmap_def)
  moreover have "rb_ok root [] t" if "rb_root t root = NULL" for root and t :: "'a sched_heap_scheme"
    unfolding rb_ok_def using that by (intro exI [of _ Lf]) (simp add: rb_tree_def)
  ultimately show "booting C T [] 0 (b, ?s)" using assms rq by (simp add: booting_def timeline_def)
  show "sched_rq ?s = sched_rq s" by (rule rq)
qed

lemma less_4: "i < (4 :: nat) \<longleftrightarrow> i = 0 \<or> i = 1 \<or> i = 2 \<or> i = 3"
  by auto

lemma span_bounds: "a \<in> span p n \<Longrightarrow> unat p + n \<le> 2 ^ 32 \<Longrightarrow> unat p \<le> unat a \<and> unat a < unat p + n"
  by (auto simp: span_def unat_offset)

lemma name_area_apart:
  assumes "unat p + 32 \<le> unat q" "unat q + 32 \<le> 2 ^ 32"
  shows "name_area q \<inter> name_area p = {}"
proof (rule ccontr)
  assume "name_area q \<inter> name_area p \<noteq> {}"
  then obtain a where "a \<in> span q 32" "a \<in> span p 32" unfolding name_area_def by blast
  then have "unat q \<le> unat a" "unat a < unat p + 32"
    using span_bounds [of a q 32] span_bounds [of a p 32] assms by linarith+
  then show False using assms(1) by linarith
qed

text \<open>
  C28: of the four tasks the start-up code makes, in a state that \<^verbatim>\<open>init_sched\<close> left, only two are in the tree
  of runnable tasks afterwards: the first user task and behind it the second system task. The init
  task is left out on purpose; the second user task has the key of the second system task, so the
  tree refuses it. It is runnable and never runs.
\<close>

theorem second_user_task_lost:
  assumes N: "names_ok (cmd ` {..<4}) (tsk ` {..<4}) (b_mem b)" and b: "length (b_gdt b) = 128" "b_selector b = 0x28"
    and inj: "inj_on tsk {..<4}" and al: "\<forall>i < 4. aligned (sched_entity (tsk i)) \<and> sched_entity (tsk i) \<noteq> NULL"
  shows "\<exists>b' s'. start_four sg k_top stack eip cmd tsk tu (b, init_sched s) = Some (b', s') \<and>
    timeline 100 (task_timeline (sched_rq s)) [sched_entity (tsk 2), sched_entity (tsk 1)] s' \<and>
    tsk_state s' (tsk 3) = TASK_RUNNING \<and> sched_entity (tsk 3) \<notin> {sched_entity (tsk 2), sched_entity (tsk 1)}"
proof -
  let ?C = "cmd ` {..<4}" and ?T = "tsk ` {..<4}" and ?e = "\<lambda>i. sched_entity (tsk i)"
  have mem: "cmd i \<in> ?C" "tsk i \<in> ?T" if "i < 4" for i using that by auto
  have ne: "?e i \<noteq> ?e j" if "i < 4" "j < 4" "i \<noteq> j" for i j
    using inj that by (auto simp: sched_entity_def inj_on_def)
  obtain b1 s1 where 1: "kernel_task sg k_top stack 0 (eip 0) (cmd 0) (tsk 0) (tu 0) (b, init_sched s) = Some (b1, s1)"
    "booting ?C ?T [] 1 (b1, s1)" "sched_rq s1 = sched_rq s"
    using kernel_task_init [OF booting_start(1) [OF N b], of "cmd 0" "tsk 0"] mem [of 0] booting_start(2) [OF N b, of s]
    by fastforce
  obtain b2 s2 where 2: "kernel_task sg k_top (stack - 4192) 1 (eip 1) (cmd 1) (tsk 1) (tu 1) (b1, s1) = Some (b2, s2)"
    "se_vruntime s2 (?e 1) = 101" "sched_rq s2 = sched_rq s" "booting ?C ?T [?e 1] (Suc 1) (b2, s2)"
    using kernel_task_queued [OF 1(2), of "cmd 1" "tsk 1" 1 sg k_top "stack - 4192" "eip 1" "tu 1"] mem [of 1] al 1(3)
    by auto
  obtain b3 s3 where 3: "user_task sg 0 (eip 2) (cmd 2) (tsk 2) (tu 2) (b2, s2) = Some (b3, s3)"
    "se_vruntime s3 (?e 1) = 101" "sched_rq s3 = sched_rq s" "booting ?C ?T [?e 2, ?e 1] (Suc (Suc 1)) (b3, s3)"
    using user_task_queued [OF 2(4), of "cmd 2" "tsk 2" 0 sg "eip 2" "tu 2"] mem [of 2] al 2(2,3) ne [of 2 1]
    by auto
  obtain b4 s4 where 4: "user_task sg 1 (eip 3) (cmd 3) (tsk 3) (tu 3) (b3, s3) = Some (b4, s4)"
    "sched_rq s4 = sched_rq s" "tsk_state s4 (tsk 3) = TASK_RUNNING" "booting ?C ?T [?e 2, ?e 1] (Suc (Suc (Suc 1))) (b4, s4)"
    using user_task_refused [OF 3(4), of "cmd 3" "tsk 3" 1 sg "eip 3" "tu 3"] mem [of 3] 3(2,3) ne [of 3 1] ne [of 3 2]
    by auto
  have "start_four sg k_top stack eip cmd tsk tu (b, init_sched s) = Some (b4, s4)"
    unfolding start_four_def 1(1) Option.bind_lunit 2(1) 3(1) by (rule 4(1))
  then show ?thesis using 4 ne [of 3 1] ne [of 3 2] by (auto simp: booting_def)
qed

lemma example_names: "names_ok (example_cmd ` {..<4}) (example_tsk ` {..<4}) (b_mem example_boot)"
  unfolding names_ok_def
proof (intro conjI ballI)
  fix c assume c: "c \<in> example_cmd ` {..<4}"
  then show "c \<noteq> NULL" by (auto simp: less_4 example_cmd_def)
  have "cstr (b_mem example_boot) c [b_mem example_boot c]"
    using c by (auto simp: less_4 example_cmd_def example_boot_def)
  then show "\<exists>cs. cstr (b_mem example_boot) c cs \<and> length cs < 32"
    by (intro exI [of _ "[b_mem example_boot c]"]) simp
next
  fix t c assume "t \<in> example_tsk ` {..<4}" "c \<in> example_cmd ` {..<4}"
  then show "name_area (t + 392) \<inter> name_area c = {}"
    by (intro name_area_apart) (auto simp: less_4 example_cmd_def example_tsk_def)
qed (auto simp: less_4 example_tsk_def)

theorem second_user_task_lost_witness:
  "\<exists>b' s'. start_four 0 0 0x9000 (\<lambda>_. 0) example_cmd example_tsk (\<lambda>_. 0x20000) (example_boot, init_sched example_sched) = Some (b', s') \<and>
    timeline 100 0x404 [73728 + 656, 69632 + 656] s' \<and> tsk_state s' 77824 = TASK_RUNNING"
proof -
  have "inj_on example_tsk {..<4}" by (auto simp: inj_on_def less_4 example_tsk_def)
  moreover have "\<forall>i < 4. aligned (sched_entity (example_tsk i)) \<and> sched_entity (example_tsk i) \<noteq> NULL"
    by (auto simp: less_4 example_tsk_def sched_entity_def aligned_def)
  ultimately show ?thesis
    using second_user_task_lost [OF example_names, where s = example_sched]
    by (fastforce simp: example_boot_def example_tsk_def sched_entity_def task_timeline_def)
qed

end
