(* ===== verification/Spec2Isabelle.thy ===== *)
theory Spec2Isabelle
  imports Slab_props Process Vma_props Tty_props Fs_file Vsprintf Cfs Route_props Tcp_props Netreg_props Sock_props Start_props
begin

text \<open>
  \<^bold>\<open>A verification library for the prettyos kernel\<close> (C for the i386, under src/).

  \<^bold>\<open>The program.\<close> The boot loader enters the kernel with paging on and physical memory mapped from
  address 0 on. The memory manager (src/mm) finds the free pages, keeps them in lists of blocks of
  \<open>2 ^ order\<close> pages (buddy.c, page_alloc.c) and carves objects out of them (slab.c); page tables,
  swapping, memory maps and the page cache lie above. Tasks are scheduled from a red-black tree
  ordered by virtual run time (sched.c, sched_fair.c, lib/rbtree.c), driven by the clock
  interrupt (clock.c); wait queues, semaphores, timers, fork and signals use it. The file system
  (src/fs) reads sectors through a buffer cache (buffer_head.c) from the disk driver (hd.c), and
  keeps super blocks, bitmaps, inodes, directories and open files. The console, the terminals and
  the keyboard are one task with ring buffers filled by interrupts. The network (src/net, src/drivers/net)
  passes packets between devices (dev.c, eth.c, arp.c), IP (ip.c, route.c) and TCP (tcp.c, af_inet.c);
  it is unfinished: the start-up code has its initialisation commented out, and so are its
  allocations. src/lib holds lists, bit maps, strings and the other helpers everything is built from.

  \<^bold>\<open>How it is modelled.\<close> Every pointer is a 32-bit word, and a struct reached through pointers is
  one total function per field, in a record. A null pointer is followed like any other address,
  because memory at 0 is mapped. The records extend each other along the layers of the code:
  list_heap (Klist), mm_heap (Buddy), pa_heap (Page_alloc), slab_heap (Slab), radix_heap, pgt_heap, mem_heap,
  vma_heap on the side of memory; list_heap, rb_heap (Rbtree), sched_heap (Sched), wait_heap on the
  side of tasks; slab_heap, hd_heap, buf_heap, fs_heap, file_heap for files; terminal and
  keyboard for the terminals; list_heap, timer_heap, net_heap (Skbuff), rt_heap (Route), dev_heap (Netdev),
  sock_heap (Inet_sock), ip_heap (Ip) for the network, and from there tcp_heap (Tcp), which has the tasks
  in a field, and reg_heap (Netreg). A function of the code takes the state and returns the new one.
  \<open>None\<close> is a run without a defined result: an access outside an array, a panic, a division by 0, or a loop that
  does not end; loops that follow pointers are partial functions for this reason, so there is no fuel. Where
  the code uses a variable it never set, the model takes the value as an argument. The disk and the
  operations of devices and protocols, which are function pointers, are arguments of the definitions
  that call them; so are the functions that are called but nowhere defined.

  \<^bold>\<open>The theories.\<close>
  \<^item> Prelude: types, collections of rules, lemmas on lists and words.
  \<^item> Klist (lib/list.c): rings in the heap; the locale \<open>linked_lists\<close> is the interface the page and slab
    lists use. First in, first out; list_num ends with the length; list_get_tail_del is inverted.
  \<^item> Kbitmap (lib/bitmap.c, kernel/pid.c), Kmath (lib/math.c), Kstring (lib/string.c, klibc.c), Vsprintf
    (lib/vsprintf.c, fs/binfmt_elf.c): first free bits and pids, powers, copies, numerals and their
    round trips, what goes wrong with reused buffers.
  \<^item> Buddy (mm/buddy.c), Page_alloc (mm/page_alloc.c): the free lists as sets of frames; allocation
    hands out free frames only, freeing gives back exactly the block, merging keeps the frames.
  \<^item> Slab, Slab_inv, Slab_props (mm/slab.c): slabs as sets of objects; an allocated object is new
    and overlaps with no other; what the size estimate and the free path do wrong.
  \<^item> Rbtree (lib/rbtree.c); Rbtree_rep, Rbtree_insert, Rbtree_erase: red-black trees in the heap with
    parent pointers and packed colours, insertion and deletion for every case of the code;
    Rbtree_props: the locale \<open>ordered_nodes\<close>, its interpretation and the properties.
  \<^item> Sched (kernel/sched.c, sched_fair.c, clock.c, exit.c); Timeline: the tree as a sorted list in a window
    of the wrapping counter; Cfs: the invariant of the run queue, the choice of the next task, no
    starvation over many clock interrupts, and the tasks the code loses.
  \<^item> Wait, Timer, Process (kernel/wait.c, timer.c, fork.c, signal.c, traps.c, proc.c): models.
  \<^item> Start (init/main.c, init_trap in kernel/traps.c): the first tasks and the interrupt gates; Start_props:
    which of the four tasks are queued.
  \<^item> Radix_tree, Bytes, Pgtable, Memory (lib/radix-tree.c, mm/pgtable.c, swap.c, memory.c, filemap.c,
    kmalloc.c): models.
  \<^item> Vma_avl, Mmap (mm/mmap.c); Vma_props: insertion and deletion keep the AVL tree of memory areas,
    find_vma is the linear search.
  \<^item> Console, Keyboard (kernel/console.c, tty.c, keyboard.c); Tty_props: the ring buffers as bounded
    queues (locale \<open>bounded_queue\<close>, interpreted twice), the invariant of all reachable states with
    interrupts at any moment, the tab that hangs the terminal task.
  \<^item> Hd, Buffer, Fs_inode, Namei, Fs_file (kernel/hd.c and src/fs): models.
  \<^item> Skbuff (net/inet/skbuff.c): queues of packets as rings; Route (net/inet/route.c), Route_props: the table
    as a finite map from networks to gateways, adding an entry, the longest match.
  \<^item> Netdev (net/inet/devinet.c, arp.c, the queues of dev.c, net/eth.c), Inet_sock (af_inet.c, protocol.c),
    Ip (ip.c), Tcp (tcp.c): models; Sock_props: the port numbers handed out are free; Tcp_props:
    which connection is accepted.
  \<^item> Netreg (the rest of dev.c, notifier.h, net/socket.c, drivers/net); Netreg_props: the locales \<open>links\<close> and
    \<open>link_removal\<close> for lists changed through pointers to links, interpreted on packet types,
    notifiers and devices; the order of notifiers and the circle that an uninitialised variable can make
    of them, registering and unregistering, the masks that are accepted, and the two functions that
    never return. Net_example: the state of the witnesses.

  \<^bold>\<open>Bounds.\<close> The stack of the AVL code holds 41 places; the theorems on it are for trees of height
  up to 41, which is all the code can walk. Virtual run times are compared in a window of \<open>2 ^ 31\<close>, and the
  invariant of the scheduler keeps them there.

  \<^bold>\<open>Not modelled.\<close> The assembly files (boot loader, interrupt entry, port instructions), which have no C
  semantics; start_kernel, which calls the initialisers of all components one after the other, and cstart,
  which copies the descriptor table; the interrupt controller, which is output to ports; the table of
  system calls; printing on the screen for messages; the functions of src/net
  that are empty or return a constant (computing checksums, options, ioctl, udp.c and raw.c), and the static structures
  of src/drivers, whose function pointers are arguments of the model.
\<close>

end
